(* ===== verification/Prelude.thy ===== *)
theory Prelude
  imports Main "HOL-Library.Char_ord" "HOL-Library.List_Lexorder" "HOL-Library.Sublist"
begin

text \<open>
  Shared vocabulary of the development.  The backend is TypeScript over relational tables;
  the theories below model it as follows.
  \<^item> A table is a list of records in insertion order.  \<open>update_where\<close> is a guarded
    \<^verbatim>\<open>updateMany\<close>, \<open>count_where\<close> the row count it reports, \<open>List.find\<close> a
    \<^verbatim>\<open>findUnique\<close>/\<^verbatim>\<open>findFirst\<close>, and \<open>filter\<close> followed by a stable
    \<open>sort_key\<close> a \<^verbatim>\<open>findMany\<close> with \<^verbatim>\<open>orderBy\<close>.
  \<^item> A computation that can throw returns \<open>'e + 'a\<close>; \<open>bindE\<close> sequences two of them and
    \<open>foldE\<close> is a \<^verbatim>\<open>for .. of\<close> loop whose body may throw.
  \<^item> A JavaScript \<^verbatim>\<open>Map\<close> is an association list with distinct keys in insertion order
    (\<open>map_set\<close>, \<open>map_get\<close>), a \<^verbatim>\<open>Set\<close> a distinct list (\<open>set_add\<close>).
\<close>

type_synonym ident = string
type_synonym time = int

text \<open>Errors the database client throws.\<close>

datatype db_error = UniqueViolation | RecordNotFound | ValueTooLong

text \<open>A JavaScript number as far as \<^verbatim>\<open>Number.isInteger\<close> tells: an integer, or a fraction,
  \<^verbatim>\<open>NaN\<close> or infinity.\<close>

datatype js_num = Int_num int | Non_integer

named_theorems table_simps \<open>facts on the table operations\<close>
named_theorems inv_intros \<open>preservation of component invariants\<close>


section \<open>Computations that may throw\<close>

fun bindE :: "'e + 'a \<Rightarrow> ('a \<Rightarrow> 'e + 'b) \<Rightarrow> 'e + 'b" where
  "bindE (Inl e) f = Inl e"
| "bindE (Inr a) f = f a"

fun foldE :: "('s \<Rightarrow> 'x \<Rightarrow> 'e + 's) \<Rightarrow> 's \<Rightarrow> 'x list \<Rightarrow> 'e + 's" where
  "foldE f s [] = Inr s"
| "foldE f s (x # xs) = bindE (f s x) (\<lambda>s'. foldE f s' xs)"

definition guardE :: "bool \<Rightarrow> 'e \<Rightarrow> 'e + unit" where
  "guardE b e = (if b then Inr () else Inl e)"

fun option_to_res :: "'e \<Rightarrow> 'a option \<Rightarrow> 'e + 'a" where
  "option_to_res e None = Inl e"
| "option_to_res e (Some a) = Inr a"


section \<open>Tables\<close>

definition update_where :: "('r \<Rightarrow> bool) \<Rightarrow> ('r \<Rightarrow> 'r) \<Rightarrow> 'r list \<Rightarrow> 'r list" where
  "update_where P f rows = map (\<lambda>r. if P r then f r else r) rows"

definition count_where :: "('r \<Rightarrow> bool) \<Rightarrow> 'r list \<Rightarrow> nat" where
  "count_where P rows = length (filter P rows)"

text \<open>The sum of a column over the rows that satisfy a condition (SQL \<^verbatim>\<open>SUM\<close>, 0 for no row).\<close>

definition sum_where :: "('r \<Rightarrow> bool) \<Rightarrow> ('r \<Rightarrow> int) \<Rightarrow> 'r list \<Rightarrow> int" where
  "sum_where P f rows = sum_list (map f (filter P rows))"


section \<open>JavaScript Map and Set\<close>

fun map_set :: "'k \<Rightarrow> 'v \<Rightarrow> ('k \<times> 'v) list \<Rightarrow> ('k \<times> 'v) list" where
  "map_set k v [] = [(k, v)]"
| "map_set k v ((k', v') # m) = (if k = k' then (k', v) # m else (k', v') # map_set k v m)"

definition map_get :: "('k \<times> 'v) list \<Rightarrow> 'k \<Rightarrow> 'v option" where
  "map_get m k = map_of m k"

definition set_add :: "'a \<Rightarrow> 'a list \<Rightarrow> 'a list" where
  "set_add x xs = (if x \<in> set xs then xs else xs @ [x])"

text \<open>\<^verbatim>\<open>Array.prototype.sort\<close> with a comparator: stable insertion.\<close>

fun insert_by :: "('a \<Rightarrow> 'a \<Rightarrow> int) \<Rightarrow> 'a \<Rightarrow> 'a list \<Rightarrow> 'a list" where
  "insert_by cmp x [] = [x]"
| "insert_by cmp x (y # ys) = (if cmp x y \<le> 0 then x # y # ys else y # insert_by cmp x ys)"

definition sort_by :: "('a \<Rightarrow> 'a \<Rightarrow> int) \<Rightarrow> 'a list \<Rightarrow> 'a list" where
  "sort_by cmp xs = foldr (insert_by cmp) xs []"


section \<open>Strings\<close>

text \<open>The decimal digits of a number, as in a template string.\<close>

fun show_nat :: "nat \<Rightarrow> string" where
  "show_nat n = (if n < 10 then [char_of (48 + n)] else show_nat (n div 10) @ [char_of (48 + n mod 10)])"

declare show_nat.simps [simp del]

text \<open>\<^verbatim>\<open>String.prototype.trim\<close> on the blanks the model's strings can hold.\<close>

definition is_blank :: "char \<Rightarrow> bool" where
  "is_blank c = (of_char c \<in> {9, 10, 11, 12, 13, 32 :: nat})"

definition trim_left :: "string \<Rightarrow> string" where
  "trim_left s = dropWhile is_blank s"

definition trim :: "string \<Rightarrow> string" where
  "trim s = rev (trim_left (rev (trim_left s)))"


section \<open>Lemmas\<close>

lemma bindE_Inr_iff [simp]:
  "bindE m f = Inr y \<longleftrightarrow> (\<exists>x. m = Inr x \<and> f x = Inr y)"
  by (cases m) auto

lemma bindE_Inl_iff:
  "bindE m f = Inl e \<longleftrightarrow> m = Inl e \<or> (\<exists>x. m = Inr x \<and> f x = Inl e)"
  by (cases m) auto

lemma guardE_Inr [simp]: "guardE b e = Inr u \<longleftrightarrow> b"
  by (simp add: guardE_def)

lemma guardE_Inl [simp]: "guardE b e = Inl e' \<longleftrightarrow> \<not> b \<and> e' = e"
  by (auto simp: guardE_def)

lemma option_to_res_Inr [simp]: "option_to_res e x = Inr a \<longleftrightarrow> x = Some a"
  by (cases x) auto

text \<open>The invariant rule of a loop that may throw.\<close>

lemma foldE_invariant:
  assumes "foldE f s xs = Inr s'" and "I s"
    and "\<And>s x s'. x \<in> set xs \<Longrightarrow> I s \<Longrightarrow> f s x = Inr s' \<Longrightarrow> I s'"
  shows "I s'"
  using assms by (induction xs arbitrary: s) auto

text \<open>A preorder kept by every iteration relates the first and the last state.\<close>

lemma foldE_rel:
  assumes "foldE f s xs = Inr s'" and "\<And>s. R s s"
    and "\<And>a b c. R a b \<Longrightarrow> R b c \<Longrightarrow> R a c"
    and "\<And>s x s'. x \<in> set xs \<Longrightarrow> f s x = Inr s' \<Longrightarrow> R s s'"
  shows "R s s'"
  using assms(1,4)
proof (induction xs arbitrary: s)
  case Nil
  then show ?case using assms(2) by simp
next
  case (Cons x xs)
  then obtain t where t: "f s x = Inr t" "foldE f t xs = Inr s'" by auto
  have "R s t" using Cons.prems(2) [of x s t] t(1) by simp
  moreover have "R t s'" using Cons.IH [OF t(2)] Cons.prems(2) by (metis list.set_intros(2))
  ultimately show ?case by (rule assms(3))
qed

lemma foldE_append:
  "foldE f s (xs @ ys) = bindE (foldE f s xs) (\<lambda>s'. foldE f s' ys)"
proof (induction xs arbitrary: s)
  case (Cons x xs)
  then show ?case by (cases "f s x") auto
qed simp

lemma length_update_where [table_simps]: "length (update_where P f xs) = length xs"
  by (simp add: update_where_def)

lemma map_update_where [table_simps]:
  "(\<And>r. P r \<Longrightarrow> g (f r) = g r) \<Longrightarrow> map g (update_where P f xs) = map g xs"
  by (simp add: update_where_def)

lemma set_update_where:
  "set (update_where P f xs) = (\<lambda>r. if P r then f r else r) ` set xs"
  by (simp add: update_where_def)

lemma update_where_append [table_simps]:
  "update_where P f (xs @ ys) = update_where P f xs @ update_where P f ys"
  by (simp add: update_where_def)

lemma update_where_Cons [table_simps]:
  "update_where P f (x # xs) = (if P x then f x else x) # update_where P f xs"
  by (simp add: update_where_def)

lemma update_where_Nil [table_simps]: "update_where P f [] = []"
  by (simp add: update_where_def)

lemma update_where_none: "\<forall>r\<in>set xs. \<not> P r \<Longrightarrow> update_where P f xs = xs"
  by (induction xs) (auto simp: table_simps)

lemma sum_where_Nil [table_simps]: "sum_where P f [] = 0"
  by (simp add: sum_where_def)

lemma sum_where_Cons [table_simps]:
  "sum_where P f (x # xs) = (if P x then f x else 0) + sum_where P f xs"
  by (simp add: sum_where_def)

lemma sum_where_append [table_simps]:
  "sum_where P f (xs @ ys) = sum_where P f xs + sum_where P f ys"
  by (simp add: sum_where_def)

lemma sum_where_none: "\<forall>r\<in>set xs. P r \<longrightarrow> f r = 0 \<Longrightarrow> sum_where P f xs = 0"
  by (induction xs) (auto simp: table_simps)

lemma sum_where_cong:
  "(\<And>r. r \<in> set xs \<Longrightarrow> P r = Q r) \<Longrightarrow> (\<And>r. r \<in> set xs \<Longrightarrow> Q r \<Longrightarrow> f r = g r) \<Longrightarrow>
   sum_where P f xs = sum_where Q g xs"
  by (induction xs) (auto simp: table_simps)

lemma sum_where_nonneg:
  "(\<And>r. r \<in> set xs \<Longrightarrow> P r \<Longrightarrow> 0 \<le> f r) \<Longrightarrow> 0 \<le> sum_where P f xs"
  by (induction xs) (force simp: table_simps)+

lemma sum_where_member_le:
  assumes "x \<in> set xs" "P x" "\<And>r. r \<in> set xs \<Longrightarrow> P r \<Longrightarrow> 0 \<le> f r"
  shows "f x \<le> sum_where P f xs"
  using assms
proof (induction xs)
  case (Cons y ys)
  have tail: "0 \<le> sum_where P f ys"
    using Cons.prems(3) by (intro sum_where_nonneg) auto
  show ?case
  proof (cases "x = y")
    case True
    with Cons.prems(2) tail show ?thesis by (simp add: table_simps)
  next
    case False
    then have "f x \<le> sum_where P f ys" using Cons by auto
    moreover have "P y \<Longrightarrow> 0 \<le> f y" using Cons.prems(3) by simp
    ultimately show ?thesis by (auto simp: table_simps)
  qed
qed simp

text \<open>
  Updating the one row with a given key changes a column sum by the difference of that
  row's contributions.  This is the lemma behind every accounting proof.
\<close>

lemma sum_where_update_key:
  assumes "distinct (map key xs)" "x \<in> set xs"
  shows "sum_where P f (update_where (\<lambda>r. key r = key x) g xs)
       = sum_where P f xs - (if P x then f x else 0) + (if P (g x) then f (g x) else 0)"
  using assms
proof (induction xs)
  case (Cons y ys)
  show ?case
  proof (cases "x = y")
    case True
    with Cons.prems(1) have "\<forall>r\<in>set ys. key r \<noteq> key x" by (auto simp: image_iff)
    then have "update_where (\<lambda>r. key r = key x) g ys = ys" by (rule update_where_none)
    with True show ?thesis by (simp add: table_simps)
  next
    case False
    with Cons.prems have "x \<in> set ys" "key y \<noteq> key x" by force+
    with Cons show ?thesis by (simp add: table_simps)
  qed
qed simp

lemma sum_where_empty: "\<forall>r\<in>set xs. \<not> P r \<Longrightarrow> sum_where P f xs = 0"
  by (rule sum_where_none) simp

lemma sum_where_unique_key:
  assumes "distinct (map key xs)" "x \<in> set xs"
  shows "sum_where (\<lambda>r. key r = key x) f xs = f x"
  using assms
proof (induction xs)
  case (Cons y ys)
  show ?case
  proof (cases "x = y")
    case True
    with Cons.prems(1) have "\<forall>r\<in>set ys. key r \<noteq> key x" by (auto simp: image_iff)
    then have "sum_where (\<lambda>r. key r = key x) f ys = 0" by (rule sum_where_empty)
    with True show ?thesis by (simp add: table_simps)
  next
    case False
    with Cons.prems have "x \<in> set ys" "key y \<noteq> key x" by (auto simp: image_iff)
    with Cons show ?thesis by (simp add: table_simps)
  qed
qed simp

text \<open>
  A guarded \<^verbatim>\<open>updateMany\<close> on a unique key that reports one row found exactly the row with that
  key, and the row satisfied the guard.
\<close>

lemma guarded_update:
  assumes "distinct (map key xs)" "count_where (\<lambda>r. key r = k \<and> P r) xs = 1"
  obtains x where "x \<in> set xs" "key x = k" "P x"
    "\<And>f. update_where (\<lambda>r. key r = k \<and> P r) f xs = update_where (\<lambda>r. key r = key x) f xs"
proof -
  from assms(2) have "filter (\<lambda>r. key r = k \<and> P r) xs \<noteq> []"
    by (auto simp: count_where_def)
  then obtain x where x: "x \<in> set xs" "key x = k" "P x"
    by (auto simp: filter_empty_conv)
  have "r = x" if "r \<in> set xs" "key r = k" for r
    using assms(1) x(1,2) that by (auto simp: distinct_map dest: inj_onD)
  then have "update_where (\<lambda>r. key r = k \<and> P r) f xs = update_where (\<lambda>r. key r = key x) f xs"
    for f
    using x(2,3) by (auto simp: update_where_def)
  with x show thesis by (rule that)
qed

lemma find_Some_iff_mem:
  "List.find P xs = Some x \<Longrightarrow> x \<in> set xs \<and> P x"
  by (induction xs) (auto split: if_splits)

lemma find_None_all: "List.find P xs = None \<longleftrightarrow> (\<forall>x\<in>set xs. \<not> P x)"
  by (induction xs) auto

lemma find_distinct_key:
  "distinct (map key xs) \<Longrightarrow> x \<in> set xs \<Longrightarrow> List.find (\<lambda>r. key r = key x) xs = Some x"
  by (induction xs) force+

lemma count_where_distinct_key:
  assumes "distinct (map key xs)"
  shows "count_where (\<lambda>r. key r = k \<and> P r) xs
       = (case List.find (\<lambda>r. key r = k) xs of None \<Rightarrow> 0 | Some r \<Rightarrow> if P r then 1 else 0)"
  using assms
proof (induction xs)
  case (Cons y ys)
  show ?case
  proof (cases "key y = k")
    case True
    with Cons.prems have "\<forall>r\<in>set ys. key r \<noteq> k" by (auto simp: image_iff)
    then have "filter (\<lambda>r. key r = k \<and> P r) ys = []" by (auto simp: filter_empty_conv)
    with True show ?thesis by (simp add: count_where_def)
  next
    case False
    with Cons show ?thesis by (simp add: count_where_def)
  qed
qed (simp add: count_where_def)

lemma count_where_unique:
  assumes "distinct (map key xs)" "x \<in> set xs" "key x = k" "P x"
  shows "count_where (\<lambda>r. key r = k \<and> P r) xs = 1"
  using assms find_distinct_key [OF assms(1,2)]
  by (auto simp: count_where_distinct_key [OF assms(1)])

lemma map_get_set: "map_get (map_set k v m) k' = (if k' = k then Some v else map_get m k')"
  by (induction m) (auto simp: map_get_def)

lemma keys_map_set: "fst ` set (map_set k v m) = insert k (fst ` set m)"
proof (induction m)
  case (Cons a m)
  show ?case by (cases a) (simp add: Cons.IH insert_commute)
qed simp

lemma distinct_map_set: "distinct (map fst m) \<Longrightarrow> distinct (map fst (map_set k v m))"
proof (induction m)
  case (Cons a m)
  obtain k' v' where a: "a = (k', v')" by (cases a)
  from Cons.prems a have "k' \<notin> fst ` set m" by simp
  with Cons a show ?case by (simp add: keys_map_set)
qed simp

lemma set_set_add [simp]: "set (set_add x xs) = insert x (set xs)"
  by (auto simp: set_add_def)

lemma distinct_set_add [simp]: "distinct (set_add x xs) = distinct xs"
  by (auto simp: set_add_def)

lemma set_trim_subset: "set (trim s) \<subseteq> set s"
proof -
  have "set (trim_left t) \<subseteq> set t" for t
    by (auto simp: trim_left_def dest: set_dropWhileD)
  from this [of s] this [of "rev (trim_left s)"] show ?thesis
    by (auto simp: trim_def)
qed



section \<open>Transactional components\<close>

text \<open>
  A component whose operations run as transactions: a failing operation leaves the state as it
  was.  \<open>committed\<close> is the state after one transaction, \<open>history\<close> the states a sequence of
  transactions goes through.
\<close>

definition committed :: "('op \<Rightarrow> 's \<Rightarrow> 'e + 's) \<Rightarrow> 's \<Rightarrow> 'op \<Rightarrow> 's" where
  "committed run s op = (case run op s of Inl _ \<Rightarrow> s | Inr s' \<Rightarrow> s')"

inductive history :: "('op \<Rightarrow> 's \<Rightarrow> 'e + 's) \<Rightarrow> ('op \<Rightarrow> bool) \<Rightarrow> 's \<Rightarrow> 's \<Rightarrow> bool"
  for run valid s where
  start: "history run valid s s"
| step: "history run valid s t \<Longrightarrow> valid op \<Longrightarrow> history run valid s (committed run t op)"

locale transactional =
  fixes invar :: "'s \<Rightarrow> bool" and run :: "'op \<Rightarrow> 's \<Rightarrow> 'e + 's" and valid :: "'op \<Rightarrow> bool"
  assumes run_invar: "invar s \<Longrightarrow> valid op \<Longrightarrow> run op s = Inr s' \<Longrightarrow> invar s'"
begin

lemma committed_invar: "invar s \<Longrightarrow> valid op \<Longrightarrow> invar (committed run s op)"
  using run_invar by (auto simp: committed_def split: sum.splits)

lemma history_invar: "history run valid s t \<Longrightarrow> invar s \<Longrightarrow> invar t"
  by (induction rule: history.induct) (auto intro: committed_invar)

lemma committed_sequence_invar: "invar s \<Longrightarrow> list_all valid ops \<Longrightarrow> invar (foldl (committed run) s ops)"
  by (induction ops arbitrary: s) (auto intro: committed_invar)

end

lemma history_sequence:
  "list_all valid ops \<Longrightarrow> history run valid s (foldl (committed run) s ops)"
proof (induction ops rule: rev_induct)
  case Nil
  show ?case by (simp add: history.start)
next
  case (snoc op ops)
  then show ?case by (auto intro: history.step)
qed

end
