(* ===== verification/Inventory_Schema.thy ===== *)
theory Inventory_Schema
  imports Prelude "HOL-Library.Product_Lexorder"
begin

text \<open>
  The tables of the internal inventory (\<^verbatim>\<open>prisma/schema/inventory.prisma\<close>,
  \<^verbatim>\<open>src/modules/inventory/inventory.constants.ts\<close>) and the queries every inventory
  operation is made of.  A row keeps the columns the code reads in a condition, writes or
  returns.  Timestamps are integers; the value of \<^verbatim>\<open>new Date()\<close> and the database's
  identifier generator are arguments of the operations.  A write that breaks a unique index or
  updates a missing row raises \<open>UniqueViolation\<close> or \<open>RecordNotFound\<close>, the two client errors the
  operations can meet.  Columns of type \<^verbatim>\<open>Int\<close> are unbounded here: a write outside the
  32-bit range makes the database raise and the whole transaction disappear.
\<close>

datatype warehouse_status = W_ACTIVE | W_DISABLED

datatype movement_type = RECEIPT | WRITE_OFF | ADJUSTMENT | SALE | RESERVE | RELEASE

datatype movement_source = CART | MANUAL | ORDER | SYSTEM

datatype reservation_status = R_ACTIVE | R_RELEASED | R_CONSUMED | R_EXPIRED | R_CANCELLED

record warehouse =
  w_id :: ident
  w_name :: string
  w_code :: string
  w_status :: warehouse_status
  w_address :: "string option"
  w_owner :: "ident option"
  w_deleteAt :: "time option"

record warehouse_catalog =
  wc_warehouseId :: ident
  wc_catalogId :: ident
  wc_isDefault :: bool
  wc_createdAt :: time

record balance =
  b_warehouseId :: ident
  b_variantId :: ident
  quantityOnHand :: int
  quantityReserved :: int
  quantityAvailable :: int
  lastMovementAt :: "time option"

record movement =
  m_id :: ident
  m_warehouseId :: ident
  m_variantId :: ident
  m_type :: movement_type
  m_source :: movement_source
  quantityDelta :: int
  quantityAfter :: "int option"
  m_reservationId :: "ident option"
  m_orderId :: "ident option"
  m_cartId :: "ident option"
  m_actorUserId :: "ident option"
  m_reason :: "string option"
  m_key :: "string option"

record reservation =
  r_id :: ident
  r_warehouseId :: ident
  r_variantId :: ident
  r_quantity :: int
  r_status :: reservation_status
  r_cartId :: "ident option"
  r_cartItemId :: "ident option"
  r_orderId :: "ident option"
  r_expiresAt :: "time option"
  r_consumedAt :: "time option"
  r_releasedAt :: "time option"
  r_key :: "string option"
  r_createdAt :: time

record variant =
  v_id :: ident
  v_productId :: ident
  v_stock :: "int option"
  v_deleteAt :: "time option"

record product =
  p_id :: ident
  p_catalogId :: ident
  p_deleteAt :: "time option"

record inv_db =
  warehouses :: "warehouse list"
  warehouse_catalogs :: "warehouse_catalog list"
  balances :: "balance list"
  movements :: "movement list"
  reservations :: "reservation list"
  variants :: "variant list"
  products :: "product list"

datatype reject_reason =
    WAREHOUSE_NOT_FOUND
  | WAREHOUSE_DISABLED
  | WAREHOUSE_AMBIGUOUS
  | VARIANT_NOT_FOUND
  | MISSING_VARIANT
  | INSUFFICIENT_STOCK

text \<open>
  An operation either throws a database error or returns \<^verbatim>\<open>ok: false\<close> with a reason and the
  offending variant.  In both cases its caller leaves the transaction by an exception, so the
  tables keep the state they had before the operation.
\<close>

datatype inv_error =
    DbError db_error
  | Rejected reject_reason "ident option"

record stock_change =
  sc_catalogId :: "ident option"
  sc_variantId :: ident
  sc_productId :: "ident option"
  previousStock :: "int option"
  nextStock :: int
  changed :: bool

record line =
  l_cartItemId :: ident
  l_productId :: ident
  l_variantId :: "ident option"
  l_quantity :: int

type_synonym idgen = "ident list \<Rightarrow> ident"


section \<open>Queries\<close>

definition b_key :: "balance \<Rightarrow> ident \<times> ident" where
  "b_key b = (b_warehouseId b, b_variantId b)"

definition r_at :: "reservation \<Rightarrow> ident \<times> ident" where
  "r_at r = (r_warehouseId r, r_variantId r)"

definition m_at :: "movement \<Rightarrow> ident \<times> ident" where
  "m_at m = (m_warehouseId m, m_variantId m)"

definition wc_key :: "warehouse_catalog \<Rightarrow> ident \<times> ident" where
  "wc_key l = (wc_warehouseId l, wc_catalogId l)"

definition warehouse_by_id :: "inv_db \<Rightarrow> ident \<Rightarrow> warehouse option" where
  "warehouse_by_id db wid = List.find (\<lambda>w. w_id w = wid) (warehouses db)"

definition warehouse_live :: "inv_db \<Rightarrow> ident \<Rightarrow> bool" where
  "warehouse_live db wid =
     (case warehouse_by_id db wid of None \<Rightarrow> False | Some w \<Rightarrow> w_deleteAt w = None)"

definition warehouse_active :: "inv_db \<Rightarrow> ident \<Rightarrow> bool" where
  "warehouse_active db wid =
     (case warehouse_by_id db wid of
        None \<Rightarrow> False
      | Some w \<Rightarrow> w_deleteAt w = None \<and> w_status w = W_ACTIVE)"

definition warehouse_link :: "inv_db \<Rightarrow> ident \<Rightarrow> ident \<Rightarrow> warehouse_catalog option" where
  "warehouse_link db wid cid = List.find (\<lambda>l. wc_key l = (wid, cid)) (warehouse_catalogs db)"

definition balance_at :: "inv_db \<Rightarrow> ident \<Rightarrow> ident \<Rightarrow> balance option" where
  "balance_at db wid vid = List.find (\<lambda>b. b_key b = (wid, vid)) (balances db)"

definition product_by_id :: "inv_db \<Rightarrow> ident \<Rightarrow> product option" where
  "product_by_id db pid = List.find (\<lambda>p. p_id p = pid) (products db)"

definition variant_by_id :: "inv_db \<Rightarrow> ident \<Rightarrow> variant option" where
  "variant_by_id db vid = List.find (\<lambda>v. v_id v = vid) (variants db)"

text \<open>A live variant of a live product of the catalog.\<close>

definition variant_in_catalog :: "inv_db \<Rightarrow> ident \<Rightarrow> ident \<Rightarrow> bool" where
  "variant_in_catalog db cid vid =
     (\<exists>v\<in>set (variants db). v_id v = vid \<and> v_deleteAt v = None \<and>
        (case product_by_id db (v_productId v) of
           None \<Rightarrow> False
         | Some p \<Rightarrow> p_catalogId p = cid \<and> p_deleteAt p = None))"

definition variant_catalog :: "inv_db \<Rightarrow> ident \<Rightarrow> ident option" where
  "variant_catalog db vid =
     Option.bind (variant_by_id db vid)
       (\<lambda>v. map_option p_catalogId (product_by_id db (v_productId v)))"

definition create_movement :: "idgen \<Rightarrow> movement \<Rightarrow> inv_db \<Rightarrow> inv_error + (movement \<times> inv_db)" where
  "create_movement gen m db =
     (let i = gen (map m_id (movements db)); row = m\<lparr>m_id := i\<rparr> in
      if i \<in> set (map m_id (movements db)) \<or>
         (m_key m \<noteq> None \<and> m_key m \<in> set (map m_key (movements db)))
      then Inl (DbError UniqueViolation)
      else Inr (row, db\<lparr>movements := movements db @ [row]\<rparr>))"

definition create_reservation ::
    "idgen \<Rightarrow> reservation \<Rightarrow> inv_db \<Rightarrow> inv_error + (ident \<times> inv_db)" where
  "create_reservation gen r db =
     (let i = gen (map r_id (reservations db)) in
      if i \<in> set (map r_id (reservations db)) \<or>
         (r_key r \<noteq> None \<and> r_key r \<in> set (map r_key (reservations db)))
      then Inl (DbError UniqueViolation)
      else Inr (i, db\<lparr>reservations := reservations db @ [r\<lparr>r_id := i\<rparr>]\<rparr>))"

definition update_reservation ::
    "ident \<Rightarrow> (reservation \<Rightarrow> reservation) \<Rightarrow> inv_db \<Rightarrow> inv_error + inv_db" where
  "update_reservation i f db =
     (if i \<notin> set (map r_id (reservations db)) then Inl (DbError RecordNotFound)
      else Inr (db\<lparr>reservations := update_where (\<lambda>r. r_id r = i) f (reservations db)\<rparr>))"

definition new_movement :: "ident \<Rightarrow> ident \<Rightarrow> movement_type \<Rightarrow> movement_source \<Rightarrow> movement" where
  "new_movement wid vid t s =
     \<lparr>m_id = [], m_warehouseId = wid, m_variantId = vid, m_type = t, m_source = s,
      quantityDelta = 0, quantityAfter = None, m_reservationId = None, m_orderId = None,
      m_cartId = None, m_actorUserId = None, m_reason = None, m_key = None\<rparr>"


section \<open>Accounting columns\<close>

text \<open>Sums over the tables for one warehouse and variant, used by the invariants.\<close>

definition onhand_sum :: "inv_db \<Rightarrow> ident \<times> ident \<Rightarrow> int" where
  "onhand_sum db k = sum_where (\<lambda>b. b_key b = k) quantityOnHand (balances db)"

definition variant_onhand :: "inv_db \<Rightarrow> ident \<Rightarrow> int" where
  "variant_onhand db v = sum_where (\<lambda>b. b_variantId b = v) quantityOnHand (balances db)"

definition reserved_sum :: "inv_db \<Rightarrow> ident \<times> ident \<Rightarrow> int" where
  "reserved_sum db k = sum_where (\<lambda>b. b_key b = k) quantityReserved (balances db)"

definition active_sum :: "inv_db \<Rightarrow> ident \<times> ident \<Rightarrow> int" where
  "active_sum db k =
     sum_where (\<lambda>r. r_status r = R_ACTIVE \<and> r_at r = k) r_quantity (reservations db)"

definition ledger_sum :: "inv_db \<Rightarrow> ident \<times> ident \<Rightarrow> int" where
  "ledger_sum db k = sum_where (\<lambda>m. m_at m = k) quantityDelta (movements db)"


section \<open>Elementary facts\<close>

lemma balance_at_Some:
  "balance_at db w v = Some b \<Longrightarrow> b \<in> set (balances db) \<and> b_key b = (w, v)"
  unfolding balance_at_def by (drule find_Some_iff_mem) simp

lemma create_movement_Inr:
  assumes "create_movement gen m db = Inr (row, db')"
  shows "db' = db\<lparr>movements := movements db @ [row]\<rparr>" "m_at row = m_at m"
    "quantityDelta row = quantityDelta m" "m_key row = m_key m"
    "distinct (map m_id (movements db)) \<Longrightarrow> distinct (map m_id (movements db'))"
  using assms by (auto simp: create_movement_def Let_def m_at_def split: if_splits)

lemma create_reservation_Inr:
  assumes "create_reservation gen r db = Inr (i, db')"
  shows "db' = db\<lparr>reservations := reservations db @ [r\<lparr>r_id := i\<rparr>]\<rparr>"
    "i \<notin> set (map r_id (reservations db))"
  using assms by (auto simp: create_reservation_def Let_def split: if_splits)

lemma update_reservation_Inr:
  assumes "update_reservation i f db = Inr db'"
  shows "db' = db\<lparr>reservations := update_where (\<lambda>r. r_id r = i) f (reservations db)\<rparr>"
    "\<exists>r\<in>set (reservations db). r_id r = i"
  using assms by (auto simp: update_reservation_def split: if_splits)

end
