(* ===== verification/Inventory_Repository.thy ===== *)
theory Inventory_Repository
  imports Inventory_Schema
begin

text \<open>
  The stock operations of \<^verbatim>\<open>src/modules/inventory/inventory.repository.ts\<close>: manual
  adjustment, cart reservation, release, expiry, and consumption by a completed order.  Each
  operation takes the tables and returns the new tables or an error; the loops of the source are
  \<open>foldE\<close> over the same lists in the same order.
\<close>

section \<open>The stock read model\<close>

definition available_total :: "inv_db \<Rightarrow> ident \<Rightarrow> int" where
  "available_total db vid =
     sum_where (\<lambda>b. b_variantId b = vid \<and> warehouse_active db (b_warehouseId b))
       quantityAvailable (balances db)"

definition syncVariantStockReadModel ::
    "ident \<Rightarrow> inv_db \<Rightarrow> inv_error + (stock_change \<times> inv_db)" where
  "syncVariantStockReadModel vid db =
     (let variant = variant_by_id db vid;
          variantStock = max 0 (available_total db vid);
          previous = Option.bind variant v_stock
      in if variant = None then Inl (DbError RecordNotFound)
         else Inr (\<lparr>sc_catalogId = None, sc_variantId = vid,
                    sc_productId = map_option v_productId variant,
                    previousStock = previous, nextStock = variantStock,
                    changed = (previous \<noteq> Some variantStock)\<rparr>,
                   db\<lparr>variants := update_where (\<lambda>v. v_id v = vid)
                        (\<lambda>v. v\<lparr>v_stock := Some variantStock\<rparr>) (variants db)\<rparr>))"

definition compact_step :: "(ident \<times> stock_change) list \<Rightarrow> stock_change \<Rightarrow> (ident \<times> stock_change) list"
  where
  "compact_step m c =
     (if \<not> changed c then m
      else case map_get m (sc_variantId c) of
        None \<Rightarrow> map_set (sc_variantId c) c m
      | Some existing \<Rightarrow>
          map_set (sc_variantId c)
            (c\<lparr>previousStock := previousStock existing,
               changed := (previousStock existing \<noteq> Some (nextStock c))\<rparr>) m)"

definition compactStockChanges :: "stock_change list \<Rightarrow> stock_change list" where
  "compactStockChanges changes = filter changed (map snd (foldl compact_step [] changes))"


section \<open>Manual adjustment\<close>

record adjustment =
  adj_balance :: balance
  adj_movement :: movement
  adj_variantStock :: int
  adj_change :: stock_change

definition upsert_balance :: "balance \<Rightarrow> (balance \<Rightarrow> balance) \<Rightarrow> inv_db \<Rightarrow> inv_db" where
  "upsert_balance create upd db =
     (if \<exists>b\<in>set (balances db). b_key b = b_key create
      then db\<lparr>balances := update_where (\<lambda>b. b_key b = b_key create) upd (balances db)\<rparr>
      else db\<lparr>balances := balances db @ [create]\<rparr>)"

definition adjustStock ::
    "idgen \<Rightarrow> time \<Rightarrow> ident \<Rightarrow> ident \<Rightarrow> ident \<Rightarrow> int \<Rightarrow> string option \<Rightarrow> ident option \<Rightarrow> inv_db
     \<Rightarrow> inv_error + (adjustment \<times> inv_db)" where
  "adjustStock gen now catalogId warehouseId variantId delta reason actor db =
     (case (warehouse_link db warehouseId catalogId, warehouse_by_id db warehouseId) of
        (Some _, Some w) \<Rightarrow>
          if w_deleteAt w \<noteq> None then Inl (Rejected WAREHOUSE_NOT_FOUND None)
          else if w_status w \<noteq> W_ACTIVE then Inl (Rejected WAREHOUSE_DISABLED None)
          else if \<not> variant_in_catalog db catalogId variantId
            then Inl (Rejected VARIANT_NOT_FOUND None)
          else
            let current = balance_at db warehouseId variantId;
                onHand = (case current of None \<Rightarrow> 0 | Some b \<Rightarrow> quantityOnHand b);
                reserved = (case current of None \<Rightarrow> 0 | Some b \<Rightarrow> quantityReserved b);
                nextOnHand = onHand + delta;
                nextAvailable = nextOnHand - reserved
            in if nextOnHand < reserved then Inl (Rejected INSUFFICIENT_STOCK None)
               else
                 let created = \<lparr>b_warehouseId = warehouseId, b_variantId = variantId,
                                quantityOnHand = nextOnHand, quantityReserved = reserved,
                                quantityAvailable = nextAvailable, lastMovementAt = Some now\<rparr>;
                     db1 = upsert_balance created
                       (\<lambda>b. b\<lparr>quantityOnHand := nextOnHand, quantityAvailable := nextAvailable,
                              lastMovementAt := Some now\<rparr>) db
                 in bindE (create_movement gen
                      ((new_movement warehouseId variantId
                          (if delta > 0 then RECEIPT else WRITE_OFF) MANUAL)
                       \<lparr>quantityDelta := delta, quantityAfter := Some nextOnHand,
                        m_reason := reason, m_actorUserId := actor\<rparr>) db1)
                    (\<lambda>(mv, db2). bindE (syncVariantStockReadModel variantId db2)
                    (\<lambda>(change, db3).
                       Inr (\<lparr>adj_balance = (case balance_at db1 warehouseId variantId of
                                 None \<Rightarrow> created | Some b \<Rightarrow> b),
                              adj_movement = mv,
                              adj_variantStock = nextStock change, adj_change = change\<rparr>, db3)))
      | _ \<Rightarrow> Inl (Rejected WAREHOUSE_NOT_FOUND None))"


section \<open>Release of reservations\<close>

definition releaseReservedQuantity ::
    "time \<Rightarrow> ident \<Rightarrow> ident \<Rightarrow> int \<Rightarrow> inv_db \<Rightarrow> int option \<times> inv_db" where
  "releaseReservedQuantity now wid vid quantity db =
     (case balance_at db wid vid of
        None \<Rightarrow> (None, db)
      | Some b \<Rightarrow>
          let guard = (\<lambda>b. b_key b = (wid, vid) \<and> quantityReserved b \<ge> quantity);
              db' = db\<lparr>balances := update_where guard
                (\<lambda>b. b\<lparr>quantityReserved := quantityReserved b - quantity,
                       quantityAvailable := quantityAvailable b + quantity,
                       lastMovementAt := Some now\<rparr>) (balances db)\<rparr>
          in if count_where guard (balances db) \<noteq> 1 then (None, db')
             else (Some (quantityOnHand b), db'))"

definition releaseActiveReservation ::
    "idgen \<Rightarrow> time \<Rightarrow> reservation_status \<Rightarrow> movement_source \<Rightarrow> string \<Rightarrow> ident option \<Rightarrow> string option
     \<Rightarrow> reservation \<Rightarrow> inv_db \<Rightarrow> inv_error + (stock_change option \<times> inv_db)" where
  "releaseActiveReservation gen now status source reason actor movementKey r db =
     (let claim = (\<lambda>x. r_id x = r_id r \<and> r_status x = R_ACTIVE) in
      if count_where claim (reservations db) \<noteq> 1 then Inr (None, db)
      else
        let db1 = db\<lparr>reservations := update_where claim
                    (\<lambda>x. x\<lparr>r_status := status, r_releasedAt := Some now\<rparr>) (reservations db)\<rparr>;
            (onHand, db2) = releaseReservedQuantity now (r_warehouseId r) (r_variantId r)
                              (r_quantity r) db1;
            sync = (\<lambda>db. bindE (syncVariantStockReadModel (r_variantId r) db)
                      (\<lambda>(c, db'). Inr (Some c, db')))
        in if movementKey \<noteq> None \<and> movementKey \<in> set (map m_key (movements db2)) then sync db2
           else bindE (create_movement gen
                  ((new_movement (r_warehouseId r) (r_variantId r) RELEASE source)
                   \<lparr>quantityAfter := onHand, m_reservationId := Some (r_id r),
                    m_cartId := r_cartId r, m_orderId := r_orderId r,
                    m_actorUserId := actor, m_reason := Some reason, m_key := movementKey\<rparr>) db2)
                (\<lambda>(_, db3). sync db3))"

definition active_cart_reservations :: "inv_db \<Rightarrow> ident \<Rightarrow> reservation list" where
  "active_cart_reservations db cid =
     sort_key (\<lambda>r. (r_createdAt r, r_id r))
       (filter (\<lambda>r. r_cartId r = Some cid \<and> r_status r = R_ACTIVE) (reservations db))"

record release_result =
  releasedReservations :: nat
  rel_affectedVariants :: nat
  rel_variantIds :: "ident list"
  rel_catalogIds :: "ident list"
  rel_changes :: "stock_change list"

type_synonym release_acc = "nat \<times> ident list \<times> stock_change list"

definition release_one ::
    "idgen \<Rightarrow> time \<Rightarrow> string \<Rightarrow> ident option \<Rightarrow> release_acc \<times> inv_db \<Rightarrow> reservation
     \<Rightarrow> inv_error + (release_acc \<times> inv_db)" where
  "release_one gen now reason actor s r =
     (case s of ((n, vids, cs), db) \<Rightarrow>
       bindE (releaseActiveReservation gen now R_RELEASED CART reason actor None r db)
         (\<lambda>(c, db'). Inr (case c of
              None \<Rightarrow> ((n, vids, cs), db')
            | Some ch \<Rightarrow> ((Suc n, set_add (r_variantId r) vids,
                          if changed ch then cs @ [ch] else cs), db'))))"

definition releaseCartReservations ::
    "idgen \<Rightarrow> time \<Rightarrow> ident option \<Rightarrow> ident \<Rightarrow> string \<Rightarrow> ident option \<Rightarrow> inv_db
     \<Rightarrow> inv_error + (release_result \<times> inv_db)" where
  "releaseCartReservations gen now catalogId cartId reason actor db =
     bindE (foldE (release_one gen now reason actor) ((0, [], []), db)
             (active_cart_reservations db cartId))
       (\<lambda>((n, vids, cs), db').
          Inr (\<lparr>releasedReservations = n, rel_affectedVariants = length vids, rel_variantIds = vids,
                 rel_catalogIds = (case catalogId of
                     None \<Rightarrow> [] | Some c \<Rightarrow> if vids \<noteq> [] \<and> c \<noteq> [] then [c] else []),
                 rel_changes = map (\<lambda>c. c\<lparr>sc_catalogId := (case catalogId of
                     None \<Rightarrow> sc_catalogId c | Some cid \<Rightarrow> Some cid)\<rparr>)
                   (compactStockChanges cs)\<rparr>, db'))"


section \<open>Cart reservation\<close>

definition findSalesWarehouse :: "ident \<Rightarrow> inv_db \<Rightarrow> reject_reason + ident" where
  "findSalesWarehouse catalogId db =
     (let rows = sort_key (\<lambda>l. (if wc_isDefault l then (0::nat) else 1, wc_createdAt l))
           (filter (\<lambda>l. wc_catalogId l = catalogId \<and> warehouse_active db (wc_warehouseId l))
             (warehouse_catalogs db))
      in if rows = [] then Inl WAREHOUSE_NOT_FOUND
         else case List.find wc_isDefault rows of
           Some l \<Rightarrow> Inr (wc_warehouseId l)
         | None \<Rightarrow> (case rows of [l] \<Rightarrow> Inr (wc_warehouseId l) | _ \<Rightarrow> Inl WAREHOUSE_AMBIGUOUS))"

definition buildCartReservationIdempotencyKey :: "ident \<Rightarrow> ident \<Rightarrow> ident \<Rightarrow> string" where
  "buildCartReservationIdempotencyKey cartId cartItemId variantId =
     ''inventory:cart-reservation:'' @ cartId @ '':'' @ cartItemId @ '':'' @ variantId"

definition take_available :: "time \<Rightarrow> ident \<Rightarrow> ident \<Rightarrow> int \<Rightarrow> inv_db \<Rightarrow> nat \<times> inv_db" where
  "take_available now wid vid delta db =
     (let guard = (\<lambda>b. b_key b = (wid, vid) \<and> quantityAvailable b \<ge> delta) in
      (count_where guard (balances db),
       db\<lparr>balances := update_where guard
            (\<lambda>b. b\<lparr>quantityReserved := quantityReserved b + delta,
                   quantityAvailable := quantityAvailable b - delta,
                   lastMovementAt := Some now\<rparr>) (balances db)\<rparr>))"

definition move_reserved :: "time \<Rightarrow> ident \<Rightarrow> ident \<Rightarrow> int \<Rightarrow> inv_db \<Rightarrow> inv_error + inv_db" where
  "move_reserved now wid vid delta db =
     (if delta > 0 then
        (let (n, db') = take_available now wid vid delta db in
         if n \<noteq> 1 then Inl (Rejected INSUFFICIENT_STOCK (Some vid)) else Inr db')
      else if delta < 0 then Inr (snd (releaseReservedQuantity now wid vid \<bar>delta\<bar> db))
      else Inr db)"

definition write_reservation ::
    "idgen \<Rightarrow> time \<Rightarrow> reservation option \<Rightarrow> ident \<Rightarrow> ident \<Rightarrow> int \<Rightarrow> ident \<Rightarrow> ident \<Rightarrow> time \<Rightarrow> string
     \<Rightarrow> inv_db \<Rightarrow> inv_error + (ident \<times> inv_db)" where
  "write_reservation gen now existing wid vid quantity cartId cartItemId expiresAt key db =
     (case existing of
        Some e \<Rightarrow>
          bindE (update_reservation (r_id e)
              (\<lambda>r. r\<lparr>r_warehouseId := wid, r_variantId := vid, r_quantity := quantity,
                     r_status := R_ACTIVE, r_cartId := Some cartId,
                     r_cartItemId := Some cartItemId, r_orderId := None,
                     r_expiresAt := Some expiresAt, r_consumedAt := None,
                     r_releasedAt := None\<rparr>) db)
            (\<lambda>db'. Inr (r_id e, db'))
      | None \<Rightarrow>
          create_reservation gen
            \<lparr>r_id = [], r_warehouseId = wid, r_variantId = vid, r_quantity = quantity,
             r_status = R_ACTIVE, r_cartId = Some cartId, r_cartItemId = Some cartItemId,
             r_orderId = None, r_expiresAt = Some expiresAt, r_consumedAt = None,
             r_releasedAt = None, r_key = Some key, r_createdAt = now\<rparr> db)"

text \<open>An active reservation of the line in another warehouse is released first.\<close>

definition release_moved ::
    "idgen \<Rightarrow> time \<Rightarrow> ident \<Rightarrow> ident option \<Rightarrow> reservation option \<Rightarrow> inv_db
     \<Rightarrow> inv_error + (stock_change option \<times> inv_db)" where
  "release_moved gen now warehouseId actor existing db =
     (case existing of
        None \<Rightarrow> Inr (None, db)
      | Some e \<Rightarrow>
          if r_status e = R_ACTIVE \<and> r_warehouseId e \<noteq> warehouseId
          then releaseActiveReservation gen now R_RELEASED CART
                 ''Cart reservation warehouse changed'' actor None e db
          else Inr (None, db))"

text \<open>The quantity of the active reservation that stays in the sales warehouse.\<close>

definition kept_quantity :: "ident \<Rightarrow> reservation option \<Rightarrow> int" where
  "kept_quantity warehouseId existing =
     (case existing of
        None \<Rightarrow> 0
      | Some e \<Rightarrow> if r_status e = R_ACTIVE \<and> r_warehouseId e = warehouseId
                  then r_quantity e else 0)"

definition record_reserve_movement ::
    "idgen \<Rightarrow> ident \<Rightarrow> ident \<Rightarrow> ident \<Rightarrow> ident option \<Rightarrow> int \<Rightarrow> ident \<Rightarrow> inv_db \<Rightarrow> inv_error + inv_db"
  where
  "record_reserve_movement gen warehouseId variantId cartId actor delta rid db =
     (if delta = 0 then Inr db
      else bindE (create_movement gen
         ((new_movement warehouseId variantId (if delta > 0 then RESERVE else RELEASE) CART)
          \<lparr>quantityAfter := map_option quantityOnHand (balance_at db warehouseId variantId),
           m_reservationId := Some rid, m_cartId := Some cartId, m_actorUserId := actor,
           m_reason := Some (if delta > 0 then ''Cart stock reserved''
                             else ''Cart reservation reduced'')\<rparr>) db)
         (\<lambda>(_, db'). Inr db'))"

definition reserveCartLine ::
    "idgen \<Rightarrow> time \<Rightarrow> ident \<Rightarrow> ident \<Rightarrow> ident \<Rightarrow> ident \<Rightarrow> ident \<Rightarrow> int \<Rightarrow> time \<Rightarrow> ident option \<Rightarrow> inv_db
     \<Rightarrow> inv_error + ((bool \<times> stock_change list) \<times> inv_db)" where
  "reserveCartLine gen now catalogId cartId warehouseId cartItemId variantId quantity expiresAt actor db =
     (if \<not> variant_in_catalog db catalogId variantId
      then Inl (Rejected VARIANT_NOT_FOUND (Some variantId))
      else
        let key = buildCartReservationIdempotencyKey cartId cartItemId variantId;
            existing = List.find (\<lambda>r. r_key r = Some key) (reservations db);
            delta = quantity - kept_quantity warehouseId existing
        in bindE (release_moved gen now warehouseId actor existing db)
             (\<lambda>(released, db1).
           bindE (move_reserved now warehouseId variantId delta db1)
             (\<lambda>db2.
           bindE (write_reservation gen now existing warehouseId variantId quantity cartId
                    cartItemId expiresAt key db2)
             (\<lambda>(rid, db3).
           bindE (record_reserve_movement gen warehouseId variantId cartId actor delta rid db3)
             (\<lambda>db4.
           let changes0 = (case released of None \<Rightarrow> [] | Some c \<Rightarrow> if changed c then [c] else [])
           in if released \<noteq> None \<or> delta \<noteq> 0 then
                bindE (syncVariantStockReadModel variantId db4)
                  (\<lambda>(c, db5). Inr ((True, compactStockChanges
                     (changes0 @ (if changed c then [c] else []))), db5))
              else Inr ((False, compactStockChanges changes0), db4))))))"

record reserve_result =
  res_warehouseId :: "ident option"
  reservedLines :: nat
  res_released :: nat
  res_variantIds :: "ident list"
  res_changes :: "stock_change list"

definition release_unwanted ::
    "idgen \<Rightarrow> time \<Rightarrow> string list \<Rightarrow> ident option \<Rightarrow> release_acc \<times> inv_db \<Rightarrow> reservation
     \<Rightarrow> inv_error + (release_acc \<times> inv_db)" where
  "release_unwanted gen now desiredKeys actor s r =
     (case r_key r of
        Some k \<Rightarrow> if k \<noteq> [] \<and> k \<in> set desiredKeys then Inr s
                  else release_one gen now ''Cart reservation refreshed'' actor s r
      | None \<Rightarrow> release_one gen now ''Cart reservation refreshed'' actor s r)"

type_synonym reserve_acc = "nat \<times> ident list \<times> stock_change list"

definition reserve_line ::
    "idgen \<Rightarrow> time \<Rightarrow> ident \<Rightarrow> ident \<Rightarrow> ident \<Rightarrow> time \<Rightarrow> ident option \<Rightarrow> reserve_acc \<times> inv_db \<Rightarrow> line
     \<Rightarrow> inv_error + (reserve_acc \<times> inv_db)" where
  "reserve_line gen now catalogId cartId warehouseId expiresAt actor s l =
     (case s of ((n, vids, cs), db) \<Rightarrow>
      case l_variantId l of
        None \<Rightarrow> Inl (Rejected MISSING_VARIANT None)
      | Some vid \<Rightarrow>
          bindE (reserveCartLine gen now catalogId cartId warehouseId (l_cartItemId l) vid
                   (l_quantity l) expiresAt actor db)
            (\<lambda>((stockChanged, lcs), db').
               Inr ((Suc n, if stockChanged then set_add vid vids else vids, cs @ lcs), db')))"

definition desired_keys :: "ident \<Rightarrow> line list \<Rightarrow> string list" where
  "desired_keys cartId lines =
     concat (map (\<lambda>l. case l_variantId l of None \<Rightarrow> []
        | Some v \<Rightarrow> [buildCartReservationIdempotencyKey cartId (l_cartItemId l) v]) lines)"

text \<open>An empty \<^verbatim>\<open>variantId\<close> string is falsy in the source, like a missing one.\<close>

definition has_variant :: "line \<Rightarrow> bool" where
  "has_variant l = (case l_variantId l of None \<Rightarrow> False | Some v \<Rightarrow> v \<noteq> [])"

definition reserveCartStock ::
    "idgen \<Rightarrow> time \<Rightarrow> ident \<Rightarrow> ident \<Rightarrow> line list \<Rightarrow> time \<Rightarrow> ident option \<Rightarrow> inv_db
     \<Rightarrow> inv_error + (reserve_result \<times> inv_db)" where
  "reserveCartStock gen now catalogId cartId allLines expiresAt actor db =
     (let lines = filter (\<lambda>l. l_quantity l > 0) allLines in
      if lines = [] then
        bindE (releaseCartReservations gen now (Some catalogId) cartId
                 ''Cart reservation refreshed'' actor db)
          (\<lambda>(rel, db'). Inr (\<lparr>res_warehouseId = None, reservedLines = 0,
              res_released = releasedReservations rel, res_variantIds = rel_variantIds rel,
              res_changes = rel_changes rel\<rparr>, db'))
      else case findSalesWarehouse catalogId db of
        Inl e \<Rightarrow> Inl (Rejected e None)
      | Inr wid \<Rightarrow>
          if \<exists>l\<in>set lines. \<not> has_variant l then Inl (Rejected MISSING_VARIANT None)
          else
            bindE (foldE (release_unwanted gen now (desired_keys cartId lines) actor)
                     ((0, [], []), db) (active_cart_reservations db cartId))
              (\<lambda>((released, vids, cs), db1).
            bindE (foldE (reserve_line gen now catalogId cartId wid expiresAt actor)
                     ((0, vids, cs), db1) lines)
              (\<lambda>((n, vids', cs'), db2).
                 Inr (\<lparr>res_warehouseId = Some wid, reservedLines = n, res_released = released,
                        res_variantIds = vids', res_changes = compactStockChanges cs'\<rparr>, db2))))"


section \<open>Expiry\<close>

definition releaseExpiredReservation ::
    "idgen \<Rightarrow> time \<Rightarrow> reservation \<Rightarrow> inv_db \<Rightarrow> inv_error + (stock_change option \<times> inv_db)" where
  "releaseExpiredReservation gen now r db =
     releaseActiveReservation gen now R_EXPIRED SYSTEM ''Expired reservation released'' None
       (Some (''inventory:release-expired:'' @ r_id r)) r db"

definition expired_reservations :: "inv_db \<Rightarrow> time \<Rightarrow> nat \<Rightarrow> (reservation \<times> ident) list" where
  "expired_reservations db now limit =
     List.map_filter (\<lambda>r. map_option (\<lambda>c. (r, c)) (variant_catalog db (r_variantId r)))
       (take limit
         (sort_key (\<lambda>r. (case r_expiresAt r of None \<Rightarrow> 0 | Some t \<Rightarrow> t, r_id r))
           (filter (\<lambda>r. r_status r = R_ACTIVE \<and>
               (case r_expiresAt r of None \<Rightarrow> False | Some t \<Rightarrow> t \<le> now)) (reservations db))))"

type_synonym expire_acc = "nat \<times> ident list \<times> ident list \<times> stock_change list"

text \<open>
  One transaction per reservation: a throwing transaction stops the loop, the transactions
  committed before it stay.
\<close>

fun expire_loop ::
    "idgen \<Rightarrow> time \<Rightarrow> expire_acc \<Rightarrow> inv_db \<Rightarrow> (reservation \<times> ident) list
     \<Rightarrow> (inv_error + expire_acc) \<times> inv_db" where
  "expire_loop gen now acc db [] = (Inr acc, db)"
| "expire_loop gen now (n, vids, cids, cs) db ((r, c) # rs) =
     (case releaseExpiredReservation gen now r db of
        Inl e \<Rightarrow> (Inl e, db)
      | Inr (None, db') \<Rightarrow> expire_loop gen now (n, vids, cids, cs) db' rs
      | Inr (Some ch, db') \<Rightarrow>
          expire_loop gen now
            (Suc n, set_add (r_variantId r) vids, set_add c cids,
             if changed ch then cs @ [ch\<lparr>sc_catalogId := Some c\<rparr>] else cs) db' rs)"

definition releaseExpiredReservations ::
    "idgen \<Rightarrow> time \<Rightarrow> nat \<Rightarrow> inv_db \<Rightarrow> (inv_error + release_result) \<times> inv_db" where
  "releaseExpiredReservations gen now limit db =
     (case expire_loop gen now (0, [], [], []) db (expired_reservations db now limit) of
        (Inl e, db') \<Rightarrow> (Inl e, db')
      | (Inr (n, vids, cids, cs), db') \<Rightarrow>
          (Inr \<lparr>releasedReservations = n, rel_affectedVariants = length vids,
                rel_variantIds = vids, rel_catalogIds = cids,
                rel_changes = compactStockChanges cs\<rparr>, db'))"

end
