(* ===== verification/Inventory_Consume.thy ===== *)
theory Inventory_Consume
  imports Inventory_Repository
begin

text \<open>
  Consumption of stock by a completed order (\<^verbatim>\<open>consumeCompletedOrderStock\<close> and
  \<^verbatim>\<open>consumeCompletedOrderLine\<close> of \<^verbatim>\<open>inventory.repository.ts\<close>).  A line first uses the active
  reservations of its cart item, oldest first, possibly over several warehouses, and takes what
  is left from the sales warehouse.  A sale movement with the line's idempotency key makes a
  second call a no-op.
\<close>

definition buildSaleIdempotencyKey :: "ident \<Rightarrow> ident \<Rightarrow> string" where
  "buildSaleIdempotencyKey orderId cartItemId =
     ''inventory:sale:'' @ orderId @ '':'' @ cartItemId"

definition canConsumeStockBalance :: "inv_db \<Rightarrow> ident \<Rightarrow> ident \<Rightarrow> int \<Rightarrow> int \<Rightarrow> int \<Rightarrow> bool" where
  "canConsumeStockBalance db wid vid totalQuantity reservedQuantity directQuantity =
     (case balance_at db wid vid of
        None \<Rightarrow> False
      | Some b \<Rightarrow> quantityOnHand b \<ge> totalQuantity \<and> quantityReserved b \<ge> reservedQuantity \<and>
                  quantityAvailable b \<ge> directQuantity)"

definition consumeStockBalance ::
    "time \<Rightarrow> ident \<Rightarrow> ident \<Rightarrow> int \<Rightarrow> int \<Rightarrow> int \<Rightarrow> inv_db \<Rightarrow> inv_error + (int \<times> inv_db)" where
  "consumeStockBalance now wid vid totalQuantity reservedQuantity directQuantity db =
     (case balance_at db wid vid of
        None \<Rightarrow> Inl (Rejected INSUFFICIENT_STOCK (Some vid))
      | Some b \<Rightarrow>
          let guard = (\<lambda>b. b_key b = (wid, vid) \<and> quantityOnHand b \<ge> totalQuantity \<and>
                           quantityReserved b \<ge> reservedQuantity \<and> quantityAvailable b \<ge> directQuantity)
          in if count_where guard (balances db) \<noteq> 1
             then Inl (Rejected INSUFFICIENT_STOCK (Some vid))
             else Inr (quantityOnHand b - totalQuantity,
                    db\<lparr>balances := update_where guard
                      (\<lambda>b. b\<lparr>quantityOnHand := quantityOnHand b - totalQuantity,
                             quantityReserved := quantityReserved b - reservedQuantity,
                             quantityAvailable := quantityAvailable b - directQuantity,
                             lastMovementAt := Some now\<rparr>) (balances db)\<rparr>))"

definition createSaleMovement ::
    "idgen \<Rightarrow> ident \<Rightarrow> ident \<Rightarrow> int \<Rightarrow> int \<Rightarrow> ident option \<Rightarrow> ident \<Rightarrow> ident \<Rightarrow> ident option \<Rightarrow> string
     \<Rightarrow> inv_db \<Rightarrow> inv_error + inv_db" where
  "createSaleMovement gen wid vid quantity after reservationId orderId cartId actor key db =
     bindE (create_movement gen
         ((new_movement wid vid SALE ORDER)
          \<lparr>quantityDelta := - quantity, quantityAfter := Some after,
           m_reservationId := reservationId, m_orderId := Some orderId,
           m_cartId := Some cartId, m_actorUserId := actor,
           m_reason := Some ''Completed cart order'', m_key := Some key\<rparr>) db)
       (\<lambda>(_, db'). Inr db')"


section \<open>Planning the use of reservations\<close>

type_synonym consumption = "reservation \<times> int"
type_synonym groups = "(ident \<times> (int \<times> ident option)) list"

definition add_to_group :: "reservation \<Rightarrow> int \<Rightarrow> groups \<Rightarrow> groups" where
  "add_to_group r q groups =
     map_set (r_warehouseId r)
       (case map_get groups (r_warehouseId r) of
          None \<Rightarrow> (q, Some (r_id r))
        | Some (q0, i) \<Rightarrow> (q0 + q, case i of None \<Rightarrow> Some (r_id r) | Some j \<Rightarrow> Some j)) groups"

fun plan_consumption ::
    "reservation list \<Rightarrow> int \<Rightarrow> consumption list \<Rightarrow> groups \<Rightarrow> consumption list \<times> groups \<times> int" where
  "plan_consumption [] remaining used groups = (used, groups, remaining)"
| "plan_consumption (r # rs) remaining used groups =
     (if remaining \<le> 0 then (used, groups, remaining)
      else let q = min remaining (r_quantity r) in
        if q \<le> 0 then plan_consumption rs remaining used groups
        else plan_consumption rs (remaining - q) (used @ [(r, q)]) (add_to_group r q groups))"

definition line_reservations :: "inv_db \<Rightarrow> ident \<Rightarrow> ident \<Rightarrow> ident \<Rightarrow> reservation list" where
  "line_reservations db vid cartId cartItemId =
     sort_key (\<lambda>r. (r_createdAt r, r_id r))
       (filter (\<lambda>r. r_variantId r = vid \<and> r_cartId r = Some cartId \<and>
                    r_cartItemId r = Some cartItemId \<and> r_status r = R_ACTIVE)
         (reservations db))"


section \<open>Executing the plan\<close>

definition consume_reservation ::
    "idgen \<Rightarrow> time \<Rightarrow> ident \<Rightarrow> ident \<Rightarrow> ident \<Rightarrow> ident \<Rightarrow> string
     \<Rightarrow> (ident \<times> ident) list \<times> inv_db \<Rightarrow> consumption
     \<Rightarrow> inv_error + ((ident \<times> ident) list \<times> inv_db)" where
  "consume_reservation gen now orderId cartId cartItemId vid saleKey s c =
     (case (s, c) of ((ids, db), (r, q)) \<Rightarrow>
      if q \<ge> r_quantity r then
        bindE (update_reservation (r_id r)
            (\<lambda>x. x\<lparr>r_status := R_CONSUMED, r_orderId := Some orderId,
                   r_consumedAt := Some now\<rparr>) db)
          (\<lambda>db'. Inr (map_set (r_id r) (r_id r) ids, db'))
      else
        bindE (update_reservation (r_id r) (\<lambda>x. x\<lparr>r_quantity := r_quantity r - q\<rparr>) db)
          (\<lambda>db1. bindE (create_reservation gen
             \<lparr>r_id = [], r_warehouseId = r_warehouseId r, r_variantId = vid, r_quantity = q,
              r_status = R_CONSUMED, r_cartId = Some cartId, r_cartItemId = Some cartItemId,
              r_orderId = Some orderId, r_expiresAt = Some now, r_consumedAt = Some now,
              r_releasedAt = None, r_key = Some (saleKey @ '':reserved-part:'' @ r_id r),
              r_createdAt = now\<rparr> db1)
          (\<lambda>(i, db2). Inr (map_set (r_id r) i ids, db2))))"

definition consume_group ::
    "idgen \<Rightarrow> time \<Rightarrow> ident \<Rightarrow> ident \<Rightarrow> ident \<Rightarrow> ident option \<Rightarrow> string \<Rightarrow> (ident \<times> ident) list
     \<Rightarrow> (nat \<times> ident option) \<times> inv_db \<Rightarrow> ident \<times> (int \<times> ident option)
     \<Rightarrow> inv_error + ((nat \<times> ident option) \<times> inv_db)" where
  "consume_group gen now orderId cartId vid actor saleKey ids s g =
     (case (s, g) of (((index, first), db), (wid, (q, rid))) \<Rightarrow>
      bindE (consumeStockBalance now wid vid q q 0 db)
        (\<lambda>(after, db1).
           bindE (createSaleMovement gen wid vid q after
                (case rid of None \<Rightarrow> None
                 | Some i \<Rightarrow> Some (case map_get ids i of None \<Rightarrow> i | Some j \<Rightarrow> j))
                orderId cartId actor
                (if index = 0 then saleKey else saleKey @ '':reserved:'' @ wid) db1)
        (\<lambda>db2. Inr ((Suc index, case first of None \<Rightarrow> Some wid | Some f \<Rightarrow> Some f), db2))))"

definition consume_direct ::
    "idgen \<Rightarrow> time \<Rightarrow> ident \<Rightarrow> ident \<Rightarrow> ident \<Rightarrow> ident \<Rightarrow> ident option \<Rightarrow> string \<Rightarrow> ident \<Rightarrow> int
     \<Rightarrow> (nat \<times> ident option) \<times> inv_db \<Rightarrow> inv_error + (ident option \<times> inv_db)" where
  "consume_direct gen now orderId cartId cartItemId vid actor saleKey wid remaining s =
     (case s of ((index, first), db) \<Rightarrow>
      bindE (create_reservation gen
         \<lparr>r_id = [], r_warehouseId = wid, r_variantId = vid, r_quantity = remaining,
          r_status = R_CONSUMED, r_cartId = Some cartId, r_cartItemId = Some cartItemId,
          r_orderId = Some orderId, r_expiresAt = Some now, r_consumedAt = Some now,
          r_releasedAt = None, r_key = Some (saleKey @ '':direct:'' @ wid),
          r_createdAt = now\<rparr> db)
        (\<lambda>(rid, db1).
      bindE (consumeStockBalance now wid vid remaining 0 remaining db1)
        (\<lambda>(after, db2).
      bindE (createSaleMovement gen wid vid remaining after (Some rid) orderId cartId actor
                (if index = 0 then saleKey else saleKey @ '':direct:'' @ wid) db2)
        (\<lambda>db3. Inr (case first of None \<Rightarrow> Some wid | Some f \<Rightarrow> Some f, db3)))))"

definition consumeCompletedOrderLine ::
    "idgen \<Rightarrow> time \<Rightarrow> ident \<Rightarrow> ident \<Rightarrow> ident \<Rightarrow> ident \<Rightarrow> ident \<Rightarrow> int \<Rightarrow> ident option \<Rightarrow> inv_db
     \<Rightarrow> inv_error + ((ident option \<times> stock_change option) \<times> inv_db)" where
  "consumeCompletedOrderLine gen now catalogId cartId orderId cartItemId vid quantity actor db =
     (let saleKey = buildSaleIdempotencyKey orderId cartItemId in
      if \<exists>m\<in>set (movements db). m_key m = Some saleKey then Inr ((None, None), db)
      else if \<not> variant_in_catalog db catalogId vid
        then Inl (Rejected VARIANT_NOT_FOUND (Some vid))
      else case plan_consumption (line_reservations db vid cartId cartItemId) quantity [] [] of
        (used, groups, remaining) \<Rightarrow>
        bindE (if remaining > 0 then
                 (case findSalesWarehouse catalogId db of
                    Inl e \<Rightarrow> Inl (Rejected e (Some vid))
                  | Inr w \<Rightarrow> Inr (Some w))
               else Inr None)
          (\<lambda>direct.
        if \<exists>(w, (q, _)) \<in> set groups. \<not> canConsumeStockBalance db w vid q q 0
          then Inl (Rejected INSUFFICIENT_STOCK (Some vid))
        else if (case direct of None \<Rightarrow> False
                 | Some w \<Rightarrow> remaining > 0 \<and>
                     \<not> canConsumeStockBalance db w vid remaining 0 remaining)
          then Inl (Rejected INSUFFICIENT_STOCK (Some vid))
        else
          bindE (foldE (consume_reservation gen now orderId cartId cartItemId vid saleKey)
                   ([], db) used)
            (\<lambda>(ids, db1).
          bindE (foldE (consume_group gen now orderId cartId vid actor saleKey ids)
                   ((0, None), db1) groups)
            (\<lambda>((index, first), db2).
          bindE (case direct of
                   None \<Rightarrow> Inr (first, db2)
                 | Some w \<Rightarrow> if remaining > 0
                     then consume_direct gen now orderId cartId cartItemId vid actor saleKey w
                            remaining ((index, first), db2)
                     else Inr (first, db2))
            (\<lambda>(first', db3).
          bindE (syncVariantStockReadModel vid db3)
            (\<lambda>(change, db4). Inr ((first', Some change), db4)))))))"

record consume_result =
  con_warehouseId :: "ident option"
  consumedLines :: nat
  con_variantIds :: "ident list"
  con_changes :: "stock_change list"

definition consume_line ::
    "idgen \<Rightarrow> time \<Rightarrow> ident \<Rightarrow> ident \<Rightarrow> ident \<Rightarrow> ident option
     \<Rightarrow> (ident option \<times> ident list \<times> stock_change list) \<times> inv_db \<Rightarrow> line
     \<Rightarrow> inv_error + ((ident option \<times> ident list \<times> stock_change list) \<times> inv_db)" where
  "consume_line gen now catalogId cartId orderId actor s l =
     (case s of ((wid, vids, cs), db) \<Rightarrow>
      case l_variantId l of
        None \<Rightarrow> Inr s
      | Some vid \<Rightarrow>
          bindE (consumeCompletedOrderLine gen now catalogId cartId orderId (l_cartItemId l) vid
                   (l_quantity l) actor db)
            (\<lambda>((w, c), db').
               Inr ((case wid of None \<Rightarrow> w | Some x \<Rightarrow> Some x, set_add vid vids,
                     case c of None \<Rightarrow> cs | Some ch \<Rightarrow> if changed ch then cs @ [ch] else cs), db')))"

definition consumeCompletedOrderStock ::
    "idgen \<Rightarrow> time \<Rightarrow> ident \<Rightarrow> ident \<Rightarrow> ident \<Rightarrow> line list \<Rightarrow> ident option \<Rightarrow> inv_db
     \<Rightarrow> inv_error + (consume_result \<times> inv_db)" where
  "consumeCompletedOrderStock gen now catalogId cartId orderId allLines actor db =
     (let lines = filter (\<lambda>l. has_variant l \<and> l_quantity l > 0) allLines in
      bindE (foldE (consume_line gen now catalogId cartId orderId actor) ((None, [], []), db) lines)
        (\<lambda>((wid, vids, cs), db').
           Inr (\<lparr>con_warehouseId = wid, consumedLines = length lines, con_variantIds = vids,
                  con_changes = compactStockChanges cs\<rparr>, db')))"

end
