(* ===== verification/Inventory_Invariant.thy ===== *)
theory Inventory_Invariant
  imports Inventory_Consume
begin

text \<open>
  The accounting invariant of the inventory tables and its preservation by the primitive
  writes.  \<open>structure_ok\<close> holds of every intermediate state of an operation; \<open>gap\<close> measures by how
  much the reserved column of a balance differs from the active reservations it stands for, and
  \<open>ledger_gap\<close> by how much the on-hand column differs from the movements.  Both are zero between
  operations.
\<close>

section \<open>Definition\<close>

definition balance_ok :: "balance \<Rightarrow> bool" where
  "balance_ok b \<longleftrightarrow> quantityAvailable b = quantityOnHand b - quantityReserved b \<and>
     0 \<le> quantityReserved b \<and> 0 \<le> quantityAvailable b"

definition cart_key_prefix :: string where
  "cart_key_prefix = ''inventory:cart-reservation:''"

definition last_segment :: "string \<Rightarrow> string" where
  "last_segment s = rev (takeWhile (\<lambda>c. c \<noteq> CHR '':'') (rev s))"

text \<open>A cart reservation key ends with the variant it was made for.\<close>

definition key_ok :: "reservation \<Rightarrow> bool" where
  "key_ok r = (case r_key r of None \<Rightarrow> True
     | Some k \<Rightarrow> prefix cart_key_prefix k \<longrightarrow> last_segment k = r_variantId r)"

definition reservation_ok :: "reservation \<Rightarrow> bool" where
  "reservation_ok r \<longleftrightarrow> (r_status r = R_ACTIVE \<longrightarrow> 0 < r_quantity r) \<and> key_ok r"

definition structure_ok :: "inv_db \<Rightarrow> bool" where
  "structure_ok db \<longleftrightarrow>
     distinct (map b_key (balances db)) \<and> list_all balance_ok (balances db) \<and>
     distinct (map r_id (reservations db)) \<and> list_all reservation_ok (reservations db)"

definition gap :: "inv_db \<Rightarrow> ident \<times> ident \<Rightarrow> int" where
  "gap db k = reserved_sum db k - active_sum db k"

definition ledger_gap :: "inv_db \<Rightarrow> ident \<times> ident \<Rightarrow> int" where
  "ledger_gap db k = onhand_sum db k - ledger_sum db k"

definition inv_ok :: "inv_db \<Rightarrow> bool" where
  "inv_ok db \<longleftrightarrow> structure_ok db \<and> (\<forall>k. gap db k = 0) \<and> (\<forall>k. ledger_gap db k = 0)"

lemma inv_okD:
  "inv_ok db \<Longrightarrow> structure_ok db" "inv_ok db \<Longrightarrow> gap db k = 0" "inv_ok db \<Longrightarrow> ledger_gap db k = 0"
  unfolding inv_ok_def by blast+

lemma inv_okI:
  "structure_ok db \<Longrightarrow> (\<And>k. gap db k = 0) \<Longrightarrow> (\<And>k. ledger_gap db k = 0) \<Longrightarrow> inv_ok db"
  unfolding inv_ok_def by blast

text \<open>Only the keys that occur in the tables matter, which makes the invariant executable.\<close>

definition db_keys :: "inv_db \<Rightarrow> (ident \<times> ident) list" where
  "db_keys db = map b_key (balances db) @ map r_at (reservations db) @ map m_at (movements db)"

lemma gap_outside:
  assumes "k \<notin> set (db_keys db)"
  shows "gap db k = 0" "ledger_gap db k = 0"
proof -
  have "reserved_sum db k = 0" "active_sum db k = 0" "onhand_sum db k = 0" "ledger_sum db k = 0"
    using assms unfolding db_keys_def reserved_sum_def active_sum_def onhand_sum_def ledger_sum_def
    by (auto intro!: sum_where_empty)
  then show "gap db k = 0" "ledger_gap db k = 0" by (simp_all add: gap_def ledger_gap_def)
qed

lemma inv_ok_code [code]:
  "inv_ok db = (structure_ok db \<and> list_all (\<lambda>k. gap db k = 0 \<and> ledger_gap db k = 0) (db_keys db))"
  using gap_outside [of _ db] unfolding inv_ok_def list_all_iff by blast


section \<open>Sums depend on the tables only\<close>

lemma gap_cong:
  "balances db' = balances db \<Longrightarrow> reservations db' = reservations db \<Longrightarrow> gap db' = gap db"
  by (simp add: fun_eq_iff gap_def reserved_sum_def active_sum_def)

lemma ledger_gap_cong:
  "balances db' = balances db \<Longrightarrow> movements db' = movements db \<Longrightarrow> ledger_gap db' = ledger_gap db"
  by (simp add: fun_eq_iff ledger_gap_def onhand_sum_def ledger_sum_def)

lemma structure_ok_cong:
  "balances db' = balances db \<Longrightarrow> reservations db' = reservations db \<Longrightarrow>
   structure_ok db' = structure_ok db"
  by (simp add: structure_ok_def)

lemma reserved_sum_row:
  "structure_ok db \<Longrightarrow> b \<in> set (balances db) \<Longrightarrow> reserved_sum db (b_key b) = quantityReserved b"
  unfolding reserved_sum_def by (rule sum_where_unique_key) (auto simp: structure_ok_def)

lemma onhand_sum_row:
  "structure_ok db \<Longrightarrow> b \<in> set (balances db) \<Longrightarrow> onhand_sum db (b_key b) = quantityOnHand b"
  unfolding onhand_sum_def by (rule sum_where_unique_key) (auto simp: structure_ok_def)

lemma reserved_sum_pos_row:
  assumes "reserved_sum db k \<noteq> 0"
  obtains b where "b \<in> set (balances db)" "b_key b = k"
  using assms sum_where_empty [of "balances db" "\<lambda>b. b_key b = k"]
  unfolding reserved_sum_def by blast

lemma active_nonneg: "structure_ok db \<Longrightarrow> 0 \<le> active_sum db k"
  unfolding active_sum_def
  by (rule sum_where_nonneg) (auto simp: structure_ok_def reservation_ok_def list_all_iff)

lemma active_member_le:
  "structure_ok db \<Longrightarrow> r \<in> set (reservations db) \<Longrightarrow> r_status r = R_ACTIVE \<Longrightarrow>
   r_quantity r \<le> active_sum db (r_at r)"
  unfolding active_sum_def
  by (rule sum_where_member_le) (auto simp: structure_ok_def reservation_ok_def list_all_iff)



section \<open>Writes to one balance row\<close>

lemma structure_okD:
  assumes "structure_ok db"
  shows "distinct (map b_key (balances db))" "distinct (map r_id (reservations db))"
    "b \<in> set (balances db) \<Longrightarrow> balance_ok b"
    "r \<in> set (reservations db) \<Longrightarrow> reservation_ok r"
  using assms by (auto simp: structure_ok_def list_all_iff)

lemma write_balance:
  assumes ok: "structure_ok db" and b: "b \<in> set (balances db)" and k: "\<And>x. b_key (f x) = b_key x"
    and fb: "balance_ok (f b)"
    and db': "db' = db\<lparr>balances := update_where (\<lambda>x. b_key x = b_key b) f (balances db)\<rparr>"
  shows "structure_ok db'"
    and "gap db' k = gap db k
           + (if k = b_key b then quantityReserved (f b) - quantityReserved b else 0)"
    and "onhand_sum db' k = onhand_sum db k
           + (if k = b_key b then quantityOnHand (f b) - quantityOnHand b else 0)"
    and "variant_onhand db' v = variant_onhand db v
           + (if v = b_variantId b then quantityOnHand (f b) - quantityOnHand b else 0)"
proof -
  note d = structure_okD(1) [OF ok]
  have same: "x = b" if "x \<in> set (balances db)" "b_key x = b_key b" for x
    using d b that by (auto simp: distinct_map dest: inj_onD)
  have "list_all balance_ok (balances db')"
    using ok same fb by (auto simp: db' list_all_iff set_update_where structure_ok_def)
  moreover have "map b_key (balances db') = map b_key (balances db)"
    using k by (simp add: db' map_update_where)
  ultimately show "structure_ok db'"
    using ok by (simp add: structure_ok_def db')
  note upd = sum_where_update_key [OF d b, where P = "\<lambda>x. b_key x = k"]
  show "gap db' k = gap db k
          + (if k = b_key b then quantityReserved (f b) - quantityReserved b else 0)"
    using k upd [of quantityReserved f]
    by (auto simp: gap_def reserved_sum_def active_sum_def db')
  show "onhand_sum db' k = onhand_sum db k
          + (if k = b_key b then quantityOnHand (f b) - quantityOnHand b else 0)"
    using k upd [of quantityOnHand f] by (auto simp: onhand_sum_def db')
  have "b_variantId (f b) = b_variantId b" using k [of b] by (simp add: b_key_def)
  then show "variant_onhand db' v = variant_onhand db v
          + (if v = b_variantId b then quantityOnHand (f b) - quantityOnHand b else 0)"
    using sum_where_update_key [OF d b, of "\<lambda>x. b_variantId x = v" quantityOnHand f]
    by (auto simp: variant_onhand_def db')
qed

lemma take_available_ok:
  assumes ok: "structure_ok db" and t: "take_available now w v d db = (1, db')" and d: "0 \<le> d"
  shows "structure_ok db'" "gap db' k = gap db k + (if k = (w, v) then d else 0)"
    "onhand_sum db' k = onhand_sum db k"
    "reservations db' = reservations db" "movements db' = movements db"
    "warehouses db' = warehouses db" "variants db' = variants db"
proof -
  let ?f = "\<lambda>b. b\<lparr>quantityReserved := quantityReserved b + d,
              quantityAvailable := quantityAvailable b - d, lastMovementAt := Some now\<rparr>"
  let ?P = "\<lambda>b. d \<le> quantityAvailable b"
  from t have cnt: "count_where (\<lambda>b. b_key b = (w, v) \<and> ?P b) (balances db) = 1"
      and upd: "db' = db\<lparr>balances := update_where (\<lambda>b. b_key b = (w, v) \<and> ?P b) ?f (balances db)\<rparr>"
    by (auto simp: take_available_def Let_def)
  obtain b where b: "b \<in> set (balances db)" "b_key b = (w, v)" "?P b"
      and u: "\<And>f. update_where (\<lambda>b. b_key b = (w, v) \<and> ?P b) f (balances db)
                = update_where (\<lambda>x. b_key x = b_key b) f (balances db)"
    using guarded_update [OF structure_okD(1) [OF ok] cnt] by blast
  have db': "db' = db\<lparr>balances := update_where (\<lambda>x. b_key x = b_key b) ?f (balances db)\<rparr>"
    by (simp add: upd u)
  have f: "balance_ok (?f b)"
    using structure_okD(3) [OF ok b(1)] b(3) d by (simp add: balance_ok_def)
  note w = write_balance [OF ok b(1) _ f db']
  show "structure_ok db'" using w(1) by (simp add: b_key_def)
  show "gap db' k = gap db k + (if k = (w, v) then d else 0)"
    using w(2) b(2) by (simp add: b_key_def)
  show "onhand_sum db' k = onhand_sum db k" using w(3) by (simp add: b_key_def)
qed (use t in \<open>auto simp: take_available_def Let_def\<close>)

lemma releaseReservedQuantity_frame:
  assumes "releaseReservedQuantity now w v q db = (h, db')"
  shows "reservations db' = reservations db" "movements db' = movements db"
    "warehouses db' = warehouses db" "warehouse_catalogs db' = warehouse_catalogs db"
    "variants db' = variants db" "products db' = products db"
  using assms
  by (auto simp: releaseReservedQuantity_def Let_def split: option.splits if_splits)

lemma releaseReservedQuantity_ok:
  assumes ok: "structure_ok db" and r: "releaseReservedQuantity now w v q db = (h, db')"
    and q: "0 < q" "q \<le> reserved_sum db (w, v)"
  shows "h \<noteq> None" "structure_ok db'" "gap db' k = gap db k - (if k = (w, v) then q else 0)"
    "onhand_sum db' k = onhand_sum db k"
proof -
  let ?f = "\<lambda>b. b\<lparr>quantityReserved := quantityReserved b - q,
              quantityAvailable := quantityAvailable b + q, lastMovementAt := Some now\<rparr>"
  let ?g = "\<lambda>b. b_key b = (w, v) \<and> q \<le> quantityReserved b"
  obtain b where b: "b \<in> set (balances db)" "b_key b = (w, v)"
    using q by (metis less_le_trans less_irrefl reserved_sum_pos_row)
  have bq: "q \<le> quantityReserved b" using reserved_sum_row [OF ok b(1)] q(2) b(2) by simp
  note d = structure_okD(1) [OF ok]
  have at: "balance_at db w v = Some b"
    using find_distinct_key [OF d b(1)] b(2) by (simp add: balance_at_def)
  have cnt: "count_where ?g (balances db) = 1"
    by (rule count_where_unique [where key = b_key, OF d b]) (rule bq)
  have upd: "update_where ?g ?f (balances db)
           = update_where (\<lambda>x. b_key x = b_key b) ?f (balances db)"
  proof (rule guarded_update [OF d cnt])
    fix x
    assume x: "x \<in> set (balances db)" "b_key x = (w, v)"
      and u: "\<And>f. update_where ?g f (balances db)
                 = update_where (\<lambda>r. b_key r = b_key x) f (balances db)"
    from x(2) b(2) show ?thesis by (simp add: u)
  qed
  have db': "db' = db\<lparr>balances := update_where (\<lambda>x. b_key x = b_key b) ?f (balances db)\<rparr>"
    using r cnt upd by (simp add: releaseReservedQuantity_def at Let_def split: if_splits)
  have f: "balance_ok (?f b)"
    using structure_okD(3) [OF ok b(1)] bq q(1) by (simp add: balance_ok_def)
  note wr = write_balance [OF ok b(1) _ f db']
  show "h \<noteq> None"
    using r cnt by (auto simp: releaseReservedQuantity_def at Let_def split: if_splits)
  show "structure_ok db'" using wr(1) by (simp add: b_key_def)
  show "gap db' k = gap db k - (if k = (w, v) then q else 0)"
    using wr(2) b(2) by (simp add: b_key_def)
  show "onhand_sum db' k = onhand_sum db k" using wr(3) by (simp add: b_key_def)
qed

lemma consumeStockBalance_ok:
  assumes ok: "structure_ok db"
    and c: "consumeStockBalance now w v t r d db = Inr (after, db')"
    and q: "t = r + d" "0 \<le> r" "0 \<le> d"
  shows "structure_ok db'" "gap db' k = gap db k - (if k = (w, v) then r else 0)"
    "onhand_sum db' k = onhand_sum db k - (if k = (w, v) then t else 0)"
    "reservations db' = reservations db" "movements db' = movements db"
    "warehouses db' = warehouses db" "variants db' = variants db"
    "after = onhand_sum db' (w, v)"
    "variant_onhand db' v' = variant_onhand db v' - (if v' = v then t else 0)"
proof -
  let ?f = "\<lambda>b. b\<lparr>quantityOnHand := quantityOnHand b - t,
              quantityReserved := quantityReserved b - r,
              quantityAvailable := quantityAvailable b - d, lastMovementAt := Some now\<rparr>"
  let ?P = "\<lambda>b. t \<le> quantityOnHand b \<and> r \<le> quantityReserved b \<and> d \<le> quantityAvailable b"
  note dist = structure_okD(1) [OF ok]
  from c obtain b0 where b0: "balance_at db w v = Some b0" and "after = quantityOnHand b0 - t"
      and cnt: "count_where (\<lambda>b. b_key b = (w, v) \<and> ?P b) (balances db) = 1"
      and upd: "db' = db\<lparr>balances := update_where (\<lambda>b. b_key b = (w, v) \<and> ?P b) ?f (balances db)\<rparr>"
    by (auto simp: consumeStockBalance_def Let_def split: option.splits if_splits)
  obtain b where b: "b \<in> set (balances db)" "b_key b = (w, v)" "?P b"
      and u: "\<And>f. update_where (\<lambda>b. b_key b = (w, v) \<and> ?P b) f (balances db)
                = update_where (\<lambda>x. b_key x = b_key b) f (balances db)"
    using guarded_update [OF dist cnt] by blast
  have db': "db' = db\<lparr>balances := update_where (\<lambda>x. b_key x = b_key b) ?f (balances db)\<rparr>"
    by (simp add: upd u)
  have f: "balance_ok (?f b)"
    using structure_okD(3) [OF ok b(1)] b(3) q by (simp add: balance_ok_def)
  note wr = write_balance [OF ok b(1) _ f db']
  show "structure_ok db'" using wr(1) by (simp add: b_key_def)
  show "gap db' k = gap db k - (if k = (w, v) then r else 0)"
    using wr(2) b(2) by (simp add: b_key_def)
  show onh: "onhand_sum db' k = onhand_sum db k - (if k = (w, v) then t else 0)" for k
    using wr(3) b(2) by (simp add: b_key_def)
  show "variant_onhand db' v' = variant_onhand db v' - (if v' = v then t else 0)"
    using wr(4) b(2) by (simp add: b_key_def)
  have "b0 = b"
    using find_distinct_key [OF dist b(1)] b0 b(2) by (simp add: balance_at_def)
  then show "after = onhand_sum db' (w, v)"
    using \<open>after = _\<close> onh [of "(w, v)"] onhand_sum_row [OF ok b(1)] b(2) by simp
qed (use c in \<open>auto simp: consumeStockBalance_def Let_def split: option.splits if_splits\<close>)


section \<open>Writes to one reservation row\<close>

definition act :: "reservation \<Rightarrow> ident \<times> ident \<Rightarrow> int" where
  "act r k = (if r_status r = R_ACTIVE \<and> r_at r = k then r_quantity r else 0)"

lemma write_reservation_row:
  assumes ok: "structure_ok db" and x: "x \<in> set (reservations db)"
    and i: "\<And>r. r_id (f r) = r_id r" and fx: "reservation_ok (f x)"
    and db': "db' = db\<lparr>reservations := update_where (\<lambda>r. r_id r = r_id x) f (reservations db)\<rparr>"
  shows "structure_ok db'" "gap db' k = gap db k + act x k - act (f x) k"
proof -
  note d = structure_okD(2) [OF ok]
  have same: "r = x" if "r \<in> set (reservations db)" "r_id r = r_id x" for r
    using d x that by (auto simp: distinct_map dest: inj_onD)
  have "list_all reservation_ok (reservations db')"
    using ok same fx by (auto simp: db' list_all_iff set_update_where structure_ok_def)
  moreover have "map r_id (reservations db') = map r_id (reservations db)"
    using i by (simp add: db' map_update_where)
  ultimately show "structure_ok db'" using ok by (simp add: structure_ok_def db')
  show "gap db' k = gap db k + act x k - act (f x) k"
    using sum_where_update_key [OF d x, of "\<lambda>r. r_status r = R_ACTIVE \<and> r_at r = k" r_quantity f]
    by (simp add: gap_def reserved_sum_def active_sum_def act_def db')
qed

lemma append_reservation_row:
  assumes ok: "structure_ok db" and "i \<notin> set (map r_id (reservations db))" "r_id r = i"
    and "reservation_ok r" "db' = db\<lparr>reservations := reservations db @ [r]\<rparr>"
  shows "structure_ok db'" "gap db' k = gap db k - act r k"
  using assms
  by (auto simp: structure_ok_def gap_def reserved_sum_def active_sum_def act_def table_simps)


section \<open>Cart keys\<close>

lemma last_segment_cart_key:
  "CHR '':'' \<notin> set v \<Longrightarrow> last_segment (buildCartReservationIdempotencyKey c i v) = v"
proof -
  assume "CHR '':'' \<notin> set v"
  then have "takeWhile (\<lambda>c. c \<noteq> CHR '':'') (rev v) = rev v"
    by (auto simp: takeWhile_eq_all_conv)
  with \<open>CHR '':'' \<notin> set v\<close> show ?thesis
    by (simp add: last_segment_def buildCartReservationIdempotencyKey_def takeWhile_append)
qed

lemma prefix_cart_key: "prefix cart_key_prefix (buildCartReservationIdempotencyKey c i v)"
  by (simp add: cart_key_prefix_def buildCartReservationIdempotencyKey_def)

lemma sale_key_not_cart: "\<not> prefix cart_key_prefix (buildSaleIdempotencyKey o' i @ s)"
  by (simp add: cart_key_prefix_def buildSaleIdempotencyKey_def)

end
