(* ===== verification/Inventory_Stock.thy ===== *)
theory Inventory_Stock
  imports Inventory_Invariant
begin

text \<open>
  Every stock operation keeps the accounting invariant: adjustment, cart reservation, release and
  expiry.  Consumption follows in \<^verbatim>\<open>Inventory_Sale\<close>.
\<close>

section \<open>Read model and movements\<close>

lemma sync_Inr:
  assumes "syncVariantStockReadModel v db = Inr (c, db')"
  shows "db' = db\<lparr>variants := update_where (\<lambda>x. v_id x = v)
               (\<lambda>x. x\<lparr>v_stock := Some (max 0 (available_total db v))\<rparr>) (variants db)\<rparr>"
    "nextStock c = max 0 (available_total db v)" "sc_variantId c = v"
    "variant_by_id db v \<noteq> None"
  using assms by (auto simp: syncVariantStockReadModel_def Let_def split: if_splits)

lemma sync_frame:
  assumes "syncVariantStockReadModel v db = Inr (c, db')"
  shows "balances db' = balances db" "reservations db' = reservations db"
    "movements db' = movements db" "warehouses db' = warehouses db"
    "warehouse_catalogs db' = warehouse_catalogs db" "products db' = products db"
  by (simp_all add: sync_Inr(1) [OF assms])

lemma movement_frame:
  assumes "create_movement gen m db = Inr (row, db')"
  shows "balances db' = balances db" "reservations db' = reservations db"
    "variants db' = variants db" "warehouses db' = warehouses db"
    "warehouse_catalogs db' = warehouse_catalogs db" "products db' = products db"
    "ledger_sum db' k = ledger_sum db k + (if m_at m = k then quantityDelta m else 0)"
  using create_movement_Inr(1-3) [OF assms] by (simp_all add: ledger_sum_def table_simps)

lemma m_at_new_movement [simp]: "m_at (new_movement w v t s) = (w, v)"
  by (simp add: m_at_def new_movement_def)

lemma quantityDelta_new_movement [simp]: "quantityDelta (new_movement w v t s) = 0"
  by (simp add: new_movement_def)


section \<open>Release\<close>

text \<open>A snapshot of a reservation still agrees with its row on place, quantity and key.\<close>

definition snap_ok :: "inv_db \<Rightarrow> reservation \<Rightarrow> bool" where
  "snap_ok db r = (\<forall>x\<in>set (reservations db). r_id x = r_id r \<longrightarrow>
     r_at x = r_at r \<and> r_quantity x = r_quantity r \<and> r_key x = r_key r)"

lemma snap_ok_member:
  "structure_ok db \<Longrightarrow> r \<in> set (reservations db) \<Longrightarrow> snap_ok db r"
  by (auto simp: snap_ok_def dest!: structure_okD(2) inj_onD simp: distinct_map)

abbreviation claim :: "reservation \<Rightarrow> reservation \<Rightarrow> bool" where
  "claim r \<equiv> (\<lambda>x. r_id x = r_id r \<and> r_status x = R_ACTIVE)"

abbreviation mark :: "reservation_status \<Rightarrow> time \<Rightarrow> reservation \<Rightarrow> reservation" where
  "mark st now \<equiv> (\<lambda>x. x\<lparr>r_status := st, r_releasedAt := Some now\<rparr>)"

lemma releaseActive_cases:
  assumes "releaseActiveReservation gen now st src reason actor mk r db = Inr (c, db')"
  obtains (skip) "c = None" "db' = db" "count_where (claim r) (reservations db) \<noteq> 1"
  | (released) h db2 where
      "count_where (claim r) (reservations db) = 1" "c \<noteq> None"
      "releaseReservedQuantity now (r_warehouseId r) (r_variantId r) (r_quantity r)
         (db\<lparr>reservations := update_where (claim r) (mark st now) (reservations db)\<rparr>) = (h, db2)"
      "balances db' = balances db2" "reservations db' = reservations db2"
      "ledger_sum db' = ledger_sum db2" "warehouses db' = warehouses db"
      "warehouse_catalogs db' = warehouse_catalogs db" "products db' = products db"
proof (cases "count_where (claim r) (reservations db) = 1")
  case False
  with assms have "c = None \<and> db' = db"
    by (simp add: releaseActiveReservation_def Let_def)
  with False show thesis by (intro skip) auto
next
  case True
  let ?db1 = "db\<lparr>reservations := update_where (claim r) (mark st now) (reservations db)\<rparr>"
  obtain h db2 where rel: "releaseReservedQuantity now (r_warehouseId r) (r_variantId r)
      (r_quantity r) ?db1 = (h, db2)" by (cases "releaseReservedQuantity now (r_warehouseId r) (r_variantId r)
      (r_quantity r) ?db1")
  note fr = releaseReservedQuantity_frame [OF rel]
  obtain db3 ch where
      mid: "db3 = db2 \<or> (\<exists>m row. create_movement gen m db2 = Inr (row, db3) \<and> quantityDelta m = 0)"
      and s: "syncVariantStockReadModel (r_variantId r) db3 = Inr (ch, db')" "c = Some ch"
  proof (cases "mk \<noteq> None \<and> mk \<in> set (map m_key (movements db2))")
    case dup: True
    with assms True rel show thesis
      by (auto simp: releaseActiveReservation_def Let_def intro: that)
  next
    case False
    let ?m = "(new_movement (r_warehouseId r) (r_variantId r) RELEASE src)
        \<lparr>quantityAfter := h, m_reservationId := Some (r_id r), m_cartId := r_cartId r,
         m_orderId := r_orderId r, m_actorUserId := actor, m_reason := Some reason, m_key := mk\<rparr>"
    from False assms True rel obtain row db3 ch where "create_movement gen ?m db2 = Inr (row, db3)"
        "syncVariantStockReadModel (r_variantId r) db3 = Inr (ch, db')" "c = Some ch"
      by (auto simp: releaseActiveReservation_def Let_def)
    moreover have "quantityDelta ?m = 0" by simp
    ultimately show thesis using that by blast
  qed
  have "balances db3 = balances db2 \<and> reservations db3 = reservations db2 \<and>
      ledger_sum db3 = ledger_sum db2 \<and> warehouses db3 = warehouses db2 \<and>
      warehouse_catalogs db3 = warehouse_catalogs db2 \<and> products db3 = products db2"
    using mid by (auto simp: fun_eq_iff movement_frame)
  moreover have "ledger_sum db' = ledger_sum db3"
    by (simp add: fun_eq_iff ledger_sum_def sync_frame [OF s(1)])
  ultimately show thesis
    using released [OF True _ rel] s(2) fr by (simp add: sync_frame [OF s(1)])
qed


lemma release_ok:
  assumes ok: "structure_ok db" and st: "st \<noteq> R_ACTIVE" and sn: "snap_ok db r"
    and g: "0 \<le> gap db (r_at r)"
    and rel: "releaseActiveReservation gen now st src reason actor mk r db = Inr (c, db')"
  shows "structure_ok db'" "gap db' k = gap db k" "ledger_gap db' k = ledger_gap db k"
    "reservations db' = update_where (claim r) (mark st now) (reservations db)"
proof -
  have "structure_ok db' \<and> gap db' k = gap db k \<and> ledger_gap db' k = ledger_gap db k \<and>
      reservations db' = update_where (claim r) (mark st now) (reservations db)" for k
    using rel
  proof (cases rule: releaseActive_cases)
    case skip
    have "\<forall>x\<in>set (reservations db). \<not> claim r x"
    proof (rule ccontr)
      assume "\<not> ?thesis"
      then obtain x where "x \<in> set (reservations db)" "r_id x = r_id r" "r_status x = R_ACTIVE"
        by auto
      with count_where_unique [of r_id, OF structure_okD(2) [OF ok]] skip(3) show False by auto
    qed
    with skip(2) show ?thesis by (simp add: update_where_none ok)
  next
    case (released h db2)
    let ?db1 = "db\<lparr>reservations := update_where (claim r) (mark st now) (reservations db)\<rparr>"
    obtain x where x: "x \<in> set (reservations db)" "r_id x = r_id r" "r_status x = R_ACTIVE"
        and u: "\<And>f. update_where (claim r) f (reservations db)
                  = update_where (\<lambda>y. r_id y = r_id x) f (reservations db)"
      using guarded_update [OF structure_okD(2) [OF ok] released(1)] by blast
    have same: "r_at x = r_at r" "r_quantity x = r_quantity r"
      using sn x by (auto simp: snap_ok_def)
    have q: "0 < r_quantity r"
      using structure_okD(4) [OF ok x(1)] x(3) same by (simp add: reservation_ok_def)
    have mok: "reservation_ok (mark st now x)"
      using structure_okD(4) [OF ok x(1)] st
      by (auto simp: reservation_ok_def key_ok_def split: option.splits)
    have db1: "?db1 = db\<lparr>reservations :=
        update_where (\<lambda>y. r_id y = r_id x) (mark st now) (reservations db)\<rparr>"
      by (simp add: u)
    have s1: "structure_ok ?db1"
      by (rule write_reservation_row(1) [OF ok x(1) _ mok db1]) simp
    have g1: "gap ?db1 k = gap db k + (if k = r_at r then r_quantity r else 0)" for k
      using write_reservation_row(2) [OF ok x(1) _ mok db1, of k] st x(3) same
      by (simp add: act_def)
    have "r_quantity r \<le> reserved_sum ?db1 (r_at r)"
      using g1 [of "r_at r"] g active_nonneg [OF s1, of "r_at r"] by (simp add: gap_def)
    then have le: "r_quantity r \<le> reserved_sum ?db1 (r_warehouseId r, r_variantId r)"
      by (simp add: r_at_def)
    note R = releaseReservedQuantity_ok [OF s1 released(3) q le]
    note F = releaseReservedQuantity_frame [OF released(3)]
    have "structure_ok db'" using R(2) structure_ok_cong [OF released(4,5)] by simp
    moreover have "gap db' k = gap db k"
      using R(3) [of k] g1 [of k] gap_cong [OF released(4,5)] by (simp add: r_at_def)
    moreover have "ledger_gap db' k = ledger_gap db k"
      using R(4) [of k] released(4,6) F(2)
      by (simp add: ledger_gap_def onhand_sum_def ledger_sum_def)
    ultimately show ?thesis using released(5) F(1) by simp
  qed
  then show "structure_ok db'" "gap db' k = gap db k" "ledger_gap db' k = ledger_gap db k"
    "reservations db' = update_where (claim r) (mark st now) (reservations db)" by auto
qed

lemma release_snap:
  assumes "reservations db' = update_where (claim r) (mark st now) (reservations db)"
  shows "snap_ok db' s = snap_ok db s"
proof -
  have [simp]: "r_at (mark st now x) = r_at x" for x by (simp add: r_at_def)
  show ?thesis
    unfolding snap_ok_def assms set_update_where ball_simps
    by (rule ball_cong) simp_all
qed

lemma release_inv:
  assumes "inv_ok db" "snap_ok db r" "st \<noteq> R_ACTIVE"
    and "releaseActiveReservation gen now st src reason actor mk r db = Inr (c, db')"
  shows "inv_ok db'"
  using release_ok [OF inv_okD(1) [OF assms(1)] assms(3,2) _ assms(4)]
  by (intro inv_okI) (simp_all add: inv_okD [OF assms(1)])


lemma release_one_Inr:
  assumes "release_one gen now reason actor (acc, db) r = Inr (acc', db')"
  shows "\<exists>c. releaseActiveReservation gen now R_RELEASED CART reason actor None r db = Inr (c, db')"
  using assms by (cases acc) (auto simp: release_one_def split: option.splits)

text \<open>What holds while a list of snapshots is being released.\<close>

definition releasing :: "reservation list \<Rightarrow> inv_db \<Rightarrow> bool" where
  "releasing rs db \<longleftrightarrow> inv_ok db \<and> (\<forall>r\<in>set rs. snap_ok db r)"

lemma releasing_release:
  assumes "releasing rs db" "r \<in> set rs" "st \<noteq> R_ACTIVE"
    and "releaseActiveReservation gen now st src reason actor mk r db = Inr (c, db')"
  shows "releasing rs db'"
proof -
  from assms(1,2) have i: "inv_ok db" "snap_ok db r" by (auto simp: releasing_def)
  note r = release_ok(4) [OF inv_okD(1) [OF i(1)] assms(3) i(2) _ assms(4)]
  show ?thesis
    using assms(1) release_inv [OF i assms(3,4)] release_snap [OF r]
    by (simp add: releasing_def inv_okD(2) [OF i(1)])
qed

lemma releasing_start:
  "inv_ok db \<Longrightarrow> set rs \<subseteq> set (reservations db) \<Longrightarrow> releasing rs db"
  by (auto simp: releasing_def intro: snap_ok_member inv_okD(1))

lemma active_cart_reservations_subset:
  "set (active_cart_reservations db cid) \<subseteq> set (reservations db)"
  by (auto simp: active_cart_reservations_def)

lemma releaseCart_inv:
  assumes "inv_ok db"
    and "releaseCartReservations gen now cat cid reason actor db = Inr (res, db')"
  shows "inv_ok db'"
proof -
  let ?rs = "active_cart_reservations db cid"
  from assms(2) obtain acc where
      f: "foldE (release_one gen now reason actor) ((0, [], []), db) ?rs = Inr (acc, db')"
    by (auto simp: releaseCartReservations_def)
  have "releasing ?rs (snd (acc, db'))"
  proof (rule foldE_invariant [OF f])
    show "releasing ?rs (snd ((0::nat, [] :: ident list, [] :: stock_change list), db))"
      using releasing_start [OF assms(1) active_cart_reservations_subset] by simp
  next
    fix s r s'
    assume r: "r \<in> set ?rs" "releasing ?rs (snd s)" "release_one gen now reason actor s r = Inr s'"
    obtain a d a' d' where s: "s = (a, d)" "s' = (a', d')" by (cases s, cases s')
    with release_one_Inr r(3) obtain c where
      "releaseActiveReservation gen now R_RELEASED CART reason actor None r d = Inr (c, d')"
      by blast
    from releasing_release [OF _ r(1) _ this] r(2) s show "releasing ?rs (snd s')" by simp
  qed
  then show ?thesis by (simp add: releasing_def)
qed


section \<open>Expiry\<close>

lemma expired_subset:
  "fst ` set (expired_reservations db now n) \<subseteq> set (reservations db)"
  unfolding expired_reservations_def
  by (auto simp: List.map_filter_def dest!: in_set_takeD split: option.splits)

lemma expire_loop_inv:
  assumes "releasing (map fst rs) db"
  shows "inv_ok (snd (expire_loop gen now acc db rs))"
  using assms
proof (induction rs arbitrary: db acc)
  case Nil
  then show ?case by (cases acc) (simp add: releasing_def)
next
  case (Cons p rs)
  obtain r c n vids cids cs where p: "p = (r, c)" "acc = (n, vids, cids, cs)"
    by (cases p, cases acc) auto
  have step: "releasing (map fst rs) db'" if "releaseExpiredReservation gen now r db = Inr (ch, db')"
    for ch db'
  proof -
    have "releasing (map fst (p # rs)) db'"
      by (rule releasing_release [OF Cons.prems _ _ that [unfolded releaseExpiredReservation_def]])
        (simp_all add: p)
    then show ?thesis by (simp add: releasing_def)
  qed
  show ?case
  proof (cases "releaseExpiredReservation gen now r db")
    case (Inl e)
    with Cons.prems p show ?thesis by (simp add: releasing_def)
  next
    case (Inr q)
    obtain ch db' where q: "q = (ch, db')" by (cases q)
    with Inr have "releasing (map fst rs) db'" using step by simp
    with Inr q p show ?thesis by (cases ch) (auto intro: Cons.IH)
  qed
qed

lemma releaseExpired_inv:
  assumes "inv_ok db"
  shows "inv_ok (snd (releaseExpiredReservations gen now n db))"
proof -
  have "releasing (map fst (expired_reservations db now n)) db"
    using releasing_start [OF assms] expired_subset by simp
  from expire_loop_inv [OF this, of gen now "(0, [], [], [])"] show ?thesis
    by (auto simp: releaseExpiredReservations_def split: prod.splits sum.splits)
qed



section \<open>Manual adjustment\<close>

lemma append_balance:
  assumes "structure_ok db" "b_key b \<notin> set (map b_key (balances db))" "balance_ok b"
    and "db' = db\<lparr>balances := balances db @ [b]\<rparr>"
  shows "structure_ok db'"
    and "gap db' k = gap db k + (if k = b_key b then quantityReserved b else 0)"
    and "onhand_sum db' k = onhand_sum db k + (if k = b_key b then quantityOnHand b else 0)"
  using assms
  by (auto simp: structure_ok_def gap_def reserved_sum_def active_sum_def onhand_sum_def table_simps)

lemma upsert_balance_frame [simp]:
  "reservations (upsert_balance c u db) = reservations db"
  "movements (upsert_balance c u db) = movements db"
  "variants (upsert_balance c u db) = variants db"
  "warehouses (upsert_balance c u db) = warehouses db"
  by (simp_all add: upsert_balance_def)

lemma adjustStock_Inr:
  assumes "adjustStock gen now cat w v d reason actor db = Inr (a, db')"
  obtains onHand reserved m row db2 c where
    "onHand = (case balance_at db w v of None \<Rightarrow> 0 | Some b \<Rightarrow> quantityOnHand b)"
    "reserved = (case balance_at db w v of None \<Rightarrow> 0 | Some b \<Rightarrow> quantityReserved b)"
    "reserved \<le> onHand + d" "m_at m = (w, v)" "quantityDelta m = d"
    "create_movement gen m (upsert_balance
       \<lparr>b_warehouseId = w, b_variantId = v, quantityOnHand = onHand + d,
        quantityReserved = reserved, quantityAvailable = onHand + d - reserved,
        lastMovementAt = Some now\<rparr>
       (\<lambda>b. b\<lparr>quantityOnHand := onHand + d, quantityAvailable := onHand + d - reserved,
              lastMovementAt := Some now\<rparr>) db) = Inr (row, db2)"
    "syncVariantStockReadModel v db2 = Inr (c, db')" "adj_change a = c" "adj_movement a = row"
proof -
  from assms obtain l wh where "warehouse_link db w cat = Some l" "warehouse_by_id db w = Some wh"
    by (auto simp: adjustStock_def split: option.splits)
  note found = this
  let ?o = "case balance_at db w v of None \<Rightarrow> 0 | Some b \<Rightarrow> quantityOnHand b"
  let ?r = "case balance_at db w v of None \<Rightarrow> 0 | Some b \<Rightarrow> quantityReserved b"
  let ?m = "(new_movement w v (if d > 0 then RECEIPT else WRITE_OFF) MANUAL)
      \<lparr>quantityDelta := d, quantityAfter := Some (?o + d), m_reason := reason,
       m_actorUserId := actor\<rparr>"
  let ?db1 = "upsert_balance
      \<lparr>b_warehouseId = w, b_variantId = v, quantityOnHand = ?o + d, quantityReserved = ?r,
       quantityAvailable = ?o + d - ?r, lastMovementAt = Some now\<rparr>
      (\<lambda>b. b\<lparr>quantityOnHand := ?o + d, quantityAvailable := ?o + d - ?r,
             lastMovementAt := Some now\<rparr>) db"
  from assms found obtain row db2 c where f: "?r \<le> ?o + d"
      "create_movement gen ?m ?db1 = Inr (row, db2)"
      "syncVariantStockReadModel v db2 = Inr (c, db')" "adj_change a = c" "adj_movement a = row"
    by (auto simp: adjustStock_def Let_def split: if_splits)
  have "m_at ?m = (w, v)" "quantityDelta ?m = d" by (simp_all add: m_at_def new_movement_def)
  from that [OF refl refl f(1) this f(2-5)] show thesis .
qed

lemma upsert_adjust_ok:
  assumes ok: "structure_ok db"
    and o: "onHand = (case balance_at db w v of None \<Rightarrow> 0 | Some b \<Rightarrow> quantityOnHand b)"
    and r: "reserved = (case balance_at db w v of None \<Rightarrow> 0 | Some b \<Rightarrow> quantityReserved b)"
    and le: "reserved \<le> onHand + d"
    and db': "db' = upsert_balance
       \<lparr>b_warehouseId = w, b_variantId = v, quantityOnHand = onHand + d,
        quantityReserved = reserved, quantityAvailable = onHand + d - reserved,
        lastMovementAt = Some now\<rparr>
       (\<lambda>b. b\<lparr>quantityOnHand := onHand + d, quantityAvailable := onHand + d - reserved,
              lastMovementAt := Some now\<rparr>) db"
  shows "structure_ok db' \<and> gap db' k = gap db k \<and>
    onhand_sum db' k = onhand_sum db k + (if k = (w, v) then d else 0)"
proof (cases "balance_at db w v")
  case None
  let ?b = "\<lparr>b_warehouseId = w, b_variantId = v, quantityOnHand = d, quantityReserved = 0,
        quantityAvailable = d, lastMovementAt = Some now\<rparr>"
  have new: "b_key ?b \<notin> set (map b_key (balances db))"
    using None by (auto simp: balance_at_def find_None_all b_key_def)
  have bok: "balance_ok ?b" using None o r le by (simp add: balance_ok_def)
  have e: "db' = db\<lparr>balances := balances db @ [?b]\<rparr>"
    using new None o r by (auto simp: db' upsert_balance_def image_iff)
  note a = append_balance [OF ok new bok e]
  from a(1) a(2) [of k] a(3) [of k] show ?thesis by (simp add: b_key_def)
next
  case (Some b)
  from balance_at_Some [OF Some] have b: "b \<in> set (balances db)" "b_key b = (w, v)" by auto
  let ?f = "\<lambda>x. x\<lparr>quantityOnHand := onHand + d, quantityAvailable := onHand + d - reserved,
              lastMovementAt := Some now\<rparr>"
  have bok: "balance_ok (?f b)"
    using structure_okD(3) [OF ok b(1)] Some o r le by (simp add: balance_ok_def)
  have "\<exists>x\<in>set (balances db). b_key x = (w, v)" using b by blast
  then have e: "db' = db\<lparr>balances := update_where (\<lambda>x. b_key x = b_key b) ?f (balances db)\<rparr>"
    using b(2) by (simp add: db' upsert_balance_def b_key_def)
  note wr = write_balance [OF ok b(1) _ bok e]
  from wr(1) wr(2) [of k] wr(3) [of k] show ?thesis using b(2) Some o by (simp add: b_key_def)
qed

lemma adjust_inv:
  assumes "inv_ok db" "adjustStock gen now cat w v d reason actor db = Inr (a, db')"
  shows "inv_ok db'"
  using assms(2)
proof (cases rule: adjustStock_Inr)
  case (1 onHand reserved m row db2 c)
  note u = upsert_adjust_ok [OF inv_okD(1) [OF assms(1)] 1(1-3) refl, where now = now]
  note mv = movement_frame [OF 1(6)]
  note sy = sync_frame [OF 1(7)]
  show ?thesis
  proof (rule inv_okI)
    show "structure_ok db'"
      using u by (simp add: structure_ok_def mv sy)
    show "gap db' k = 0" for k
      using u [of k] inv_okD(2) [OF assms(1)]
      by (simp add: gap_def reserved_sum_def active_sum_def mv sy)
    show "ledger_gap db' k = 0" for k
    proof -
      have "ledger_sum db' k = ledger_sum db2 k" by (simp add: ledger_sum_def sy)
      then show ?thesis
        using u [of k] mv(7) [of k] inv_okD(3) [OF assms(1), of k] 1(4,5)
        by (simp add: ledger_gap_def onhand_sum_def sy mv(1) ledger_sum_def)
    qed
  qed
qed

end
