(* ===== verification/Inventory_Reserve.thy ===== *)
theory Inventory_Reserve
  imports Inventory_Stock
begin

text \<open>
  Cart reservation: \<open>reserveCartLine\<close> and \<open>reserveCartStock\<close> keep the accounting invariant, and a
  successful call leaves an active reservation of exactly the requested quantity for every line.
\<close>

section \<open>Moving reserved quantity and writing the reservation\<close>

lemma move_reserved_ok:
  assumes ok: "structure_ok db" and m: "move_reserved now w v d db = Inr db'"
    and neg: "- d \<le> reserved_sum db (w, v)"
  shows "structure_ok db' \<and> gap db' k = gap db k + (if k = (w, v) then d else 0) \<and>
    onhand_sum db' k = onhand_sum db k \<and> reservations db' = reservations db \<and>
    movements db' = movements db"
proof -
  consider "d > 0" | "d < 0" | "d = 0" by linarith
  then show ?thesis
  proof cases
    case 1
    with m have "take_available now w v d db = (1, db')"
      by (auto simp: move_reserved_def split: prod.splits if_splits)
    from take_available_ok [OF ok this] 1 show ?thesis by simp
  next
    case 2
    obtain h where h: "releaseReservedQuantity now w v (- d) db = (h, db')"
      using m 2 by (cases "releaseReservedQuantity now w v (- d) db")
        (simp add: move_reserved_def)
    note r = releaseReservedQuantity_ok [OF ok h _ neg] and f = releaseReservedQuantity_frame [OF h]
    from r(2) r(3) [of k] r(4) [of k] f 2 show ?thesis by simp
  next
    case 3
    with m ok show ?thesis by (simp add: move_reserved_def)
  qed
qed

definition reserved_row ::
    "inv_db \<Rightarrow> string \<Rightarrow> ident \<Rightarrow> ident \<Rightarrow> ident \<Rightarrow> ident \<Rightarrow> int \<Rightarrow> bool" where
  "reserved_row db key c i w v q =
     (\<exists>r\<in>set (reservations db). r_key r = Some key \<and> r_status r = R_ACTIVE \<and>
        r_cartId r = Some c \<and> r_cartItemId r = Some i \<and> r_warehouseId r = w \<and>
        r_variantId r = v \<and> r_quantity r = q)"

lemma write_reservation_ok:
  assumes ok: "structure_ok db" and q: "0 < q" and v: "CHR '':'' \<notin> set v"
    and key: "key = buildCartReservationIdempotencyKey c i v"
    and ex: "\<And>e. existing = Some e \<Longrightarrow> x \<in> set (reservations db) \<and> r_id x = r_id e \<and> r_key x = Some key"
    and wr: "write_reservation gen now existing w v q c i expires key db = Inr (rid, db')"
  shows "structure_ok db' \<and>
    gap db' k = gap db k + (if existing = None then 0 else act x k) - (if k = (w, v) then q else 0) \<and>
    onhand_sum db' k = onhand_sum db k \<and> movements db' = movements db \<and>
    reserved_row db' key c i w v q"
proof (cases existing)
  case None
  let ?r = "\<lparr>r_id = rid, r_warehouseId = w, r_variantId = v, r_quantity = q,
             r_status = R_ACTIVE, r_cartId = Some c, r_cartItemId = Some i,
             r_orderId = None, r_expiresAt = Some expires, r_consumedAt = None,
             r_releasedAt = None, r_key = Some key, r_createdAt = now\<rparr>"
  note cr = create_reservation_Inr [OF wr [unfolded write_reservation_def None option.case]]
  from cr(1) have db': "db' = db\<lparr>reservations := reservations db @ [?r]\<rparr>" by simp
  note new = cr(2)
  have "reservation_ok ?r"
    using q v by (simp add: reservation_ok_def key_ok_def key last_segment_cart_key)
  note a = append_reservation_row [OF ok new _ this db']
  from a(1) a(2) [of k] None show ?thesis
    by (auto simp: act_def r_at_def db' onhand_sum_def reserved_row_def)
next
  case (Some e)
  let ?f = "\<lambda>r. r\<lparr>r_warehouseId := w, r_variantId := v, r_quantity := q,
             r_status := R_ACTIVE, r_cartId := Some c, r_cartItemId := Some i,
             r_orderId := None, r_expiresAt := Some expires, r_consumedAt := None,
             r_releasedAt := None\<rparr>"
  note x = ex [OF Some]
  from wr Some have "update_reservation (r_id e) ?f db = Inr db'"
    by (auto simp: write_reservation_def)
  from update_reservation_Inr(1) [OF this] x
  have db': "db' = db\<lparr>reservations := update_where (\<lambda>r. r_id r = r_id x) ?f (reservations db)\<rparr>"
    by simp
  have fx: "reservation_ok (?f x)"
    using q v x by (simp add: reservation_ok_def key_ok_def key last_segment_cart_key)
  have "reserved_row db' key c i w v q"
    unfolding reserved_row_def db' set_update_where
    using x by (intro bexI [of _ "?f x"]) (auto simp: set_update_where image_iff)
  moreover note wrr = write_reservation_row [OF ok _ _ fx db']
  ultimately show ?thesis
    using wrr(1) wrr(2) [of k] x Some
    by (simp add: act_def r_at_def db' onhand_sum_def)
qed

lemma reserve_core:
  assumes inv: "inv_ok db1" and q: "0 < q" "0 \<le> current" and v: "CHR '':'' \<notin> set v"
    and key: "key = buildCartReservationIdempotencyKey c i v"
    and none: "existing = None \<Longrightarrow> current = 0"
    and row: "\<And>e. existing = Some e \<Longrightarrow> x \<in> set (reservations db1) \<and> r_id x = r_id e \<and>
        r_key x = Some key \<and> (\<forall>k. act x k = (if k = (w, v) then current else 0))"
    and mv: "move_reserved now w v (q - current) db1 = Inr db2"
    and wr: "write_reservation gen now existing w v q c i expires key db2 = Inr (rid, db3)"
  shows "inv_ok db3 \<and> reserved_row db3 key c i w v q"
proof -
  note ok = inv_okD(1) [OF inv]
  have "current \<le> active_sum db1 (w, v)"
  proof (cases existing)
    case None
    then show ?thesis using none active_nonneg [OF ok] by simp
  next
    case (Some e)
    note x = row [OF Some]
    show ?thesis
    proof (cases "current = 0")
      case False
      with x have a: "act x (w, v) = current" "act x (w, v) \<noteq> 0" by simp_all
      then have "r_status x = R_ACTIVE" "r_at x = (w, v)" "r_quantity x = current"
        by (auto simp: act_def split: if_splits)
      with active_member_le [OF ok] x show ?thesis by metis
    qed (use active_nonneg [OF ok] in simp)
  qed
  then have "- (q - current) \<le> reserved_sum db1 (w, v)"
    using inv_okD(2) [OF inv, of "(w, v)"] q by (simp add: gap_def)
  note m = move_reserved_ok [OF ok mv this]
  have row2: "x \<in> set (reservations db2) \<and> r_id x = r_id e \<and> r_key x = Some key"
    if "existing = Some e" for e
    using row [OF that] m by simp
  note w = write_reservation_ok [OF conjunct1 [OF m] q(1) v key row2 wr]
  show ?thesis
  proof (intro conjI inv_okI)
    show "structure_ok db3" using w by blast
    show "gap db3 k = 0" for k
      using w [of k] m [of k] inv_okD(2) [OF inv, of k] none row by (cases existing) auto
    show "ledger_gap db3 k = 0" for k
      using w [of k] m [of k] inv_okD(3) [OF inv, of k]
      by (simp add: ledger_gap_def ledger_sum_def)
    show "reserved_row db3 key c i w v q" using w by blast
  qed
qed



section \<open>One line\<close>

lemma find_row:
  assumes "List.find (\<lambda>r. r_key r = Some key) (reservations db) = Some e"
  shows "e \<in> set (reservations db)" "r_key e = Some key"
  using find_Some_iff_mem [OF assms] by auto

text \<open>
  The release of a reservation held in another warehouse leaves a row with the line's key whose
  active quantity, in the sales warehouse, is the one the code goes on with.
\<close>

lemma reserve_release_stage:
  assumes inv: "inv_ok db" and v: "CHR '':'' \<notin> set v"
    and key: "key = buildCartReservationIdempotencyKey c i v"
    and e: "e \<in> set (reservations db)" "r_key e = Some key"
    and moved: "r_status e = R_ACTIVE" "r_warehouseId e \<noteq> w"
    and rel: "releaseActiveReservation gen now R_RELEASED CART reason actor mk e db = Inr (c', db1)"
  shows "inv_ok db1 \<and> mark R_RELEASED now e \<in> set (reservations db1) \<and>
    (\<forall>k. act (mark R_RELEASED now e) k = 0)"
proof -
  note ok = inv_okD(1) [OF inv]
  have sn: "snap_ok db e" by (rule snap_ok_member [OF ok e(1)])
  have "reservations db1 = update_where (claim e) (mark R_RELEASED now) (reservations db)"
    by (rule release_ok(4) [OF ok _ sn _ rel]) (simp_all add: inv_okD(2) [OF inv])
  then have "mark R_RELEASED now e \<in> set (reservations db1)"
    using e(1) moved(1) by (auto simp: set_update_where intro!: image_eqI [of _ _ e])
  with release_inv [OF inv sn _ rel] show ?thesis by (simp add: act_def)
qed

lemma reserve_kept_act:
  assumes inv: "inv_ok db" and v: "CHR '':'' \<notin> set v"
    and e: "e \<in> set (reservations db)" "r_key e = Some (buildCartReservationIdempotencyKey c i v)"
    and wh: "r_status e = R_ACTIVE \<longrightarrow> r_warehouseId e = w"
  shows "act e k = (if k = (w, v) then if r_status e = R_ACTIVE then r_quantity e else 0 else 0)"
proof -
  have "r_variantId e = v"
    using structure_okD(4) [OF inv_okD(1) [OF inv] e(1)] e(2) v
    by (simp add: reservation_ok_def key_ok_def last_segment_cart_key prefix_cart_key)
  with wh show ?thesis by (auto simp: act_def r_at_def)
qed

lemma active_quantity_pos:
  "inv_ok db \<Longrightarrow> e \<in> set (reservations db) \<Longrightarrow> r_status e = R_ACTIVE \<Longrightarrow> 0 \<le> r_quantity e"
  using structure_okD(4) [OF inv_okD(1)] by (force simp: reservation_ok_def)

text \<open>The part of \<open>reserveCartLine\<close> after the reservation row has been written.\<close>

lemma movement_sync_inv:
  assumes inv: "inv_ok db3"
    and mv: "db5 = db3 \<or> (\<exists>m row. create_movement gen m db3 = Inr (row, db5) \<and> quantityDelta m = 0)"
    and sy: "db6 = db5 \<or> (\<exists>ch. syncVariantStockReadModel v db5 = Inr (ch, db6))"
  shows "inv_ok db6 \<and> reservations db6 = reservations db3 \<and> balances db6 = balances db3"
proof -
  have 5: "balances db5 = balances db3 \<and> reservations db5 = reservations db3 \<and>
      ledger_sum db5 = ledger_sum db3"
    using mv by (auto simp: fun_eq_iff movement_frame)
  have 6: "balances db6 = balances db5 \<and> reservations db6 = reservations db5 \<and>
      ledger_sum db6 = ledger_sum db5"
    using sy by (auto simp: fun_eq_iff ledger_sum_def sync_frame)
  have "structure_ok db6" "gap db6 = gap db3" "ledger_gap db6 = ledger_gap db3"
    using 5 6 inv_okD(1) [OF inv]
    by (simp_all add: structure_ok_def fun_eq_iff gap_def reserved_sum_def active_sum_def
        ledger_gap_def onhand_sum_def)
  with inv_okD(2,3) [OF inv] 5 6 show ?thesis by (auto intro: inv_okI)
qed

lemma record_reserve_movement_Inr:
  assumes "record_reserve_movement gen w v c actor d rid db3 = Inr db4"
  shows "db4 = db3 \<or> (\<exists>m row. create_movement gen m db3 = Inr (row, db4) \<and> quantityDelta m = 0)"
proof (cases "d = 0")
  case True
  with assms show ?thesis by (simp add: record_reserve_movement_def)
next
  case False
  let ?m = "(new_movement w v (if d > 0 then RESERVE else RELEASE) CART)
      \<lparr>quantityAfter := map_option quantityOnHand (balance_at db3 w v),
       m_reservationId := Some rid, m_cartId := Some c, m_actorUserId := actor,
       m_reason := Some (if d > 0 then ''Cart stock reserved'' else ''Cart reservation reduced'')\<rparr>"
  from False assms obtain row where "create_movement gen ?m db3 = Inr (row, db4)"
    by (auto simp: record_reserve_movement_def)
  moreover have "quantityDelta ?m = 0" by simp
  ultimately show ?thesis by blast
qed

lemma reserveCartLine_Inr:
  assumes "reserveCartLine gen now cat c w i v q expires actor db = Inr (out, db')"
  obtains key existing released db1 db2 rid db3 db4 where
    "key = buildCartReservationIdempotencyKey c i v"
    "existing = List.find (\<lambda>r. r_key r = Some key) (reservations db)"
    "release_moved gen now w actor existing db = Inr (released, db1)"
    "move_reserved now w v (q - kept_quantity w existing) db1 = Inr db2"
    "write_reservation gen now existing w v q c i expires key db2 = Inr (rid, db3)"
    "record_reserve_movement gen w v c actor (q - kept_quantity w existing) rid db3 = Inr db4"
    "db' = db4 \<or> (\<exists>ch. syncVariantStockReadModel v db4 = Inr (ch, db'))"
  using assms unfolding reserveCartLine_def Let_def
  by (auto split: if_splits)

lemma reserveCartLine_ok:
  assumes inv: "inv_ok db" and q: "0 < q" and v: "CHR '':'' \<notin> set v"
    and res: "reserveCartLine gen now cat c w i v q expires actor db = Inr (out, db')"
  shows "inv_ok db' \<and> reserved_row db' (buildCartReservationIdempotencyKey c i v) c i w v q"
  using res
proof (cases rule: reserveCartLine_Inr)
  case (1 key existing released db1 db2 rid db3 db4)
  note m4 = record_reserve_movement_Inr [OF 1(6)]
  have "inv_ok db3 \<and> reserved_row db3 key c i w v q"
  proof (cases existing)
    case None
    with 1(3) have "db1 = db" by (simp add: release_moved_def)
    with None inv 1(4,5) q v show ?thesis
      by (intro reserve_core [OF _ q _ v 1(1) _ _ _ 1(5), of db1 0])
        (auto simp: kept_quantity_def)
  next
    case (Some e)
    note e = find_row [OF 1(2) [symmetric, unfolded Some]]
    show ?thesis
    proof (cases "r_status e = R_ACTIVE \<and> r_warehouseId e \<noteq> w")
      case True
      with 1(3) Some have rel: "releaseActiveReservation gen now R_RELEASED CART
          ''Cart reservation warehouse changed'' actor None e db = Inr (released, db1)"
        by (simp add: release_moved_def)
      note st = reserve_release_stage [OF inv v 1(1) e _ _ rel]
      from True st 1(4,5) Some e(2) show ?thesis
        by (intro reserve_core [OF _ q _ v 1(1) _ _ _ 1(5),
              where current = 0 and x = "mark R_RELEASED now e"])
          (auto simp: kept_quantity_def)
    next
      case False
      with 1(3) Some have db1: "db1 = db" by (auto simp: release_moved_def)
      from False have kq: "kept_quantity w existing = (if r_status e = R_ACTIVE then r_quantity e else 0)"
        by (auto simp: kept_quantity_def Some)
      have "act e k = (if k = (w, v) then kept_quantity w existing else 0)" for k
        using reserve_kept_act [OF inv v e(1), of c i w k] e(2) False by (simp add: 1(1) kq)
      with kq e inv Some 1(4) active_quantity_pos [OF inv e(1)] show ?thesis
        by (intro reserve_core [OF _ q _ v 1(1) _ _ 1(4) 1(5), where x = e]) (auto simp: db1)
    qed
  qed
  with movement_sync_inv [OF _ m4 1(7)] show ?thesis by (simp add: reserved_row_def 1(1))
qed



section \<open>Rows of other keys\<close>

definition other_rows :: "string \<Rightarrow> inv_db \<Rightarrow> reservation set" where
  "other_rows key db = {x \<in> set (reservations db). r_key x \<noteq> Some key}"

lemma other_rows_update:
  assumes "\<And>x. x \<in> set (reservations db) \<Longrightarrow> P x \<Longrightarrow> r_key x = Some key"
    and "\<And>x. r_key (f x) = r_key x"
    and "reservations db' = update_where P f (reservations db)"
  shows "other_rows key db' = other_rows key db"
  using assms by (auto simp: other_rows_def set_update_where image_iff)

lemma same_id_key:
  "structure_ok db \<Longrightarrow> e \<in> set (reservations db) \<Longrightarrow> x \<in> set (reservations db) \<Longrightarrow>
   r_id x = r_id e \<Longrightarrow> x = e"
  by (auto simp: structure_ok_def distinct_map dest: inj_onD)

lemma release_moved_other:
  assumes inv: "inv_ok db" and e: "\<And>e. existing = Some e \<Longrightarrow> e \<in> set (reservations db) \<and> r_key e = Some key"
    and rel: "release_moved gen now w actor existing db = Inr (released, db1)"
  shows "other_rows key db1 = other_rows key db \<and> structure_ok db1 \<and>
    (\<forall>e. existing = Some e \<longrightarrow> (\<forall>x\<in>set (reservations db1). r_id x = r_id e \<longrightarrow> r_key x = Some key))"
proof (cases existing)
  case None
  with rel inv show ?thesis by (simp add: release_moved_def inv_okD(1))
next
  case (Some e)
  note ok = inv_okD(1) [OF inv] and e' = e [OF Some]
  show ?thesis
  proof (cases "r_status e = R_ACTIVE \<and> r_warehouseId e \<noteq> w")
    case True
    with rel Some have r: "releaseActiveReservation gen now R_RELEASED CART
        ''Cart reservation warehouse changed'' actor None e db = Inr (released, db1)"
      by (simp add: release_moved_def)
    have sn: "snap_ok db e" using snap_ok_member [OF ok] e' by blast
    note R = release_ok [OF ok _ sn _ r]
    have rows: "reservations db1 = update_where (claim e) (mark R_RELEASED now) (reservations db)"
      by (rule R(4)) (simp_all add: inv_okD(2) [OF inv])
    have "other_rows key db1 = other_rows key db"
      by (rule other_rows_update [OF _ _ rows]) (use same_id_key [OF ok] e' in auto)
    moreover have "structure_ok db1" by (rule R(1)) (simp_all add: inv_okD(2) [OF inv])
    moreover have "r_key x = Some key" if "x \<in> set (reservations db)" "r_id x = r_id e" for x
      using same_id_key [OF ok conjunct1 [OF e'] that] e' by simp
    ultimately show ?thesis using Some by (auto simp: rows set_update_where split: if_splits)
  next
    case False
    with rel Some have "db1 = db" by (auto simp: release_moved_def)
    with ok e' Some same_id_key [OF ok] show ?thesis by auto
  qed
qed

lemma write_reservation_other:
  assumes "\<And>e. existing = Some e \<Longrightarrow> (\<forall>x\<in>set (reservations db). r_id x = r_id e \<longrightarrow> r_key x = Some key)"
    and "write_reservation gen now existing w v q c i expires key db = Inr (rid, db')"
  shows "other_rows key db' = other_rows key db"
proof (cases existing)
  case None
  note cr = create_reservation_Inr [OF assms(2) [unfolded write_reservation_def None option.case]]
  show ?thesis by (auto simp: other_rows_def cr(1))
next
  case (Some e)
  from assms(2) Some obtain f where "update_reservation (r_id e) f db = Inr db'"
      "\<And>x. r_key (f x) = r_key x"
    by (auto simp: write_reservation_def)
  from other_rows_update [OF _ this(2) , of db "\<lambda>r. r_id r = r_id e" key db']
    update_reservation_Inr(1) [OF this(1)] assms(1) [OF Some]
  show ?thesis by simp
qed

lemma move_reserved_rows: "move_reserved now w v d db = Inr db' \<Longrightarrow> reservations db' = reservations db"
  by (auto simp: move_reserved_def take_available_def releaseReservedQuantity_def Let_def
      split: if_splits option.splits prod.splits)

lemma reserveCartLine_other:
  assumes inv: "inv_ok db"
    and res: "reserveCartLine gen now cat c w i v q expires actor db = Inr (out, db')"
  shows "other_rows (buildCartReservationIdempotencyKey c i v) db'
       = other_rows (buildCartReservationIdempotencyKey c i v) db"
  using res
proof (cases rule: reserveCartLine_Inr)
  case (1 key existing released db1 db2 rid db3 db4)
  have e: "e \<in> set (reservations db) \<and> r_key e = Some key" if "existing = Some e" for e
    using find_row [OF 1(2) [symmetric, unfolded that]] by blast
  note rm = release_moved_other [OF inv e 1(3)]
  have rows2: "reservations db2 = reservations db1" by (rule move_reserved_rows [OF 1(4)])
  have "other_rows key db3 = other_rows key db2"
    by (rule write_reservation_other [OF _ 1(5)]) (use rm rows2 in auto)
  moreover have "reservations db4 = reservations db3"
    using record_reserve_movement_Inr [OF 1(6)] by (auto simp: movement_frame)
  moreover have "reservations db' = reservations db4"
    using 1(7) by (auto simp: sync_frame)
  ultimately show ?thesis using rm rows2 by (simp add: other_rows_def 1(1))
qed



section \<open>The whole cart\<close>

lemma reserve_line_Inr:
  assumes "reserve_line gen now cat c w expires actor (acc, db) l = Inr (acc', db')"
  obtains v out where "l_variantId l = Some v"
    "reserveCartLine gen now cat c w (l_cartItemId l) v (l_quantity l) expires actor db = Inr (out, db')"
  using assms by (cases acc) (auto simp: reserve_line_def split: option.splits)

definition line_key :: "ident \<Rightarrow> line \<Rightarrow> string" where
  "line_key c l = buildCartReservationIdempotencyKey c (l_cartItemId l)
     (case l_variantId l of None \<Rightarrow> [] | Some v \<Rightarrow> v)"

definition good_line :: "line \<Rightarrow> bool" where
  "good_line l = (0 < l_quantity l \<and> (case l_variantId l of None \<Rightarrow> True
     | Some v \<Rightarrow> CHR '':'' \<notin> set v))"

definition line_reserved :: "inv_db \<Rightarrow> ident \<Rightarrow> ident \<Rightarrow> line \<Rightarrow> bool" where
  "line_reserved db c w l = (case l_variantId l of None \<Rightarrow> False
     | Some v \<Rightarrow> reserved_row db (line_key c l) c (l_cartItemId l) w v (l_quantity l))"

lemma reserve_line_ok:
  assumes inv: "inv_ok db" and g: "good_line l"
    and r: "reserve_line gen now cat c w expires actor (acc, db) l = Inr (acc', db')"
  shows "inv_ok db' \<and> line_reserved db' c w l \<and>
    other_rows (line_key c l) db' = other_rows (line_key c l) db"
  using r
proof (cases rule: reserve_line_Inr)
  case (1 v out)
  with g have "0 < l_quantity l" "CHR '':'' \<notin> set v" by (auto simp: good_line_def)
  from reserveCartLine_ok [OF inv this 1(2)] reserveCartLine_other [OF inv 1(2)] 1(1)
  show ?thesis by (simp add: line_reserved_def line_key_def)
qed

lemma line_reserved_other:
  assumes "other_rows key db' = other_rows key db" "line_reserved db c w l" "line_key c l \<noteq> key"
  shows "line_reserved db' c w l"
proof -
  from assms(2) obtain v r where v: "l_variantId l = Some v" and r: "r \<in> set (reservations db)"
      "r_key r = Some (line_key c l)" "r_status r = R_ACTIVE" "r_cartId r = Some c"
      "r_cartItemId r = Some (l_cartItemId l)" "r_warehouseId r = w" "r_variantId r = v"
      "r_quantity r = l_quantity l"
    by (auto simp: line_reserved_def reserved_row_def split: option.splits)
  with assms(3) have "r \<in> other_rows key db" by (simp add: other_rows_def)
  then have "r \<in> set (reservations db')" unfolding assms(1) [symmetric] by (simp add: other_rows_def)
  with v r show ?thesis by (auto simp: line_reserved_def reserved_row_def)
qed

text \<open>An active reservation of the cart that no line asked for.\<close>

definition stray :: "ident \<Rightarrow> string list \<Rightarrow> reservation \<Rightarrow> bool" where
  "stray c keys r \<longleftrightarrow> r_status r = R_ACTIVE \<and> r_cartId r = Some c \<and> r_key r \<notin> Some ` set keys"

lemma reserve_lines_ok:
  assumes "foldE (reserve_line gen now cat c w expires actor) (acc, db) ls = Inr (acc', db')"
    and "inv_ok db" "list_all good_line ls" "distinct (map (line_key c) ls)"
    and "line_key c ` set ls \<subseteq> set keys" "\<forall>r\<in>set (reservations db). \<not> stray c keys r"
  shows "inv_ok db' \<and> list_all (line_reserved db' c w) ls \<and>
    (\<forall>l'. line_reserved db c w l' \<longrightarrow> line_key c l' \<notin> line_key c ` set ls \<longrightarrow> line_reserved db' c w l') \<and>
    (\<forall>r\<in>set (reservations db'). \<not> stray c keys r)"
  using assms
proof (induction ls arbitrary: acc db)
  case Nil
  then show ?case by simp
next
  case (Cons l ls)
  from Cons.prems(1) obtain acc1 db1 where
      s: "reserve_line gen now cat c w expires actor (acc, db) l = Inr (acc1, db1)"
      and f: "foldE (reserve_line gen now cat c w expires actor) (acc1, db1) ls = Inr (acc', db')"
    by (auto simp: split_paired_all)
  from Cons.prems(3) have "good_line l" by simp
  note st = reserve_line_ok [OF Cons.prems(2) this s]
  have "\<not> stray c keys r" if "r \<in> set (reservations db1)" for r
  proof (cases "r_key r = Some (line_key c l)")
    case True
    with Cons.prems(5) show ?thesis by (auto simp: stray_def)
  next
    case False
    with that st have "r \<in> other_rows (line_key c l) db" by (auto simp: other_rows_def)
    then have "r \<in> set (reservations db)" by (simp add: other_rows_def)
    with Cons.prems(6) show ?thesis by blast
  qed
  then have IH: "inv_ok db' \<and> list_all (line_reserved db' c w) ls \<and>
    (\<forall>l'. line_reserved db1 c w l' \<longrightarrow> line_key c l' \<notin> line_key c ` set ls \<longrightarrow> line_reserved db' c w l') \<and>
    (\<forall>r\<in>set (reservations db'). \<not> stray c keys r)"
    using Cons.IH [OF f] st Cons.prems(3-5) by auto
  have "line_reserved db' c w l" using IH st Cons.prems(4) by auto
  moreover have "line_reserved db' c w l'"
    if "line_reserved db c w l'" "line_key c l' \<notin> line_key c ` set (l # ls)" for l'
    using IH line_reserved_other [OF conjunct2 [OF conjunct2 [OF st]] that(1)] that(2) by auto
  ultimately show ?case using IH by auto
qed


lemma release_unwanted_Inr:
  assumes "release_unwanted gen now keys actor (acc, db) r = Inr (acc', db')"
  obtains (kept) k where "r_key r = Some k" "k \<in> set keys" "db' = db"
  | (released) ch where "releaseActiveReservation gen now R_RELEASED CART
      ''Cart reservation refreshed'' actor None r db = Inr (ch, db')"
proof -
  consider k where "r_key r = Some k" "k \<in> set keys" "db' = db"
    | "release_one gen now ''Cart reservation refreshed'' actor (acc, db) r = Inr (acc', db')"
    using assms by (auto simp: release_unwanted_def split: option.splits if_splits)
  then show thesis by cases (use that release_one_Inr in blast)+
qed

lemma release_unwanted_ok:
  assumes "foldE (release_unwanted gen now keys actor) (acc, db) rs = Inr (acc', db')"
    and "releasing rs db"
    and "\<forall>x\<in>set (reservations db). stray c keys x \<longrightarrow> r_id x \<in> r_id ` set rs"
  shows "inv_ok db' \<and> (\<forall>x\<in>set (reservations db'). \<not> stray c keys x)"
  using assms
proof (induction rs arbitrary: acc db)
  case Nil
  then show ?case by (auto simp: releasing_def)
next
  case (Cons r rs)
  from Cons.prems(1) obtain acc1 db1 where
      s: "release_unwanted gen now keys actor (acc, db) r = Inr (acc1, db1)"
      and f: "foldE (release_unwanted gen now keys actor) (acc1, db1) rs = Inr (acc', db')"
    by (auto simp: split_paired_all)
  have sn: "snap_ok db r" "inv_ok db" using Cons.prems(2) by (auto simp: releasing_def)
  have "releasing rs db1 \<and> (\<forall>x\<in>set (reservations db1). stray c keys x \<longrightarrow> r_id x \<in> r_id ` set rs)"
    using s
  proof (cases rule: release_unwanted_Inr)
    case (kept k)
    have "r_id x \<noteq> r_id r" if "x \<in> set (reservations db)" "stray c keys x" for x
      using sn(1) that kept by (auto simp: snap_ok_def stray_def)
    with kept Cons.prems(2,3) show ?thesis by (auto simp: releasing_def)
  next
    case (released ch)
    have rl: "releasing (r # rs) db1"
      by (rule releasing_release [OF Cons.prems(2) _ _ released]) simp_all
    have rows: "reservations db1 = update_where (claim r) (mark R_RELEASED now) (reservations db)"
      by (rule release_ok(4) [OF inv_okD(1) [OF sn(2)] _ sn(1) _ released])
        (simp_all add: inv_okD(2) [OF sn(2)])
    have "r_id x \<in> r_id ` set rs" if "x \<in> set (reservations db1)" "stray c keys x" for x
    proof -
      from that rows have "x \<in> set (reservations db)" "r_id x \<noteq> r_id r"
        by (auto simp: set_update_where stray_def split: if_splits)
      with Cons.prems(3) that(2) show ?thesis by auto
    qed
    with rl show ?thesis by (auto simp: releasing_def)
  qed
  then show ?case using Cons.IH [OF f] by blast
qed

lemma desired_keys_lines:
  "\<forall>l\<in>set ls. has_variant l \<Longrightarrow> set (desired_keys c ls) = line_key c ` set ls"
  by (force simp: desired_keys_def line_key_def has_variant_def split: option.splits)

lemma reserveCartStock_Inr:
  assumes "reserveCartStock gen now cat c lines expires actor db = Inr (res, db')"
    and "\<exists>l\<in>set lines. l_quantity l > 0"
  obtains w acc1 db1 acc2 where
    "findSalesWarehouse cat db = Inr w"
    "\<forall>l\<in>set (filter (\<lambda>l. l_quantity l > 0) lines). has_variant l"
    "foldE (release_unwanted gen now (desired_keys c (filter (\<lambda>l. l_quantity l > 0) lines)) actor)
       ((0, [], []), db) (active_cart_reservations db c) = Inr (acc1, db1)"
    "foldE (reserve_line gen now cat c w expires actor) ((0, snd acc1), db1)
       (filter (\<lambda>l. l_quantity l > 0) lines) = Inr (acc2, db')"
    "res_warehouseId res = Some w" "reservedLines res = fst acc2"
proof -
  have ne: "filter (\<lambda>l. l_quantity l > 0) lines \<noteq> []"
    using assms(2) by (auto simp: filter_empty_conv)
  from assms(1) ne obtain w where w: "findSalesWarehouse cat db = Inr w"
    by (auto simp: reserveCartStock_def Let_def split: sum.splits)
  from assms(1) ne w that show thesis
    by (auto simp: reserveCartStock_def Let_def split: if_splits)
qed

text \<open>What the lines of a cart must satisfy for the accounting: identifiers have no colon.\<close>

definition lines_ok :: "ident \<Rightarrow> line list \<Rightarrow> bool" where
  "lines_ok c lines \<longleftrightarrow> (let ls = filter (\<lambda>l. l_quantity l > 0) lines in
     list_all good_line ls \<and> distinct (map (line_key c) ls))"

lemma releasing_active_cart:
  assumes "inv_ok db"
  shows "releasing (active_cart_reservations db c) db"
    "\<forall>x\<in>set (reservations db). stray c keys x \<longrightarrow> r_id x \<in> r_id ` set (active_cart_reservations db c)"
  using releasing_start [OF assms active_cart_reservations_subset]
  by (auto simp: active_cart_reservations_def stray_def)

lemma reserveCartStock_ok:
  assumes inv: "inv_ok db" and ok: "lines_ok c lines" and some: "\<exists>l\<in>set lines. l_quantity l > 0"
    and res: "reserveCartStock gen now cat c lines expires actor db = Inr (r, db')"
  shows "inv_ok db' \<and> (\<exists>w. res_warehouseId r = Some w \<and>
      (\<forall>l\<in>set lines. l_quantity l > 0 \<longrightarrow> line_reserved db' c w l)) \<and>
    (\<forall>x\<in>set (reservations db'). r_status x = R_ACTIVE \<longrightarrow> r_cartId x = Some c \<longrightarrow>
       (\<exists>l\<in>set lines. l_quantity l > 0 \<and> r_key x = Some (line_key c l)))"
  using res some
proof (cases rule: reserveCartStock_Inr)
  case (1 w acc1 db1 acc2)
  let ?ls = "filter (\<lambda>l. l_quantity l > 0) lines" and ?keys = "desired_keys c (filter (\<lambda>l. l_quantity l > 0) lines)"
  note keys = desired_keys_lines [OF 1(2), of c]
  note u = release_unwanted_ok [OF 1(3) releasing_active_cart [OF inv]]
  from reserve_lines_ok [OF 1(4), of ?keys] u ok keys
  have "inv_ok db' \<and> list_all (line_reserved db' c w) ?ls \<and>
      (\<forall>r\<in>set (reservations db'). \<not> stray c ?keys r)"
    by (auto simp: lines_ok_def Let_def)
  with 1(5) keys show ?thesis by (auto simp: list_all_iff stray_def)
qed

lemma reserveCartStock_inv:
  assumes inv: "inv_ok db" and ok: "lines_ok c lines"
    and res: "reserveCartStock gen now cat c lines expires actor db = Inr (r, db')"
  shows "inv_ok db'"
proof (cases "\<exists>l\<in>set lines. l_quantity l > 0")
  case True
  from reserveCartStock_ok [OF inv ok True res] show ?thesis by blast
next
  case False
  then have "filter (\<lambda>l. l_quantity l > 0) lines = []" by (auto simp: filter_empty_conv)
  with res obtain rel where "releaseCartReservations gen now (Some cat) c
      ''Cart reservation refreshed'' actor db = Inr (rel, db')"
    by (auto simp: reserveCartStock_def Let_def)
  from releaseCart_inv [OF inv this] show ?thesis .
qed

end
