(* ===== verification/Inventory_Sale.thy ===== *)
theory Inventory_Sale
  imports Inventory_Reserve
begin

text \<open>
  Consumption of stock by a completed order: the accounting invariant, the exact amount taken,
  idempotence, and the guarantee that a reserved line is not rejected for lack of stock.
\<close>

section \<open>The plan\<close>

definition used_at :: "ident \<Rightarrow> consumption list \<Rightarrow> int" where
  "used_at w used = sum_where (\<lambda>c. r_warehouseId (fst c) = w) snd used"

definition group_at :: "ident \<Rightarrow> groups \<Rightarrow> int" where
  "group_at w gs = sum_where (\<lambda>g. fst g = w) (fst \<circ> snd) gs"

definition used_total :: "consumption list \<Rightarrow> int" where
  "used_total used = sum_list (map snd used)"

definition group_total :: "groups \<Rightarrow> int" where
  "group_total gs = sum_list (map (fst \<circ> snd) gs)"

lemma map_set_fresh: "map_get m k = None \<Longrightarrow> map_set k v m = m @ [(k, v)]"
  by (induction m) (auto simp: map_get_def split: if_splits)

lemma group_at_map_set:
  "group_at w (map_set k g gs) = group_at w gs
     + (if w = k then fst g - (case map_get gs k of None \<Rightarrow> 0 | Some g0 \<Rightarrow> fst g0) else 0)"
  by (induction gs) (auto simp: group_at_def map_get_def table_simps split: option.splits)

lemma group_total_map_set:
  "group_total (map_set k g gs) = group_total gs
     + fst g - (case map_get gs k of None \<Rightarrow> 0 | Some g0 \<Rightarrow> fst g0)"
  by (induction gs) (auto simp: group_total_def map_get_def split: option.splits)

lemma add_to_group_sums:
  "group_at w (add_to_group r q gs) = group_at w gs + (if r_warehouseId r = w then q else 0)"
  "group_total (add_to_group r q gs) = group_total gs + q"
  "distinct (map fst gs) \<Longrightarrow> distinct (map fst (add_to_group r q gs))"
  by (auto simp: add_to_group_def group_at_map_set group_total_map_set distinct_map_set
      split: option.splits)

definition groups_pos :: "groups \<Rightarrow> bool" where
  "groups_pos gs \<longleftrightarrow> (\<forall>g\<in>set gs. 0 < fst (snd g))"

lemma set_map_set_subset: "set (map_set k v m) \<subseteq> insert (k, v) (set m)"
  by (induction m) (auto split: if_splits)

lemma add_to_group_pos:
  assumes "groups_pos gs" "0 < q"
  shows "groups_pos (add_to_group r q gs)"
proof -
  have "0 < q0" if "map_get gs w = Some (q0, i)" for w q0 i
    using assms(1) map_of_SomeD that by (fastforce simp: groups_pos_def map_get_def)
  with assms set_map_set_subset show ?thesis
    unfolding groups_pos_def add_to_group_def
    by (fastforce split: option.splits)
qed

text \<open>What the planning loop has computed, whatever it started from.\<close>

definition plan_ok :: "reservation list \<Rightarrow> int \<Rightarrow> consumption list \<times> groups \<times> int \<Rightarrow> bool" where
  "plan_ok rs quantity p \<longleftrightarrow> (case p of (used, gs, remaining) \<Rightarrow>
     (\<forall>c\<in>set used. fst c \<in> set rs \<and> 0 < snd c \<and> snd c \<le> r_quantity (fst c)) \<and>
     distinct (map (r_id \<circ> fst) used) \<and>
     used_total used + remaining = quantity \<and> 0 \<le> remaining \<and>
     (\<forall>w. group_at w gs = used_at w used) \<and> group_total gs = used_total used \<and>
     distinct (map fst gs) \<and> groups_pos gs)"

lemma plan_step:
  assumes "plan_ok rs quantity (used, gs, remaining)" "r \<in> set rs"
    "r_id r \<notin> r_id ` fst ` set used" "0 < q" "q \<le> r_quantity r" "q \<le> remaining"
  shows "plan_ok rs quantity (used @ [(r, q)], add_to_group r q gs, remaining - q)"
  using assms add_to_group_pos [of gs q r] add_to_group_sums
  by (auto simp: plan_ok_def used_total_def used_at_def table_simps image_iff)

lemma plan_consumption_ok:
  assumes "plan_ok (done @ rs) quantity (used, gs, remaining)"
    and "fst ` set used \<subseteq> set done" "distinct (map r_id (done @ rs))"
  shows "plan_ok (done @ rs) quantity (plan_consumption rs remaining used gs)"
  using assms
proof (induction rs remaining used gs arbitrary: "done" rule: plan_consumption.induct)
  case (1 remaining used groups)
  then show ?case by simp
next
  case (2 r rs remaining used groups)
  define q where "q = min remaining (r_quantity r)"
  have rec: "plan_consumption (r # rs) remaining used groups =
      (if remaining \<le> 0 then (used, groups, remaining)
       else if q \<le> 0 then plan_consumption rs remaining used groups
       else plan_consumption rs (remaining - q) (used @ [(r, q)]) (add_to_group r q groups))"
    by (simp only: plan_consumption.simps Let_def q_def)
  consider "remaining \<le> 0" | "0 < remaining" "q \<le> 0" | "0 < remaining" "0 < q" by linarith
  then show ?case
  proof cases
    case c1: 1
    with 2(3) rec show ?thesis by simp
  next
    case c2: 2
    have "plan_ok ((done @ [r]) @ rs) quantity (plan_consumption rs remaining used groups)"
      by (rule 2(1) [OF _ q_def]) (use c2 2(3-5) in auto)
    with c2 rec show ?thesis by simp
  next
    case c3: 3
    have le: "q \<le> r_quantity r" "q \<le> remaining" by (auto simp: q_def)
    have "plan_ok (done @ r # rs) quantity (used @ [(r, q)], add_to_group r q groups, remaining - q)"
      by (rule plan_step) (use le c3 2(3-5) in auto)
    then have "plan_ok ((done @ [r]) @ rs) quantity
        (plan_consumption rs (remaining - q) (used @ [(r, q)]) (add_to_group r q groups))"
      by (intro 2(2) [OF _ q_def]) (use c3 2(4,5) in auto)
    with c3 rec show ?thesis by simp
  qed
qed

lemma plan_consumption_start:
  assumes "0 \<le> quantity" "distinct (map r_id rs)"
  shows "plan_ok rs quantity (plan_consumption rs quantity [] [])"
  using plan_consumption_ok [of "[]" rs quantity "[]" "[]" quantity] assms
  by (simp add: plan_ok_def used_total_def group_total_def group_at_def used_at_def groups_pos_def
      table_simps)

lemma plan_covers:
  "plan_consumption rs quantity used gs = (used', gs', remaining) \<Longrightarrow> 0 \<le> quantity \<Longrightarrow>
   (\<forall>r\<in>set rs. 0 \<le> r_quantity r) \<Longrightarrow> remaining = max 0 (quantity - sum_list (map r_quantity rs))"
proof (induction rs quantity used gs rule: plan_consumption.induct)
  case (2 r rs quantity used groups)
  have s: "0 \<le> sum_list (map r_quantity rs)" using 2(5) by (intro sum_list_nonneg) auto
  consider "quantity \<le> 0" | "0 < quantity" "min quantity (r_quantity r) \<le> 0"
    | "0 < quantity" "0 < min quantity (r_quantity r)" by linarith
  then show ?case
  proof cases
    case 1
    with 2(3-5) s show ?thesis by simp
  next
    case c: 2
    then have "r_quantity r = 0" using 2(5) by auto
    with c 2 show ?thesis by (simp add: Let_def)
  next
    case c: 3
    from 2(3) c have p: "plan_consumption rs (quantity - min quantity (r_quantity r))
        (used @ [(r, min quantity (r_quantity r))])
        (add_to_group r (min quantity (r_quantity r)) groups) = (used', gs', remaining)"
      by (simp add: Let_def)
    from 2(2) [OF _ refl _ p] c 2(4,5)
    have "remaining = max 0 (quantity - min quantity (r_quantity r) - sum_list (map r_quantity rs))"
      by simp
    with s show ?thesis by (auto simp: min_def max_def)
  qed
qed simp



section \<open>Marking the reservations\<close>

lemma consume_reservation_ok:
  assumes ok: "structure_ok db" and r: "r \<in> set (reservations db)" "r_status r = R_ACTIVE"
    "r_variantId r = v" and q: "0 < q" "q \<le> r_quantity r"
    and c: "consume_reservation gen now ord cart item v (buildSaleIdempotencyKey ord item) (ids, db) (r, q)
              = Inr (ids', db')"
  shows "structure_ok db' \<and> gap db' k = gap db k + (if k = (r_warehouseId r, v) then q else 0) \<and>
    balances db' = balances db \<and> movements db' = movements db \<and>
    (\<forall>x\<in>set (reservations db). r_id x \<noteq> r_id r \<longrightarrow> x \<in> set (reservations db'))"
proof (cases "q \<ge> r_quantity r")
  case True
  let ?f = "\<lambda>x. x\<lparr>r_status := R_CONSUMED, r_orderId := Some ord, r_consumedAt := Some now\<rparr>"
  from True c have "update_reservation (r_id r) ?f db = Inr db'"
    by (auto simp: consume_reservation_def)
  note db' = update_reservation_Inr(1) [OF this]
  have "reservation_ok (?f r)"
    using structure_okD(4) [OF ok r(1)]
    by (auto simp: reservation_ok_def key_ok_def split: option.splits)
  note w = write_reservation_row [OF ok r(1) _ this db']
  from w(1) w(2) [of k] True r q show ?thesis
    by (auto simp: act_def r_at_def db' set_update_where)
next
  case False
  let ?f = "\<lambda>x. x\<lparr>r_quantity := r_quantity r - q\<rparr>"
  let ?n = "\<lambda>i. \<lparr>r_id = i, r_warehouseId = r_warehouseId r, r_variantId = v, r_quantity = q,
      r_status = R_CONSUMED, r_cartId = Some cart, r_cartItemId = Some item,
      r_orderId = Some ord, r_expiresAt = Some now, r_consumedAt = Some now,
      r_releasedAt = None,
      r_key = Some (buildSaleIdempotencyKey ord item @ '':reserved-part:'' @ r_id r),
      r_createdAt = now\<rparr>"
  from False c obtain db1 i where u: "update_reservation (r_id r) ?f db = Inr db1"
      and cr: "create_reservation gen (?n []) db1 = Inr (i, db')"
    by (auto simp: consume_reservation_def)
  note db1 = update_reservation_Inr(1) [OF u] and db' = create_reservation_Inr [OF cr]
  have "reservation_ok (?f r)"
    using structure_okD(4) [OF ok r(1)] False
    by (auto simp: reservation_ok_def key_ok_def split: option.splits)
  note w = write_reservation_row [OF ok r(1) _ this db1]
  have "reservation_ok (?n i)"
    using sale_key_not_cart by (simp add: reservation_ok_def key_ok_def)
  note a = append_reservation_row [OF w(1) db'(2) _ this]
  have "structure_ok db'" "gap db' k = gap db1 k" using a(1) a(2) [of db' k] db'(1)
    by (simp_all add: act_def)
  with w(2) [of k] r False show ?thesis
    by (auto simp: act_def r_at_def db'(1) db1 set_update_where)
qed

definition marking :: "ident \<Rightarrow> consumption list \<Rightarrow> inv_db \<Rightarrow> bool" where
  "marking v used db \<longleftrightarrow> structure_ok db \<and> distinct (map (r_id \<circ> fst) used) \<and>
     (\<forall>c\<in>set used. fst c \<in> set (reservations db) \<and> r_status (fst c) = R_ACTIVE \<and>
        r_variantId (fst c) = v \<and> 0 < snd c \<and> snd c \<le> r_quantity (fst c))"

lemma consume_reservations_ok:
  assumes "foldE (consume_reservation gen now ord cart item v (buildSaleIdempotencyKey ord item))
      (ids, db) used = Inr (ids', db')" and "marking v used db"
  shows "structure_ok db' \<and> (\<forall>k. gap db' k = gap db k + (if snd k = v then used_at (fst k) used else 0)) \<and>
    balances db' = balances db \<and> movements db' = movements db"
  using assms
proof (induction used arbitrary: ids db)
  case Nil
  then show ?case by (auto simp: marking_def used_at_def table_simps)
next
  case (Cons c used)
  obtain r q where c: "c = (r, q)" by (cases c)
  from Cons.prems(1) c obtain ids1 db1 where
      s: "consume_reservation gen now ord cart item v (buildSaleIdempotencyKey ord item) (ids, db) (r, q)
            = Inr (ids1, db1)"
      and f: "foldE (consume_reservation gen now ord cart item v (buildSaleIdempotencyKey ord item))
            (ids1, db1) used = Inr (ids', db')"
    by (auto simp: split_paired_all)
  have m: "structure_ok db" "r \<in> set (reservations db)" "r_status r = R_ACTIVE" "r_variantId r = v"
    "0 < q" "q \<le> r_quantity r" using Cons.prems(2) c by (auto simp: marking_def)
  note st = consume_reservation_ok [OF m s]
  have "r_id (fst d) \<noteq> r_id r" if "d \<in> set used" for d
    using Cons.prems(2) that c by (force simp: marking_def)
  then have "marking v used db1"
    using Cons.prems(2) st c by (auto simp: marking_def)
  note IH = Cons.IH [OF f this]
  have "gap db' k = gap db k + (if snd k = v then used_at (fst k) (c # used) else 0)" for k
    using IH st [of k] c by (cases k) (auto simp: used_at_def table_simps)
  with IH st show ?case by simp
qed


section \<open>Taking the stock\<close>

lemma createSaleMovement_ok:
  assumes "createSaleMovement gen w v q after rid ord cart actor key db = Inr db'"
  shows "balances db' = balances db" "reservations db' = reservations db"
    "ledger_sum db' k = ledger_sum db k - (if k = (w, v) then q else 0)"
    "Some key \<in> set (map m_key (movements db'))"
    "set (map m_key (movements db)) \<subseteq> set (map m_key (movements db'))"
proof -
  let ?m = "(new_movement w v SALE ORDER)
      \<lparr>quantityDelta := - q, quantityAfter := Some after, m_reservationId := rid,
       m_orderId := Some ord, m_cartId := Some cart, m_actorUserId := actor,
       m_reason := Some ''Completed cart order'', m_key := Some key\<rparr>"
  from assms obtain row where c: "create_movement gen ?m db = Inr (row, db')"
    by (auto simp: createSaleMovement_def)
  note f = movement_frame [OF c] and i = create_movement_Inr [OF c]
  have "m_at ?m = (w, v)" by (simp add: m_at_def new_movement_def)
  with f(7) [of k] show "ledger_sum db' k = ledger_sum db k - (if k = (w, v) then q else 0)"
    by auto
  show "Some key \<in> set (map m_key (movements db'))" using i(1,4) by simp
  show "set (map m_key (movements db)) \<subseteq> set (map m_key (movements db'))" using i(1) by auto
qed (use assms in \<open>auto simp: createSaleMovement_def movement_frame\<close>)

lemma consume_group_ok:
  assumes ok: "structure_ok db" and q: "0 \<le> q"
    and c: "consume_group gen now ord cart v actor key ids ((n, first), db) (w, (q, rid))
              = Inr ((n', first'), db')"
  shows "structure_ok db' \<and> gap db' k = gap db k - (if k = (w, v) then q else 0) \<and>
    ledger_gap db' k = ledger_gap db k \<and> n' = Suc n \<and>
    (\<forall>v'. variant_onhand db' v' = variant_onhand db v' - (if v' = v then q else 0)) \<and>
    reservations db' = reservations db \<and>
    (n = 0 \<longrightarrow> Some key \<in> set (map m_key (movements db'))) \<and>
    set (map m_key (movements db)) \<subseteq> set (map m_key (movements db'))"
proof -
  from c obtain after db1 rid' key' where b: "consumeStockBalance now w v q q 0 db = Inr (after, db1)"
      and m: "createSaleMovement gen w v q after rid' ord cart actor key' db1 = Inr db'"
      and n: "n' = Suc n" "n = 0 \<Longrightarrow> key' = key"
    by (auto simp: consume_group_def split: if_splits)
  note B = consumeStockBalance_ok [OF ok b _ q, simplified]
  note M = createSaleMovement_ok [OF m]
  have "structure_ok db'" using B(1) structure_ok_cong [OF M(1,2)] by simp
  moreover have "gap db' k = gap db k - (if k = (w, v) then q else 0)"
    using B(2) [of k] gap_cong [OF M(1,2)] by simp
  moreover have "ledger_gap db' k = ledger_gap db k"
    using B(3) [of k] M(3) [of k] B(5) M(1)
    by (simp add: ledger_gap_def onhand_sum_def ledger_sum_def)
  moreover have "variant_onhand db' v' = variant_onhand db v' - (if v' = v then q else 0)" for v'
    using B(9) [of v'] M(1) by (simp add: variant_onhand_def)
  ultimately show ?thesis using n M(2,4,5) B(4,5) by auto
qed

lemma consume_groups_ok:
  assumes "foldE (consume_group gen now ord cart v actor key ids) ((n, first), db) gs
      = Inr ((n', first'), db')" and "structure_ok db" "groups_pos gs"
  shows "structure_ok db' \<and> (\<forall>k. gap db' k = gap db k - (if snd k = v then group_at (fst k) gs else 0)) \<and>
    (\<forall>k. ledger_gap db' k = ledger_gap db k) \<and> n' = n + length gs \<and>
    (\<forall>v'. variant_onhand db' v' = variant_onhand db v' - (if v' = v then group_total gs else 0)) \<and>
    reservations db' = reservations db \<and>
    (n = 0 \<longrightarrow> gs \<noteq> [] \<longrightarrow> Some key \<in> set (map m_key (movements db'))) \<and>
    set (map m_key (movements db)) \<subseteq> set (map m_key (movements db'))"
  using assms
proof (induction gs arbitrary: n first db)
  case Nil
  then show ?case by (auto simp: group_at_def group_total_def table_simps)
next
  case (Cons g gs)
  obtain w q rid where g: "g = (w, (q, rid))" by (cases g) auto
  from Cons.prems(1) g obtain n1 first1 db1 where
      s: "consume_group gen now ord cart v actor key ids ((n, first), db) (w, (q, rid))
            = Inr ((n1, first1), db1)"
      and f: "foldE (consume_group gen now ord cart v actor key ids) ((n1, first1), db1) gs
            = Inr ((n', first'), db')"
    by (auto simp: split_paired_all)
  have q: "0 \<le> q" and gp: "groups_pos gs" using Cons.prems(3) g by (auto simp: groups_pos_def)
  note st = consume_group_ok [OF Cons.prems(2) q s]
  note IH = Cons.IH [OF f conjunct1 [OF st] gp]
  have "gap db' k = gap db k - (if snd k = v then group_at (fst k) (g # gs) else 0)" for k
    using IH st [of k] g by (cases k) (auto simp: group_at_def table_simps)
  moreover have "set (map m_key (movements db)) \<subseteq> set (map m_key (movements db'))"
    and "n = 0 \<longrightarrow> Some key \<in> set (map m_key (movements db'))"
    using IH st by blast+
  moreover have "variant_onhand db' v' = variant_onhand db v' - (if v' = v then group_total (g # gs) else 0)"
    and "n' = n + length (g # gs)" for v' using IH st g by (simp_all add: group_total_def)
  ultimately show ?case using IH st by metis
qed


lemma consume_direct_ok:
  assumes ok: "structure_ok db" and q: "0 \<le> q"
    and c: "consume_direct gen now ord cart item v actor (buildSaleIdempotencyKey ord item) w q
              ((n, first), db) = Inr (first', db')"
  shows "structure_ok db' \<and> gap db' k = gap db k \<and> ledger_gap db' k = ledger_gap db k \<and>
    (\<forall>v'. variant_onhand db' v' = variant_onhand db v' - (if v' = v then q else 0)) \<and>
    (n = 0 \<longrightarrow> Some (buildSaleIdempotencyKey ord item) \<in> set (map m_key (movements db'))) \<and>
    set (map m_key (movements db)) \<subseteq> set (map m_key (movements db'))"
proof -
  let ?key = "buildSaleIdempotencyKey ord item"
  let ?n = "\<lambda>i. \<lparr>r_id = i, r_warehouseId = w, r_variantId = v, r_quantity = q,
      r_status = R_CONSUMED, r_cartId = Some cart, r_cartItemId = Some item,
      r_orderId = Some ord, r_expiresAt = Some now, r_consumedAt = Some now,
      r_releasedAt = None, r_key = Some (?key @ '':direct:'' @ w), r_createdAt = now\<rparr>"
  from c obtain rid db1 after db2 key' where cr: "create_reservation gen (?n []) db = Inr (rid, db1)"
      and b: "consumeStockBalance now w v q 0 q db1 = Inr (after, db2)"
      and m: "createSaleMovement gen w v q after (Some rid) ord cart actor key' db2 = Inr db'"
      and n: "n = 0 \<Longrightarrow> key' = ?key"
    by (auto simp: consume_direct_def split: if_splits)
  note C = create_reservation_Inr [OF cr]
  have "reservation_ok (?n rid)"
    using sale_key_not_cart by (simp add: reservation_ok_def key_ok_def)
  note a = append_reservation_row [OF ok C(2) _ this]
  have s1: "structure_ok db1" "gap db1 k = gap db k" for k
    using a(1) a(2) [of db1 k] C(1) by (simp_all add: act_def)
  note B = consumeStockBalance_ok [OF s1(1) b _ _ q, simplified]
  note M = createSaleMovement_ok [OF m]
  have "structure_ok db'" using B(1) structure_ok_cong [OF M(1,2)] by simp
  moreover have "gap db' k = gap db k"
    using B(2) [of k] s1(2) [of k] gap_cong [OF M(1,2)] by simp
  moreover have "ledger_gap db' k = ledger_gap db k"
    using B(3) [of k] M(3) [of k] B(5) M(1) C(1)
    by (simp add: ledger_gap_def onhand_sum_def ledger_sum_def)
  moreover have "variant_onhand db' v' = variant_onhand db v' - (if v' = v then q else 0)" for v'
    using B(9) [of v'] M(1) C(1) by (simp add: variant_onhand_def)
  moreover have "movements db2 = movements db" using B(5) C(1) by simp
  ultimately show ?thesis using n M(4,5) by auto
qed


section \<open>A whole line\<close>

lemma line_reservations_props:
  assumes "structure_ok db"
  shows "r \<in> set (line_reservations db v cart item) \<Longrightarrow>
      r \<in> set (reservations db) \<and> r_status r = R_ACTIVE \<and> r_variantId r = v"
    and "distinct (map r_id (line_reservations db v cart item))"
proof -
  have "distinct (map r_id (filter P (reservations db)))" for P
    using structure_okD(2) [OF assms] by (rule distinct_map_filter)
  then show "distinct (map r_id (line_reservations db v cart item))"
    unfolding line_reservations_def
    by (metis (no_types, lifting) distinct_map distinct_sort set_sort)
qed (auto simp: line_reservations_def)

lemma consume_line_Inr:
  assumes "consumeCompletedOrderLine gen now cat cart ord item v q actor db = Inr (out, db')"
    and "\<forall>m\<in>set (movements db). m_key m \<noteq> Some (buildSaleIdempotencyKey ord item)"
  obtains used gs remaining direct ids db1 n first db2 first' db3 ch where
    "plan_consumption (line_reservations db v cart item) q [] [] = (used, gs, remaining)"
    "(0 < remaining) = (direct \<noteq> None)"
    "foldE (consume_reservation gen now ord cart item v (buildSaleIdempotencyKey ord item))
       ([], db) used = Inr (ids, db1)"
    "foldE (consume_group gen now ord cart v actor (buildSaleIdempotencyKey ord item) ids)
       ((0, None), db1) gs = Inr ((n, first), db2)"
    "case direct of None \<Rightarrow> db3 = db2 | Some w \<Rightarrow>
       consume_direct gen now ord cart item v actor (buildSaleIdempotencyKey ord item) w remaining
         ((n, first), db2) = Inr (first', db3)"
    "syncVariantStockReadModel v db3 = Inr (ch, db')" "snd out = Some ch"
proof -
  obtain used gs remaining where
    p: "plan_consumption (line_reservations db v cart item) q [] [] = (used, gs, remaining)"
    by (cases "plan_consumption (line_reservations db v cart item) q [] []")
  show thesis
  proof (cases "0 < remaining")
    case True
    from assms p True obtain w where "findSalesWarehouse cat db = Inr w"
      by (auto simp: consumeCompletedOrderLine_def Let_def split: if_splits sum.splits)
    with assms p True that [of used gs remaining "Some w"] show thesis
      by (auto simp: consumeCompletedOrderLine_def Let_def split: if_splits)
  next
    case False
    with assms p that [of used gs remaining None] show thesis
      by (auto simp: consumeCompletedOrderLine_def Let_def split: if_splits)
  qed
qed

lemma consume_line_ok:
  assumes inv: "inv_ok db" and q: "0 < q"
    and new: "\<forall>m\<in>set (movements db). m_key m \<noteq> Some (buildSaleIdempotencyKey ord item)"
    and c: "consumeCompletedOrderLine gen now cat cart ord item v q actor db = Inr (out, db')"
  shows "inv_ok db' \<and>
    (\<forall>v'. variant_onhand db' v' = variant_onhand db v' - (if v' = v then q else 0)) \<and>
    Some (buildSaleIdempotencyKey ord item) \<in> set (map m_key (movements db')) \<and>
    set (map m_key (movements db)) \<subseteq> set (map m_key (movements db'))"
  using c new
proof (cases rule: consume_line_Inr)
  case (1 used gs remaining direct ids db1 n first db2 first' db3 ch)
  note ok = inv_okD(1) [OF inv]
  have plan: "plan_ok (line_reservations db v cart item) q (used, gs, remaining)"
    using plan_consumption_start [of q "line_reservations db v cart item"]
      line_reservations_props(2) [OF ok] q 1(1) by simp
  then have pl: "used_total used + remaining = q" "0 \<le> remaining" "\<And>w. group_at w gs = used_at w used"
      "group_total gs = used_total used" "groups_pos gs"
    by (auto simp: plan_ok_def)
  have "marking v used db"
    using plan ok line_reservations_props(1) [OF ok] by (fastforce simp: marking_def plan_ok_def)
  note m = consume_reservations_ok [OF 1(3) this]
  note g = consume_groups_ok [OF 1(4) conjunct1 [OF m] pl(5)]
  have d: "structure_ok db3 \<and> gap db3 k = gap db2 k \<and> ledger_gap db3 k = ledger_gap db2 k \<and>
      (\<forall>v'. variant_onhand db3 v' = variant_onhand db2 v' - (if v' = v then remaining else 0)) \<and>
      (direct \<noteq> None \<longrightarrow> n = 0 \<longrightarrow>
        Some (buildSaleIdempotencyKey ord item) \<in> set (map m_key (movements db3))) \<and>
      set (map m_key (movements db2)) \<subseteq> set (map m_key (movements db3))" for k
  proof (cases direct)
    case None
    with 1(2,5) pl(2) g show ?thesis by auto
  next
    case (Some w)
    with 1(5) have cd: "consume_direct gen now ord cart item v actor
        (buildSaleIdempotencyKey ord item) w remaining ((n, first), db2) = Inr (first', db3)" by simp
    from consume_direct_ok [OF conjunct1 [OF g] pl(2) cd, of k] Some show ?thesis by blast
  qed
  note sy = sync_frame [OF 1(6)]
  have gs: "gs = [] \<Longrightarrow> direct \<noteq> None"
    using 1(2) pl(1,4) q by (auto simp: group_total_def)
  have "inv_ok db3"
  proof (rule inv_okI)
    show "structure_ok db3" using d by blast
    fix k
    from m have "gap db1 k = gap db k + (if snd k = v then used_at (fst k) used else 0)" by blast
    moreover from g have "gap db2 k = gap db1 k - (if snd k = v then group_at (fst k) gs else 0)"
      by blast
    ultimately show "gap db3 k = 0"
      using d [of k] pl(3) inv_okD(2) [OF inv, of k] by simp
    have "ledger_gap db1 k = ledger_gap db k" using m ledger_gap_cong by metis
    moreover from g have "ledger_gap db2 k = ledger_gap db1 k" by blast
    ultimately show "ledger_gap db3 k = 0" using d [of k] inv_okD(3) [OF inv, of k] by simp
  qed
  then have "inv_ok db'"
    using movement_sync_inv [of db3 db3 undefined db' v] 1(6) by blast
  moreover have "variant_onhand db' v' = variant_onhand db v' - (if v' = v then q else 0)" for v'
  proof -
    have "variant_onhand db1 v' = variant_onhand db v'" "variant_onhand db' v' = variant_onhand db3 v'"
      using m sy(1) by (simp_all add: variant_onhand_def)
    with d g pl(1,4) show ?thesis by auto
  qed
  moreover have "Some (buildSaleIdempotencyKey ord item) \<in> set (map m_key (movements db'))"
    using d g gs unfolding sy(3) by (metis add_0 list.size(3) subsetD)
  moreover have "set (map m_key (movements db)) \<subseteq> set (map m_key (movements db'))"
    using d m g unfolding sy(3) by (metis subset_trans)
  ultimately show ?thesis by blast
qed



section \<open>A whole order\<close>

definition sale_key :: "ident \<Rightarrow> line \<Rightarrow> string" where
  "sale_key ord l = buildSaleIdempotencyKey ord (l_cartItemId l)"

definition sold_keys :: "inv_db \<Rightarrow> string option set" where
  "sold_keys db = set (map m_key (movements db))"

lemma consume_line_sold:
  assumes "Some (buildSaleIdempotencyKey ord item) \<in> sold_keys db"
  shows "consumeCompletedOrderLine gen now cat cart ord item v q actor db = Inr ((None, None), db)"
proof -
  from assms have "\<exists>m\<in>set (movements db). m_key m = Some (buildSaleIdempotencyKey ord item)"
    by (auto simp: sold_keys_def)
  then show ?thesis unfolding consumeCompletedOrderLine_def Let_def by (rule if_P)
qed

definition order_line :: "line \<Rightarrow> bool" where
  "order_line l \<longleftrightarrow> has_variant l \<and> 0 < l_quantity l"

lemma consume_line_step:
  assumes inv: "inv_ok db" and l: "order_line l"
    and c: "consume_line gen now cat cart ord actor (acc, db) l = Inr (acc', db')"
  shows "inv_ok db' \<and> Some (sale_key ord l) \<in> sold_keys db' \<and> sold_keys db \<subseteq> sold_keys db' \<and>
    (Some (sale_key ord l) \<notin> sold_keys db \<longrightarrow> (\<forall>v. variant_onhand db' v =
       variant_onhand db v - (if l_variantId l = Some v then l_quantity l else 0)))"
proof -
  from l obtain v where v: "l_variantId l = Some v" by (auto simp: order_line_def has_variant_def split: option.splits)
  with c obtain out where c: "consumeCompletedOrderLine gen now cat cart ord (l_cartItemId l) v
      (l_quantity l) actor db = Inr (out, db')"
    by (cases acc) (auto simp: consume_line_def)
  show ?thesis
  proof (cases "Some (sale_key ord l) \<in> sold_keys db")
    case True
    with c consume_line_sold have "db' = db" by (simp add: sale_key_def)
    with True inv show ?thesis by simp
  next
    case False
    then have "\<forall>m\<in>set (movements db). m_key m \<noteq> Some (buildSaleIdempotencyKey ord (l_cartItemId l))"
      by (force simp: sold_keys_def sale_key_def)
    from consume_line_ok [OF inv _ this c] l v show ?thesis
      by (auto simp: order_line_def sold_keys_def sale_key_def)
  qed
qed

lemma consume_lines_ok:
  assumes "foldE (consume_line gen now cat cart ord actor) (acc, db) ls = Inr (acc', db')"
    and "inv_ok db" "list_all order_line ls"
  shows "inv_ok db' \<and> (\<forall>l\<in>set ls. Some (sale_key ord l) \<in> sold_keys db') \<and> sold_keys db \<subseteq> sold_keys db'"
  using assms
proof (induction ls arbitrary: acc db)
  case (Cons l ls)
  from Cons.prems(1) obtain acc1 db1 where
      s: "consume_line gen now cat cart ord actor (acc, db) l = Inr (acc1, db1)"
      and f: "foldE (consume_line gen now cat cart ord actor) (acc1, db1) ls = Inr (acc', db')"
    by (auto simp: split_paired_all)
  have "order_line l" using Cons.prems(3) by simp
  note st = consume_line_step [OF Cons.prems(2) this s]
  with Cons.IH [OF f] Cons.prems(3) show ?case by auto
qed simp

lemma consume_lines_again:
  assumes "\<forall>l\<in>set ls. Some (sale_key ord l) \<in> sold_keys db"
  shows "\<exists>acc'. foldE (consume_line gen now cat cart ord actor) ((w, vids, cs), db) ls = Inr (acc', db)"
  using assms
proof (induction ls arbitrary: w vids cs)
  case (Cons l ls)
  from Cons.prems have "Some (buildSaleIdempotencyKey ord (l_cartItemId l)) \<in> sold_keys db"
    by (simp add: sale_key_def)
  note s = consume_line_sold [OF this]
  show ?case
    using Cons.IH Cons.prems by (cases "l_variantId l") (simp_all add: consume_line_def s)
qed simp

lemma order_lines_filter:
  "list_all order_line (filter (\<lambda>l. has_variant l \<and> l_quantity l > 0) ls)"
  by (auto simp: list_all_iff order_line_def)

lemma consumeOrder_ok:
  assumes inv: "inv_ok db"
    and c: "consumeCompletedOrderStock gen now cat cart ord lines actor db = Inr (res, db')"
  shows "inv_ok db' \<and> sold_keys db \<subseteq> sold_keys db' \<and>
    (\<forall>l\<in>set (filter (\<lambda>l. has_variant l \<and> l_quantity l > 0) lines). Some (sale_key ord l) \<in> sold_keys db')"
proof -
  from c obtain acc where "foldE (consume_line gen now cat cart ord actor) ((None, [], []), db)
      (filter (\<lambda>l. has_variant l \<and> l_quantity l > 0) lines) = Inr (acc, db')"
    by (auto simp: consumeCompletedOrderStock_def Let_def)
  from consume_lines_ok [OF this inv order_lines_filter] show ?thesis by blast
qed

lemma consumeOrder_again:
  assumes "\<forall>l\<in>set (filter (\<lambda>l. has_variant l \<and> l_quantity l > 0) lines). Some (sale_key ord l) \<in> sold_keys db"
  shows "\<exists>res. consumeCompletedOrderStock gen now cat cart ord lines actor db = Inr (res, db)"
proof -
  from consume_lines_again [OF assms, of gen now cat cart actor None "[]" "[]"] obtain acc where
    "foldE (consume_line gen now cat cart ord actor) ((None, [], []), db)
      (filter (\<lambda>l. has_variant l \<and> l_quantity l > 0) lines) = Inr (acc, db)" by blast
  then show ?thesis by (cases acc) (simp add: consumeCompletedOrderStock_def Let_def)
qed

text \<open>The amount an order asks for, per variant.\<close>

definition ordered :: "line list \<Rightarrow> ident \<Rightarrow> int" where
  "ordered ls v = sum_where (\<lambda>l. l_variantId l = Some v) l_quantity ls"

lemma sale_key_inj: "sale_key ord l = sale_key ord l' \<longleftrightarrow> l_cartItemId l = l_cartItemId l'"
  by (simp add: sale_key_def buildSaleIdempotencyKey_def)

text \<open>The movement keys one line can create extend its sale key after a colon.\<close>

definition own_keys :: "string \<Rightarrow> string option set" where
  "own_keys key = insert (Some key) {Some (key @ CHR '':'' # t) |t. True}"

lemma createSaleMovement_keys:
  "createSaleMovement gen w v q after rid ord cart actor key db = Inr db' \<Longrightarrow>
   sold_keys db' = insert (Some key) (sold_keys db)"
  by (auto simp: createSaleMovement_def sold_keys_def create_movement_def Let_def split: if_splits)

lemma consumeStockBalance_movements:
  "consumeStockBalance now w v t r d db = Inr (after, db') \<Longrightarrow> movements db' = movements db"
  by (auto simp: consumeStockBalance_def Let_def split: option.splits if_splits)

lemma consume_group_keys:
  assumes "consume_group gen now ord cart v actor key ids s g = Inr s'"
  shows "sold_keys (snd s') \<subseteq> sold_keys (snd s) \<union> own_keys key"
proof -
  obtain n first db w q rid where sg: "s = ((n, first), db)" "g = (w, (q, rid))"
    by (cases s, cases g) auto
  obtain after db1 rid' key' db' where b: "consumeStockBalance now w v q q 0 db = Inr (after, db1)"
      and m: "createSaleMovement gen w v q after rid' ord cart actor key' db1 = Inr db'"
      and k: "key' = key \<or> key' = key @ '':reserved:'' @ w" and s': "snd s' = db'"
    using assms sg by (auto simp: consume_group_def split: if_splits)
  have "sold_keys db1 = sold_keys db"
    using consumeStockBalance_movements [OF b] by (simp add: sold_keys_def)
  with createSaleMovement_keys [OF m] k s' sg show ?thesis by (auto simp: own_keys_def)
qed

lemma consume_direct_keys:
  assumes "consume_direct gen now ord cart item v actor key w q s = Inr (first', db')"
  shows "sold_keys db' \<subseteq> sold_keys (snd s) \<union> own_keys key"
proof -
  obtain n first db where sg: "s = ((n, first), db)" by (cases s) auto
  obtain r rid db1 after db2 key' where c: "create_reservation gen r db = Inr (rid, db1)"
      and b: "consumeStockBalance now w v q 0 q db1 = Inr (after, db2)"
      and m: "createSaleMovement gen w v q after (Some rid) ord cart actor key' db2 = Inr db'"
      and k: "key' = key \<or> key' = key @ '':direct:'' @ w"
    using assms sg by (auto simp: consume_direct_def split: if_splits)
  have "sold_keys db2 = sold_keys db"
    using consumeStockBalance_movements [OF b] create_reservation_Inr(1) [OF c]
    by (simp add: sold_keys_def)
  with createSaleMovement_keys [OF m] k sg show ?thesis by (auto simp: own_keys_def)
qed

lemma consume_reservation_movements:
  assumes "consume_reservation gen now ord cart item v key s c = Inr s'"
  shows "movements (snd s') = movements (snd s)"
  using assms
  by (auto simp: consume_reservation_def split: prod.splits if_splits
      dest!: update_reservation_Inr(1) create_reservation_Inr(1))

lemma consume_line_keys:
  assumes "consumeCompletedOrderLine gen now cat cart ord item v q actor db = Inr (out, db')"
  shows "sold_keys db' \<subseteq> sold_keys db \<union> own_keys (buildSaleIdempotencyKey ord item)"
proof (cases "Some (buildSaleIdempotencyKey ord item) \<in> sold_keys db")
  case True
  from consume_line_sold [OF this] assms show ?thesis by auto
next
  case False
  then have new: "\<forall>m\<in>set (movements db). m_key m \<noteq> Some (buildSaleIdempotencyKey ord item)"
    by (force simp: sold_keys_def)
  let ?own = "own_keys (buildSaleIdempotencyKey ord item)"
  from assms new show ?thesis
  proof (cases rule: consume_line_Inr)
    case (1 used gs remaining direct ids db1 n first db2 first' db3 ch)
    have "movements (snd (ids, db1)) = movements db"
      by (rule foldE_invariant [OF 1(3), where I = "\<lambda>s. movements (snd s) = movements db"])
        (use consume_reservation_movements in force)+
    then have "sold_keys db1 = sold_keys db" by (simp add: sold_keys_def)
    moreover have "sold_keys (snd ((n, first), db2)) \<subseteq> sold_keys db1 \<union> ?own"
      by (rule foldE_invariant [OF 1(4), where I = "\<lambda>s. sold_keys (snd s) \<subseteq> sold_keys db1 \<union> ?own"])
        (use consume_group_keys in fastforce)+
    moreover have "sold_keys db3 \<subseteq> sold_keys db2 \<union> ?own"
      using 1(5) consume_direct_keys by (fastforce split: option.splits)
    moreover have "sold_keys db' = sold_keys db3" using sync_frame(3) [OF 1(6)] by (simp add: sold_keys_def)
    ultimately show ?thesis by auto
  qed
qed

lemma own_key_item:
  assumes "Some (buildSaleIdempotencyKey ord item') \<in> own_keys (buildSaleIdempotencyKey ord item)"
    and "CHR '':'' \<notin> set item'"
  shows "item' = item"
  using assms by (auto simp: own_keys_def buildSaleIdempotencyKey_def)

lemma consume_line_frame:
  assumes c: "consume_line gen now cat cart ord actor (acc, db) l = Inr (acc', db')"
    and "l_cartItemId l' \<noteq> l_cartItemId l" "CHR '':'' \<notin> set (l_cartItemId l')"
    and "Some (sale_key ord l') \<notin> sold_keys db"
  shows "Some (sale_key ord l') \<notin> sold_keys db'"
proof -
  have "sold_keys db' \<subseteq> sold_keys db \<union> own_keys (sale_key ord l)"
    using c consume_line_keys by (cases acc) (fastforce simp: consume_line_def sale_key_def split: option.splits)
  with assms(2-4) own_key_item show ?thesis unfolding sale_key_def by blast
qed

lemma consume_lines_amount:
  assumes "foldE (consume_line gen now cat cart ord actor) (acc, db) ls = Inr (acc', db')"
    and "inv_ok db" "list_all order_line ls" "distinct (map l_cartItemId ls)"
    and "\<forall>l\<in>set ls. CHR '':'' \<notin> set (l_cartItemId l)"
    and "\<forall>l\<in>set ls. Some (sale_key ord l) \<notin> sold_keys db"
  shows "variant_onhand db' v = variant_onhand db v - ordered ls v"
  using assms
proof (induction ls arbitrary: acc db)
  case Nil
  then show ?case by (simp add: ordered_def table_simps)
next
  case (Cons l ls)
  from Cons.prems(1) obtain acc1 db1 where
      s: "consume_line gen now cat cart ord actor (acc, db) l = Inr (acc1, db1)"
      and f: "foldE (consume_line gen now cat cart ord actor) (acc1, db1) ls = Inr (acc', db')"
    by (auto simp: split_paired_all)
  have "order_line l" using Cons.prems(3) by simp
  note st = consume_line_step [OF Cons.prems(2) this s]
  have new: "\<forall>l'\<in>set ls. Some (sale_key ord l') \<notin> sold_keys db1"
  proof
    fix l' assume "l' \<in> set ls"
    with Cons.prems(4-6) show "Some (sale_key ord l') \<notin> sold_keys db1"
      by (intro consume_line_frame [OF s]) (auto simp: image_iff)
  qed
  from Cons.IH [OF f _ _ _ _ new] st Cons.prems(3-5)
  have "variant_onhand db' v = variant_onhand db1 v - ordered ls v" by simp
  moreover have "variant_onhand db1 v = variant_onhand db v - (if l_variantId l = Some v then l_quantity l else 0)"
    using st Cons.prems(6) by simp
  ultimately show ?case by (simp add: ordered_def table_simps)
qed

end
