(* ===== verification/Inventory_Safety.thy ===== *)
theory Inventory_Safety
  imports Inventory_Sale
begin

text \<open>
  The inventory as a state machine of transactions: the accounting invariant in every reachable
  state, and the properties of the single operations.
\<close>

section \<open>Operations\<close>

datatype inv_op =
    AdjustStock ident ident ident int "string option" "ident option"
  | ReserveCart ident ident "line list" time "ident option"
  | ReleaseCart "ident option" ident string "ident option"
  | ExpireDue nat
  | ConsumeOrder ident ident ident "line list" "ident option"

fun run_inv_op :: "idgen \<Rightarrow> time \<Rightarrow> inv_op \<Rightarrow> inv_db \<Rightarrow> inv_error + inv_db" where
  "run_inv_op gen now (AdjustStock cat w v d reason actor) db =
     bindE (adjustStock gen now cat w v d reason actor db) (\<lambda>(_, db'). Inr db')"
| "run_inv_op gen now (ReserveCart cat cart lines expires actor) db =
     bindE (reserveCartStock gen now cat cart lines expires actor db) (\<lambda>(_, db'). Inr db')"
| "run_inv_op gen now (ReleaseCart cat cart reason actor) db =
     bindE (releaseCartReservations gen now cat cart reason actor db) (\<lambda>(_, db'). Inr db')"
| "run_inv_op gen now (ExpireDue limit) db =
     Inr (snd (releaseExpiredReservations gen now limit db))"
| "run_inv_op gen now (ConsumeOrder cat cart ord lines actor) db =
     bindE (consumeCompletedOrderStock gen now cat cart ord lines actor db) (\<lambda>(_, db'). Inr db')"

text \<open>The lines of a cart come from distinct cart items, and identifiers hold no colon.\<close>

fun valid_op :: "inv_op \<Rightarrow> bool" where
  "valid_op (ReserveCart cat cart lines expires actor) = lines_ok cart lines"
| "valid_op _ = True"

lemma run_inv_op_inv:
  "inv_ok db \<Longrightarrow> valid_op op \<Longrightarrow> run_inv_op gen now op db = Inr db' \<Longrightarrow> inv_ok db'"
proof (cases op)
  case (ReserveCart cat cart lines expires actor)
  assume "inv_ok db" "valid_op op" "run_inv_op gen now op db = Inr db'"
  with ReserveCart show ?thesis by (auto intro: reserveCartStock_inv)
qed (auto intro: adjust_inv releaseCart_inv releaseExpired_inv dest: consumeOrder_ok)

definition run_at :: "idgen \<Rightarrow> inv_op \<times> time \<Rightarrow> inv_db \<Rightarrow> inv_error + inv_db" where
  "run_at gen p db = run_inv_op gen (snd p) (fst p) db"

interpretation inv: transactional inv_ok "run_at gen" "\<lambda>p. valid_op (fst p)" for gen
  by unfold_locales (auto simp: run_at_def intro: run_inv_op_inv)


section \<open>A reserved line is not rejected\<close>

lemma used_at_le_active:
  assumes "marking v used db"
  shows "used_at w used \<le> active_sum db (w, v)"
proof -
  let ?here = "\<lambda>c. r_warehouseId (fst c) = w"
  let ?rows = "filter (\<lambda>r. r_status r = R_ACTIVE \<and> r_at r = (w, v)) (reservations db)"
  from assms have ok: "structure_ok db" and d: "distinct (map (r_id \<circ> fst) used)"
    and u: "\<And>c. c \<in> set used \<Longrightarrow> fst c \<in> set (reservations db) \<and> r_status (fst c) = R_ACTIVE \<and>
        r_variantId (fst c) = v \<and> 0 < snd c \<and> snd c \<le> r_quantity (fst c)"
    by (auto simp: marking_def)
  have "distinct (map fst (filter ?here used))"
    using distinct_map_filter [OF d, of ?here] by (metis distinct_map map_map)
  moreover have "fst ` set (filter ?here used) \<subseteq> set ?rows"
    using u by (auto simp: r_at_def)
  moreover have "distinct ?rows"
    using structure_okD(2) [OF ok] by (simp add: distinct_map)
  moreover have pos: "\<And>r. r \<in> set ?rows \<Longrightarrow> 0 \<le> r_quantity r"
    using structure_okD(4) [OF ok] by (fastforce simp: reservation_ok_def)
  ultimately have "sum_list (map r_quantity (map fst (filter ?here used))) \<le> sum_list (map r_quantity ?rows)"
    by (simp add: sum_list_distinct_conv_sum_set del: map_map) (rule sum_mono2, auto)
  moreover have "used_at w used \<le> sum_list (map r_quantity (map fst (filter ?here used)))"
    unfolding used_at_def sum_where_def map_map
    by (rule sum_list_mono) (use u in auto)
  ultimately show ?thesis by (simp add: active_sum_def sum_where_def)
qed

lemma group_at_member:
  assumes "(w, (q, rid)) \<in> set gs" "distinct (map fst gs)"
  shows "group_at w gs = q"
  unfolding group_at_def using sum_where_unique_key [of fst gs "(w, (q, rid))" "fst \<circ> snd"] assms by simp

lemma consumeStockBalance_reserved:
  assumes ok: "structure_ok db" and q: "0 < q" "q \<le> reserved_sum db (w, v)"
  shows "canConsumeStockBalance db w v q q 0"
    and "\<exists>after db'. consumeStockBalance now w v q q 0 db = Inr (after, db')"
proof -
  obtain b where b: "b \<in> set (balances db)" "b_key b = (w, v)"
    using q by (metis less_le_trans less_irrefl reserved_sum_pos_row)
  have bq: "q \<le> quantityReserved b" using reserved_sum_row [OF ok b(1)] q(2) b(2) by simp
  have bok: "balance_ok b" by (rule structure_okD(3) [OF ok b(1)])
  note d = structure_okD(1) [OF ok]
  have at: "balance_at db w v = Some b"
    using find_distinct_key [OF d b(1)] b(2) by (simp add: balance_at_def)
  show "canConsumeStockBalance db w v q q 0"
    using at bq bok by (simp add: canConsumeStockBalance_def balance_ok_def)
  have "count_where (\<lambda>b. b_key b = (w, v) \<and> (q \<le> quantityOnHand b \<and> q \<le> quantityReserved b \<and>
      0 \<le> quantityAvailable b)) (balances db) = 1"
    by (rule count_where_unique [where key = b_key, OF d b]) (use bq bok in \<open>simp add: balance_ok_def\<close>)
  then show "\<exists>after db'. consumeStockBalance now w v q q 0 db = Inr (after, db')"
    by (simp add: consumeStockBalance_def at Let_def)
qed

lemma create_movement_error: "create_movement gen m db = Inl e \<Longrightarrow> \<exists>x. e = DbError x"
  by (auto simp: create_movement_def Let_def split: if_splits)

lemma consume_groups_error:
  assumes "foldE (consume_group gen now ord cart v actor key ids) ((n, first), db) gs = Inl e"
    and "structure_ok db" "groups_pos gs" "distinct (map fst gs)"
    and "\<forall>g\<in>set gs. fst (snd g) \<le> reserved_sum db (fst g, v)"
  shows "\<exists>x. e = DbError x"
  using assms
proof (induction gs arbitrary: n first db)
  case (Cons g gs)
  obtain w q rid where g: "g = (w, (q, rid))" by (cases g) auto
  have q: "0 < q" "q \<le> reserved_sum db (w, v)" and gp: "groups_pos gs"
    using Cons.prems(3,5) g by (auto simp: groups_pos_def)
  obtain after db1 where b: "consumeStockBalance now w v q q 0 db = Inr (after, db1)"
    using consumeStockBalance_reserved(2) [OF Cons.prems(2) q] by blast
  show ?case
  proof (cases "consume_group gen now ord cart v actor key ids ((n, first), db) g")
    case (Inl e')
    with Cons.prems(1) have "e = e'" by simp
    with Inl g b show ?thesis
      by (auto simp: consume_group_def createSaleMovement_def bindE_Inl_iff dest: create_movement_error)
  next
    case (Inr s)
    obtain n1 first1 db2 where s: "s = ((n1, first1), db2)" by (cases s) auto
    have "0 \<le> q" using q by simp
    note st = consume_group_ok [OF Cons.prems(2) this Inr [unfolded s g]]
    have "reserved_sum db2 (w', v) = reserved_sum db (w', v)" if "w' \<noteq> w" for w'
    proof -
      have "reservations db2 = reservations db" "gap db2 (w', v) = gap db (w', v)"
        using st [of "(w', v)"] that by auto
      then show ?thesis by (simp add: gap_def active_sum_def)
    qed
    moreover have "fst g' \<noteq> w" if "g' \<in> set gs" for g'
      using Cons.prems(4) g that by (auto simp: image_iff)
    ultimately have "\<forall>g'\<in>set gs. fst (snd g') \<le> reserved_sum db2 (fst g', v)"
      using Cons.prems(5) by auto
    with Cons.IH [of n1 first1 db2] Cons.prems(1,4) Inr s st gp show ?thesis by simp
  qed
qed simp

lemma consume_reservations_error:
  assumes "foldE (consume_reservation gen now ord cart item v key) s used = Inl e"
  shows "\<exists>x. e = DbError x"
  using assms
proof (induction used arbitrary: s)
  case (Cons c used)
  have "\<exists>x. e' = DbError x" if "consume_reservation gen now ord cart item v key s c = Inl e'" for e'
    using that by (auto simp: consume_reservation_def bindE_Inl_iff update_reservation_def
        create_reservation_def Let_def split: prod.splits if_splits)
  with Cons show ?case by (auto simp: bindE_Inl_iff)
qed simp

lemma reserved_line_consumed:
  assumes inv: "inv_ok db" and q: "0 < q" and v: "variant_in_catalog db cat v"
    and enough: "q \<le> sum_list (map r_quantity (line_reservations db v cart item))"
    and err: "consumeCompletedOrderLine gen now cat cart ord item v q actor db = Inl e"
  shows "\<exists>x. e = DbError x"
proof -
  note ok = inv_okD(1) [OF inv]
  let ?rs = "line_reservations db v cart item"
  obtain used gs remaining where p: "plan_consumption ?rs q [] [] = (used, gs, remaining)"
    by (cases "plan_consumption ?rs q [] []")
  have "\<forall>r\<in>set ?rs. 0 \<le> r_quantity r"
    using line_reservations_props(1) [OF ok] active_quantity_pos [OF inv] by blast
  with plan_covers [OF p] q enough have rem: "remaining = 0" by simp
  have plan: "plan_ok ?rs q (used, gs, remaining)"
    using plan_consumption_start [of q ?rs] line_reservations_props(2) [OF ok] q p by simp
  have mk: "marking v used db"
    using plan ok line_reservations_props(1) [OF ok] by (fastforce simp: marking_def plan_ok_def)
  have gs: "groups_pos gs" "distinct (map fst gs)" using plan by (auto simp: plan_ok_def)
  have le: "fst (snd g) \<le> reserved_sum db (fst g, v)" if "g \<in> set gs" for g
  proof -
    obtain w q' rid where g: "g = (w, (q', rid))" by (cases g) auto
    have "q' = used_at w used"
      using group_at_member [of w q' rid gs] that g gs(2) plan by (simp add: plan_ok_def)
    with used_at_le_active [OF mk] inv_okD(2) [OF inv, of "(w, v)"] g show ?thesis
      by (simp add: gap_def)
  qed
  have can: "\<not> (\<exists>(w, (q, _)) \<in> set gs. \<not> canConsumeStockBalance db w v q q 0)"
    using consumeStockBalance_reserved(1) [OF ok] le gs(1) by (fastforce simp: groups_pos_def)
  show ?thesis
  proof (cases "foldE (consume_reservation gen now ord cart item v (buildSaleIdempotencyKey ord item))
      ([], db) used")
    case (Inl e')
    with err p rem can v have "e = e'"
      by (auto simp: consumeCompletedOrderLine_def Let_def split: if_splits)
    with consume_reservations_error [OF Inl] show ?thesis by simp
  next
    case (Inr s)
    obtain ids db1 where s: "s = (ids, db1)" by (cases s)
    note m = consume_reservations_ok [OF Inr [unfolded s] mk]
    have le1: "\<forall>g\<in>set gs. fst (snd g) \<le> reserved_sum db1 (fst g, v)"
      using le m by (simp add: reserved_sum_def)
    have "foldE (consume_group gen now ord cart v actor (buildSaleIdempotencyKey ord item) ids)
        ((0, None), db1) gs = Inl e \<or> (\<exists>db3. syncVariantStockReadModel v db3 = Inl e)"
      using err p rem can v Inr s
      by (auto simp: consumeCompletedOrderLine_def Let_def bindE_Inl_iff split: if_splits)
    then show ?thesis
      using consume_groups_error [OF _ conjunct1 [OF m] gs le1]
      by (auto simp: syncVariantStockReadModel_def Let_def split: if_splits)
  qed
qed



section \<open>An example shop\<close>

text \<open>One catalog with an active default warehouse, one product and one variant; no stock yet.\<close>

definition demo_gen :: idgen where
  "demo_gen used = replicate (Suc (length used)) CHR ''x''"

definition demo_shop :: inv_db where
  "demo_shop = \<lparr>
     warehouses = [\<lparr>w_id = ''w'', w_name = ''Main'', w_code = ''main'', w_status = W_ACTIVE,
                    w_address = None, w_owner = Some ''u'', w_deleteAt = None\<rparr>],
     warehouse_catalogs = [\<lparr>wc_warehouseId = ''w'', wc_catalogId = ''c'', wc_isDefault = True,
                            wc_createdAt = 0\<rparr>],
     balances = [], movements = [], reservations = [],
     variants = [\<lparr>v_id = ''v'', v_productId = ''p'', v_stock = None, v_deleteAt = None\<rparr>],
     products = [\<lparr>p_id = ''p'', p_catalogId = ''c'', p_deleteAt = None\<rparr>]\<rparr>"

definition demo_line :: "ident \<Rightarrow> int \<Rightarrow> line" where
  "demo_line item q = \<lparr>l_cartItemId = item, l_productId = ''p'', l_variantId = Some ''v'',
                       l_quantity = q\<rparr>"

definition demo_run :: "(inv_op \<times> time) list \<Rightarrow> inv_db" where
  "demo_run ops = foldl (committed (run_at demo_gen)) demo_shop ops"

definition demo_receipt :: "inv_op \<times> time" where
  "demo_receipt = (AdjustStock ''c'' ''w'' ''v'' 10 None None, 1)"

definition demo_reserve :: "inv_op \<times> time" where
  "demo_reserve = (ReserveCart ''c'' ''k'' [demo_line ''i'' 3] 99 None, 2)"

lemma demo_shop_ok: "inv_ok demo_shop"
  by code_simp

lemma demo_ops_valid: "valid_op (fst demo_receipt)" "valid_op (fst demo_reserve)"
  by code_simp+

end
