(* ===== verification/Inventory_Properties.thy ===== *)
theory Inventory_Properties
  imports Inventory_Safety
begin

text \<open>
  The properties of the inventory operations, each with an instance on the example shop of
  \<^verbatim>\<open>Inventory_Safety\<close>.
\<close>

section \<open>Supporting facts\<close>

lemma update_where_twice:
  assumes "\<And>x. P x \<Longrightarrow> \<not> Q (f x)"
  shows "update_where Q f (update_where P f xs) = update_where (\<lambda>x. P x \<or> Q x) f xs"
  using assms by (auto simp: update_where_def)

lemma release_list_rows:
  assumes "foldE (release_one gen now reason actor) (acc, db) rs = Inr (acc', db')" "releasing rs db"
  shows "releasing rs db' \<and> reservations db' = update_where
      (\<lambda>x. r_id x \<in> r_id ` set rs \<and> r_status x = R_ACTIVE) (mark R_RELEASED now) (reservations db)
    \<and> (\<forall>k. onhand_sum db' k = onhand_sum db k)"
  using assms
proof (induction rs arbitrary: acc db)
  case Nil
  then show ?case by (simp add: update_where_none)
next
  case (Cons r rs)
  from Cons.prems(1) obtain acc1 db1 where
      s: "release_one gen now reason actor (acc, db) r = Inr (acc1, db1)"
      and f: "foldE (release_one gen now reason actor) (acc1, db1) rs = Inr (acc', db')"
    by (auto simp: split_paired_all)
  from release_one_Inr [OF s] obtain c where
    rel: "releaseActiveReservation gen now R_RELEASED CART reason actor None r db = Inr (c, db1)" by blast
  have i: "inv_ok db" "snap_ok db r" using Cons.prems(2) by (auto simp: releasing_def)
  have rl: "releasing (r # rs) db1" by (rule releasing_release [OF Cons.prems(2) _ _ rel]) simp_all
  note R = release_ok [OF inv_okD(1) [OF i(1)] _ i(2) _ rel]
  have rows: "reservations db1 = update_where (claim r) (mark R_RELEASED now) (reservations db)"
    by (rule R(4)) (simp_all add: inv_okD(2) [OF i(1)])
  have oh: "onhand_sum db1 k = onhand_sum db k" for k
    using rel
  proof (cases rule: releaseActive_cases)
    case (released h db2)
    then have "balances db1 = balances db2 \<and> ledger_sum db1 k = ledger_sum db2 k" by simp
    moreover have "ledger_sum db2 k = ledger_sum db k"
      using releaseReservedQuantity_frame(2) [OF released(3)] by (simp add: ledger_sum_def)
    moreover have "ledger_gap db1 k = ledger_gap db k"
      by (rule R(3)) (simp_all add: inv_okD(2) [OF i(1)])
    ultimately show ?thesis by (simp add: ledger_gap_def onhand_sum_def)
  qed simp
  note IH = Cons.IH [OF f]
  have "releasing rs db1" using rl by (simp add: releasing_def)
  with IH have I: "reservations db' = update_where
      (\<lambda>x. r_id x \<in> r_id ` set rs \<and> r_status x = R_ACTIVE) (mark R_RELEASED now) (reservations db1)"
      "\<And>k. onhand_sum db' k = onhand_sum db1 k" "inv_ok db'" by (auto simp: releasing_def)
  have rows': "reservations db' = update_where
      (\<lambda>x. r_id x \<in> r_id ` set (r # rs) \<and> r_status x = R_ACTIVE) (mark R_RELEASED now) (reservations db)"
    unfolding I(1) rows by (subst update_where_twice) (auto simp: update_where_def)
  have "r_at (mark R_RELEASED now x) = r_at x" for x by (simp add: r_at_def)
  then have "snap_ok db' t = snap_ok db t" for t
    unfolding snap_ok_def rows' set_update_where ball_simps by (intro ball_cong) simp_all
  with I(3) Cons.prems(2) have "releasing (r # rs) db'" by (simp add: releasing_def)
  with rows' I(2) oh show ?case by simp
qed

lemma active_cart_ids:
  assumes "structure_ok db" "x \<in> set (reservations db)"
  shows "(r_id x \<in> r_id ` set (active_cart_reservations db c) \<and> r_status x = R_ACTIVE)
       = (r_cartId x = Some c \<and> r_status x = R_ACTIVE)"
  using assms same_id_key [OF assms(1)] by (auto simp: active_cart_reservations_def)

lemma sum_where_update_split:
  assumes "\<And>x. Q x \<Longrightarrow> \<not> P (f x)"
  shows "sum_where P g (update_where Q f xs) = sum_where P g xs - sum_where (\<lambda>x. P x \<and> Q x) g xs"
  using assms by (induction xs) (auto simp: table_simps)


lemma current_balance_sums:
  assumes ok: "structure_ok db"
  shows "(case balance_at db w v of None \<Rightarrow> 0 | Some b \<Rightarrow> quantityOnHand b) = onhand_sum db (w, v)"
    and "(case balance_at db w v of None \<Rightarrow> 0 | Some b \<Rightarrow> quantityReserved b) = reserved_sum db (w, v)"
proof -
  have "(case balance_at db w v of None \<Rightarrow> 0 | Some b \<Rightarrow> quantityOnHand b) = onhand_sum db (w, v)
      \<and> (case balance_at db w v of None \<Rightarrow> 0 | Some b \<Rightarrow> quantityReserved b) = reserved_sum db (w, v)"
  proof (cases "balance_at db w v")
    case None
    then have "\<forall>b\<in>set (balances db). b_key b \<noteq> (w, v)" by (simp add: balance_at_def find_None_all)
    with None show ?thesis by (simp add: onhand_sum_def reserved_sum_def sum_where_empty)
  next
    case (Some b)
    with balance_at_Some [OF Some] reserved_sum_row [OF ok] onhand_sum_row [OF ok] show ?thesis by force
  qed
  then show "(case balance_at db w v of None \<Rightarrow> 0 | Some b \<Rightarrow> quantityOnHand b) = onhand_sum db (w, v)"
    "(case balance_at db w v of None \<Rightarrow> 0 | Some b \<Rightarrow> quantityReserved b) = reserved_sum db (w, v)" by auto
qed

lemma movement_sync_not_rejected:
  "bindE (create_movement gen m x) (\<lambda>(mv, db2). bindE (syncVariantStockReadModel v db2)
      (\<lambda>(ch, db3). Inr (f mv ch, db3))) \<noteq> Inl (Rejected e u)"
  by (auto simp: bindE_Inl_iff create_movement_def syncVariantStockReadModel_def Let_def
      split: if_splits)

lemma adjust_insufficient:
  assumes ok: "structure_ok db" and w: "warehouse_link db w cat \<noteq> None" "warehouse_active db w"
    and v: "variant_in_catalog db cat v"
  shows "adjustStock gen now cat w v d reason actor db = Inl (Rejected INSUFFICIENT_STOCK None)
      \<longleftrightarrow> onhand_sum db (w, v) + d < reserved_sum db (w, v)"
proof -
  from w obtain l wh where lw: "warehouse_link db w cat = Some l" "warehouse_by_id db w = Some wh"
      "w_deleteAt wh = None" "w_status wh = W_ACTIVE"
    by (auto simp: warehouse_active_def split: option.splits)
  note cur = current_balance_sums [OF ok, of w v]
  show ?thesis
  proof (cases "onhand_sum db (w, v) + d < reserved_sum db (w, v)")
    case True
    with lw v cur show ?thesis by (simp add: adjustStock_def Let_def)
  next
    case False
    then have "adjustStock gen now cat w v d reason actor db \<noteq> Inl (Rejected INSUFFICIENT_STOCK None)"
      using lw v by (simp add: adjustStock_def Let_def cur del: not_None_eq)
        (intro conjI impI movement_sync_not_rejected)
    with False show ?thesis by blast
  qed
qed

lemma adjust_success:
  assumes ok: "structure_ok db" and a: "adjustStock gen now cat w v d reason actor db = Inr (a, db')"
  shows "(\<forall>k. onhand_sum db' k = onhand_sum db k + (if k = (w, v) then d else 0)) \<and>
    (\<forall>k. reserved_sum db' k = reserved_sum db k) \<and>
    movements db' = movements db @ [adj_movement a] \<and> quantityDelta (adj_movement a) = d"
  using a
proof (cases rule: adjustStock_Inr)
  case (1 onHand reserved m row db2 c)
  note u = upsert_adjust_ok [OF ok 1(1-3) refl, where now = now]
  note mv = movement_frame [OF 1(6)] and ci = create_movement_Inr [OF 1(6)] and sy = sync_frame [OF 1(7)]
  have "onhand_sum db' k = onhand_sum db k + (if k = (w, v) then d else 0)" for k
    using u [of k] by (simp add: onhand_sum_def sy mv)
  moreover have "reserved_sum db' k = reserved_sum db k" for k
    using u [of k] by (simp add: gap_def reserved_sum_def active_sum_def sy mv)
  ultimately show ?thesis using ci(1,3) sy(3) 1(5,9) by simp
qed


section \<open>Properties\<close>

text \<open>
  C1. Whatever transactions run, and whichever of them fail, in any order: the inventory tables
  satisfy the accounting invariant if they did at the start.
\<close>

theorem inventory_history_invariant:
  "history (run_at gen) (\<lambda>p. valid_op (fst p)) db db' \<Longrightarrow> inv_ok db \<Longrightarrow> inv_ok db'"
  by (rule inv.history_invar)

theorem inventory_history_invariant_witness:
  "inv_ok (demo_run [demo_receipt, demo_reserve])"
proof -
  have "history (run_at demo_gen) (\<lambda>p. valid_op (fst p)) demo_shop (demo_run [demo_receipt, demo_reserve])"
    unfolding demo_run_def by (rule history_sequence) (simp add: demo_ops_valid)
  then show ?thesis by (rule inventory_history_invariant [OF _ demo_shop_ok])
qed

text \<open>
  C2. Stock is never oversold: in every reachable state each balance row reserves no more than
  it holds, its available quantity is the difference, its reserved quantity is the sum of the
  active reservations for it, and its on-hand quantity is the sum of its movements.
\<close>

theorem stock_never_oversold:
  assumes "history (run_at gen) (\<lambda>p. valid_op (fst p)) db db'" "inv_ok db" "b \<in> set (balances db')"
  shows "0 \<le> quantityReserved b \<and> quantityReserved b \<le> quantityOnHand b \<and>
    quantityAvailable b = quantityOnHand b - quantityReserved b \<and>
    quantityReserved b = active_sum db' (b_key b) \<and> quantityOnHand b = ledger_sum db' (b_key b)"
proof -
  have inv: "inv_ok db'" using inv.history_invar [OF assms(1,2)] .
  note ok = inv_okD(1) [OF inv]
  show ?thesis
    using structure_okD(3) [OF ok assms(3)] reserved_sum_row [OF ok assms(3)]
      onhand_sum_row [OF ok assms(3)] inv_okD(2,3) [OF inv, of "b_key b"]
    by (simp add: balance_ok_def gap_def ledger_gap_def)
qed

theorem stock_never_oversold_witness:
  "\<exists>b\<in>set (balances (demo_run [demo_receipt, demo_reserve])). quantityReserved b = 3 \<and>
     quantityAvailable b = quantityOnHand b - quantityReserved b"
proof -
  let ?db = "demo_run [demo_receipt, demo_reserve]"
  have h: "history (run_at demo_gen) (\<lambda>p. valid_op (fst p)) demo_shop ?db"
    unfolding demo_run_def by (rule history_sequence) (simp add: demo_ops_valid)
  obtain b where "b \<in> set (balances ?db)" "quantityReserved b = 3"
  proof -
    have "list_ex (\<lambda>b. quantityReserved b = 3) (balances ?db)" by code_simp
    then show thesis using that by (auto simp: list_ex_iff)
  qed
  with stock_never_oversold [OF h demo_shop_ok] show ?thesis by blast
qed

text \<open>
  C3. A successful cart reservation leaves, for every line with a positive quantity, an active
  reservation of exactly that quantity in the sales warehouse, and no other active reservation of
  that cart.
\<close>

theorem reserve_cart_exact:
  assumes "inv_ok db" "lines_ok cart lines" "\<exists>l\<in>set lines. l_quantity l > 0"
    and "reserveCartStock gen now cat cart lines expires actor db = Inr (res, db')"
  shows "\<exists>w. res_warehouseId res = Some w \<and> findSalesWarehouse cat db = Inr w \<and>
      (\<forall>l\<in>set lines. l_quantity l > 0 \<longrightarrow> line_reserved db' cart w l) \<and>
      (\<forall>x\<in>set (reservations db'). r_status x = R_ACTIVE \<longrightarrow> r_cartId x = Some cart \<longrightarrow>
        (\<exists>l\<in>set lines. l_quantity l > 0 \<and> r_key x = Some (line_key cart l)))"
proof -
  from reserveCartStock_Inr [OF assms(4,3)] obtain w where
    "findSalesWarehouse cat db = Inr w" "res_warehouseId res = Some w" by metis
  with reserveCartStock_ok [OF assms] show ?thesis by auto
qed

theorem reserve_cart_exact_witness:
  "\<exists>db'. line_reserved db' ''k'' ''w'' (demo_line ''i'' 3)"
proof -
  let ?db = "demo_run [demo_receipt]" and ?ls = "[demo_line ''i'' 3]"
  have inv: "inv_ok ?db" by code_simp
  have ls: "lines_ok ''k'' ?ls" by code_simp
  have q: "\<exists>l\<in>set ?ls. l_quantity l > 0" by (simp add: demo_line_def)
  have "\<not> Option.is_none (case reserveCartStock demo_gen 2 ''c'' ''k'' ?ls 99 None ?db of
      Inl e \<Rightarrow> None | Inr x \<Rightarrow> Some x)" by code_simp
  then obtain res db' where r: "reserveCartStock demo_gen 2 ''c'' ''k'' ?ls 99 None ?db = Inr (res, db')"
    by (auto split: sum.splits)
  have w: "findSalesWarehouse ''c'' ?db = Inr ''w''" by code_simp
  from reserve_cart_exact [OF inv ls q r] w show ?thesis by (auto simp: demo_line_def)
qed

text \<open>
  C4. Releasing a cart marks exactly its active reservations as released, gives their quantity
  back to every balance, and leaves the on-hand quantities alone.
\<close>

theorem release_cart_exact:
  assumes inv: "inv_ok db"
    and rel: "releaseCartReservations gen now cat cart reason actor db = Inr (res, db')"
  shows "reservations db' = update_where (\<lambda>x. r_cartId x = Some cart \<and> r_status x = R_ACTIVE)
      (mark R_RELEASED now) (reservations db) \<and>
    (\<forall>k. onhand_sum db' k = onhand_sum db k) \<and>
    (\<forall>k. reserved_sum db' k = reserved_sum db k -
       sum_where (\<lambda>x. (r_status x = R_ACTIVE \<and> r_at x = k) \<and>
          (r_cartId x = Some cart \<and> r_status x = R_ACTIVE)) r_quantity (reservations db))"
proof -
  let ?rs = "active_cart_reservations db cart"
  from rel obtain acc where
    f: "foldE (release_one gen now reason actor) ((0, [], []), db) ?rs = Inr (acc, db')"
    by (auto simp: releaseCartReservations_def)
  note L = release_list_rows [OF f releasing_start [OF inv active_cart_reservations_subset]]
  have rows: "reservations db' = update_where (\<lambda>x. r_cartId x = Some cart \<and> r_status x = R_ACTIVE)
      (mark R_RELEASED now) (reservations db)"
    using L active_cart_ids [OF inv_okD(1) [OF inv]] by (simp add: update_where_def cong: map_cong)
  have "inv_ok db'" using L by (simp add: releasing_def)
  then have "reserved_sum db' k = active_sum db' k" "reserved_sum db k = active_sum db k" for k
    using inv inv_okD(2) [of db' k] inv_okD(2) [of db k] by (simp_all add: gap_def)
  moreover have "active_sum db' k = active_sum db k - sum_where (\<lambda>x. (r_status x = R_ACTIVE \<and> r_at x = k) \<and>
      (r_cartId x = Some cart \<and> r_status x = R_ACTIVE)) r_quantity (reservations db)" for k
    unfolding active_sum_def rows by (rule sum_where_update_split) simp
  ultimately show ?thesis using rows L by simp
qed

theorem release_cart_exact_witness:
  "\<exists>db'. list_all (\<lambda>x. r_status x = R_RELEASED) (reservations db') \<and>
     onhand_sum db' (''w'', ''v'') = 10"
proof -
  let ?db = "demo_run [demo_receipt, demo_reserve]"
  have inv: "inv_ok ?db" by code_simp
  have "\<not> Option.is_none (case releaseCartReservations demo_gen 5 (Some ''c'') ''k'' ''r'' None ?db of
      Inl e \<Rightarrow> None | Inr x \<Rightarrow> Some x)" by code_simp
  then obtain res db' where r: "releaseCartReservations demo_gen 5 (Some ''c'') ''k'' ''r'' None ?db
      = Inr (res, db')" by (auto split: sum.splits)
  have "list_all (\<lambda>x. r_status x = R_RELEASED) (update_where
      (\<lambda>x. r_cartId x = Some ''k'' \<and> r_status x = R_ACTIVE) (mark R_RELEASED 5) (reservations ?db))"
    by code_simp
  moreover have "onhand_sum ?db (''w'', ''v'') = 10" by code_simp
  ultimately show ?thesis using release_cart_exact [OF inv r] by metis
qed


text \<open>
  C5. Completing an order none of whose lines has been sold yet takes from the stock of every
  variant exactly the quantity the order's lines ask for, over all warehouses together.
\<close>

theorem consume_order_amount:
  assumes inv: "inv_ok db"
    and c: "consumeCompletedOrderStock gen now cat cart ord lines actor db = Inr (res, db')"
    and d: "distinct (map l_cartItemId lines)" "\<forall>l\<in>set lines. CHR '':'' \<notin> set (l_cartItemId l)"
    and new: "\<forall>l\<in>set lines. Some (sale_key ord l) \<notin> sold_keys db"
  shows "variant_onhand db' v
       = variant_onhand db v - ordered (filter (\<lambda>l. has_variant l \<and> l_quantity l > 0) lines) v"
proof -
  let ?ls = "filter (\<lambda>l. has_variant l \<and> l_quantity l > 0) lines"
  from c obtain acc where
    f: "foldE (consume_line gen now cat cart ord actor) ((None, [], []), db) ?ls = Inr (acc, db')"
    by (auto simp: consumeCompletedOrderStock_def Let_def)
  show ?thesis
    by (rule consume_lines_amount [OF f inv order_lines_filter])
      (use d new in \<open>auto intro: distinct_map_filter\<close>)
qed

definition demo_order :: "inv_op \<times> time" where
  "demo_order = (ConsumeOrder ''c'' ''k'' ''o'' [demo_line ''i'' 4] None, 3)"

lemma demo_order_runs:
  obtains res db' where "consumeCompletedOrderStock demo_gen 3 ''c'' ''k'' ''o'' [demo_line ''i'' 4] None
    (demo_run [demo_receipt, demo_reserve]) = Inr (res, db')"
proof -
  have "\<not> Option.is_none (case consumeCompletedOrderStock demo_gen 3 ''c'' ''k'' ''o'' [demo_line ''i'' 4]
      None (demo_run [demo_receipt, demo_reserve]) of Inl e \<Rightarrow> None | Inr x \<Rightarrow> Some x)" by code_simp
  then show thesis using that by (auto split: sum.splits)
qed

lemma demo_reserved_ok: "inv_ok (demo_run [demo_receipt, demo_reserve])"
  by code_simp

theorem consume_order_amount_witness: "\<exists>db'. variant_onhand db' ''v'' = 6"
proof -
  let ?db = "demo_run [demo_receipt, demo_reserve]" and ?ls = "[demo_line ''i'' 4]"
  obtain res db' where c: "consumeCompletedOrderStock demo_gen 3 ''c'' ''k'' ''o'' ?ls None ?db
      = Inr (res, db')" by (rule demo_order_runs)
  have "distinct (map l_cartItemId ?ls)" "\<forall>l\<in>set ?ls. CHR '':'' \<notin> set (l_cartItemId l)"
    by (simp_all add: demo_line_def)
  moreover have "list_all (\<lambda>l. Some (sale_key ''o'' l) \<notin> sold_keys ?db) ?ls" by code_simp
  then have "\<forall>l\<in>set ?ls. Some (sale_key ''o'' l) \<notin> sold_keys ?db" by (simp add: list_all_iff)
  ultimately have "variant_onhand db' ''v'' = variant_onhand ?db ''v''
      - ordered (filter (\<lambda>l. has_variant l \<and> l_quantity l > 0) ?ls) ''v''"
    by (rule consume_order_amount [OF demo_reserved_ok c])
  moreover have "variant_onhand ?db ''v'' = 10"
    "ordered (filter (\<lambda>l. has_variant l \<and> l_quantity l > 0) ?ls) ''v'' = 4" by code_simp+
  ultimately show ?thesis by auto
qed

text \<open>
  C6. Completing the same order again, at any later time and by anyone, succeeds and changes
  nothing: the sale movements make the operation idempotent.
\<close>

theorem consume_order_idempotent:
  assumes "inv_ok db"
    and "consumeCompletedOrderStock gen now cat cart ord lines actor db = Inr (res, db')"
  shows "\<exists>res'. consumeCompletedOrderStock gen' now' cat' cart' ord lines actor' db' = Inr (res', db')"
  using consumeOrder_again consumeOrder_ok [OF assms] by blast

theorem consume_order_idempotent_witness:
  "\<exists>db' res'. consumeCompletedOrderStock demo_gen 8 ''c'' ''k'' ''o'' [demo_line ''i'' 4] None db'
     = Inr (res', db')"
proof -
  obtain res db' where c: "consumeCompletedOrderStock demo_gen 3 ''c'' ''k'' ''o'' [demo_line ''i'' 4] None
      (demo_run [demo_receipt, demo_reserve]) = Inr (res, db')" by (rule demo_order_runs)
  from consume_order_idempotent [OF demo_reserved_ok c] show ?thesis by blast
qed

text \<open>
  C7. A reservation is a guarantee: an order line whose active reservations cover its quantity is
  never rejected for lack of stock, of a warehouse or of a default warehouse.  The only errors left
  are database errors.
\<close>

theorem reserved_line_never_rejected:
  assumes "inv_ok db" "0 < q" "variant_in_catalog db cat v"
    and "q \<le> sum_list (map r_quantity (line_reservations db v cart item))"
  shows "consumeCompletedOrderLine gen now cat cart ord item v q actor db \<noteq> Inl (Rejected why who)"
  using reserved_line_consumed [OF assms] by blast

theorem reserved_line_never_rejected_witness:
  "consumeCompletedOrderLine demo_gen 3 ''c'' ''k'' ''o'' ''i'' ''v'' 3 None
     (demo_run [demo_receipt, demo_reserve]) \<noteq> Inl (Rejected INSUFFICIENT_STOCK (Some ''v''))"
  by (rule reserved_line_never_rejected [OF demo_reserved_ok]) code_simp+

text \<open>
  C8. A manual adjustment changes the on-hand quantity of its balance by exactly the delta and no
  reserved quantity; it appends one movement with that delta; and it reports insufficient stock
  exactly when the new quantity would not cover what is reserved.
\<close>

theorem adjust_stock_exact:
  assumes inv: "inv_ok db" and w: "warehouse_link db w cat \<noteq> None" "warehouse_active db w"
    and v: "variant_in_catalog db cat v"
  shows "(adjustStock gen now cat w v d reason actor db = Inl (Rejected INSUFFICIENT_STOCK None)
        \<longleftrightarrow> onhand_sum db (w, v) + d < reserved_sum db (w, v)) \<and>
    (\<forall>a db'. adjustStock gen now cat w v d reason actor db = Inr (a, db') \<longrightarrow>
       (\<forall>k. onhand_sum db' k = onhand_sum db k + (if k = (w, v) then d else 0)) \<and>
       (\<forall>k. reserved_sum db' k = reserved_sum db k) \<and>
       movements db' = movements db @ [adj_movement a] \<and> quantityDelta (adj_movement a) = d)"
  using adjust_insufficient [OF inv_okD(1) [OF inv] w v]
    adjust_success [OF inv_okD(1) [OF inv]] by blast

theorem adjust_stock_exact_witness:
  "adjustStock demo_gen 9 ''c'' ''w'' ''v'' (- 8) None None (demo_run [demo_receipt, demo_reserve])
     = Inl (Rejected INSUFFICIENT_STOCK None)"
proof -
  let ?db = "demo_run [demo_receipt, demo_reserve]"
  have "warehouse_link ?db ''w'' ''c'' \<noteq> None" "warehouse_active ?db ''w''"
    "variant_in_catalog ?db ''c'' ''v''" by code_simp+
  moreover have "onhand_sum ?db (''w'', ''v'') + (- 8) < reserved_sum ?db (''w'', ''v'')" by code_simp
  ultimately show ?thesis using adjust_stock_exact [OF demo_reserved_ok] by blast
qed

end
