(* ===== verification/Inventory_Read_Model.thy ===== *)
theory Inventory_Read_Model
  imports Inventory_Safety
begin

text \<open>
  The stock column of a variant is a read model: the available quantity of its balances in
  active warehouses.  Every stock operation leaves it exact for the variants that have a balance,
  because it resynchronises the variant whose balances it wrote.  The same lemmas give the frame
  of the stock operations: they write no warehouse, link or product.
\<close>

section \<open>What a block of writes leaves alone\<close>

definition touches :: "ident \<Rightarrow> inv_db \<Rightarrow> inv_db \<Rightarrow> bool" where
  "touches v db db' \<longleftrightarrow>
     warehouses db' = warehouses db \<and> warehouse_catalogs db' = warehouse_catalogs db \<and>
     products db' = products db \<and> map v_id (variants db') = map v_id (variants db) \<and>
     filter (\<lambda>b. b_variantId b \<noteq> v) (balances db') = filter (\<lambda>b. b_variantId b \<noteq> v) (balances db) \<and>
     filter (\<lambda>x. v_id x \<noteq> v) (variants db') = filter (\<lambda>x. v_id x \<noteq> v) (variants db)"

definition same_tables :: "inv_db \<Rightarrow> inv_db \<Rightarrow> bool" where
  "same_tables db db' \<longleftrightarrow>
     warehouses db' = warehouses db \<and> warehouse_catalogs db' = warehouse_catalogs db \<and>
     products db' = products db \<and> balances db' = balances db \<and> variants db' = variants db"

definition read_model_at :: "inv_db \<Rightarrow> ident \<Rightarrow> bool" where
  "read_model_at db v \<longleftrightarrow>
     (\<exists>b\<in>set (balances db). b_variantId b = v) \<longrightarrow>
     (\<forall>x\<in>set (variants db). v_id x = v \<longrightarrow> v_stock x = Some (max 0 (available_total db v)))"

definition read_model_ok :: "inv_db \<Rightarrow> bool" where
  "read_model_ok db \<longleftrightarrow> list_all (\<lambda>b. read_model_at db (b_variantId b)) (balances db)"

lemma read_model_ok_iff: "read_model_ok db \<longleftrightarrow> (\<forall>v. read_model_at db v)"
  by (auto simp: read_model_ok_def read_model_at_def list_all_iff)

lemma touches_refl [simp, intro]: "touches v db db"
  by (simp add: touches_def)

lemma touches_trans [trans]: "touches v a b \<Longrightarrow> touches v b c \<Longrightarrow> touches v a c"
  by (simp add: touches_def)

lemma same_touches: "same_tables db db' \<Longrightarrow> touches v db db'"
  by (simp add: touches_def same_tables_def)

lemma same_trans: "same_tables a b \<Longrightarrow> same_tables b c \<Longrightarrow> same_tables a c"
  by (simp add: same_tables_def)

lemma available_total_filter:
  "u \<noteq> v \<Longrightarrow> available_total db u =
     sum_where (\<lambda>b. b_variantId b = u \<and> warehouse_active db (b_warehouseId b)) quantityAvailable
       (filter (\<lambda>b. b_variantId b \<noteq> v) (balances db))"
  unfolding available_total_def sum_where_def filter_filter
  by (rule arg_cong [where f = "\<lambda>l. sum_list (map quantityAvailable l)"], rule filter_cong) auto

lemma touches_available:
  assumes "touches v db db'" "u \<noteq> v"
  shows "available_total db' u = available_total db u"
proof -
  have "warehouse_active db' w = warehouse_active db w" for w
    using assms(1) by (simp add: touches_def warehouse_active_def warehouse_by_id_def)
  with assms show ?thesis by (simp add: available_total_filter [OF assms(2)] touches_def)
qed

lemma touches_member:
  assumes "touches v db db'" "u \<noteq> v"
  shows "(\<exists>b\<in>set (balances db'). b_variantId b = u) \<longleftrightarrow> (\<exists>b\<in>set (balances db). b_variantId b = u)"
    and "x \<in> set (variants db') \<and> v_id x = u \<longleftrightarrow> x \<in> set (variants db) \<and> v_id x = u"
proof -
  have "set (filter (\<lambda>b. b_variantId b \<noteq> v) (balances db')) = set (filter (\<lambda>b. b_variantId b \<noteq> v) (balances db))"
    "set (filter (\<lambda>x. v_id x \<noteq> v) (variants db')) = set (filter (\<lambda>x. v_id x \<noteq> v) (variants db))"
    using assms(1) by (simp_all only: touches_def)
  with assms(2) show "(\<exists>b\<in>set (balances db'). b_variantId b = u) \<longleftrightarrow> (\<exists>b\<in>set (balances db). b_variantId b = u)"
    "x \<in> set (variants db') \<and> v_id x = u \<longleftrightarrow> x \<in> set (variants db) \<and> v_id x = u"
    by (auto simp: set_eq_iff)
qed

lemma touches_read_model: "touches v db db' \<Longrightarrow> u \<noteq> v \<Longrightarrow> read_model_at db u \<Longrightarrow> read_model_at db' u"
  using touches_member [of v db db' u] touches_available [of v db db' u]
  by (auto simp: read_model_at_def)

lemma filter_update_where:
  assumes "\<And>b. P b \<Longrightarrow> \<not> Q b \<and> \<not> Q (f b)"
  shows "filter Q (update_where P f xs) = filter Q xs"
  using assms by (induction xs) (auto simp: table_simps)

lemma sync_touches:
  assumes "syncVariantStockReadModel v db = Inr (c, db')"
  shows "touches v db db'" "read_model_at db' v"
proof -
  note db' = sync_Inr(1) [OF assms]
  show "touches v db db'" by (simp add: db' touches_def table_simps filter_update_where)
  have "available_total db' v = available_total db v"
    by (simp add: db' available_total_def warehouse_active_def warehouse_by_id_def)
  then show "read_model_at db' v" by (auto simp: read_model_at_def db' set_update_where)
qed

text \<open>The rule for a block that writes the balances of one variant and then resynchronises it.\<close>

lemma synced_read_model:
  assumes "read_model_ok db" "touches v db db1" "syncVariantStockReadModel v db1 = Inr (c, db')"
  shows "read_model_ok db'"
  unfolding read_model_ok_iff
proof
  fix u
  have "touches v db db'" using assms(2) sync_touches(1) [OF assms(3)] by (rule touches_trans)
  with assms(1) sync_touches(2) [OF assms(3)] touches_read_model show "read_model_at db' u"
    by (cases "u = v") (auto simp: read_model_ok_iff)
qed

lemma same_read_model: "same_tables db db' \<Longrightarrow> read_model_ok db' = read_model_ok db"
  by (simp add: same_tables_def read_model_ok_def read_model_at_def available_total_def
      warehouse_active_def warehouse_by_id_def)


section \<open>Primitive writes\<close>

lemma update_balances_touches:
  assumes "\<And>b. P b \<Longrightarrow> b_variantId b = v" "\<And>b. b_variantId (f b) = b_variantId b"
  shows "touches v db (db\<lparr>balances := update_where P f (balances db)\<rparr>)"
  using assms by (simp add: touches_def filter_update_where)

lemma releaseReserved_touches:
  "releaseReservedQuantity now w v q db = (h, db') \<Longrightarrow> touches v db db'"
  by (auto simp: releaseReservedQuantity_def Let_def b_key_def split: option.splits if_splits
      intro!: update_balances_touches)

lemma take_available_touches: "take_available now w v d db = (n, db') \<Longrightarrow> touches v db db'"
  by (auto simp: take_available_def Let_def b_key_def intro!: update_balances_touches)

lemma move_reserved_touches: "move_reserved now w v d db = Inr db' \<Longrightarrow> touches v db db'"
  by (auto simp: move_reserved_def split: if_splits prod.splits dest: take_available_touches
      intro: releaseReserved_touches [OF prod.collapse [symmetric]])

lemma consumeBalance_touches: "consumeStockBalance now w v t r d db = Inr (a, db') \<Longrightarrow> touches v db db'"
  by (auto simp: consumeStockBalance_def Let_def b_key_def split: option.splits if_splits
      intro!: update_balances_touches)

lemma upsert_touches:
  assumes "b_key created = (w, v)" "\<And>b. b_variantId (f b) = b_variantId b"
  shows "touches v db (upsert_balance created f db)"
  using assms
  by (auto simp: upsert_balance_def b_key_def intro!: update_balances_touches) (simp add: touches_def)

lemma movement_same: "create_movement gen m db = Inr (row, db') \<Longrightarrow> same_tables db db'"
  by (auto simp: create_movement_def Let_def same_tables_def split: if_splits)

lemma create_reservation_same: "create_reservation gen r db = Inr (i, db') \<Longrightarrow> same_tables db db'"
  by (auto simp: create_reservation_def Let_def same_tables_def split: if_splits)

lemma update_reservation_same: "update_reservation i f db = Inr db' \<Longrightarrow> same_tables db db'"
  by (auto simp: update_reservation_def same_tables_def split: if_splits)

lemma reservations_same: "same_tables db (db\<lparr>reservations := rs\<rparr>)"
  by (simp add: same_tables_def)

lemma write_reservation_same: "write_reservation gen now e w v q c i x k db = Inr (rid, db') \<Longrightarrow> same_tables db db'"
  by (auto simp: write_reservation_def split: option.splits dest: create_reservation_same update_reservation_same)

lemma record_reserve_same: "record_reserve_movement gen w v c a d rid db = Inr db' \<Longrightarrow> same_tables db db'"
  by (auto simp: record_reserve_movement_def split: if_splits dest: movement_same) (simp add: same_tables_def)

lemma sale_movement_same: "createSaleMovement gen w v q a r ord c actor k db = Inr db' \<Longrightarrow> same_tables db db'"
  by (auto simp: createSaleMovement_def dest: movement_same)


section \<open>The operations\<close>

text \<open>
  \<open>stock_effect\<close>: the frame and the preservation of the read model, composed over the steps of
  an operation.
\<close>

definition stock_effect :: "inv_db \<Rightarrow> inv_db \<Rightarrow> bool" where
  "stock_effect db db' \<longleftrightarrow>
     warehouses db' = warehouses db \<and> warehouse_catalogs db' = warehouse_catalogs db \<and>
     products db' = products db \<and> map v_id (variants db') = map v_id (variants db) \<and>
     (read_model_ok db \<longrightarrow> read_model_ok db')"

lemma stock_effect_refl: "stock_effect db db"
  by (simp add: stock_effect_def)

lemma stock_effect_trans: "stock_effect a b \<Longrightarrow> stock_effect b c \<Longrightarrow> stock_effect a c"
  by (simp add: stock_effect_def)

lemma stock_effect_same: "same_tables db db' \<Longrightarrow> stock_effect db db'"
  by (simp add: stock_effect_def same_read_model) (simp add: same_tables_def)

lemma stock_effect_synced:
  assumes "touches v db db1" "syncVariantStockReadModel v db1 = Inr (c, db')"
  shows "stock_effect db db'"
  using synced_read_model [OF _ assms] touches_trans [OF assms(1) sync_touches(1) [OF assms(2)]]
  by (auto simp: stock_effect_def touches_def)

lemma foldE_stock_effect:
  assumes "foldE f (acc, db) xs = Inr (acc', db')"
    and "\<And>a d x a' d'. x \<in> set xs \<Longrightarrow> f (a, d) x = Inr (a', d') \<Longrightarrow> stock_effect d d'"
  shows "stock_effect db db'"
proof -
  have "(\<lambda>s s'. stock_effect (snd s) (snd s')) (acc, db) (acc', db')"
    by (rule foldE_rel [OF assms(1)])
      (auto intro: stock_effect_refl stock_effect_trans assms(2))
  then show ?thesis by simp
qed

lemma adjust_effect:
  assumes "adjustStock gen now cat w v d reason actor db = Inr (a, db')"
  shows "stock_effect db db'"
  using assms
proof (cases rule: adjustStock_Inr)
  case (1 onHand reserved m row db2 c)
  have "touches v db db2"
    by (rule touches_trans [OF upsert_touches [where w = w] same_touches [OF movement_same [OF 1(6)]]])
      (simp_all add: b_key_def)
  then show ?thesis using 1(7) by (rule stock_effect_synced)
qed

lemma releaseActive_effect:
  assumes "releaseActiveReservation gen now st src reason actor mk r db = Inr (c, db')"
  shows "stock_effect db db'"
proof (cases "count_where (claim r) (reservations db) = 1")
  case False
  with assms show ?thesis by (simp add: releaseActiveReservation_def Let_def stock_effect_refl)
next
  case True
  let ?v = "r_variantId r"
  let ?db1 = "db\<lparr>reservations := update_where (claim r) (mark st now) (reservations db)\<rparr>"
  obtain h db2 where rel: "releaseReservedQuantity now (r_warehouseId r) ?v (r_quantity r) ?db1 = (h, db2)"
    by (cases "releaseReservedQuantity now (r_warehouseId r) ?v (r_quantity r) ?db1")
  have t: "touches ?v db db2"
    using same_touches [OF reservations_same] releaseReserved_touches [OF rel] by (rule touches_trans)
  show ?thesis
  proof (cases "mk \<noteq> None \<and> mk \<in> set (map m_key (movements db2))")
    case dup: True
    with assms True rel obtain ch where "syncVariantStockReadModel ?v db2 = Inr (ch, db')"
      by (auto simp: releaseActiveReservation_def Let_def)
    with t show ?thesis by (rule stock_effect_synced)
  next
    case False
    let ?m = "(new_movement (r_warehouseId r) ?v RELEASE src)
        \<lparr>quantityAfter := h, m_reservationId := Some (r_id r), m_cartId := r_cartId r,
         m_orderId := r_orderId r, m_actorUserId := actor, m_reason := Some reason, m_key := mk\<rparr>"
    from False assms True rel obtain row db3 ch where m: "create_movement gen ?m db2 = Inr (row, db3)"
        and s: "syncVariantStockReadModel ?v db3 = Inr (ch, db')"
      by (auto simp: releaseActiveReservation_def Let_def)
    show ?thesis
      by (rule stock_effect_synced [OF touches_trans [OF t same_touches [OF movement_same [OF m]]] s])
  qed
qed

lemma release_one_effect:
  "release_one gen now reason actor (a, db) r = Inr (a', db') \<Longrightarrow> stock_effect db db'"
  by (auto simp: release_one_def split: prod.splits option.splits dest: releaseActive_effect)

lemma releaseCart_effect:
  assumes "releaseCartReservations gen now cat c reason actor db = Inr (res, db')"
  shows "stock_effect db db'"
  using assms by (auto simp: releaseCartReservations_def elim!: foldE_stock_effect intro: release_one_effect)

lemma expire_loop_effect: "stock_effect db (snd (expire_loop gen now acc db rs))"
proof (induction rs arbitrary: acc db)
  case (Cons rc rs)
  obtain r c where rc: "rc = (r, c)" by (cases rc)
  obtain n vids cids cs where acc: "acc = (n, vids, cids, cs)" by (cases acc)
  show ?case
  proof (cases "releaseExpiredReservation gen now r db")
    case (Inr p)
    obtain o' db1 where p: "p = (o', db1)" by (cases p)
    then have "stock_effect db db1"
      using Inr by (auto simp: releaseExpiredReservation_def dest: releaseActive_effect)
    with Cons.IH Inr p rc acc show ?thesis
      by (cases o') (auto intro: stock_effect_trans simp del: expire_loop.simps simp: expire_loop.simps(2))
  qed (simp add: rc acc stock_effect_refl)
qed (simp add: stock_effect_refl)

lemma releaseExpired_effect: "stock_effect db (snd (releaseExpiredReservations gen now limit db))"
  using expire_loop_effect [of db gen now "(0, [], [], [])" "expired_reservations db now limit"]
  by (auto simp: releaseExpiredReservations_def split: prod.splits sum.splits)

lemma reserveCartLine_effect:
  assumes "reserveCartLine gen now cat c w i v q expires actor db = Inr (out, db')"
  shows "stock_effect db db'"
  using assms
proof -
  let ?key = "buildCartReservationIdempotencyKey c i v"
  let ?ex = "List.find (\<lambda>r. r_key r = Some ?key) (reservations db)"
  let ?d = "q - kept_quantity w ?ex"
  from assms obtain released db1 db2 rid db3 db4 where st:
      "release_moved gen now w actor ?ex db = Inr (released, db1)" "move_reserved now w v ?d db1 = Inr db2"
      "write_reservation gen now ?ex w v q c i expires ?key db2 = Inr (rid, db3)"
      "record_reserve_movement gen w v c actor ?d rid db3 = Inr db4"
    and fin: "(\<exists>ch. syncVariantStockReadModel v db4 = Inr (ch, db')) \<or> (?d = 0 \<and> db' = db4)"
    unfolding reserveCartLine_def Let_def by (auto split: if_splits)
  have rel: "stock_effect db db1"
    using st(1) by (auto simp: release_moved_def stock_effect_refl split: option.splits if_splits
        dest: releaseActive_effect)
  have same: "same_tables db2 db4"
    using write_reservation_same [OF st(3)] record_reserve_same [OF st(4)] by (rule same_trans)
  from fin show ?thesis
  proof
    assume "\<exists>ch. syncVariantStockReadModel v db4 = Inr (ch, db')"
    then obtain ch where "syncVariantStockReadModel v db4 = Inr (ch, db')" ..
    moreover have "touches v db1 db4"
      using move_reserved_touches [OF st(2)] same_touches [OF same] by (rule touches_trans)
    ultimately show ?thesis using rel by (blast intro: stock_effect_trans stock_effect_synced)
  next
    assume "?d = 0 \<and> db' = db4"
    with st(2) same show ?thesis
      using rel by (auto simp: move_reserved_def intro: stock_effect_trans stock_effect_same)
  qed
qed

lemma reserve_line_effect:
  "reserve_line gen now cat c w expires actor (a, db) l = Inr (a', db') \<Longrightarrow> stock_effect db db'"
  by (auto simp: reserve_line_def split: prod.splits option.splits dest: reserveCartLine_effect)

lemma release_unwanted_effect:
  "release_unwanted gen now keys actor (a, db) r = Inr (a', db') \<Longrightarrow> stock_effect db db'"
  by (auto simp: release_unwanted_def stock_effect_refl split: option.splits if_splits dest: release_one_effect)

lemma reserveCart_effect:
  assumes "reserveCartStock gen now cat c ls expires actor db = Inr (res, db')"
  shows "stock_effect db db'"
  using assms
  by (auto simp: reserveCartStock_def Let_def split: if_splits sum.splits dest!: releaseCart_effect)
    (blast intro: stock_effect_trans foldE_stock_effect release_unwanted_effect reserve_line_effect)


lemma consume_reservation_same:
  "consume_reservation gen now ord c i v k (ids, db) x = Inr (ids', db') \<Longrightarrow> same_tables db db'"
  by (auto simp: consume_reservation_def split: prod.splits if_splits
      dest!: update_reservation_same create_reservation_same intro: same_trans)

lemma consume_group_touches:
  "consume_group gen now ord c v actor k ids (a, db) g = Inr (a', db') \<Longrightarrow> touches v db db'"
  by (auto simp: consume_group_def split: prod.splits
      dest!: consumeBalance_touches sale_movement_same intro: touches_trans same_touches)

lemma consume_direct_touches:
  "consume_direct gen now ord c i v actor k w rem (a, db) = Inr (f, db') \<Longrightarrow> touches v db db'"
  by (auto simp: consume_direct_def split: prod.splits
      dest!: consumeBalance_touches sale_movement_same create_reservation_same)
    (blast intro: touches_trans same_touches)

lemma foldE_touches:
  assumes "foldE f (acc, db) xs = Inr (acc', db')"
    and "\<And>a d x a' d'. x \<in> set xs \<Longrightarrow> f (a, d) x = Inr (a', d') \<Longrightarrow> touches v d d'"
  shows "touches v db db'"
proof -
  have "(\<lambda>s s'. touches v (snd s) (snd s')) (acc, db) (acc', db')"
    by (rule foldE_rel [OF assms(1)]) (auto intro: touches_trans assms(2))
  then show ?thesis by simp
qed

lemma consumeLine_effect:
  assumes "consumeCompletedOrderLine gen now cat c ord i v q actor db = Inr (out, db')"
  shows "stock_effect db db'"
proof (cases "\<exists>m\<in>set (movements db). m_key m = Some (buildSaleIdempotencyKey ord i)")
  case True
  with assms show ?thesis by (auto simp: consumeCompletedOrderLine_def Let_def stock_effect_refl)
next
  case False
  then have "\<forall>m\<in>set (movements db). m_key m \<noteq> Some (buildSaleIdempotencyKey ord i)" by blast
  with assms show ?thesis
  proof (cases rule: consume_line_Inr)
    case (1 used gs remaining direct ids db1 n first db2 first' db3 ch)
    have "touches v db db1"
      using 1(3) by (rule foldE_touches) (blast intro: same_touches consume_reservation_same)
    moreover have "touches v db1 db2" using 1(4) by (rule foldE_touches) (rule consume_group_touches)
    moreover have "touches v db2 db3"
      using 1(5) by (auto split: option.splits dest: consume_direct_touches)
    ultimately show ?thesis using 1(6) by (blast intro: touches_trans stock_effect_synced)
  qed
qed

lemma consume_line_effect:
  "consume_line gen now cat c ord actor (a, db) l = Inr (a', db') \<Longrightarrow> stock_effect db db'"
  by (auto simp: consume_line_def stock_effect_refl split: prod.splits option.splits)
    (blast intro: consumeLine_effect)+

lemma consumeOrder_effect:
  assumes "consumeCompletedOrderStock gen now cat c ord ls actor db = Inr (res, db')"
  shows "stock_effect db db'"
  using assms
  by (auto simp: consumeCompletedOrderStock_def Let_def elim!: foldE_stock_effect intro: consume_line_effect)

lemma run_inv_op_effect:
  "run_inv_op gen now op db = Inr db' \<Longrightarrow> stock_effect db db'"
  by (cases op) (auto dest: adjust_effect reserveCart_effect releaseCart_effect consumeOrder_effect
      intro: releaseExpired_effect)

end
