(* ===== verification/Inventory_Warehouses.thy ===== *)
theory Inventory_Warehouses
  imports Inventory_Read_Model
begin

text \<open>
  The warehouse operations of \<^verbatim>\<open>inventory.repository.ts\<close>: listing, creation, update, soft
  deletion and the resynchronisation of the stock read model.  A warehouse can be linked to
  several catalogs; the link carries the default flag.  \<open>cmp\<close> stands for
  \<^verbatim>\<open>String.prototype.localeCompare\<close>, whose order depends on the locale of the host.
\<close>


section \<open>Reading\<close>

record warehouse_view =
  wv_warehouse :: warehouse
  wv_isDefault :: bool

definition mapWarehouseCatalog :: "warehouse \<Rightarrow> warehouse_catalog \<Rightarrow> warehouse_view" where
  "mapWarehouseCatalog w l = \<lparr>wv_warehouse = w, wv_isDefault = wc_isDefault l\<rparr>"

definition sortWarehouses :: "(string \<Rightarrow> string \<Rightarrow> int) \<Rightarrow> warehouse_view \<Rightarrow> warehouse_view \<Rightarrow> int" where
  "sortWarehouses cmp left right =
     (if wv_isDefault left \<noteq> wv_isDefault right then (if wv_isDefault left then -1 else 1)
      else cmp (w_name (wv_warehouse left)) (w_name (wv_warehouse right)))"

definition live_view :: "inv_db \<Rightarrow> warehouse_catalog \<Rightarrow> warehouse_view option" where
  "live_view db l =
     (case warehouse_by_id db (wc_warehouseId l) of
        None \<Rightarrow> None
      | Some w \<Rightarrow> if w_deleteAt w \<noteq> None then None else Some (mapWarehouseCatalog w l))"

definition findWarehouses :: "(string \<Rightarrow> string \<Rightarrow> int) \<Rightarrow> ident \<Rightarrow> inv_db \<Rightarrow> warehouse_view list" where
  "findWarehouses cmp catalogId db =
     sort_by (sortWarehouses cmp)
       (List.map_filter (live_view db) (filter (\<lambda>l. wc_catalogId l = catalogId) (warehouse_catalogs db)))"

definition findWarehouseById :: "ident \<Rightarrow> ident \<Rightarrow> inv_db \<Rightarrow> warehouse_view option" where
  "findWarehouseById catalogId i db = Option.bind (warehouse_link db i catalogId) (live_view db)"

definition existsWarehouseCode :: "ident \<Rightarrow> string \<Rightarrow> ident option \<Rightarrow> inv_db \<Rightarrow> bool" where
  "existsWarehouseCode catalogId code exclude db =
     (\<exists>l\<in>set (warehouse_catalogs db). wc_catalogId l = catalogId \<and>
        (case warehouse_by_id db (wc_warehouseId l) of
           None \<Rightarrow> False
         | Some w \<Rightarrow> w_code w = code \<and> w_deleteAt w = None \<and>
             (case exclude of None \<Rightarrow> True | Some x \<Rightarrow> x = [] \<or> w_id w \<noteq> x)))"


section \<open>Writing\<close>

record warehouse_data =
  wd_name :: "string option"
  wd_code :: "string option"
  wd_status :: "warehouse_status option"
  wd_address :: "string option option"

definition clear_defaults :: "ident \<Rightarrow> inv_db \<Rightarrow> inv_db" where
  "clear_defaults catalogId db =
     db\<lparr>warehouse_catalogs := update_where (\<lambda>l. wc_catalogId l = catalogId)
          (\<lambda>l. l\<lparr>wc_isDefault := False\<rparr>) (warehouse_catalogs db)\<rparr>"

text \<open>
  The unique index on owner and code covers deleted rows too; rows without an owner never clash.
\<close>

definition code_clash :: "inv_db \<Rightarrow> ident option \<Rightarrow> string \<Rightarrow> ident option \<Rightarrow> bool" where
  "code_clash db owner code self =
     (owner \<noteq> None \<and> (\<exists>w\<in>set (warehouses db). w_owner w = owner \<and> w_code w = code \<and> Some (w_id w) \<noteq> self))"

text \<open>The widths of the name, code and address columns.\<close>

definition fits_columns :: "warehouse \<Rightarrow> bool" where
  "fits_columns w =
     (length (w_name w) \<le> 255 \<and> length (w_code w) \<le> 100 \<and>
      (case w_address w of None \<Rightarrow> True | Some a \<Rightarrow> length a \<le> 500))"

definition createWarehouse ::
    "idgen \<Rightarrow> time \<Rightarrow> ident \<Rightarrow> ident option \<Rightarrow> string \<Rightarrow> string \<Rightarrow> warehouse_status option \<Rightarrow> string option \<Rightarrow> bool
     \<Rightarrow> inv_db \<Rightarrow> inv_error + (warehouse_view \<times> inv_db)" where
  "createWarehouse gen now catalogId ownerUserId name code status address isDefault db =
     (let db1 = (if isDefault then clear_defaults catalogId db else db);
          i = gen (map w_id (warehouses db1));
          owner = (if ownerUserId = Some [] then None else ownerUserId);
          w = \<lparr>w_id = i, w_name = name, w_code = code,
               w_status = (case status of None \<Rightarrow> W_ACTIVE | Some s \<Rightarrow> s), w_address = address,
               w_owner = owner, w_deleteAt = None\<rparr>;
          l = \<lparr>wc_warehouseId = i, wc_catalogId = catalogId, wc_isDefault = isDefault, wc_createdAt = now\<rparr>
      in if \<not> fits_columns w then Inl (DbError ValueTooLong)
         else if i \<in> set (map w_id (warehouses db1)) \<or> code_clash db1 owner code None
         then Inl (DbError UniqueViolation)
         else Inr (mapWarehouseCatalog w l,
                   db1\<lparr>warehouses := warehouses db1 @ [w],
                       warehouse_catalogs := warehouse_catalogs db1 @ [l]\<rparr>))"

definition apply_data :: "warehouse_data \<Rightarrow> warehouse \<Rightarrow> warehouse" where
  "apply_data d w =
     w\<lparr>w_name := (case wd_name d of None \<Rightarrow> w_name w | Some n \<Rightarrow> n),
       w_code := (case wd_code d of None \<Rightarrow> w_code w | Some c \<Rightarrow> c),
       w_status := (case wd_status d of None \<Rightarrow> w_status w | Some s \<Rightarrow> s),
       w_address := (case wd_address d of None \<Rightarrow> w_address w | Some a \<Rightarrow> a)\<rparr>"

definition set_default :: "ident \<Rightarrow> ident \<Rightarrow> bool \<Rightarrow> inv_db \<Rightarrow> inv_db" where
  "set_default i catalogId b db =
     db\<lparr>warehouse_catalogs := update_where (\<lambda>l. wc_key l = (i, catalogId))
          (\<lambda>l. l\<lparr>wc_isDefault := b\<rparr>) (warehouse_catalogs db)\<rparr>"

definition updateWarehouse ::
    "ident \<Rightarrow> ident \<Rightarrow> warehouse_data \<Rightarrow> bool option \<Rightarrow> inv_db
     \<Rightarrow> inv_error + (warehouse_view option \<times> inv_db)" where
  "updateWarehouse catalogId i d isDefault db =
     (case (warehouse_link db i catalogId, warehouse_by_id db i) of
        (Some _, Some w) \<Rightarrow>
          if w_deleteAt w \<noteq> None then Inr (None, db)
          else
            let db1 = (if isDefault = Some True then clear_defaults catalogId db else db) in
            if \<not> fits_columns (apply_data d w) then Inl (DbError ValueTooLong)
            else if (case wd_code d of None \<Rightarrow> False | Some c \<Rightarrow> code_clash db1 (w_owner w) c (Some i))
            then Inl (DbError UniqueViolation)
            else
              let db2 = db1\<lparr>warehouses := update_where (\<lambda>w. w_id w = i) (apply_data d) (warehouses db1)\<rparr>;
                  nextIsDefault = (if wd_status d = Some W_DISABLED then Some False else isDefault);
                  db3 = (case nextIsDefault of None \<Rightarrow> db2 | Some b \<Rightarrow> set_default i catalogId b db2)
              in Inr (findWarehouseById catalogId i db3, db3)
      | _ \<Rightarrow> Inr (None, db))"

definition softDeleteWarehouse ::
    "time \<Rightarrow> ident \<Rightarrow> ident \<Rightarrow> inv_db \<Rightarrow> warehouse_view option \<times> inv_db" where
  "softDeleteWarehouse now catalogId i db =
     (case (warehouse_link db i catalogId, warehouse_by_id db i) of
        (Some l, Some w) \<Rightarrow>
          if w_deleteAt w \<noteq> None then (None, db)
          else
            let del = (\<lambda>w. w\<lparr>w_deleteAt := Some now, w_status := W_DISABLED\<rparr>);
                db1 = set_default i catalogId False db
            in (Some (mapWarehouseCatalog (del w) (l\<lparr>wc_isDefault := False\<rparr>)),
                db1\<lparr>warehouses := update_where (\<lambda>w. w_id w = i) del (warehouses db1)\<rparr>)
      | _ \<Rightarrow> (None, db))"

definition resyncWarehouseVariantStocks ::
    "ident \<Rightarrow> ident \<Rightarrow> inv_db \<Rightarrow> inv_error + (ident list \<times> inv_db)" where
  "resyncWarehouseVariantStocks catalogId i db =
     (if warehouse_link db i catalogId = None then Inr ([], db)
      else
        let variantIds = remdups (map b_variantId (filter (\<lambda>b. b_warehouseId b = i \<and>
              variant_catalog db (b_variantId b) = Some catalogId) (balances db)))
        in bindE (foldE (\<lambda>db v. bindE (syncVariantStockReadModel v db) (\<lambda>(_, db'). Inr db')) db variantIds)
             (\<lambda>db'. Inr (variantIds, db')))"


section \<open>The link table\<close>

text \<open>Ids are unique, links name existing warehouses, and a catalog has at most one default.\<close>

definition links_ok :: "inv_db \<Rightarrow> bool" where
  "links_ok db \<longleftrightarrow>
     distinct (map w_id (warehouses db)) \<and> distinct (map wc_key (warehouse_catalogs db)) \<and>
     wc_warehouseId ` set (warehouse_catalogs db) \<subseteq> w_id ` set (warehouses db) \<and>
     distinct (map wc_catalogId (filter wc_isDefault (warehouse_catalogs db)))"

lemma links_ok_cong:
  "warehouses db' = warehouses db \<Longrightarrow> warehouse_catalogs db' = warehouse_catalogs db \<Longrightarrow> links_ok db' = links_ok db"
  by (simp add: links_ok_def)

lemma filter_default_off:
  "filter wc_isDefault (update_where P (\<lambda>l. l\<lparr>wc_isDefault := False\<rparr>) xs) = filter (\<lambda>l. \<not> P l \<and> wc_isDefault l) xs"
  by (induction xs) (auto simp: table_simps)

lemma links_ok_defaults_off:
  assumes "links_ok db"
  shows "links_ok (db\<lparr>warehouse_catalogs :=
    update_where P (\<lambda>l. l\<lparr>wc_isDefault := False\<rparr>) (warehouse_catalogs db)\<rparr>)"
proof -
  let ?rows = "warehouse_catalogs db"
  let ?rows' = "update_where P (\<lambda>l. l\<lparr>wc_isDefault := False\<rparr>) ?rows"
  have "map wc_key ?rows' = map wc_key ?rows" "map wc_warehouseId ?rows' = map wc_warehouseId ?rows"
    by (simp_all add: map_update_where wc_key_def)
  moreover from this(2) have "wc_warehouseId ` set ?rows' = wc_warehouseId ` set ?rows" by (metis set_map)
  moreover have "distinct (map wc_catalogId (filter (\<lambda>l. \<not> P l) (filter wc_isDefault ?rows)))"
    by (rule distinct_map_filter) (use assms in \<open>simp add: links_ok_def\<close>)
  ultimately show ?thesis
    using assms by (simp add: links_ok_def filter_default_off conj_commute)
qed

lemma links_ok_clear: "links_ok db \<Longrightarrow> links_ok (clear_defaults cat db)"
  by (simp add: clear_defaults_def links_ok_defaults_off)

lemma no_default_cleared:
  "\<forall>l\<in>set (warehouse_catalogs (clear_defaults cat db)). wc_catalogId l = cat \<longrightarrow> \<not> wc_isDefault l"
proof -
  have "\<forall>l\<in>set (update_where (\<lambda>l. wc_catalogId l = cat) (\<lambda>l. l\<lparr>wc_isDefault := False\<rparr>) rows).
      wc_catalogId l = cat \<longrightarrow> \<not> wc_isDefault l" for rows
    by (induction rows) (simp_all add: table_simps)
  then show ?thesis by (simp add: clear_defaults_def)
qed

lemma links_ok_set_False: "links_ok db \<Longrightarrow> links_ok (set_default i cat False db)"
  by (simp add: set_default_def links_ok_defaults_off)

lemma default_rows_True:
  assumes "distinct (map wc_key rows)" "\<And>l. l \<in> set rows \<Longrightarrow> wc_catalogId l = cat \<Longrightarrow> \<not> wc_isDefault l"
    and "distinct (map wc_catalogId (filter wc_isDefault rows))"
  shows "distinct (map wc_catalogId (filter wc_isDefault
    (update_where (\<lambda>l. wc_key l = (i, cat)) (\<lambda>l. l\<lparr>wc_isDefault := True\<rparr>) rows)))"
  using assms
proof (induction rows)
  case (Cons l rows)
  let ?upd = "update_where (\<lambda>l. wc_key l = (i, cat)) (\<lambda>l. l\<lparr>wc_isDefault := True\<rparr>)"
  have keep: "?upd rows = rows" if "wc_key l = (i, cat)"
    using Cons.prems(1) that by (intro update_where_none) (metis image_eqI list.simps(9) distinct.simps(2) set_map)
  have mem: "x \<in> wc_catalogId ` set (filter wc_isDefault (?upd rows)) \<Longrightarrow>
      x = cat \<or> x \<in> wc_catalogId ` set (filter wc_isDefault rows)" for x
    by (auto simp: set_update_where wc_key_def)
  have IH: "distinct (map wc_catalogId (filter wc_isDefault (?upd rows)))"
    using Cons by (auto split: if_splits)
  show ?case
  proof (cases "wc_key l = (i, cat)")
    case True
    have "cat \<notin> wc_catalogId ` set (filter wc_isDefault rows)" using Cons.prems(2) by auto
    with True keep Cons.prems(3) show ?thesis
      by (auto simp: table_simps wc_key_def split: if_splits)
  next
    case False
    with IH mem Cons.prems(2,3) show ?thesis by (auto simp: table_simps split: if_splits)
  qed
qed (simp add: table_simps)

lemma link_ids:
  "wc_warehouseId ` set (update_where P (\<lambda>l. l\<lparr>wc_isDefault := b\<rparr>) rows) = wc_warehouseId ` set rows"
  by (metis (no_types, lifting) map_update_where set_map warehouse_catalog.select_convs(1)
      warehouse_catalog.surjective warehouse_catalog.update_convs(3))

lemma links_ok_set_default:
  assumes "links_ok db" "b \<Longrightarrow> \<forall>l\<in>set (warehouse_catalogs db). wc_catalogId l = cat \<longrightarrow> \<not> wc_isDefault l"
  shows "links_ok (set_default i cat b db)"
proof (cases b)
  case True
  with assms default_rows_True [of "warehouse_catalogs db" cat i] show ?thesis
    by (simp add: links_ok_def set_default_def map_update_where wc_key_def link_ids)
qed (use assms links_ok_set_False in simp)

lemma links_ok_update_warehouses:
  assumes "links_ok db" "\<And>w. w_id (f w) = w_id w"
  shows "links_ok (db\<lparr>warehouses := update_where P f (warehouses db)\<rparr>)"
proof -
  have m: "map w_id (update_where P f (warehouses db)) = map w_id (warehouses db)"
    by (simp add: assms(2) map_update_where)
  then have "w_id ` set (update_where P f (warehouses db)) = w_id ` set (warehouses db)"
    by (metis set_map)
  with m assms(1) show ?thesis by (simp add: links_ok_def)
qed

lemma apply_data_id [simp]: "w_id (apply_data d w) = w_id w"
  by (simp add: apply_data_def)


section \<open>Preservation\<close>

lemma clear_defaults_frame [simp]:
  "warehouses (clear_defaults cat db) = warehouses db" "balances (clear_defaults cat db) = balances db"
  "reservations (clear_defaults cat db) = reservations db" "movements (clear_defaults cat db) = movements db"
  "variants (clear_defaults cat db) = variants db"
  by (simp_all add: clear_defaults_def)

lemma set_default_frame [simp]:
  "warehouses (set_default i cat b db) = warehouses db" "balances (set_default i cat b db) = balances db"
  "reservations (set_default i cat b db) = reservations db" "movements (set_default i cat b db) = movements db"
  "variants (set_default i cat b db) = variants db"
  by (simp_all add: set_default_def)

lemma inv_ok_cong:
  "balances db' = balances db \<Longrightarrow> reservations db' = reservations db \<Longrightarrow> movements db' = movements db \<Longrightarrow>
   inv_ok db' = inv_ok db"
proof -
  assume eq: "balances db' = balances db" "reservations db' = reservations db" "movements db' = movements db"
  have "gap db' = gap db" "ledger_gap db' = ledger_gap db" "structure_ok db' = structure_ok db"
    using gap_cong [OF eq(1,2)] ledger_gap_cong [OF eq(1,3)] structure_ok_cong [OF eq(1,2)] by auto
  then show ?thesis unfolding inv_ok_def by presburger
qed

lemma links_ok_add:
  assumes "links_ok db" "w_id w \<notin> w_id ` set (warehouses db)" "wc_warehouseId l = w_id w"
    and "wc_isDefault l \<Longrightarrow> \<forall>x\<in>set (warehouse_catalogs db). wc_catalogId x = wc_catalogId l \<longrightarrow> \<not> wc_isDefault x"
  shows "links_ok (db\<lparr>warehouses := warehouses db @ [w], warehouse_catalogs := warehouse_catalogs db @ [l]\<rparr>)"
proof -
  note ok = assms(1) [unfolded links_ok_def]
  have "w_id w \<notin> wc_warehouseId ` set (warehouse_catalogs db)" using ok assms(2) by blast
  then have "wc_key l \<notin> wc_key ` set (warehouse_catalogs db)"
    using assms(3) by (auto simp: wc_key_def)
  moreover have "wc_isDefault l \<Longrightarrow>
      wc_catalogId l \<notin> wc_catalogId ` set (filter wc_isDefault (warehouse_catalogs db))"
    using assms(4) by auto
  ultimately show ?thesis using ok assms(2,3) by (simp add: links_ok_def) blast
qed

lemma createWarehouse_ok:
  assumes "links_ok db" "createWarehouse gen now cat owner name code status addr dflt db = Inr (v, db')"
  shows "links_ok db'" "inv_ok db' = inv_ok db"
proof -
  let ?db1 = "if dflt then clear_defaults cat db else db"
  define w where "w = \<lparr>w_id = gen (map w_id (warehouses ?db1)), w_name = name, w_code = code,
      w_status = (case status of None \<Rightarrow> W_ACTIVE | Some s \<Rightarrow> s), w_address = addr,
      w_owner = (if owner = Some [] then None else owner), w_deleteAt = None\<rparr>"
  define l where "l = \<lparr>wc_warehouseId = w_id w, wc_catalogId = cat, wc_isDefault = dflt, wc_createdAt = now\<rparr>"
  have w: "w_id w \<notin> w_id ` set (warehouses ?db1)" "wc_warehouseId l = w_id w" "wc_isDefault l = dflt"
      "wc_catalogId l = cat"
    and db': "db' = ?db1\<lparr>warehouses := warehouses ?db1 @ [w], warehouse_catalogs := warehouse_catalogs ?db1 @ [l]\<rparr>"
    using assms(2) unfolding createWarehouse_def Let_def by (simp_all add: w_def l_def split: if_splits)
  have "links_ok ?db1" using assms(1) links_ok_clear by simp
  from links_ok_add [OF this w(1,2)] w(3,4) no_default_cleared [of cat db] show "links_ok db'"
    unfolding db' by (auto split: if_splits)
  show "inv_ok db' = inv_ok db" by (rule inv_ok_cong) (simp_all add: db')
qed

lemma updateWarehouse_ok:
  assumes "links_ok db" "updateWarehouse cat i d dflt db = Inr (v, db')"
  shows "links_ok db'" "inv_ok db' = inv_ok db"
proof -
  let ?db1 = "if dflt = Some True then clear_defaults cat db else db"
  let ?db2 = "?db1\<lparr>warehouses := update_where (\<lambda>w. w_id w = i) (apply_data d) (warehouses ?db1)\<rparr>"
  let ?next = "if wd_status d = Some W_DISABLED then Some False else dflt"
  from assms(2) have db': "db' = db \<or>
      db' = (case ?next of None \<Rightarrow> ?db2 | Some b \<Rightarrow> set_default i cat b ?db2)"
    unfolding updateWarehouse_def Let_def by (auto split: option.splits if_splits)
  have "links_ok ?db1" using assms(1) links_ok_clear by simp
  then have ok2: "links_ok ?db2" by (rule links_ok_update_warehouses) simp
  have "links_ok (set_default i cat b ?db2)" if "?next = Some b" for b
  proof (rule links_ok_set_default [OF ok2])
    assume b
    with that have "dflt = Some True" by (auto split: if_splits)
    then show "\<forall>l\<in>set (warehouse_catalogs ?db2). wc_catalogId l = cat \<longrightarrow> \<not> wc_isDefault l"
      using no_default_cleared [of cat db] by simp
  qed
  with db' assms(1) ok2 show "links_ok db'" by (cases ?next) auto
  show "inv_ok db' = inv_ok db"
    using db' by (intro inv_ok_cong) (auto split: option.splits if_splits)
qed

lemma softDelete_ok:
  assumes "links_ok db" "softDeleteWarehouse now cat i db = (v, db')"
  shows "links_ok db'" "inv_ok db' = inv_ok db"
proof -
  let ?del = "\<lambda>w. w\<lparr>w_deleteAt := Some now, w_status := W_DISABLED\<rparr>"
  let ?db1 = "set_default i cat False db"
  from assms(2) have db': "db' = db \<or>
      db' = ?db1\<lparr>warehouses := update_where (\<lambda>w. w_id w = i) ?del (warehouses ?db1)\<rparr>"
    unfolding softDeleteWarehouse_def Let_def by (auto split: option.splits if_splits)
  have "links_ok (?db1\<lparr>warehouses := update_where (\<lambda>w. w_id w = i) ?del (warehouses ?db1)\<rparr>)"
    by (rule links_ok_update_warehouses [OF links_ok_set_False [OF assms(1)]]) simp
  with db' assms(1) show "links_ok db'" by auto
  show "inv_ok db' = inv_ok db" using db' by (intro inv_ok_cong) auto
qed

lemma resync_Inr:
  assumes "resyncWarehouseVariantStocks cat i db = Inr (vs, db')"
  shows "warehouses db' = warehouses db" "warehouse_catalogs db' = warehouse_catalogs db"
    "balances db' = balances db" "reservations db' = reservations db" "movements db' = movements db"
    "products db' = products db"
proof -
  let ?f = "\<lambda>db v. bindE (syncVariantStockReadModel v db) (\<lambda>(_, db'). Inr db')"
  let ?R = "\<lambda>db db'. warehouses db' = warehouses db \<and> warehouse_catalogs db' = warehouse_catalogs db \<and>
    balances db' = balances db \<and> reservations db' = reservations db \<and> movements db' = movements db \<and>
    products db' = products db"
  have "?R db db'" if "foldE ?f db vs = Inr db'" for vs db'
    by (rule foldE_rel [OF that, where R = ?R]) (auto dest: sync_frame)
  with assms have "?R db db'"
    by (auto simp: resyncWarehouseVariantStocks_def Let_def split: if_splits)
  then show "warehouses db' = warehouses db" "warehouse_catalogs db' = warehouse_catalogs db"
    "balances db' = balances db" "reservations db' = reservations db" "movements db' = movements db"
    "products db' = products db" by auto
qed

lemma resync_ok:
  assumes "resyncWarehouseVariantStocks cat i db = Inr (vs, db')"
  shows "links_ok db' = links_ok db" "inv_ok db' = inv_ok db"
  by (rule links_ok_cong, use resync_Inr [OF assms] in simp_all)
    (rule inv_ok_cong, use resync_Inr [OF assms] in simp_all)


section \<open>Histories of stock and warehouse operations\<close>

datatype wh_op =
    W_stock inv_op
  | W_create ident "ident option" string string "warehouse_status option" "string option" bool
  | W_update ident ident warehouse_data "bool option"
  | W_remove ident ident
  | W_resync ident ident

fun run_wh_op :: "idgen \<Rightarrow> wh_op \<times> time \<Rightarrow> inv_db \<Rightarrow> inv_error + inv_db" where
  "run_wh_op gen (W_stock op, now) db = run_inv_op gen now op db"
| "run_wh_op gen (W_create cat owner name code status addr dflt, now) db =
     bindE (createWarehouse gen now cat owner name code status addr dflt db) (\<lambda>(_, db'). Inr db')"
| "run_wh_op gen (W_update cat i d dflt, now) db =
     bindE (updateWarehouse cat i d dflt db) (\<lambda>(_, db'). Inr db')"
| "run_wh_op gen (W_remove cat i, now) db = Inr (snd (softDeleteWarehouse now cat i db))"
| "run_wh_op gen (W_resync cat i, now) db =
     bindE (resyncWarehouseVariantStocks cat i db) (\<lambda>(_, db'). Inr db')"

fun valid_wh_op :: "wh_op \<times> time \<Rightarrow> bool" where
  "valid_wh_op (W_stock op, _) = valid_op op"
| "valid_wh_op _ = True"

definition shop_ok :: "inv_db \<Rightarrow> bool" where
  "shop_ok db \<longleftrightarrow> inv_ok db \<and> links_ok db"

lemma run_wh_op_ok:
  assumes "shop_ok db" "valid_wh_op p" "run_wh_op gen p db = Inr db'"
  shows "shop_ok db'"
proof -
  obtain op now where p: "p = (op, now)" by (cases p)
  show ?thesis
  proof (cases op)
    case (W_stock sop)
    with assms p have run: "run_inv_op gen now sop db = Inr db'" and v: "valid_op sop" by auto
    have "inv_ok db'" using run_inv_op_inv [OF _ v run] assms(1) by (simp add: shop_ok_def)
    moreover have "links_ok db' = links_ok db"
      using run_inv_op_effect [OF run] by (intro links_ok_cong) (simp_all add: stock_effect_def)
    ultimately show ?thesis using assms(1) by (simp add: shop_ok_def)
  next
    case (W_remove cat i)
    with assms p softDelete_ok [of db now cat i] show ?thesis
      by (cases "softDeleteWarehouse now cat i db") (auto simp: shop_ok_def)
  next
    case (W_create cat owner name code status addr dflt)
    with assms p obtain v where v: "createWarehouse gen now cat owner name code status addr dflt db = Inr (v, db')"
      by auto
    show ?thesis using createWarehouse_ok [OF _ v] assms(1) by (simp add: shop_ok_def)
  next
    case (W_update cat i d dflt)
    with assms p obtain v where v: "updateWarehouse cat i d dflt db = Inr (v, db')" by auto
    show ?thesis using updateWarehouse_ok [OF _ v] assms(1) by (simp add: shop_ok_def)
  next
    case (W_resync cat i)
    with assms p obtain v where "resyncWarehouseVariantStocks cat i db = Inr (v, db')" by auto
    from resync_ok [OF this] show ?thesis using assms(1) by (simp add: shop_ok_def)
  qed
qed

interpretation shop: transactional shop_ok "run_wh_op gen" valid_wh_op for gen
  by unfold_locales (rule run_wh_op_ok)

end
