(* ===== verification/Warehouse_Properties.thy ===== *)
theory Warehouse_Properties
  imports Inventory_Warehouses
begin

text \<open>
  Properties of the warehouse operations: the default warehouse is unique, the choice of the sales
  warehouse does not depend on the order of the rows, a removed warehouse cannot be used, and the
  stock read model stays exact.
\<close>

section \<open>Lemmas\<close>

abbreviation active_links :: "ident \<Rightarrow> inv_db \<Rightarrow> warehouse_catalog list" where
  "active_links cat db \<equiv>
     filter (\<lambda>l. wc_catalogId l = cat \<and> warehouse_active db (wc_warehouseId l)) (warehouse_catalogs db)"

lemma default_link_unique:
  assumes "links_ok db" "l \<in> set (warehouse_catalogs db)" "l' \<in> set (warehouse_catalogs db)"
    "wc_isDefault l" "wc_isDefault l'" "wc_catalogId l = wc_catalogId l'"
  shows "l = l'"
  using assms by (auto simp: links_ok_def distinct_map dest: inj_onD)

lemma active_links_distinct: "links_ok db \<Longrightarrow> distinct (active_links cat db)"
  by (auto simp: links_ok_def distinct_map)

lemma one_element_list: "distinct xs \<Longrightarrow> x \<in> set xs \<Longrightarrow> \<forall>y\<in>set xs. y = x \<Longrightarrow> xs = [x]"
  by (cases xs; cases "tl xs") auto

lemma unique_choice:
  assumes "l \<in> A" "D l" "\<And>l'. l' \<in> A \<Longrightarrow> D l' \<Longrightarrow> l' = l"
  shows "((\<exists>x\<in>A. f x = w \<and> (D x \<or> A = {x})) \<longleftrightarrow> f l = w) \<and> A \<noteq> {} \<and> (\<exists>x\<in>A. D x)"
proof (intro conjI iffI)
  assume "\<exists>x\<in>A. f x = w \<and> (D x \<or> A = {x})"
  then obtain x where x: "x \<in> A" "f x = w" "D x \<or> A = {x}" by blast
  from x(3) have "x = l" using assms(1,3) x(1) by (elim disjE) simp_all
  with x(2) show "f l = w" by simp
qed (use assms(1,2) in blast)+

lemma no_choice:
  assumes "1 < card A" "\<forall>l\<in>A. \<not> D l"
  shows "\<not> (\<exists>x\<in>A. f x = w \<and> (D x \<or> A = {x})) \<and> A \<noteq> {} \<and> \<not> (\<exists>l\<in>A. D l)"
  using assms by (cases "\<exists>x. A = {x}") auto

lemma sort_key_single: "sort_key f xs = [x] \<longleftrightarrow> xs = [x]"
proof
  assume s: "sort_key f xs = [x]"
  have "length (sort_key f xs) = 1" "set (sort_key f xs) = {x}" unfolding s by simp_all
  then have "length xs = 1" "set xs = {x}" by simp_all
  then show "xs = [x]" by (cases xs; cases "tl xs") simp_all
qed simp

lemma sort_key_Nil: "sort_key f xs = [] \<longleftrightarrow> xs = []"
  by (cases xs) (simp_all add: insort_not_Nil)

lemma sales_cases:
  obtains (empty) "active_links cat db = []" "findSalesWarehouse cat db = Inl WAREHOUSE_NOT_FOUND"
  | (default) l where "l \<in> set (active_links cat db)" "wc_isDefault l" "findSalesWarehouse cat db = Inr (wc_warehouseId l)"
  | (single) l where "active_links cat db = [l]" "\<not> wc_isDefault l" "findSalesWarehouse cat db = Inr (wc_warehouseId l)"
  | (several) "1 < length (active_links cat db)" "\<forall>l\<in>set (active_links cat db). \<not> wc_isDefault l"
      "findSalesWarehouse cat db = Inl WAREHOUSE_AMBIGUOUS"
proof -
  let ?A = "active_links cat db"
  let ?rows = "sort_key (\<lambda>l. (if wc_isDefault l then (0::nat) else 1, wc_createdAt l)) ?A"
  have find: "findSalesWarehouse cat db = (if ?A = [] then Inl WAREHOUSE_NOT_FOUND
     else case List.find wc_isDefault ?rows of Some l \<Rightarrow> Inr (wc_warehouseId l)
       | None \<Rightarrow> (case ?rows of [l] \<Rightarrow> Inr (wc_warehouseId l) | _ \<Rightarrow> Inl WAREHOUSE_AMBIGUOUS))"
    by (simp add: findSalesWarehouse_def Let_def sort_key_Nil)
  show thesis
  proof (cases "List.find wc_isDefault ?rows")
    case (Some l)
    then have l: "l \<in> set ?A" "wc_isDefault l" by (auto dest!: find_Some_iff_mem)
    from l(1) have "?A \<noteq> []" by (metis list.distinct(1) list.set_cases)
    with Some find have "findSalesWarehouse cat db = Inr (wc_warehouseId l)" by simp
    with l show thesis by (rule default)
  next
    case None
    then have none: "\<forall>l\<in>set ?A. \<not> wc_isDefault l" by (auto simp: find_None_all)
    consider (0) "?A = []" | (1) l where "?A = [l]" | (2) "1 < length ?A"
      by (cases ?A; cases "tl ?A") simp_all
    then show thesis
    proof cases
      case 0
      with find show thesis by (intro empty) simp_all
    next
      case (1 l)
      with find none show thesis by (intro single [of l]) simp_all
    next
      case 2
      then have "?rows \<noteq> [l]" for l by (auto simp: sort_key_single)
      then have "(case ?rows of [l] \<Rightarrow> Inr (wc_warehouseId l) | _ \<Rightarrow> Inl WAREHOUSE_AMBIGUOUS) = Inl WAREHOUSE_AMBIGUOUS"
        by (simp split: list.split)
      moreover have "?A \<noteq> []" using 2 by (rule contrapos_pn) simp
      ultimately have "findSalesWarehouse cat db = Inl WAREHOUSE_AMBIGUOUS" using find None by simp
      with 2 none show thesis by (rule several)
    qed
  qed
qed

lemma sales_active: "findSalesWarehouse cat db = Inr w \<Longrightarrow> warehouse_active db w"
proof (cases rule: sales_cases [of cat db])
  case (single l)
  assume "findSalesWarehouse cat db = Inr w"
  moreover have "l \<in> set (active_links cat db)" unfolding single(1) by simp
  ultimately show ?thesis using single(3) by simp
qed simp_all

lemma softDelete_Some:
  assumes "softDeleteWarehouse now cat i db = (Some v, db')"
  obtains w where "warehouse_by_id db i = Some w" "w_deleteAt w = None"
    "db' = (set_default i cat False db)\<lparr>warehouses := update_where (\<lambda>w. w_id w = i)
       (\<lambda>w. w\<lparr>w_deleteAt := Some now, w_status := W_DISABLED\<rparr>) (warehouses db)\<rparr>"
  using assms by (auto simp: softDeleteWarehouse_def Let_def split: option.splits if_splits)

lemma find_link_default:
  "List.find (\<lambda>l. wc_key l = k) (update_where P (\<lambda>l. l\<lparr>wc_isDefault := b\<rparr>) ls) = None \<longleftrightarrow>
   List.find (\<lambda>l. wc_key l = k) ls = None"
  by (induction ls) (auto simp: table_simps wc_key_def)

lemma softDelete_frame:
  assumes "softDeleteWarehouse now cat i db = (Some v, db')"
  shows "balances db' = balances db" "variants db' = variants db" "products db' = products db"
    "warehouse_link db' i cat \<noteq> None"
proof -
  have "balances db' = balances db \<and> variants db' = variants db \<and> products db' = products db \<and>
      (warehouse_link db' i cat = None \<longleftrightarrow> warehouse_link db i cat = None)"
    using assms by (rule softDelete_Some) (simp add: set_default_def warehouse_link_def find_link_default)
  moreover have "warehouse_link db i cat \<noteq> None"
    using assms by (auto simp: softDeleteWarehouse_def split: option.splits)
  ultimately show "balances db' = balances db" "variants db' = variants db" "products db' = products db"
    "warehouse_link db' i cat \<noteq> None" by blast+
qed

lemma find_update_where_id:
  assumes "\<And>w. w_id (f w) = w_id w"
  shows "List.find (\<lambda>w. w_id w = j) (update_where (\<lambda>w. w_id w = i) f ws) =
    map_option (\<lambda>w. if w_id w = i then f w else w) (List.find (\<lambda>w. w_id w = j) ws)"
  using assms by (induction ws) (auto simp: table_simps)

lemma removed_not_live:
  assumes "softDeleteWarehouse now cat i db = (Some v, db')"
  obtains w where "warehouse_by_id db' i = Some w" "w_deleteAt w = Some now"
    "\<And>j. j \<noteq> i \<Longrightarrow> warehouse_by_id db' j = warehouse_by_id db j"
proof (rule softDelete_Some [OF assms])
  fix w
  assume w: "warehouse_by_id db i = Some w" and db': "db' = (set_default i cat False db)
    \<lparr>warehouses := update_where (\<lambda>w. w_id w = i) (\<lambda>w. w\<lparr>w_deleteAt := Some now, w_status := W_DISABLED\<rparr>) (warehouses db)\<rparr>"
  from w have id: "w_id w = i" by (auto simp: warehouse_by_id_def dest: find_Some_iff_mem)
  have "warehouse_by_id db' i = Some (w\<lparr>w_deleteAt := Some now, w_status := W_DISABLED\<rparr>)"
    using w id by (simp add: db' warehouse_by_id_def find_update_where_id)
  moreover have "warehouse_by_id db' j = warehouse_by_id db j" if "j \<noteq> i" for j
  proof (cases "List.find (\<lambda>w. w_id w = j) (warehouses db)")
    case (Some u)
    then have "w_id u = j" by (auto dest: find_Some_iff_mem)
    with Some that show ?thesis by (simp add: db' warehouse_by_id_def find_update_where_id)
  qed (simp add: db' warehouse_by_id_def find_update_where_id)
  ultimately show thesis using that by simp
qed

text \<open>Resynchronising a list of variants makes each of them exact and leaves the others as they were.\<close>

lemma resync_loop:
  assumes "foldE (\<lambda>db v. bindE (syncVariantStockReadModel v db) (\<lambda>(_, db'). Inr db')) db vs = Inr db'"
  shows "(\<forall>u\<in>set vs. read_model_at db' u) \<and> (\<forall>u. u \<notin> set vs \<longrightarrow> read_model_at db u \<longrightarrow> read_model_at db' u)"
  using assms
proof (induction vs arbitrary: db)
  case (Cons v vs)
  then obtain c db1 where s: "syncVariantStockReadModel v db = Inr (c, db1)"
    and rest: "foldE (\<lambda>db v. bindE (syncVariantStockReadModel v db) (\<lambda>(_, db'). Inr db')) db1 vs = Inr db'"
    by auto
  from Cons.IH [OF rest] sync_touches [OF s] show ?case
    using touches_read_model [of v db db1] by (metis set_ConsD list.set_intros(2))
qed simp

text \<open>Every operation of a stock history leaves the read model exact.\<close>

interpretation stock_view: transactional read_model_ok "run_at gen" "\<lambda>_. True" for gen
  by unfold_locales (use run_inv_op_effect in \<open>auto simp: run_at_def stock_effect_def\<close>)

lemma removal_available:
  assumes "softDeleteWarehouse now cat i db = (Some v, db')"
    and "\<forall>b\<in>set (balances db). b_variantId b = u \<longrightarrow> b_warehouseId b \<noteq> i"
  shows "available_total db' u = available_total db u"
proof -
  note b = softDelete_frame(1) [OF assms(1)]
  obtain w where "\<And>j. j \<noteq> i \<Longrightarrow> warehouse_by_id db' j = warehouse_by_id db j"
    using removed_not_live [OF assms(1)] by blast
  then have "warehouse_active db' j = warehouse_active db j" if "j \<noteq> i" for j
    using that by (simp add: warehouse_active_def)
  then show ?thesis
    unfolding available_total_def b using assms(2) by (intro sum_where_cong) auto
qed

lemma variant_catalog_cong:
  "variants db' = variants db \<Longrightarrow> products db' = products db \<Longrightarrow> variant_catalog db' v = variant_catalog db v"
  by (simp add: variant_catalog_def variant_by_id_def product_by_id_def)


section \<open>Properties\<close>

text \<open>
  C19. Whatever stock and warehouse operations run, and whichever of them fail: a catalog never has
  two default warehouses, and the link table stays well formed.
\<close>

theorem default_warehouse_unique:
  assumes "history (run_wh_op gen) valid_wh_op db db'" "shop_ok db"
  shows "length (filter (\<lambda>l. wc_isDefault l \<and> wc_catalogId l = cat) (warehouse_catalogs db')) \<le> 1 \<and>
    links_ok db' \<and> inv_ok db'"
proof -
  have ok: "shop_ok db'" using assms by (rule shop.history_invar)
  let ?d = "filter (\<lambda>l. wc_isDefault l \<and> wc_catalogId l = cat) (warehouse_catalogs db')"
  have "distinct ?d" using ok by (auto simp: shop_ok_def links_ok_def distinct_map)
  moreover have "\<forall>x\<in>set ?d. \<forall>y\<in>set ?d. x = y"
    using ok default_link_unique by (auto simp: shop_ok_def)
  ultimately have "length ?d \<le> 1"
  proof (cases ?d)
    case (Cons x xs)
    with \<open>distinct ?d\<close> \<open>\<forall>x\<in>set ?d. \<forall>y\<in>set ?d. x = y\<close> have "?d = [x]"
      by (intro one_element_list) auto
    then show ?thesis by simp
  qed simp
  with ok show ?thesis by (simp add: shop_ok_def)
qed

definition demo_second :: "wh_op \<times> time" where
  "demo_second = (W_create ''c'' (Some ''u'') ''Second'' ''second'' None None True, 5)"

theorem default_warehouse_unique_witness:
  "map wc_isDefault (warehouse_catalogs (committed (run_wh_op demo_gen) demo_shop demo_second)) = [False, True] \<and>
   links_ok (committed (run_wh_op demo_gen) demo_shop demo_second)"
proof -
  have "history (run_wh_op demo_gen) valid_wh_op demo_shop (committed (run_wh_op demo_gen) demo_shop demo_second)"
    by (intro history.step history.start) (simp add: demo_second_def)
  moreover have "shop_ok demo_shop" by code_simp
  moreover have "map wc_isDefault (warehouse_catalogs (committed (run_wh_op demo_gen) demo_shop demo_second)) = [False, True]"
    by code_simp
  ultimately show ?thesis using default_warehouse_unique by blast
qed

text \<open>
  The choice of the sales warehouse is independent of the order in which rows are stored: it is
  the active default if there is one, else the only active warehouse; without an active warehouse
  the answer is \<^verbatim>\<open>WAREHOUSE_NOT_FOUND\<close>, with several and no default \<^verbatim>\<open>WAREHOUSE_AMBIGUOUS\<close>.
\<close>

theorem sales_warehouse_choice:
  assumes "links_ok db"
  shows "(findSalesWarehouse cat db = Inr w \<longleftrightarrow>
      (\<exists>l\<in>set (active_links cat db). wc_warehouseId l = w \<and> (wc_isDefault l \<or> set (active_links cat db) = {l}))) \<and>
    (findSalesWarehouse cat db = Inl WAREHOUSE_NOT_FOUND \<longleftrightarrow> set (active_links cat db) = {}) \<and>
    (findSalesWarehouse cat db = Inl WAREHOUSE_AMBIGUOUS \<longleftrightarrow>
      1 < card (set (active_links cat db)) \<and> \<not> (\<exists>l\<in>set (active_links cat db). wc_isDefault l))"
proof (cases rule: sales_cases [of cat db])
  case (default l)
  have uniq: "l' = l" if "l' \<in> set (active_links cat db)" "wc_isDefault l'" for l'
    using default_link_unique [OF assms, of l' l] that default(1,2) by simp
  note choice = unique_choice [of l "set (active_links cat db)" wc_isDefault, OF default(1,2) uniq]
  show ?thesis unfolding default(3) using choice [of wc_warehouseId w] by simp
next
  case several
  have card: "card (set (active_links cat db)) = length (active_links cat db)"
    using active_links_distinct [OF assms] by (rule distinct_card)
  show ?thesis
    unfolding several(3)
    using several(1) card no_choice [OF _ several(2), of wc_warehouseId w] by simp
qed simp_all

definition demo_two :: inv_db where
  "demo_two = committed (run_wh_op demo_gen) demo_shop demo_second"

theorem sales_warehouse_choice_witness:
  "findSalesWarehouse ''c'' demo_two = Inr ''xx''"
proof -
  have "links_ok demo_two" "\<exists>l\<in>set (active_links ''c'' demo_two). wc_warehouseId l = ''xx'' \<and> wc_isDefault l"
    by code_simp+
  then show ?thesis using sales_warehouse_choice [of demo_two "''c''" "''xx''"] by blast
qed

text \<open>
  A removed warehouse is out of use for every catalog it is linked to: it cannot be opened, is
  never the sales warehouse and takes no adjustment, while its balances, reservations and movements
  are kept.
\<close>

theorem removed_warehouse_unusable:
  assumes "softDeleteWarehouse now cat i db = (Some v, db')"
  shows "findWarehouseById c i db' = None \<and> findSalesWarehouse c db' \<noteq> Inr i \<and>
    adjustStock gen t c i var delta reason actor db' = Inl (Rejected WAREHOUSE_NOT_FOUND None) \<and>
    balances db' = balances db \<and> reservations db' = reservations db \<and> movements db' = movements db"
proof (rule removed_not_live [OF assms])
  fix w
  assume w: "warehouse_by_id db' i = Some w" "w_deleteAt w = Some now"
  then have "\<not> warehouse_active db' i" by (simp add: warehouse_active_def)
  then have "findSalesWarehouse c db' \<noteq> Inr i"
    using sales_active by blast
  moreover have "findWarehouseById c i db' = None"
    using w by (cases "warehouse_link db' i c")
      (auto simp: findWarehouseById_def live_view_def warehouse_link_def wc_key_def dest: find_Some_iff_mem)
  moreover have "adjustStock gen t c i var delta reason actor db' = Inl (Rejected WAREHOUSE_NOT_FOUND None)"
    using w by (simp add: adjustStock_def split: option.splits)
  moreover have "balances db' = balances db \<and> reservations db' = reservations db \<and> movements db' = movements db"
    using assms by (rule softDelete_Some) simp
  ultimately show ?thesis by blast
qed

theorem removed_warehouse_unusable_witness:
  "findSalesWarehouse ''c'' (snd (softDeleteWarehouse 7 ''c'' ''xx'' demo_two)) \<noteq> Inr ''xx'' \<and>
   findSalesWarehouse ''c'' demo_two = Inr ''xx''"
proof -
  have "fst (softDeleteWarehouse 7 ''c'' ''xx'' demo_two) \<noteq> None" by code_simp
  then obtain v db' where d: "softDeleteWarehouse 7 ''c'' ''xx'' demo_two = (Some v, db')"
    by (cases "softDeleteWarehouse 7 ''c'' ''xx'' demo_two") auto
  have "findSalesWarehouse ''c'' demo_two = Inr ''xx''" by code_simp
  with removed_warehouse_unusable [OF d, of "''c''"] show ?thesis by (simp add: d)
qed

text \<open>
  C22. The stock shown for a variant is exact in every state the stock operations reach: for a
  variant that has a balance it is the available quantity of its balances in active warehouses.
\<close>

theorem shown_stock_is_available_stock:
  assumes "history (run_at gen) (\<lambda>_. True) db db'" "read_model_ok db"
    and "b \<in> set (balances db')" "x \<in> set (variants db')" "v_id x = b_variantId b"
  shows "v_stock x = Some (max 0 (sum_where (\<lambda>b. b_variantId b = v_id x \<and>
    warehouse_active db' (b_warehouseId b)) quantityAvailable (balances db')))"
proof -
  have "read_model_ok db'" using assms(1,2) by (rule stock_view.history_invar)
  then have "read_model_at db' (b_variantId b)" by (simp add: read_model_ok_iff)
  with assms(3-5) show ?thesis by (auto simp: read_model_at_def available_total_def)
qed

theorem shown_stock_is_available_stock_witness:
  "v_stock (hd (variants (demo_run [demo_receipt, demo_reserve]))) = Some 7"
proof -
  let ?db = "demo_run [demo_receipt, demo_reserve]"
  have h: "history (run_at demo_gen) (\<lambda>_. True) demo_shop ?db"
    unfolding demo_run_def by (rule history_sequence) simp
  have ok: "read_model_ok demo_shop" by code_simp
  have "hd (balances ?db) \<in> set (balances ?db)" "hd (variants ?db) \<in> set (variants ?db)"
    "v_id (hd (variants ?db)) = b_variantId (hd (balances ?db))"
    by code_simp+
  from shown_stock_is_available_stock [OF h ok this]
  have "v_stock (hd (variants ?db)) = Some (max 0 (sum_where (\<lambda>b. b_variantId b = v_id (hd (variants ?db)) \<and>
    warehouse_active ?db (b_warehouseId b)) quantityAvailable (balances ?db)))" .
  moreover have "max 0 (sum_where (\<lambda>b. b_variantId b = v_id (hd (variants ?db)) \<and>
    warehouse_active ?db (b_warehouseId b)) quantityAvailable (balances ?db)) = 7" by code_simp
  ultimately show ?thesis by simp
qed

end
