(* ===== verification/Domain_Events.thy ===== *)
theory Domain_Events
  imports Prelude
begin

text \<open>
  The domain events of \<^verbatim>\<open>shared/domain-events\<close>: the event union of
  \<^verbatim>\<open>domain-events.contract.ts\<close>, its helpers (\<^verbatim>\<open>domain-event.utils.ts\<close>,
  \<^verbatim>\<open>domain-event-idempotency.ts\<close>, \<^verbatim>\<open>domain-event-outbox.utils.ts\<close>) and the
  in-process bus (\<^verbatim>\<open>in-process-domain-event-bus.ts\<close>).

  A subscribed handler is a function on the world the handlers act on; it returns the message it
  threw, if it did, and the world it left.  The stored form of a date is its ISO string, which
  names the instant to the millisecond; the model keeps the instant.
\<close>


section \<open>Events\<close>

record event_meta =
  eventId :: ident
  e_catalogId :: ident
  e_occurredAt :: time

datatype event_source = S_manual | S_inventory | S_integration | S_cart | S_order | S_system

datatype cache_scope = CS_catalog | CS_catalog_products | CS_category_products | CS_category_list
  | CS_catalog_type

record variant_change =
  vc_productId :: "ident option"
  vc_variantId :: ident
  vc_previous :: "int option"
  vc_next :: "int option"
  vc_source :: "event_source option"
  vc_reason :: "string option"
  vc_integrationId :: "ident option"
  vc_externalId :: "ident option"
  vc_runId :: "ident option"

datatype event_body =
    Order_completed ident "ident option"
  | Product_changed ident "string list option"
  | Product_variant_changed ident "ident option" "string list option"
  | Variant_stock_changed variant_change
  | Variant_price_changed variant_change
  | Integration_sync_completed ident ident "string option" "string option"
  | Catalog_capability_changed string
  | Catalog_cache_invalidated "(cache_scope \<times> ident option) list"

record domain_event =
  e_meta :: event_meta
  e_body :: event_body

fun event_type :: "event_body \<Rightarrow> string" where
  "event_type (Order_completed _ _) = ''order.completed''"
| "event_type (Product_changed _ _) = ''product.changed''"
| "event_type (Product_variant_changed _ _ _) = ''product.variant_changed''"
| "event_type (Variant_stock_changed _) = ''variant.stock_changed''"
| "event_type (Variant_price_changed _) = ''variant.price_changed''"
| "event_type (Integration_sync_completed _ _ _ _) = ''integration.sync_completed''"
| "event_type (Catalog_capability_changed _) = ''catalog.capability_changed''"
| "event_type (Catalog_cache_invalidated _) = ''catalog.cache_invalidated''"

abbreviation e_type :: "domain_event \<Rightarrow> string" where
  "e_type e \<equiv> event_type (e_body e)"

abbreviation e_id :: "domain_event \<Rightarrow> ident" where
  "e_id e \<equiv> eventId (e_meta e)"

text \<open>
  \<^verbatim>\<open>createDomainEvent\<close>: a missing id comes from \<^verbatim>\<open>randomUUID\<close>, which is given here as
  the value it draws, and a missing date from the clock.
\<close>

definition createDomainEvent ::
    "ident \<Rightarrow> time \<Rightarrow> ident option \<Rightarrow> time option \<Rightarrow> ident \<Rightarrow> event_body \<Rightarrow> domain_event" where
  "createDomainEvent uuid now givenId givenDate catalogId body =
     \<lparr>e_meta = \<lparr>eventId = (case givenId of None \<Rightarrow> uuid | Some i \<Rightarrow> i), e_catalogId = catalogId,
        e_occurredAt = (case givenDate of None \<Rightarrow> now | Some t \<Rightarrow> t)\<rparr>, e_body = body\<rparr>"

definition buildDomainEventIdempotencyKey :: "domain_event \<Rightarrow> string" where
  "buildDomainEventIdempotencyKey e = e_type e @ '':'' @ e_id e"

record event_aggregate =
  aggregateType :: "string option"
  aggregateId :: "ident option"

definition resolveDomainEventAggregate :: "domain_event \<Rightarrow> event_aggregate" where
  "resolveDomainEventAggregate e =
     (case e_body e of
        Order_completed i _ \<Rightarrow> \<lparr>aggregateType = Some ''order'', aggregateId = Some i\<rparr>
      | Product_changed p _ \<Rightarrow> \<lparr>aggregateType = Some ''product'', aggregateId = Some p\<rparr>
      | Product_variant_changed p v _ \<Rightarrow>
          \<lparr>aggregateType = Some (if v = None \<or> v = Some [] then ''product'' else ''product_variant''),
           aggregateId = Some (case v of None \<Rightarrow> p | Some i \<Rightarrow> i)\<rparr>
      | Variant_stock_changed c \<Rightarrow>
          \<lparr>aggregateType = Some ''product_variant'', aggregateId = Some (vc_variantId c)\<rparr>
      | Variant_price_changed c \<Rightarrow>
          \<lparr>aggregateType = Some ''product_variant'', aggregateId = Some (vc_variantId c)\<rparr>
      | Integration_sync_completed _ r _ _ \<Rightarrow>
          \<lparr>aggregateType = Some ''integration_sync_run'', aggregateId = Some r\<rparr>
      | Catalog_capability_changed _ \<Rightarrow>
          \<lparr>aggregateType = Some ''catalog'', aggregateId = Some (e_catalogId (e_meta e))\<rparr>
      | Catalog_cache_invalidated _ \<Rightarrow>
          \<lparr>aggregateType = Some ''catalog'', aggregateId = Some (e_catalogId (e_meta e))\<rparr>)"


section \<open>Stored payloads\<close>

text \<open>
  A payload column holds any JSON value: a stored event with the ISO string of its date, an
  object whose \<^verbatim>\<open>occurredAt\<close> is not a string, or a value that is no object.
\<close>

datatype payload = Stored ident ident event_body time | Undated ident ident event_body | Not_object

definition serializeDomainEvent :: "domain_event \<Rightarrow> payload" where
  "serializeDomainEvent e =
     Stored (e_id e) (e_catalogId (e_meta e)) (e_body e) (e_occurredAt (e_meta e))"

fun deserializeDomainEvent :: "payload \<Rightarrow> string + domain_event" where
  "deserializeDomainEvent Not_object = Inl ''Invalid domain event payload''"
| "deserializeDomainEvent (Undated _ _ _) = Inl ''Invalid domain event occurredAt''"
| "deserializeDomainEvent (Stored i c b t) =
     Inr \<lparr>e_meta = \<lparr>eventId = i, e_catalogId = c, e_occurredAt = t\<rparr>, e_body = b\<rparr>"

definition formatDomainEventError :: "string \<Rightarrow> string" where
  "formatDomainEventError message = take 4000 message"

lemma deserialize_serialize [simp]: "deserializeDomainEvent (serializeDomainEvent e) = Inr e"
  by (simp add: serializeDomainEvent_def)


section \<open>The in-process bus\<close>

type_synonym 'w handler = "domain_event \<Rightarrow> 'w \<Rightarrow> string option \<times> 'w"

text \<open>Subscribed handlers are distinguished by the name they are registered under.\<close>

record 'w bus =
  handlers :: "(string \<times> (string \<times> 'w handler) list) list"
  handled :: "string list"
  handling :: "string list"

definition handlers_for :: "'w bus \<Rightarrow> string \<Rightarrow> (string \<times> 'w handler) list" where
  "handlers_for b ty = (case map_get (handlers b) ty of None \<Rightarrow> [] | Some hs \<Rightarrow> hs)"

definition subscribe :: "string \<Rightarrow> string \<Rightarrow> 'w handler \<Rightarrow> 'w bus \<Rightarrow> 'w bus" where
  "subscribe ty name h b =
     (let hs = handlers_for b ty in
      b\<lparr>handlers := map_set ty (if name \<in> fst ` set hs then hs else hs @ [(name, h)]) (handlers b)\<rparr>)"

definition unsubscribe :: "string \<Rightarrow> string \<Rightarrow> 'w bus \<Rightarrow> 'w bus" where
  "unsubscribe ty name b =
     b\<lparr>handlers := map_set ty (filter (\<lambda>(n, _). n \<noteq> name) (handlers_for b ty)) (handlers b)\<rparr>"

fun run_handlers :: "(string \<times> 'w handler) list \<Rightarrow> domain_event \<Rightarrow> 'w \<Rightarrow> string option \<times> 'w" where
  "run_handlers [] e w = (None, w)"
| "run_handlers ((_, h) # hs) e w =
     (case h e w of (None, w') \<Rightarrow> run_handlers hs e w' | (Some err, w') \<Rightarrow> (Some err, w'))"

definition bus_dispatch :: "domain_event \<Rightarrow> 'w bus \<times> 'w \<Rightarrow> string option \<times> ('w bus \<times> 'w)" where
  "bus_dispatch e s =
     (case s of (b, w) \<Rightarrow>
      let key = buildDomainEventIdempotencyKey e in
      if key \<in> set (handled b) then (None, (b, w))
      else if key \<in> set (handling b) then (None, (b, w))
      else
        let b1 = b\<lparr>handling := set_add key (handling b)\<rparr> in
        case run_handlers (handlers_for b1 (e_type e)) e w of
          (None, w') \<Rightarrow>
            (None, (b1\<lparr>handled := set_add key (handled b1),
                       handling := remove1 key (handling b1)\<rparr>, w'))
        | (Some err, w') \<Rightarrow> (Some err, (b1\<lparr>handling := remove1 key (handling b1)\<rparr>, w')))"

fun bus_dispatchMany :: "domain_event list \<Rightarrow> 'w bus \<times> 'w \<Rightarrow> string option \<times> ('w bus \<times> 'w)" where
  "bus_dispatchMany [] s = (None, s)"
| "bus_dispatchMany (e # es) s =
     (case bus_dispatch e s of
        (None, s') \<Rightarrow> bus_dispatchMany es s'
      | (Some err, s') \<Rightarrow> (Some err, s'))"

lemma bus_dispatch_handled:
  "buildDomainEventIdempotencyKey e \<in> set (handled b) \<Longrightarrow> bus_dispatch e (b, w) = (None, (b, w))"
  by (simp add: bus_dispatch_def Let_def)

lemma bus_dispatch_frame:
  assumes "bus_dispatch e (b, w) = (r, (b', w'))"
  shows "handlers b' = handlers b" "handling b' = handling b"
    and "set (handled b) \<subseteq> set (handled b')"
    and "set (handled b') \<subseteq> insert (buildDomainEventIdempotencyKey e) (set (handled b))"
  using assms
  by (auto simp: bus_dispatch_def Let_def set_add_def remove1_append
      split: if_splits prod.splits option.splits)

lemma bus_dispatch_success:
  assumes "bus_dispatch e (b, w) = (None, (b', w'))"
    and "buildDomainEventIdempotencyKey e \<notin> set (handling b)"
  shows "buildDomainEventIdempotencyKey e \<in> set (handled b')"
  using assms
  by (auto simp: bus_dispatch_def Let_def set_add_def split: if_splits prod.splits option.splits)

lemma bus_dispatch_failure:
  assumes "bus_dispatch e (b, w) = (Some err, (b', w'))"
  shows "buildDomainEventIdempotencyKey e \<notin> set (handled b')"
  using assms
  by (auto simp: bus_dispatch_def Let_def split: if_splits prod.splits option.splits)

end
