(* ===== verification/Outbox.thy ===== *)
theory Outbox
  imports Domain_Events "HOL-Library.Product_Lexorder"
begin

text \<open>
  The durable outbox: the table of \<^verbatim>\<open>domain-event.prisma\<close>, the queries and updates of
  \<^verbatim>\<open>domain-event-outbox.repository.ts\<close>, the dispatcher of
  \<^verbatim>\<open>domain-event-outbox.dispatcher.ts\<close> and the retry and cleanup operations of
  \<^verbatim>\<open>domain-event-outbox-diagnostics.service.ts\<close>.  One reading of the clock, \<open>now\<close>,
  serves a whole operation.
\<close>


section \<open>The table\<close>

datatype outbox_status = PENDING | PROCESSING | PROCESSED | FAILED

record outbox_row =
  o_id :: ident
  o_eventId :: ident
  o_eventType :: string
  o_aggregateType :: "string option"
  o_aggregateId :: "ident option"
  o_catalogId :: ident
  o_payload :: payload
  o_status :: outbox_status
  o_attempts :: nat
  o_lastError :: "string option"
  o_lockedAt :: "time option"
  o_occurredAt :: time
  o_processedAt :: "time option"
  o_createdAt :: time

abbreviation by_occurrence :: "outbox_row list \<Rightarrow> outbox_row list" where
  "by_occurrence \<equiv> sort_key (\<lambda>r. (o_occurredAt r, o_createdAt r))"

text \<open>
  \<^verbatim>\<open>createMany\<close> with \<^verbatim>\<open>skipDuplicates\<close>: a row whose \<^verbatim>\<open>eventId\<close> (or \<^verbatim>\<open>id\<close>,
  drawn by \<open>gen\<close>) is taken, by the table or by an earlier row of the batch, is left out.
\<close>

definition outbox_row_of :: "(ident list \<Rightarrow> ident) \<Rightarrow> time \<Rightarrow> outbox_row list \<Rightarrow> domain_event \<Rightarrow> outbox_row" where
  "outbox_row_of gen now rows e =
     \<lparr>o_id = gen (map o_id rows), o_eventId = e_id e, o_eventType = e_type e,
      o_aggregateType = aggregateType (resolveDomainEventAggregate e),
      o_aggregateId = aggregateId (resolveDomainEventAggregate e),
      o_catalogId = e_catalogId (e_meta e), o_payload = serializeDomainEvent e,
      o_status = PENDING, o_attempts = 0, o_lastError = None, o_lockedAt = None,
      o_occurredAt = e_occurredAt (e_meta e), o_processedAt = None, o_createdAt = now\<rparr>"

definition append_event :: "(ident list \<Rightarrow> ident) \<Rightarrow> time \<Rightarrow> outbox_row list \<Rightarrow> domain_event \<Rightarrow> outbox_row list" where
  "append_event gen now rows e =
     (if e_id e \<in> o_eventId ` set rows \<or> gen (map o_id rows) \<in> o_id ` set rows then rows
      else rows @ [outbox_row_of gen now rows e])"

definition appendWithClient ::
    "(ident list \<Rightarrow> ident) \<Rightarrow> time \<Rightarrow> domain_event list \<Rightarrow> outbox_row list \<Rightarrow> outbox_row list" where
  "appendWithClient gen now events rows = foldl (append_event gen now) rows events"

definition findDispatchableByEventIds :: "ident list \<Rightarrow> outbox_row list \<Rightarrow> outbox_row list" where
  "findDispatchableByEventIds eventIds rows =
     (if eventIds = [] then []
      else by_occurrence
        (filter (\<lambda>r. o_eventId r \<in> set eventIds \<and> o_status r \<in> {PENDING, FAILED}) rows))"

definition findProcessableByIds :: "ident list \<Rightarrow> outbox_row list \<Rightarrow> outbox_row list" where
  "findProcessableByIds ids rows =
     (if ids = [] then []
      else by_occurrence
        (filter (\<lambda>r. o_id r \<in> set ids \<and> o_status r \<in> {PENDING, PROCESSING, FAILED}) rows))"

text \<open>The condition under which a row may be taken, shared by the query and the claim.\<close>

definition claimable :: "time \<Rightarrow> outbox_row \<Rightarrow> bool" where
  "claimable staleBefore r =
     (o_status r = PENDING \<or> o_status r = FAILED \<or>
      (o_status r = PROCESSING \<and> (case o_lockedAt r of None \<Rightarrow> False | Some t \<Rightarrow> t < staleBefore)))"

definition findDueForProcessing :: "nat \<Rightarrow> nat \<Rightarrow> time \<Rightarrow> outbox_row list \<Rightarrow> outbox_row list" where
  "findDueForProcessing limit maxAttempts staleBefore rows =
     take limit (by_occurrence
       (filter (\<lambda>r. o_attempts r < maxAttempts \<and> claimable staleBefore r) rows))"

definition markProcessing :: "ident \<Rightarrow> time \<Rightarrow> time \<Rightarrow> outbox_row list \<Rightarrow> bool \<times> outbox_row list" where
  "markProcessing i staleBefore now rows =
     (let guard = (\<lambda>r. o_id r = i \<and> claimable staleBefore r) in
      (count_where guard rows = 1,
       update_where guard (\<lambda>r. r\<lparr>o_status := PROCESSING, o_attempts := o_attempts r + 1,
          o_lockedAt := Some now, o_lastError := None\<rparr>) rows))"

definition update_row :: "ident \<Rightarrow> (outbox_row \<Rightarrow> outbox_row) \<Rightarrow> outbox_row list \<Rightarrow> db_error + outbox_row list" where
  "update_row i f rows =
     (if \<exists>r\<in>set rows. o_id r = i then Inr (update_where (\<lambda>r. o_id r = i) f rows)
      else Inl RecordNotFound)"

definition markProcessed :: "ident \<Rightarrow> time \<Rightarrow> outbox_row list \<Rightarrow> db_error + outbox_row list" where
  "markProcessed i now =
     update_row i (\<lambda>r. r\<lparr>o_status := PROCESSED, o_processedAt := Some now, o_lockedAt := None,
       o_lastError := None\<rparr>)"

definition markFailed :: "ident \<Rightarrow> string \<Rightarrow> outbox_row list \<Rightarrow> db_error + outbox_row list" where
  "markFailed i err =
     update_row i (\<lambda>r. r\<lparr>o_status := FAILED, o_lastError := Some err, o_lockedAt := None\<rparr>)"

definition processed_before :: "time \<Rightarrow> outbox_row \<Rightarrow> bool" where
  "processed_before cutoff r =
     (o_status r = PROCESSED \<and> (case o_processedAt r of None \<Rightarrow> False | Some t \<Rightarrow> t < cutoff))"

definition countProcessedBefore :: "time \<Rightarrow> outbox_row list \<Rightarrow> nat" where
  "countProcessedBefore cutoff rows = count_where (processed_before cutoff) rows"

definition countFailedBefore :: "time \<Rightarrow> outbox_row list \<Rightarrow> nat" where
  "countFailedBefore cutoff rows = count_where (\<lambda>r. o_status r = FAILED \<and> o_occurredAt r < cutoff) rows"

definition deleteProcessedBefore :: "time \<Rightarrow> nat \<Rightarrow> outbox_row list \<Rightarrow> nat \<times> outbox_row list" where
  "deleteProcessedBefore cutoff limit rows =
     (let doomed = take limit (sort_key
            (\<lambda>r. (case o_processedAt r of None \<Rightarrow> 0 | Some t \<Rightarrow> t, o_createdAt r))
            (filter (processed_before cutoff) rows))
      in if doomed = [] then (0, rows)
         else (count_where (\<lambda>r. o_id r \<in> o_id ` set doomed) rows,
               filter (\<lambda>r. o_id r \<notin> o_id ` set doomed) rows))"


section \<open>The dispatcher\<close>

record drain_result =
  n_processed :: nat
  n_failed :: nat
  n_skipped :: nat

record 'w ev_state =
  ev_rows :: "outbox_row list"
  ev_bus :: "'w bus"
  ev_world :: 'w

datatype dispatch_error = Handler_error string | Db_failure db_error

abbreviation DEFAULT_DRAIN_LIMIT :: nat where "DEFAULT_DRAIN_LIMIT \<equiv> 100"
abbreviation DEFAULT_MAX_ATTEMPTS :: nat where "DEFAULT_MAX_ATTEMPTS \<equiv> 5"
abbreviation DEFAULT_PROCESSING_STALE_MS :: int where "DEFAULT_PROCESSING_STALE_MS \<equiv> 5 * 60 * 1000"

definition normalizePositiveInt :: "js_num option \<Rightarrow> nat \<Rightarrow> nat" where
  "normalizePositiveInt value fallback =
     (case value of Some (Int_num n) \<Rightarrow> if n > 0 then nat n else fallback | _ \<Rightarrow> fallback)"

text \<open>The body of the \<^verbatim>\<open>try\<close> block: decode the payload, run the bus.\<close>

definition deliver :: "payload \<Rightarrow> 'w bus \<times> 'w \<Rightarrow> string option \<times> ('w bus \<times> 'w)" where
  "deliver p s =
     (case deserializeDomainEvent p of Inl msg \<Rightarrow> (Some msg, s) | Inr e \<Rightarrow> bus_dispatch e s)"

definition settle ::
    "bool \<Rightarrow> ident \<Rightarrow> time \<Rightarrow> string option \<Rightarrow> drain_result \<Rightarrow> 'w ev_state
     \<Rightarrow> (dispatch_error + drain_result) \<times> 'w ev_state" where
  "settle throwOnError i now outcome acc s =
     (case outcome of
        None \<Rightarrow>
          (case markProcessed i now (ev_rows s) of
             Inl d \<Rightarrow> (Inl (Db_failure d), s) \<comment> \<open>the update in the catch block misses the same row\<close>
           | Inr rows \<Rightarrow> (Inr (acc\<lparr>n_processed := n_processed acc + 1\<rparr>), s\<lparr>ev_rows := rows\<rparr>))
      | Some msg \<Rightarrow>
          (case markFailed i (formatDomainEventError msg) (ev_rows s) of
             Inl d \<Rightarrow> (Inl (Db_failure d), s)
           | Inr rows \<Rightarrow>
               (if throwOnError then Inl (Handler_error msg)
                else Inr (acc\<lparr>n_failed := n_failed acc + 1\<rparr>), s\<lparr>ev_rows := rows\<rparr>)))"

definition process_row ::
    "bool \<Rightarrow> time \<Rightarrow> time \<Rightarrow> drain_result \<Rightarrow> 'w ev_state \<Rightarrow> outbox_row
     \<Rightarrow> (dispatch_error + drain_result) \<times> 'w ev_state" where
  "process_row throwOnError now staleBefore acc s row =
     (case markProcessing (o_id row) staleBefore now (ev_rows s) of
        (False, rows) \<Rightarrow> (Inr (acc\<lparr>n_skipped := n_skipped acc + 1\<rparr>), s\<lparr>ev_rows := rows\<rparr>)
      | (True, rows) \<Rightarrow>
          (case deliver (o_payload row) (ev_bus s, ev_world s) of
             (outcome, (b, w)) \<Rightarrow>
               settle throwOnError (o_id row) now outcome acc
                 (s\<lparr>ev_rows := rows, ev_bus := b, ev_world := w\<rparr>)))"

fun processRows ::
    "bool \<Rightarrow> time \<Rightarrow> time \<Rightarrow> outbox_row list \<Rightarrow> drain_result \<Rightarrow> 'w ev_state
     \<Rightarrow> (dispatch_error + drain_result) \<times> 'w ev_state" where
  "processRows throwOnError now staleBefore [] acc s = (Inr acc, s)"
| "processRows throwOnError now staleBefore (row # rows) acc s =
     (case process_row throwOnError now staleBefore acc s row of
        (Inl err, s') \<Rightarrow> (Inl err, s')
      | (Inr acc', s') \<Rightarrow> processRows throwOnError now staleBefore rows acc' s')"

abbreviation no_rows :: drain_result where
  "no_rows \<equiv> \<lparr>n_processed = 0, n_failed = 0, n_skipped = 0\<rparr>"

definition dispatchMany ::
    "(ident list \<Rightarrow> ident) \<Rightarrow> time \<Rightarrow> domain_event list \<Rightarrow> 'w ev_state
     \<Rightarrow> (dispatch_error + unit) \<times> 'w ev_state" where
  "dispatchMany gen now events s =
     (if events = [] then (Inr (), s)
      else
        let s1 = s\<lparr>ev_rows := appendWithClient gen now events (ev_rows s)\<rparr>;
            rows = findDispatchableByEventIds (map (\<lambda>e. e_id e) events) (ev_rows s1)
        in case processRows True now (now - DEFAULT_PROCESSING_STALE_MS) rows no_rows s1 of
             (Inl err, s2) \<Rightarrow> (Inl err, s2)
           | (Inr _, s2) \<Rightarrow> (Inr (), s2))"

definition dispatch_event ::
    "(ident list \<Rightarrow> ident) \<Rightarrow> time \<Rightarrow> domain_event \<Rightarrow> 'w ev_state
     \<Rightarrow> (dispatch_error + unit) \<times> 'w ev_state" where
  "dispatch_event gen now e = dispatchMany gen now [e]"

definition drainPending ::
    "time \<Rightarrow> js_num option \<Rightarrow> js_num option \<Rightarrow> int option \<Rightarrow> 'w ev_state
     \<Rightarrow> (dispatch_error + drain_result) \<times> 'w ev_state" where
  "drainPending now limit maxAttempts staleMs s =
     (let stale = (case staleMs of None \<Rightarrow> DEFAULT_PROCESSING_STALE_MS | Some m \<Rightarrow> m);
          rows = findDueForProcessing (normalizePositiveInt limit DEFAULT_DRAIN_LIMIT)
                   (normalizePositiveInt maxAttempts DEFAULT_MAX_ATTEMPTS) (now - stale) (ev_rows s)
      in processRows False now (now - stale) rows no_rows s)"

definition retryByIds ::
    "time \<Rightarrow> ident list \<Rightarrow> int option \<Rightarrow> 'w ev_state
     \<Rightarrow> (dispatch_error + drain_result) \<times> 'w ev_state" where
  "retryByIds now ids staleMs s =
     processRows False now
       (now - (case staleMs of None \<Rightarrow> DEFAULT_PROCESSING_STALE_MS | Some m \<Rightarrow> m))
       (findProcessableByIds ids (ev_rows s)) no_rows s"


section \<open>Diagnostics: retries and cleanup\<close>

datatype retry_error = Row_not_found | Already_processed | Dispatch_error dispatch_error

definition retryOne ::
    "time \<Rightarrow> ident \<Rightarrow> 'w ev_state \<Rightarrow> (retry_error + (nat \<times> drain_result)) \<times> 'w ev_state" where
  "retryOne now i s =
     (case List.find (\<lambda>r. o_id r = i) (ev_rows s) of
        None \<Rightarrow> (Inl Row_not_found, s)
      | Some r \<Rightarrow>
          if o_status r = PROCESSED then (Inl Already_processed, s)
          else case retryByIds now [i] None s of
            (Inl err, s') \<Rightarrow> (Inl (Dispatch_error err), s')
          | (Inr res, s') \<Rightarrow> (Inr (1, res), s'))"

definition normalizeLimit :: "js_num option \<Rightarrow> nat \<Rightarrow> nat \<Rightarrow> nat" where
  "normalizeLimit value fallback max_value =
     (case value of
        Some (Int_num n) \<Rightarrow> if n < 1 then fallback else min (nat n) max_value
      | _ \<Rightarrow> fallback)"

definition failed_rows :: "ident option \<Rightarrow> string option \<Rightarrow> nat \<Rightarrow> outbox_row list \<Rightarrow> outbox_row list" where
  "failed_rows catalogId eventType limit rows =
     take limit (by_occurrence (filter (\<lambda>r.
       o_status r = FAILED \<and>
       (case catalogId of None \<Rightarrow> True | Some c \<Rightarrow> c = [] \<or> o_catalogId r = c) \<and>
       (case eventType of None \<Rightarrow> True | Some t \<Rightarrow> t = [] \<or> o_eventType r = t)) rows))"

definition retryFailed ::
    "time \<Rightarrow> ident option \<Rightarrow> string option \<Rightarrow> js_num option \<Rightarrow> 'w ev_state
     \<Rightarrow> (dispatch_error + (nat \<times> drain_result)) \<times> 'w ev_state" where
  "retryFailed now catalogId eventType limit s =
     (let rows = failed_rows catalogId eventType (normalizeLimit limit 50 500) (ev_rows s)
      in case retryByIds now (map o_id rows) None s of
           (Inl err, s') \<Rightarrow> (Inl err, s')
         | (Inr res, s') \<Rightarrow> (Inr (length rows, res), s'))"

definition normalizeRetentionDays :: "js_num option \<Rightarrow> int \<Rightarrow> int" where
  "normalizeRetentionDays value fallback =
     (case value of Some (Int_num n) \<Rightarrow> if n < 1 then fallback else n | _ \<Rightarrow> fallback)"

definition buildRetentionCutoff :: "int \<Rightarrow> time \<Rightarrow> time" where
  "buildRetentionCutoff days now = now - days * (24 * 60 * 60 * 1000)"

record cleanup_result =
  cl_deleted :: nat
  cl_retentionDays :: int
  cl_cutoff :: time
  cl_limit :: nat

text \<open>
  A missing parameter is read from the environment: \<open>env_days\<close> and \<open>env_limit\<close> are the
  numbers of \<^verbatim>\<open>DOMAIN_EVENT_OUTBOX_PROCESSED_RETENTION_DAYS\<close> and
  \<^verbatim>\<open>DOMAIN_EVENT_OUTBOX_CLEANUP_LIMIT\<close>.
\<close>

definition cleanupProcessed ::
    "js_num \<Rightarrow> js_num \<Rightarrow> time \<Rightarrow> js_num option \<Rightarrow> js_num option \<Rightarrow> 'w ev_state
     \<Rightarrow> cleanup_result \<times> 'w ev_state" where
  "cleanupProcessed env_days env_limit now retentionDays limit s =
     (let days = normalizeRetentionDays
            (case retentionDays of None \<Rightarrow> Some env_days | Some d \<Rightarrow> Some d) 30;
          lim = normalizeLimit (case limit of None \<Rightarrow> Some env_limit | Some l \<Rightarrow> Some l) 5000 50000;
          cutoff = buildRetentionCutoff days now
      in case deleteProcessedBefore cutoff lim (ev_rows s) of
           (n, rows) \<Rightarrow>
             (\<lparr>cl_deleted = n, cl_retentionDays = days, cl_cutoff = cutoff, cl_limit = lim\<rparr>,
              s\<lparr>ev_rows := rows\<rparr>))"

end
