(* ===== verification/Outbox_Delivery.thy ===== *)
theory Outbox_Delivery
  imports Outbox
begin

text \<open>
  What the dispatcher does to the table and the bus: the effect of one row
  (\<open>process_row_claimed\<close>, \<open>process_row_skipped\<close>), of a batch (\<open>processRows_effect\<close>), and the
  invariant \<open>outbox_ok\<close> that every operation keeps.
\<close>


section \<open>The invariant\<close>

definition row_ok :: "outbox_row \<Rightarrow> bool" where
  "row_ok r =
     (case o_status r of
        PENDING \<Rightarrow> o_attempts r = 0 \<and> o_lockedAt r = None \<and> o_processedAt r = None
      | PROCESSING \<Rightarrow> o_attempts r > 0 \<and> o_lockedAt r \<noteq> None \<and> o_processedAt r = None
      | FAILED \<Rightarrow> o_attempts r > 0 \<and> o_lockedAt r = None \<and> o_processedAt r = None \<and>
                  o_lastError r \<noteq> None
      | PROCESSED \<Rightarrow> o_attempts r > 0 \<and> o_lockedAt r = None \<and> o_processedAt r \<noteq> None \<and>
                  o_lastError r = None)"

definition payload_ok :: "outbox_row \<Rightarrow> bool" where
  "payload_ok r =
     (case o_payload r of
        Stored i c b t \<Rightarrow> i = o_eventId r \<and> event_type b = o_eventType r
      | _ \<Rightarrow> False)"

definition row_key :: "outbox_row \<Rightarrow> string" where
  "row_key r = o_eventType r @ '':'' @ o_eventId r"

definition table_ok :: "outbox_row list \<Rightarrow> bool" where
  "table_ok rows =
     (distinct (map o_id rows) \<and> distinct (map o_eventId rows) \<and>
      list_all (\<lambda>r. row_ok r \<and> payload_ok r) rows)"

text \<open>
  The bus is idle between operations, and an event that this process marked PROCESSED (its id is
  not in \<open>old\<close>, the events processed before the process started) has been handled.
\<close>

definition outbox_ok :: "ident list \<Rightarrow> 'w ev_state \<Rightarrow> bool" where
  "outbox_ok old s =
     (table_ok (ev_rows s) \<and> handling (ev_bus s) = [] \<and>
      list_all (\<lambda>r. o_status r = PROCESSED \<longrightarrow> o_eventId r \<in> set old \<or>
                   row_key r \<in> set (handled (ev_bus s))) (ev_rows s))"

text \<open>A row after one delivery attempt.\<close>

definition settled :: "time \<Rightarrow> string option \<Rightarrow> outbox_row \<Rightarrow> outbox_row" where
  "settled now outcome r =
     (case outcome of
        None \<Rightarrow> r\<lparr>o_attempts := o_attempts r + 1, o_status := PROCESSED,
                  o_processedAt := Some now, o_lockedAt := None, o_lastError := None\<rparr>
      | Some msg \<Rightarrow> r\<lparr>o_attempts := o_attempts r + 1, o_status := FAILED,
                  o_lastError := Some (formatDomainEventError msg), o_lockedAt := None\<rparr>)"

lemma settled_columns [simp]:
  "o_id (settled now out r) = o_id r" "o_eventId (settled now out r) = o_eventId r"
  "o_eventType (settled now out r) = o_eventType r" "o_payload (settled now out r) = o_payload r"
  "o_attempts (settled now out r) = o_attempts r + 1" "o_catalogId (settled now out r) = o_catalogId r"
  "o_status (settled now out r) = (if out = None then PROCESSED else FAILED)"
  by (auto simp: settled_def split: option.splits)

lemma row_key_settled [simp]: "row_key (settled now out r) = row_key r"
  by (simp add: row_key_def)

lemma settled_row_ok: "row_ok r \<Longrightarrow> claimable st r \<Longrightarrow> row_ok (settled now out r)"
  by (auto simp: row_ok_def claimable_def settled_def split: option.splits outbox_status.splits)

lemma settled_payload_ok [simp]: "payload_ok (settled now out r) = payload_ok r"
  by (simp add: payload_ok_def split: payload.splits)


section \<open>One row\<close>

lemma claim_count:
  assumes "distinct (map o_id rows)"
  shows "fst (markProcessing i st now rows) \<longleftrightarrow> (\<exists>r\<in>set rows. o_id r = i \<and> claimable st r)"
proof
  assume "fst (markProcessing i st now rows)"
  then have "count_where (\<lambda>r. o_id r = i \<and> claimable st r) rows = 1"
    by (simp add: markProcessing_def Let_def)
  then have "filter (\<lambda>r. o_id r = i \<and> claimable st r) rows \<noteq> []"
    by (auto simp: count_where_def)
  then show "\<exists>r\<in>set rows. o_id r = i \<and> claimable st r" by (auto simp: filter_empty_conv)
next
  assume "\<exists>r\<in>set rows. o_id r = i \<and> claimable st r"
  then show "fst (markProcessing i st now rows)"
    using count_where_unique [OF assms] by (auto simp: markProcessing_def Let_def)
qed

lemma unclaimed_rows:
  "\<not> (\<exists>r\<in>set rows. o_id r = i \<and> claimable st r) \<Longrightarrow> snd (markProcessing i st now rows) = rows"
  by (auto simp: markProcessing_def Let_def intro!: update_where_none)

lemma ids_markProcessing: "map o_id (snd (markProcessing i st now rows)) = map o_id rows"
  by (simp add: markProcessing_def Let_def table_simps)

lemma process_row_skipped:
  assumes "distinct (map o_id (ev_rows s))"
    and "\<not> (\<exists>r\<in>set (ev_rows s). o_id r = o_id row \<and> claimable st r)"
  shows "process_row t now st acc s row = (Inr (acc\<lparr>n_skipped := n_skipped acc + 1\<rparr>), s)"
  using claim_count [OF assms(1), of "o_id row" st now] unclaimed_rows [OF assms(2), of now] assms(2)
  by (cases "markProcessing (o_id row) st now (ev_rows s)") (auto simp: process_row_def)

lemma claimed_then_updated:
  assumes "distinct (map o_id rows)" "r \<in> set rows" "o_id r = i" "claimable st r"
  shows "update_where (\<lambda>r. o_id r = i) f (snd (markProcessing i st now rows))
       = update_where (\<lambda>r. o_id r = i)
           (\<lambda>r. f (r\<lparr>o_status := PROCESSING, o_attempts := o_attempts r + 1,
              o_lockedAt := Some now, o_lastError := None\<rparr>)) rows"
proof -
  have "claimable st x" if "x \<in> set rows" "o_id x = i" for x
    using assms that by (metis distinct_map inj_onD)
  then show ?thesis by (simp add: markProcessing_def Let_def update_where_def)
qed

definition outcome_value :: "bool \<Rightarrow> string option \<Rightarrow> drain_result \<Rightarrow> dispatch_error + drain_result" where
  "outcome_value t out acc =
     (case out of
        None \<Rightarrow> Inr (acc\<lparr>n_processed := n_processed acc + 1\<rparr>)
      | Some msg \<Rightarrow> if t then Inl (Handler_error msg) else Inr (acc\<lparr>n_failed := n_failed acc + 1\<rparr>))"

lemma process_row_claimed:
  assumes d: "distinct (map o_id (ev_rows s))" and r: "r \<in> set (ev_rows s)" "o_id r = o_id row"
    and c: "claimable st r" and del: "deliver (o_payload row) (ev_bus s, ev_world s) = (out, (b, w))"
  shows "process_row t now st acc s row =
    (outcome_value t out acc,
     s\<lparr>ev_bus := b, ev_world := w,
       ev_rows := update_where (\<lambda>r. o_id r = o_id row) (settled now out) (ev_rows s)\<rparr>)"
proof -
  let ?m = "markProcessing (o_id row) st now (ev_rows s)"
  have m: "fst ?m" using claim_count [OF d] r c by blast
  have "o_id row \<in> set (map o_id (snd ?m))"
    unfolding ids_markProcessing using r(1) by (simp add: r(2) [symmetric])
  then have mem: "\<exists>x\<in>set (snd ?m). o_id x = o_id row" by auto
  obtain rows where mr: "?m = (True, rows)" using m by (cases ?m) auto
  note upd = claimed_then_updated [OF d r c, where now = now, unfolded mr snd_conv]
  show ?thesis
    using mem upd mr del
    by (cases out) (simp_all add: process_row_def settle_def markProcessed_def markFailed_def
        update_row_def outcome_value_def settled_def [abs_def])
qed


section \<open>A batch\<close>

text \<open>
  \<open>touched\<close> is the effect of a batch on one row: the row is settled if its id is in the batch and
  it may be claimed, with the outcome its delivery had.
\<close>

definition touched ::
    "time \<Rightarrow> time \<Rightarrow> ident set \<Rightarrow> (ident \<Rightarrow> string option) \<Rightarrow> outbox_row \<Rightarrow> outbox_row" where
  "touched st now ids out r =
     (if o_id r \<in> ids \<and> claimable st r then settled now (out (o_id r)) r else r)"

lemma touched_columns [simp]:
  "o_id (touched st now ids out r) = o_id r" "o_eventId (touched st now ids out r) = o_eventId r"
  "o_payload (touched st now ids out r) = o_payload r"
  by (simp_all add: touched_def)

lemma touched_empty [simp]: "touched st now {} out r = r"
  by (simp add: touched_def)

lemma update_where_touched:
  assumes "distinct (map o_id rows)" "r \<in> set rows" "o_id r = i" "claimable st r"
  shows "update_where (\<lambda>r. o_id r = i) (settled now out) rows = map (touched st now {i} (\<lambda>_. out)) rows"
proof -
  have "claimable st x" if "x \<in> set rows" "o_id x = i" for x
    using assms that by (metis distinct_map inj_onD)
  then show ?thesis by (auto simp: update_where_def touched_def)
qed

lemma process_row_touched:
  assumes d: "distinct (map o_id (ev_rows s))"
  obtains o' where
    "ev_rows (snd (process_row t now st acc s row)) = map (touched st now {o_id row} (\<lambda>_. o')) (ev_rows s)"
    "\<And>err. fst (process_row t now st acc s row) = Inl err \<Longrightarrow> t \<and>
        (\<exists>msg r. err = Handler_error msg \<and> o' = Some msg \<and> r \<in> set (ev_rows s) \<and>
          o_id r = o_id row \<and> claimable st r)"
    "\<And>res. fst (process_row t now st acc s row) = Inr res \<Longrightarrow> t \<Longrightarrow> o' = None"
proof (cases "\<exists>r\<in>set (ev_rows s). o_id r = o_id row \<and> claimable st r")
  case False
  then have "map (touched st now {o_id row} (\<lambda>_. None)) (ev_rows s) = ev_rows s"
    by (intro map_idI) (auto simp: touched_def)
  then show thesis
    using that [of None] by (simp add: process_row_skipped [OF d False])
next
  case True
  then obtain r where r: "r \<in> set (ev_rows s)" "o_id r = o_id row" "claimable st r" by blast
  obtain out b w where del: "deliver (o_payload row) (ev_bus s, ev_world s) = (out, (b, w))"
    by (metis surj_pair)
  note update_where_touched [OF d r]
  then show thesis
    using r by (intro that [of out])
      (auto simp: process_row_claimed [OF d r del] outcome_value_def split: option.splits if_splits)
qed

lemma touched_touched:
  assumes "o_id row \<notin> ids"
  shows "touched st now ids out (touched st now {o_id row} (\<lambda>_. o') r)
       = touched st now (insert (o_id row) ids) (out(o_id row := o')) r"
  using assms by (auto simp: touched_def)

definition batch_result ::
    "bool \<Rightarrow> time \<Rightarrow> outbox_row list \<Rightarrow> outbox_row list \<Rightarrow> (ident \<Rightarrow> string option) \<Rightarrow>
     outbox_row list \<Rightarrow> dispatch_error + drain_result \<Rightarrow> bool" where
  "batch_result t st table rows out batch v =
     (case v of
        Inr _ \<Rightarrow> batch = rows \<and> (t \<longrightarrow> (\<forall>i\<in>o_id ` set batch. out i = None))
      | Inl err \<Rightarrow> t \<and> (\<exists>msg r. err = Handler_error msg \<and> r \<in> set table \<and> claimable st r \<and>
          o_id r \<in> o_id ` set batch \<and> out (o_id r) = Some msg))"

lemma batch_result_Cons:
  assumes "batch_result t st (map (touched st now {o_id row} (\<lambda>_. o')) table) rows out batch v"
    and nb: "o_id row \<notin> o_id ` set batch" and none: "t \<Longrightarrow> o' = None"
  shows "batch_result t st table (row # rows) (out(o_id row := o')) (row # batch) v"
proof (cases v)
  case (Inl err)
  then obtain msg r where r: "t" "err = Handler_error msg" "r \<in> set table"
      "claimable st (touched st now {o_id row} (\<lambda>_. o') r)" "o_id r \<in> o_id ` set batch"
      "out (o_id r) = Some msg"
    using assms(1) by (auto simp: batch_result_def)
  moreover have "o_id r \<noteq> o_id row" using nb r(5) by metis
  ultimately show ?thesis using Inl by (auto simp: batch_result_def touched_def)
qed (use assms in \<open>auto simp: batch_result_def\<close>)

lemma processRows_effect:
  assumes "distinct (map o_id (ev_rows s))" "distinct (map o_id rows)"
  obtains out batch where "prefix batch rows"
    "ev_rows (snd (processRows t now st rows acc s))
       = map (touched st now (o_id ` set batch) out) (ev_rows s)"
    "batch_result t st (ev_rows s) rows out batch (fst (processRows t now st rows acc s))"
  using assms
proof (induction rows arbitrary: s acc thesis)
  case Nil
  then show ?case using Nil(1) [of "[]"] by (simp add: batch_result_def)
next
  case (Cons row rows)
  let ?p = "process_row t now st acc s row"
  from Cons.prems(3) have d: "distinct (map o_id rows)" and nin: "o_id row \<notin> o_id ` set rows" by auto
  obtain o' where o1: "ev_rows (snd ?p) = map (touched st now {o_id row} (\<lambda>_. o')) (ev_rows s)"
    and o2: "\<And>err. fst ?p = Inl err \<Longrightarrow> t \<and> (\<exists>msg r. err = Handler_error msg \<and> o' = Some msg \<and>
        r \<in> set (ev_rows s) \<and> o_id r = o_id row \<and> claimable st r)"
    and o3: "\<And>res. fst ?p = Inr res \<Longrightarrow> t \<Longrightarrow> o' = None"
    by (rule process_row_touched [OF Cons.prems(2), where t = t and now = now and st = st
          and acc = acc and row = row]) blast
  show ?case
  proof (cases "fst ?p")
    case (Inl err)
    then have "processRows t now st (row # rows) acc s = ?p" by (cases ?p) simp
    moreover have "batch_result t st (ev_rows s) (row # rows) (\<lambda>_. o') [row] (fst ?p)"
      using o2 [OF Inl] Inl by (auto simp: batch_result_def)
    ultimately show thesis using o1 by (intro Cons.prems(1) [of "[row]" "\<lambda>_. o'"]) simp_all
  next
    case (Inr acc')
    have eq: "processRows t now st (row # rows) acc s = processRows t now st rows acc' (snd ?p)"
      using Inr by (cases ?p) simp
    have ids: "distinct (map o_id (ev_rows (snd ?p)))" using Cons.prems(2) o1 by (simp add: o_def)
    obtain out batch where IH: "prefix batch rows"
      "ev_rows (snd (processRows t now st rows acc' (snd ?p)))
         = map (touched st now (o_id ` set batch) out) (ev_rows (snd ?p))"
      "batch_result t st (ev_rows (snd ?p)) rows out batch (fst (processRows t now st rows acc' (snd ?p)))"
      using Cons.IH [OF _ ids d] by metis
    have nb: "o_id row \<notin> o_id ` set batch" using nin set_mono_prefix [OF IH(1)] by blast
    let ?out = "out(o_id row := o')"
    have "batch_result t st (ev_rows s) (row # rows) ?out (row # batch)
        (fst (processRows t now st (row # rows) acc s))"
      unfolding eq using IH(3) unfolding o1 by (rule batch_result_Cons [OF _ nb o3 [OF Inr]])
    moreover have "ev_rows (snd (processRows t now st (row # rows) acc s))
        = map (touched st now (o_id ` set (row # batch)) ?out) (ev_rows s)"
      unfolding eq IH(2) o1 using touched_touched [OF nb] by (simp add: o_def)
    moreover have "prefix (row # batch) (row # rows)" using IH(1) by simp
    ultimately show thesis using Cons.prems(1) by blast
  qed
qed


section \<open>Preservation of the invariant\<close>

lemma table_okD:
  assumes "table_ok rows"
  shows "distinct (map o_id rows)" "distinct (map o_eventId rows)"
    and "r \<in> set rows \<Longrightarrow> row_ok r" "r \<in> set rows \<Longrightarrow> payload_ok r"
  using assms by (auto simp: table_ok_def list_all_iff)

lemma outbox_okD:
  assumes "outbox_ok old s"
  shows "table_ok (ev_rows s)" "handling (ev_bus s) = []"
    and "r \<in> set (ev_rows s) \<Longrightarrow> o_status r = PROCESSED \<Longrightarrow>
      o_eventId r \<in> set old \<or> row_key r \<in> set (handled (ev_bus s))"
  using assms by (auto simp: outbox_ok_def list_all_iff)

lemma table_ok_touched:
  assumes "table_ok rows"
  shows "table_ok (map (touched st now ids out) rows)"
proof -
  have "row_ok (touched st now ids out r) \<and> payload_ok (touched st now ids out r)" if "r \<in> set rows" for r
    using table_okD(3,4) [OF assms that] by (auto simp: touched_def intro: settled_row_ok)
  with assms show ?thesis by (simp add: table_ok_def list_all_iff o_def)
qed

lemma payload_okE:
  assumes "payload_ok r"
  obtains e where "deserializeDomainEvent (o_payload r) = Inr e"
    "buildDomainEventIdempotencyKey e = row_key r"
  using assms
  by (auto simp: payload_ok_def row_key_def buildDomainEventIdempotencyKey_def split: payload.splits)

lemma deliver_bus:
  assumes "payload_ok r" "handling b = []" "deliver (o_payload r) (b, w) = (out, (b', w'))"
  shows "handling b' = []" "set (handled b) \<subseteq> set (handled b')"
    and "out = None \<Longrightarrow> row_key r \<in> set (handled b')"
proof -
  obtain e where e: "deserializeDomainEvent (o_payload r) = Inr e"
      "buildDomainEventIdempotencyKey e = row_key r"
    using payload_okE [OF assms(1)] .
  then have bd: "bus_dispatch e (b, w) = (out, (b', w'))" using assms(3) by (simp add: deliver_def)
  show "handling b' = []" "set (handled b) \<subseteq> set (handled b')"
    using bus_dispatch_frame [OF bd] assms(2) by auto
  show "out = None \<Longrightarrow> row_key r \<in> set (handled b')"
    using bus_dispatch_success [of e b w b' w'] bd e assms(2) by simp
qed

text \<open>A snapshot taken by a query still names a row with the same payload.\<close>

definition snapshot :: "outbox_row list \<Rightarrow> outbox_row \<Rightarrow> bool" where
  "snapshot rows row = (\<exists>r\<in>set rows. o_id r = o_id row \<and> o_payload r = o_payload row)"

lemma snapshot_touched: "snapshot rows row \<Longrightarrow> snapshot (map (touched st now ids out) rows) row"
  by (auto simp: snapshot_def)

lemma process_row_ok:
  assumes ok: "outbox_ok old s" and snap: "snapshot (ev_rows s) row"
  shows "outbox_ok old (snd (process_row t now st acc s row))"
proof (cases "\<exists>r\<in>set (ev_rows s). o_id r = o_id row \<and> claimable st r")
  case False
  then show ?thesis using ok table_okD(1) [OF outbox_okD(1) [OF ok]] by (simp add: process_row_skipped)
next
  case True
  note tok = outbox_okD(1) [OF ok] and d = table_okD(1) [OF outbox_okD(1) [OF ok]]
  from True obtain r where r: "r \<in> set (ev_rows s)" "o_id r = o_id row" "claimable st r" by blast
  from snap obtain r' where "r' \<in> set (ev_rows s)" "o_id r' = o_id row" "o_payload r' = o_payload row"
    by (auto simp: snapshot_def)
  then have "r' = r" using d r by (metis distinct_map inj_onD)
  then have pl: "o_payload row = o_payload r" using \<open>o_payload r' = o_payload row\<close> by simp
  obtain out b w where del: "deliver (o_payload row) (ev_bus s, ev_world s) = (out, (b, w))"
    by (metis surj_pair)
  note bus = deliver_bus [OF table_okD(4) [OF tok r(1)] outbox_okD(2) [OF ok], of "ev_world s" out b w,
      folded pl, OF del]
  have uniq: "x = r" if "x \<in> set (ev_rows s)" "o_id x = o_id row" for x
    using d r that by (metis distinct_map inj_onD)
  note update_where_touched [OF d r]
  then have rows: "ev_rows (snd (process_row t now st acc s row))
      = map (touched st now {o_id row} (\<lambda>_. out)) (ev_rows s)"
    by (simp add: process_row_claimed [OF d r del])
  have bus': "ev_bus (snd (process_row t now st acc s row)) = b"
    by (simp add: process_row_claimed [OF d r del])
  have "o_eventId x \<in> set old \<or> row_key x \<in> set (handled b)"
    if x: "x \<in> set (map (touched st now {o_id row} (\<lambda>_. out)) (ev_rows s))" "o_status x = PROCESSED" for x
  proof -
    obtain y where y: "y \<in> set (ev_rows s)" "x = touched st now {o_id row} (\<lambda>_. out) y" using x by auto
    show ?thesis
    proof (cases "o_id y = o_id row")
      case True
      with y x uniq r have "x = settled now out r" by (auto simp: touched_def)
      with x(2) bus(3) show ?thesis by (auto split: if_splits)
    next
      case False
      with y x have "x = y" by (simp add: touched_def)
      with outbox_okD(3) [OF ok y(1)] x(2) bus(2) show ?thesis by blast
    qed
  qed
  then show ?thesis
    using bus(1) table_ok_touched [OF tok] by (auto simp: outbox_ok_def rows bus' list_all_iff)
qed

lemma processRows_ok:
  assumes "outbox_ok old s" "\<forall>row\<in>set rows. snapshot (ev_rows s) row"
  shows "outbox_ok old (snd (processRows t now st rows acc s))"
  using assms
proof (induction rows arbitrary: s acc)
  case (Cons row rows)
  let ?p = "process_row t now st acc s row"
  have ok: "outbox_ok old (snd ?p)" using Cons.prems by (intro process_row_ok) auto
  have "\<forall>row\<in>set rows. snapshot (ev_rows (snd ?p)) row"
    using process_row_touched [OF table_okD(1) [OF outbox_okD(1) [OF Cons.prems(1)]]] Cons.prems(2)
      snapshot_touched by (metis list.set_intros(2))
  with Cons.IH ok show ?case by (cases ?p) (auto split: sum.splits)
qed simp

end
