(* ===== verification/Outbox_Properties.thy ===== *)
theory Outbox_Properties
  imports Outbox_Delivery
begin

text \<open>
  Properties of the outbox: the invariant over every sequence of operations, what a drain, a
  dispatch and a cleanup do to the table, delivery at most once after success, and the clearing
  of a backlog.
\<close>


section \<open>The operations keep the invariant\<close>

lemma append_event_ok: "table_ok rows \<Longrightarrow> table_ok (append_event gen now rows e)"
  by (auto simp: table_ok_def append_event_def outbox_row_of_def row_ok_def payload_ok_def
      serializeDomainEvent_def)

lemma append_event_old:
  "r \<in> set (append_event gen now rows e) \<Longrightarrow> r \<in> set rows \<or> o_status r = PENDING"
  by (auto simp: append_event_def outbox_row_of_def split: if_splits)

lemma append_keeps: "set rows \<subseteq> set (appendWithClient gen now events rows)"
  unfolding appendWithClient_def
  by (induction events arbitrary: rows) (force simp: append_event_def split: if_splits)+

lemma append_ok:
  assumes "outbox_ok old s"
  shows "outbox_ok old (s\<lparr>ev_rows := appendWithClient gen now events (ev_rows s)\<rparr>)"
proof -
  have "table_ok (foldl (append_event gen now) rows events)" if "table_ok rows" for rows
    using that by (induction events arbitrary: rows) (auto intro: append_event_ok)
  moreover have "r \<in> set rows \<or> o_status r = PENDING"
    if "r \<in> set (foldl (append_event gen now) rows events)" for r rows
    using that by (induction events arbitrary: rows) (auto dest: append_event_old)
  ultimately show ?thesis
    using assms by (fastforce simp: outbox_ok_def appendWithClient_def list_all_iff)
qed

lemma delete_ok:
  assumes "outbox_ok old s"
  shows "outbox_ok old (s\<lparr>ev_rows := snd (deleteProcessedBefore cutoff limit (ev_rows s))\<rparr>)"
  using assms
  by (auto simp: outbox_ok_def table_ok_def deleteProcessedBefore_def Let_def list_all_iff
      intro: distinct_map_filter)

lemma member_snapshot: "set found \<subseteq> set rows \<Longrightarrow> row \<in> set found \<Longrightarrow> snapshot rows row"
  by (auto simp: snapshot_def)

lemma found_rows:
  "set (findDispatchableByEventIds ids rows) \<subseteq> set rows"
  "set (findProcessableByIds ids rows) \<subseteq> set rows"
  "set (findDueForProcessing limit m st rows) \<subseteq> set rows"
  by (auto simp: findDispatchableByEventIds_def findProcessableByIds_def findDueForProcessing_def
      dest: in_set_takeD)

lemma found_distinct:
  assumes "distinct (map o_id rows)"
  shows "distinct (map o_id (findDispatchableByEventIds ids rows))"
    "distinct (map o_id (findProcessableByIds ids rows))"
    "distinct (map o_id (findDueForProcessing limit m st rows))"
proof -
  have "distinct (map o_id (sort_key f (filter P rows)))" for f :: "outbox_row \<Rightarrow> int \<times> int" and P
    using assms by (auto simp: distinct_map intro: inj_on_subset)
  then show "distinct (map o_id (findDispatchableByEventIds ids rows))"
    "distinct (map o_id (findProcessableByIds ids rows))"
    "distinct (map o_id (findDueForProcessing limit m st rows))"
    by (auto simp: findDispatchableByEventIds_def findProcessableByIds_def findDueForProcessing_def
        take_map [symmetric] intro: distinct_take)
qed

lemma dispatchMany_state:
  "snd (dispatchMany gen now events s) =
     (if events = [] then s
      else let s1 = s\<lparr>ev_rows := appendWithClient gen now events (ev_rows s)\<rparr> in
        snd (processRows True now (now - DEFAULT_PROCESSING_STALE_MS)
          (findDispatchableByEventIds (map (\<lambda>e. e_id e) events) (ev_rows s1)) no_rows s1))"
  by (simp add: dispatchMany_def Let_def split: prod.splits sum.splits)

lemma dispatchMany_ok:
  assumes "outbox_ok old s" shows "outbox_ok old (snd (dispatchMany gen now events s))"
  using append_ok [OF assms] assms member_snapshot [OF found_rows(1)]
  by (simp add: dispatchMany_state Let_def processRows_ok)

lemma drainPending_ok:
  assumes "outbox_ok old s" shows "outbox_ok old (snd (drainPending now limit m staleMs s))"
  using assms member_snapshot [OF found_rows(3)] by (simp add: drainPending_def Let_def processRows_ok)

lemma retryByIds_ok:
  assumes "outbox_ok old s" shows "outbox_ok old (snd (retryByIds now ids staleMs s))"
  using assms member_snapshot [OF found_rows(2)] by (simp add: retryByIds_def Let_def processRows_ok)

lemma retryOne_ok:
  assumes "outbox_ok old s" shows "outbox_ok old (snd (retryOne now i s))"
  using assms retryByIds_ok [OF assms, of now "[i]" None]
  by (auto simp: retryOne_def split: option.splits prod.splits sum.splits)

lemma retryFailed_ok:
  assumes "outbox_ok old s" shows "outbox_ok old (snd (retryFailed now c ty limit s))"
  using retryByIds_ok [OF assms, of now
      "map o_id (failed_rows c ty (normalizeLimit limit 50 500) (ev_rows s))" None]
  by (auto simp: retryFailed_def Let_def split: prod.splits sum.splits)

lemma cleanupProcessed_ok:
  assumes "outbox_ok old s" shows "outbox_ok old (snd (cleanupProcessed ed el now days limit s))"
  using delete_ok [OF assms] by (auto simp: cleanupProcessed_def Let_def split: prod.splits) (metis snd_conv)


section \<open>Histories\<close>

datatype outbox_op =
    Op_append "domain_event list"
  | Op_dispatch "domain_event list"
  | Op_drain "js_num option" "js_num option" "int option"
  | Op_retry "ident list" "int option"
  | Op_retry_one ident
  | Op_retry_failed "ident option" "string option" "js_num option"
  | Op_cleanup js_num js_num "js_num option" "js_num option"

fun run_outbox :: "(ident list \<Rightarrow> ident) \<Rightarrow> outbox_op \<times> time \<Rightarrow> 'w ev_state \<Rightarrow> 'w ev_state" where
  "run_outbox gen (Op_append es, now) s = s\<lparr>ev_rows := appendWithClient gen now es (ev_rows s)\<rparr>"
| "run_outbox gen (Op_dispatch es, now) s = snd (dispatchMany gen now es s)"
| "run_outbox gen (Op_drain l m st, now) s = snd (drainPending now l m st s)"
| "run_outbox gen (Op_retry ids st, now) s = snd (retryByIds now ids st s)"
| "run_outbox gen (Op_retry_one i, now) s = snd (retryOne now i s)"
| "run_outbox gen (Op_retry_failed c ty l, now) s = snd (retryFailed now c ty l s)"
| "run_outbox gen (Op_cleanup ed el d l, now) s = snd (cleanupProcessed ed el now d l s)"

text \<open>An operation that throws keeps what it wrote before: it always leaves a state.\<close>

definition outbox_step :: "(ident list \<Rightarrow> ident) \<Rightarrow> outbox_op \<times> time \<Rightarrow> 'w ev_state \<Rightarrow> unit + 'w ev_state" where
  "outbox_step gen op s = Inr (run_outbox gen op s)"

lemma run_outbox_ok: "outbox_ok old s \<Longrightarrow> outbox_ok old (run_outbox gen op s)"
  by (cases "(gen, op, s)" rule: run_outbox.cases)
    (simp_all add: append_ok dispatchMany_ok drainPending_ok retryByIds_ok retryOne_ok retryFailed_ok
      cleanupProcessed_ok)

interpretation outbox: transactional "outbox_ok old" "outbox_step gen" "\<lambda>_. True" for old gen
  by unfold_locales (auto simp: outbox_step_def intro: run_outbox_ok)


section \<open>Effects on the table\<close>

lemma touched_member:
  assumes "distinct (map o_id rows)" "set due \<subseteq> set rows" "\<forall>r\<in>set due. claimable st r" "r \<in> set rows"
  shows "touched st now (o_id ` set due) out r = (if r \<in> set due then settled now (out (o_id r)) r else r)"
proof -
  have "o_id r \<in> o_id ` set due \<longleftrightarrow> r \<in> set due"
    using assms(1,2,4) by (auto simp: distinct_map dest: inj_onD)
  with assms(3) show ?thesis by (auto simp: touched_def)
qed

lemma due_claimable: "r \<in> set (findDueForProcessing limit m st rows) \<Longrightarrow> claimable st r"
  by (auto simp: findDueForProcessing_def dest: in_set_takeD)


section \<open>Reliable handlers\<close>

definition reliable :: "'w bus \<Rightarrow> bool" where
  "reliable b = (\<forall>(ty, hs)\<in>set (handlers b). \<forall>(n, h)\<in>set hs. \<forall>e w. fst (h e w) = None)"

lemma run_handlers_reliable:
  "\<forall>(n, h)\<in>set hs. \<forall>e w. fst (h e w) = None \<Longrightarrow> fst (run_handlers hs e w) = None"
proof (induction hs arbitrary: w)
  case (Cons nh hs)
  obtain n h where nh: "nh = (n, h)" by (cases nh)
  with Cons.prems have "fst (h e w) = None" by auto
  then obtain w' where "h e w = (None, w')" by (cases "h e w") auto
  with Cons nh show ?case by simp
qed simp

lemma bus_dispatch_reliable:
  assumes "reliable b" shows "fst (bus_dispatch e (b, w)) = None"
proof -
  let ?hs = "handlers_for b (e_type e)"
  have "\<forall>(n, h)\<in>set ?hs. \<forall>e w. fst (h e w) = None"
  proof (cases "map_of (handlers b) (e_type e)")
    case (Some hs)
    then have "(e_type e, hs) \<in> set (handlers b)" by (rule map_of_SomeD)
    from bspec [OF assms [unfolded reliable_def] this] Some show ?thesis
      by (simp add: handlers_for_def map_get_def)
  qed (simp add: handlers_for_def map_get_def)
  then have "fst (run_handlers ?hs e w) = None" by (rule run_handlers_reliable)
  then show ?thesis
    by (auto simp: bus_dispatch_def Let_def handlers_for_def split: prod.splits option.splits)
qed

lemma deliver_reliable:
  assumes "reliable b" "payload_ok r" "deliver (o_payload r) (b, w) = (out, (b', w'))"
  shows "out = None" "reliable b'"
proof -
  obtain e where e: "deserializeDomainEvent (o_payload r) = Inr e" using payload_okE [OF assms(2)] .
  then have bd: "bus_dispatch e (b, w) = (out, (b', w'))" using assms(3) by (simp add: deliver_def)
  show "out = None" using bus_dispatch_reliable [OF assms(1), of e w] bd by simp
  show "reliable b'" using bus_dispatch_frame(1) [OF bd] assms(1) by (simp add: reliable_def)
qed

text \<open>With reliable handlers a batch of claimable rows ends all PROCESSED.\<close>

lemma processRows_reliable:
  assumes "distinct (map o_id (ev_rows s))" "distinct (map o_id due)" "set due \<subseteq> set (ev_rows s)"
    and "\<forall>r\<in>set due. claimable st r \<and> payload_ok r" "reliable (ev_bus s)"
  shows "ev_rows (snd (processRows t now st due acc s)) =
      map (touched st now (o_id ` set due) (\<lambda>_. None)) (ev_rows s) \<and>
    reliable (ev_bus (snd (processRows t now st due acc s)))"
  using assms
proof (induction due arbitrary: s acc)
  case (Cons row rows)
  obtain out b w where del: "deliver (o_payload row) (ev_bus s, ev_world s) = (out, (b, w))"
    by (metis surj_pair)
  have r: "row \<in> set (ev_rows s)" "claimable st row" "payload_ok row" using Cons.prems(3,4) by auto
  note out = deliver_reliable [OF Cons.prems(5) r(3) del]
  note p = process_row_claimed [OF Cons.prems(1) r(1) refl r(2) del]
  have nin: "o_id row \<notin> o_id ` set rows" using Cons.prems(2) by auto
  let ?s = "s\<lparr>ev_bus := b, ev_world := w,
      ev_rows := update_where (\<lambda>r. o_id r = o_id row) (settled now None) (ev_rows s)\<rparr>"
  have "set rows \<subseteq> set (ev_rows ?s)"
    using Cons.prems(2,3) by (force simp: set_update_where image_iff)
  moreover have "distinct (map o_id (ev_rows ?s))" using Cons.prems(1) by (simp add: table_simps)
  moreover have "touched st now (o_id ` set rows) (\<lambda>_. None) (touched st now {o_id row} (\<lambda>_. None) x)
      = touched st now (o_id ` set (row # rows)) (\<lambda>_. None) x" for x
    using touched_touched [OF nin, of st now "\<lambda>_. None" None x] by (simp add: fun_upd_def)
  ultimately show ?case
    using Cons.IH [of ?s] Cons.prems(2,4) p out update_where_touched [OF Cons.prems(1) r(1) refl r(2)]
    by (simp add: outcome_value_def o_def)
qed (simp add: map_idI)


section \<open>Backlog\<close>

definition backlog :: "nat \<Rightarrow> outbox_row list \<Rightarrow> outbox_row list" where
  "backlog m rows = filter (\<lambda>r. o_status r \<in> {PENDING, FAILED} \<and> o_attempts r < m) rows"

definition no_processing :: "outbox_row list \<Rightarrow> bool" where
  "no_processing rows = (\<forall>r\<in>set rows. o_status r \<noteq> PROCESSING)"

lemma due_backlog:
  assumes "no_processing rows"
  shows "findDueForProcessing l m st rows = take l (by_occurrence (backlog m rows))"
proof -
  have "filter (\<lambda>r. o_attempts r < m \<and> claimable st r) rows = backlog m rows"
    unfolding backlog_def
    by (rule filter_cong) (use assms in \<open>auto simp: no_processing_def claimable_def\<close>)
  then show ?thesis by (simp add: findDueForProcessing_def)
qed

lemma backlog_settled:
  assumes "distinct rows" "set due \<subseteq> set (backlog m rows)" "distinct due"
  shows "length (backlog m (map (\<lambda>r. if r \<in> set due then settled now None r else r) rows))
       = length (backlog m rows) - length due"
proof -
  let ?P = "\<lambda>r. o_status r \<in> {PENDING, FAILED} \<and> o_attempts r < m"
  have "length (filter ?P (map (\<lambda>r. if r \<in> set due then settled now None r else r) rows))
      = length (filter (\<lambda>r. ?P r \<and> r \<notin> set due) rows)"
    by (induction rows) auto
  moreover have "length (filter (\<lambda>r. ?P r \<and> r \<notin> set due) rows) + length (filter (\<lambda>r. r \<in> set due) (filter ?P rows))
      = length (filter ?P rows)"
    by (induction rows) auto
  moreover have "length (filter (\<lambda>r. r \<in> set due) (filter ?P rows)) = length due"
  proof -
    have "set (filter (\<lambda>r. r \<in> set due) (filter ?P rows)) = set due"
      using assms(2) by (auto simp: backlog_def)
    moreover have "distinct (filter (\<lambda>r. r \<in> set due) (filter ?P rows))" using assms(1) by simp
    ultimately show ?thesis using distinct_card assms(3) by metis
  qed
  ultimately show ?thesis by (simp add: backlog_def)
qed

lemma drain_step:
  fixes s :: "'w ev_state" and now :: time and limit m :: "js_num option" and staleMs :: "int option"
  assumes ok: "outbox_ok old s" and rel: "reliable (ev_bus s)" and np: "no_processing (ev_rows s)"
  defines "s' \<equiv> snd (drainPending now limit m staleMs s)"
    and "L \<equiv> normalizePositiveInt limit 100" and "M \<equiv> normalizePositiveInt m 5"
  shows "outbox_ok old s' \<and> reliable (ev_bus s') \<and> no_processing (ev_rows s') \<and>
    length (backlog M (ev_rows s')) = length (backlog M (ev_rows s)) - L"
proof -
  let ?st = "now - (case staleMs of None \<Rightarrow> DEFAULT_PROCESSING_STALE_MS | Some m \<Rightarrow> m)"
  define due where "due = findDueForProcessing L M ?st (ev_rows s)"
  have s': "s' = snd (processRows False now ?st due no_rows s)"
    by (simp add: s'_def drainPending_def Let_def L_def M_def due_def)
  note tok = outbox_okD(1) [OF ok]
  note d = table_okD(1) [OF tok]
  have due: "set due \<subseteq> set (ev_rows s)" "distinct (map o_id due)" "\<forall>r\<in>set due. claimable ?st r \<and> payload_ok r"
    using found_rows(3) [of L M ?st "ev_rows s"] found_distinct(3) [OF d] due_claimable table_okD(4) [OF tok]
    by (auto simp: due_def)
  note pr = processRows_reliable [OF d due(2,1,3) rel, where t = False and now = now and acc = no_rows]
  have rows: "ev_rows s' = map (\<lambda>r. if r \<in> set due then settled now None r else r) (ev_rows s)"
    using pr touched_member [OF d due(1)] due(3) by (simp add: s')
  have dist: "distinct (ev_rows s)" "distinct due" using d due(2) by (auto simp: distinct_map)
  have "due = take L (by_occurrence (backlog M (ev_rows s)))" by (simp add: due_def due_backlog [OF np])
  then have "set due \<subseteq> set (backlog M (ev_rows s))" "length due = min (length (backlog M (ev_rows s))) L"
    by (auto dest: in_set_takeD)
  with backlog_settled [OF dist(1) _ dist(2)] have
    "length (backlog M (ev_rows s')) = length (backlog M (ev_rows s)) - L" by (simp add: rows)
  moreover have "no_processing (ev_rows s')" using np by (auto simp: no_processing_def rows)
  moreover have "outbox_ok old s'" unfolding s'_def by (rule drainPending_ok [OF ok])
  moreover have "reliable (ev_bus s')" using pr by (simp add: s')
  ultimately show ?thesis by blast
qed

lemma drain_sequence:
  assumes "outbox_ok old s" "reliable (ev_bus s)" "no_processing (ev_rows s)"
    and "length (backlog (normalizePositiveInt m 5) (ev_rows s)) \<le> length nows * normalizePositiveInt limit 100"
  shows "backlog (normalizePositiveInt m 5)
    (ev_rows (fold (\<lambda>now s. snd (drainPending now limit m staleMs s)) nows s)) = []"
  using assms
proof (induction nows arbitrary: s)
  case (Cons now nows)
  note st = drain_step [OF Cons.prems(1-3), of now limit m staleMs]
  with Cons.IH [of "snd (drainPending now limit m staleMs s)"] Cons.prems(4) show ?case by auto
qed simp


section \<open>Persistence\<close>

lemma append_event_mem:
  assumes "\<And>ids. gen ids \<notin> set ids"
  shows "\<exists>r\<in>set (append_event gen now rows e). o_eventId r = e_id e"
  using assms [of "map o_id rows"] by (auto simp: append_event_def outbox_row_of_def)

lemma append_mem:
  assumes "\<And>ids. gen ids \<notin> set ids" "e \<in> set events"
  shows "\<exists>r\<in>set (appendWithClient gen now events rows). o_eventId r = e_id e"
  using assms(2)
proof (induction events arbitrary: rows)
  case (Cons a events)
  show ?case
  proof (cases "e = a")
    case True
    from append_event_mem [OF assms(1)] obtain r where
      r: "r \<in> set (append_event gen now rows a)" "o_eventId r = e_id e" using True by blast
    with append_keeps [of "append_event gen now rows a" gen now events] show ?thesis
      by (auto simp: appendWithClient_def)
  next
    case False
    with Cons show ?thesis by (simp add: appendWithClient_def)
  qed
qed simp

lemma append_status:
  "r \<in> set (appendWithClient gen now events rows) \<Longrightarrow> r \<in> set rows \<or> o_status r = PENDING"
  unfolding appendWithClient_def
  by (induction events arbitrary: rows) (auto dest: append_event_old)

lemma dispatchable_claimable: "r \<in> set (findDispatchableByEventIds ids rows) \<Longrightarrow> claimable st r"
  by (auto simp: findDispatchableByEventIds_def claimable_def split: if_splits)

lemma dispatch_effect:
  fixes s :: "'w ev_state" and now :: time and events :: "domain_event list" and gen :: "ident list \<Rightarrow> ident"
  assumes ok: "outbox_ok old s" and ev: "events \<noteq> []"
  defines "st \<equiv> now - DEFAULT_PROCESSING_STALE_MS"
    and "rows1 \<equiv> appendWithClient gen now events (ev_rows s)"
  obtains out batch where
    "ev_rows (snd (dispatchMany gen now events s)) = map (touched st now (o_id ` set batch) out) rows1"
    "fst (dispatchMany gen now events s) = Inr () \<Longrightarrow>
       batch = findDispatchableByEventIds (map (\<lambda>e. e_id e) events) rows1 \<and> (\<forall>r\<in>set batch. out (o_id r) = None)"
    "\<And>err. fst (dispatchMany gen now events s) = Inl err \<Longrightarrow>
       \<exists>msg r. err = Handler_error msg \<and> r \<in> set rows1 \<and> claimable st r \<and>
         o_id r \<in> o_id ` set batch \<and> out (o_id r) = Some msg"
proof -
  let ?s1 = "s\<lparr>ev_rows := rows1\<rparr>" and ?f = "findDispatchableByEventIds (map (\<lambda>e. e_id e) events) rows1"
  have ok1: "outbox_ok old ?s1" using append_ok [OF ok] by (simp add: rows1_def)
  note d = table_okD(1) [OF outbox_okD(1) [OF ok1]]
  have d': "distinct (map o_id ?f)" using found_distinct(1) d by simp
  obtain out batch where e: "ev_rows (snd (processRows True now st ?f no_rows ?s1))
        = map (touched st now (o_id ` set batch) out) rows1"
      "batch_result True st rows1 ?f out batch (fst (processRows True now st ?f no_rows ?s1))"
    by (rule processRows_effect [OF d d']) simp
  have fst_eq: "fst (dispatchMany gen now events s) =
      (case fst (processRows True now st ?f no_rows ?s1) of Inl err \<Rightarrow> Inl err | Inr _ \<Rightarrow> Inr ())"
    using ev by (simp add: dispatchMany_def Let_def rows1_def st_def split: prod.splits sum.splits)
  show thesis
  proof (rule that [of batch out])
    show "ev_rows (snd (dispatchMany gen now events s)) = map (touched st now (o_id ` set batch) out) rows1"
      using e(1) ev by (simp add: dispatchMany_state Let_def rows1_def st_def)
  qed (use e(2) fst_eq in \<open>auto simp: batch_result_def split: sum.splits\<close>)
qed

end
