(* ===== verification/Cache_Invalidation.thy ===== *)
theory Cache_Invalidation
  imports Domain_Events
begin

text \<open>
  Versioned caches (\<^verbatim>\<open>shared/cache/cache.service.ts\<close>) and the handler that bumps them on
  domain events (\<^verbatim>\<open>catalog-cache-invalidation.handler.ts\<close>).  The state is the version
  counters held by Redis and whether Redis answers; a failed Redis call is swallowed and reported
  as version 0, as in the source.
\<close>


section \<open>Version counters\<close>

record cache =
  versions :: "(string \<times> int) list"
  redis_up :: bool

fun join_colon :: "string list \<Rightarrow> string" where
  "join_colon [] = []"
| "join_colon [x] = x"
| "join_colon (x # y # ys) = x @ '':'' @ join_colon (y # ys)"

definition buildVersionKey :: "string \<Rightarrow> string option \<Rightarrow> string" where
  "buildVersionKey scope catalogId =
     join_colon (filter (\<lambda>p. p \<noteq> [])
       [''cache:version'', scope, case catalogId of None \<Rightarrow> [] | Some c \<Rightarrow> c])"

definition getVersion :: "string \<Rightarrow> string option \<Rightarrow> cache \<Rightarrow> int" where
  "getVersion scope catalogId c =
     (if redis_up c
      then (case map_get (versions c) (buildVersionKey scope catalogId) of None \<Rightarrow> 0 | Some n \<Rightarrow> n)
      else 0)"

definition bumpVersion :: "string \<Rightarrow> string option \<Rightarrow> cache \<Rightarrow> int \<times> cache" where
  "bumpVersion scope catalogId c =
     (if redis_up c then
        let key = buildVersionKey scope catalogId;
            n = (case map_get (versions c) key of None \<Rightarrow> 0 | Some n \<Rightarrow> n) + 1
        in (n, c\<lparr>versions := map_set key n (versions c)\<rparr>)
      else (0, c))"

abbreviation CATALOG_CACHE_VERSION :: string where "CATALOG_CACHE_VERSION \<equiv> ''catalog''"
abbreviation CATALOG_TYPE_CACHE_VERSION :: string where "CATALOG_TYPE_CACHE_VERSION \<equiv> ''catalog-type''"
abbreviation CATEGORY_LIST_CACHE_VERSION :: string where "CATEGORY_LIST_CACHE_VERSION \<equiv> ''categories-v2''"
abbreviation PRODUCTS_CACHE_VERSION :: string where "PRODUCTS_CACHE_VERSION \<equiv> ''products-v6''"
abbreviation CATEGORY_PRODUCTS_CACHE_VERSION :: string where
  "CATEGORY_PRODUCTS_CACHE_VERSION \<equiv> ''category-products-v7''"


section \<open>The invalidation handler\<close>

fun resolveCacheScope :: "cache_scope \<Rightarrow> string" where
  "resolveCacheScope CS_catalog = CATALOG_CACHE_VERSION"
| "resolveCacheScope CS_catalog_products = PRODUCTS_CACHE_VERSION"
| "resolveCacheScope CS_category_products = CATEGORY_PRODUCTS_CACHE_VERSION"
| "resolveCacheScope CS_category_list = CATEGORY_LIST_CACHE_VERSION"
| "resolveCacheScope CS_catalog_type = CATALOG_TYPE_CACHE_VERSION"

definition shouldBump :: "event_body \<Rightarrow> string \<Rightarrow> bool" where
  "shouldBump b scope =
     (case b of
        Product_changed _ changes \<Rightarrow>
          (case changes of None \<Rightarrow> True | Some cs \<Rightarrow> cs = [] \<or> scope \<in> set cs)
      | _ \<Rightarrow>
          if scope = ''category_list'' then
            (case b of Product_variant_changed _ _ _ \<Rightarrow> True
             | Catalog_capability_changed _ \<Rightarrow> True | _ \<Rightarrow> False)
          else True)"

text \<open>The requests of an explicit invalidation, one per scope and key, in insertion order.\<close>

definition scope_requests :: "ident \<Rightarrow> (cache_scope \<times> ident option) list \<Rightarrow> (string \<times> (string \<times> string)) list" where
  "scope_requests catalogId scopes =
     foldl (\<lambda>m (name, key0).
        let key = (case key0 of None \<Rightarrow> catalogId | Some k \<Rightarrow> k); scope = resolveCacheScope name
        in if key = [] then m else map_set (scope @ '':'' @ key) (scope, key) m) [] scopes"

definition invalidateExplicitScopes :: "ident \<Rightarrow> (cache_scope \<times> ident option) list \<Rightarrow> cache \<Rightarrow> cache" where
  "invalidateExplicitScopes catalogId scopes c =
     foldl (\<lambda>c (_, (scope, key)). snd (bumpVersion scope (Some key) c)) c (scope_requests catalogId scopes)"

definition invalidateProductCaches :: "cache handler" where
  "invalidateProductCaches e c =
     (let cat = e_catalogId (e_meta e);
          bump = (\<lambda>label scope c. if shouldBump (e_body e) label then snd (bumpVersion scope (Some cat) c) else c)
      in case e_body e of
           Catalog_cache_invalidated scopes \<Rightarrow> (None, invalidateExplicitScopes cat scopes c)
         | _ \<Rightarrow> (None,
             bump ''category_list'' CATEGORY_LIST_CACHE_VERSION
               (bump ''category_products'' CATEGORY_PRODUCTS_CACHE_VERSION
                 (bump ''catalog_products'' PRODUCTS_CACHE_VERSION c))))"

definition PRODUCT_CACHE_EVENT_TYPES :: "string list" where
  "PRODUCT_CACHE_EVENT_TYPES =
     [''product.changed'', ''product.variant_changed'', ''variant.stock_changed'',
      ''variant.price_changed'', ''integration.sync_completed'', ''catalog.capability_changed'',
      ''catalog.cache_invalidated'']"

definition onModuleInit :: "cache bus \<Rightarrow> cache bus" where
  "onModuleInit b =
     foldl (\<lambda>b ty. subscribe ty ''CatalogCacheInvalidationHandler'' invalidateProductCaches b)
       b PRODUCT_CACHE_EVENT_TYPES"


section \<open>Lemmas\<close>

lemma bumpVersion_up [simp]: "redis_up (snd (bumpVersion scope cat c)) = redis_up c"
  by (simp add: bumpVersion_def Let_def)

lemma getVersion_bump:
  assumes "redis_up c"
  shows "getVersion scope cat (snd (bumpVersion scope' cat' c)) =
    getVersion scope cat c + (if buildVersionKey scope cat = buildVersionKey scope' cat' then 1 else 0)"
  using assms by (simp add: getVersion_def bumpVersion_def Let_def map_get_set)

text \<open>A catalog id without a colon keeps the version keys of different scopes and catalogs apart.\<close>

lemma product_keys_differ:
  "buildVersionKey PRODUCTS_CACHE_VERSION (Some c) \<noteq> buildVersionKey CATEGORY_PRODUCTS_CACHE_VERSION (Some c')"
  "buildVersionKey PRODUCTS_CACHE_VERSION (Some c) \<noteq> buildVersionKey CATEGORY_LIST_CACHE_VERSION (Some c')"
  "buildVersionKey CATEGORY_PRODUCTS_CACHE_VERSION (Some c) \<noteq> buildVersionKey CATEGORY_LIST_CACHE_VERSION (Some c')"
  by (auto simp: buildVersionKey_def)

lemma version_key_catalog:
  "buildVersionKey scope (Some c) = buildVersionKey scope (Some c') \<longleftrightarrow> c = c'"
  by (auto simp: buildVersionKey_def)

lemma handler_never_fails: "fst (invalidateProductCaches e c) = None"
  by (simp add: invalidateProductCaches_def Let_def split: event_body.splits)

lemma stock_event_bumps:
  assumes "e_body e = Variant_stock_changed ch" "redis_up c"
  shows "getVersion PRODUCTS_CACHE_VERSION (Some cat) (snd (invalidateProductCaches e c)) =
      getVersion PRODUCTS_CACHE_VERSION (Some cat) c + (if cat = e_catalogId (e_meta e) then 1 else 0)"
    and "getVersion CATEGORY_PRODUCTS_CACHE_VERSION (Some cat) (snd (invalidateProductCaches e c)) =
      getVersion CATEGORY_PRODUCTS_CACHE_VERSION (Some cat) c + (if cat = e_catalogId (e_meta e) then 1 else 0)"
    and "getVersion CATEGORY_LIST_CACHE_VERSION (Some cat) (snd (invalidateProductCaches e c)) =
      getVersion CATEGORY_LIST_CACHE_VERSION (Some cat) c"
  using assms product_keys_differ not_sym [OF product_keys_differ(1)] not_sym [OF product_keys_differ(2)]
    not_sym [OF product_keys_differ(3)]
  by (simp_all add: invalidateProductCaches_def Let_def shouldBump_def getVersion_bump version_key_catalog)

end
