(* ===== verification/Event_Properties.thy ===== *)
theory Event_Properties
  imports Outbox_Properties Cache_Invalidation
begin

text \<open>
  The properties of the event subsystem, with concrete runs of the outbox over the cache
  invalidation handler as witnesses.
\<close>


section \<open>A handled event has no further effect\<close>

text \<open>
  \<open>quiet k P s\<close>: the event with key \<open>k\<close> was handled, \<open>P\<close> holds of the world, and every
  handler keeps \<open>P\<close> on the other events.
\<close>

definition quiet :: "string \<Rightarrow> ('w \<Rightarrow> bool) \<Rightarrow> 'w ev_state \<Rightarrow> bool" where
  "quiet k P s =
     (k \<in> set (handled (ev_bus s)) \<and> P (ev_world s) \<and>
      (\<forall>(ty, hs)\<in>set (handlers (ev_bus s)). \<forall>(n, h)\<in>set hs. \<forall>e w.
         buildDomainEventIdempotencyKey e \<noteq> k \<longrightarrow> P w \<longrightarrow> P (snd (h e w))))"

lemma run_handlers_keep:
  assumes "\<forall>(n, h)\<in>set hs. \<forall>w. P w \<longrightarrow> P (snd (h e w))" "P w"
  shows "P (snd (run_handlers hs e w))"
  using assms
proof (induction hs arbitrary: w)
  case (Cons nh hs)
  obtain n h where nh: "nh = (n, h)" by (cases nh)
  with Cons.prems have "P (snd (h e w))" by auto
  with Cons nh show ?case by (auto split: prod.splits option.splits)
qed simp

lemma deliver_quiet:
  assumes q: "quiet k P s" and del: "deliver p (ev_bus s, ev_world s) = (out, (b, w))"
  shows "quiet k P (s\<lparr>ev_bus := b, ev_world := w, ev_rows := rows\<rparr>)"
proof (cases "deserializeDomainEvent p")
  case (Inl msg)
  with del q show ?thesis by (simp add: deliver_def quiet_def)
next
  case (Inr e)
  then have bd: "bus_dispatch e (ev_bus s, ev_world s) = (out, (b, w))"
    using del by (simp add: deliver_def)
  note fr = bus_dispatch_frame [OF bd]
  have "P w"
  proof (cases "buildDomainEventIdempotencyKey e = k")
    case True
    with q bd show ?thesis by (simp add: quiet_def bus_dispatch_handled)
  next
    case False
    let ?hs = "handlers_for (ev_bus s) (e_type e)"
    have "\<forall>(n, h)\<in>set ?hs. \<forall>w. P w \<longrightarrow> P (snd (h e w))"
    proof (cases "map_of (handlers (ev_bus s)) (e_type e)")
      case (Some hs)
      then have "(e_type e, hs) \<in> set (handlers (ev_bus s))" by (rule map_of_SomeD)
      with q False Some show ?thesis by (fastforce simp: quiet_def handlers_for_def map_get_def)
    qed (simp add: handlers_for_def map_get_def)
    from run_handlers_keep [OF this, of "ev_world s"] q bd show ?thesis
      by (auto simp: quiet_def bus_dispatch_def Let_def handlers_for_def split: if_splits prod.splits option.splits)
  qed
  with q fr show ?thesis by (auto simp: quiet_def)
qed

lemma settle_bus_world:
  "ev_bus (snd (settle t i now out acc s)) = ev_bus s" "ev_world (snd (settle t i now out acc s)) = ev_world s"
  by (auto simp: settle_def split: option.splits sum.splits)

lemma quiet_rows: "quiet k P (s\<lparr>ev_rows := rows\<rparr>) = quiet k P s"
  by (simp add: quiet_def)

lemma quiet_cong: "ev_bus s = ev_bus s' \<Longrightarrow> ev_world s = ev_world s' \<Longrightarrow> quiet k P s = quiet k P s'"
  by (simp add: quiet_def)

lemma process_row_quiet:
  assumes "quiet k P s" shows "quiet k P (snd (process_row t now st acc s row))"
proof -
  obtain out b w where del: "deliver (o_payload row) (ev_bus s, ev_world s) = (out, (b, w))"
    by (metis surj_pair)
  let ?s = "\<lambda>rows. s\<lparr>ev_rows := rows, ev_bus := b, ev_world := w\<rparr>"
  have "quiet k P (snd (settle t (o_id row) now out acc (?s rows)))" for rows
    using deliver_quiet [OF assms del, of rows]
    by (subst quiet_cong [of _ "?s rows"]) (simp_all add: settle_bus_world quiet_def)
  with assms del show ?thesis
    by (auto simp: process_row_def quiet_rows split: prod.splits bool.splits)
qed

lemma processRows_quiet: "quiet k P s \<Longrightarrow> quiet k P (snd (processRows t now st rows acc s))"
proof (induction rows arbitrary: s acc)
  case (Cons row rows)
  then show ?case using process_row_quiet [OF Cons.prems, of t now st acc row]
    by (cases "process_row t now st acc s row") (auto split: sum.splits)
qed simp

lemma retryByIds_quiet: "quiet k P s \<Longrightarrow> quiet k P (snd (retryByIds now ids st s))"
  by (simp add: retryByIds_def processRows_quiet)

lemma run_outbox_quiet:
  assumes "quiet k P s" shows "quiet k P (run_outbox gen op s)"
  using assms
proof (cases "(gen, op, s)" rule: run_outbox.cases)
  case (6 gen c ty l now s)
  with assms show ?thesis
    using retryByIds_quiet [of k P s now "map o_id (failed_rows c ty (normalizeLimit l 50 500) (ev_rows s))" None]
    by (auto simp: retryFailed_def Let_def split: prod.splits sum.splits)
next
  case (5 gen i now s)
  with assms show ?thesis using retryByIds_quiet [of k P s now "[i]" None]
    by (auto simp: retryOne_def split: prod.splits sum.splits option.splits)
qed (simp_all add: dispatchMany_state drainPending_def cleanupProcessed_def Let_def quiet_rows
      processRows_quiet retryByIds_quiet split: prod.splits)

interpretation quiet_outbox: transactional "quiet k P" "outbox_step gen" "\<lambda>_. True" for k P gen
  by unfold_locales (auto simp: outbox_step_def intro: run_outbox_quiet)


lemma process_row_handlers: "handlers (ev_bus (snd (process_row t now st acc s row))) = handlers (ev_bus s)"
proof -
  obtain out b w where del: "deliver (o_payload row) (ev_bus s, ev_world s) = (out, (b, w))"
    by (metis surj_pair)
  then have "handlers b = handlers (ev_bus s)"
    by (auto simp: deliver_def split: sum.splits dest: bus_dispatch_frame(1))
  with del show ?thesis
    by (auto simp: process_row_def settle_bus_world split: prod.splits bool.splits)
qed

lemma processRows_handlers: "handlers (ev_bus (snd (processRows t now st rows acc s))) = handlers (ev_bus s)"
proof (induction rows arbitrary: s acc)
  case (Cons row rows)
  then show ?case using process_row_handlers [of t now st acc s row]
    by (cases "process_row t now st acc s row") (auto split: sum.splits)
qed simp


section \<open>What a drain delivers\<close>

text \<open>
  The intended course of deliveries, stated beside the code: \<open>handled_by\<close> is one event given to a list of
  handlers in order, up to the first that throws; \<open>attempted\<close> is one attempt for each row in order, where
  an event that has been handled before is not given to the handlers again.
\<close>

inductive handled_by :: "(string \<times> 'w handler) list \<Rightarrow> domain_event \<Rightarrow> 'w \<Rightarrow> string option \<Rightarrow> 'w \<Rightarrow> bool" where
  no_handler: "handled_by [] e w None w"
| returns: "h e w = (None, w1) \<Longrightarrow> handled_by hs e w1 out w2 \<Longrightarrow> handled_by ((n, h) # hs) e w out w2"
| throws: "h e w = (Some msg, w1) \<Longrightarrow> handled_by ((n, h) # hs) e w (Some msg) w1"

inductive attempted ::
    "(string \<Rightarrow> (string \<times> 'w handler) list) \<Rightarrow> outbox_row list \<Rightarrow> string set \<Rightarrow> 'w \<Rightarrow> string option list \<Rightarrow> string set \<Rightarrow> 'w \<Rightarrow> bool"
  for hs where
  no_row: "attempted hs [] K w [] K w"
| repeated: "row_key r \<in> K \<Longrightarrow> attempted hs rs K w outs K' w' \<Longrightarrow> attempted hs (r # rs) K w (None # outs) K' w'"
| success: "row_key r \<notin> K \<Longrightarrow> deserializeDomainEvent (o_payload r) = Inr e \<Longrightarrow> handled_by (hs (e_type e)) e w None w1 \<Longrightarrow>
    attempted hs rs (insert (row_key r) K) w1 outs K' w' \<Longrightarrow> attempted hs (r # rs) K w (None # outs) K' w'"
| failure: "row_key r \<notin> K \<Longrightarrow> deserializeDomainEvent (o_payload r) = Inr e \<Longrightarrow> handled_by (hs (e_type e)) e w (Some msg) w1 \<Longrightarrow>
    attempted hs rs K w1 outs K' w' \<Longrightarrow> attempted hs (r # rs) K w (Some msg # outs) K' w'"

lemma run_handlers_spec: "run_handlers hs e w = (out, w') \<Longrightarrow> handled_by hs e w out w'"
proof (induction hs arbitrary: w)
  case (Cons nh hs)
  obtain n h where nh: "nh = (n, h)" by (cases nh)
  obtain r w1 where h: "h e w = (r, w1)" by (cases "h e w")
  with Cons nh show ?case by (cases r) (auto intro: handled_by.intros)
qed (auto intro: no_handler)

lemma handlers_for_cong: "handlers b' = handlers b \<Longrightarrow> handlers_for b' = handlers_for b"
  by (simp add: fun_eq_iff handlers_for_def)

lemma deliver_attempt:
  assumes "payload_ok r" "handling b = []" "deliver (o_payload r) (b, w) = (out, (b', w'))"
  shows "handlers_for b' = handlers_for b" "handling b' = []"
    "attempted (handlers_for b) rs (set (handled b')) w' outs K w'' \<Longrightarrow>
      attempted (handlers_for b) (r # rs) (set (handled b)) w (out # outs) K w''"
proof -
  obtain e where e: "deserializeDomainEvent (o_payload r) = Inr e" "buildDomainEventIdempotencyKey e = row_key r"
    using payload_okE [OF assms(1)] .
  then have bd: "bus_dispatch e (b, w) = (out, (b', w'))" using assms(3) by (simp add: deliver_def)
  show "handlers_for b' = handlers_for b" by (rule handlers_for_cong [OF bus_dispatch_frame(1) [OF bd]])
  show "handling b' = []" using bus_dispatch_frame(2) [OF bd] assms(2) by simp
  assume rest: "attempted (handlers_for b) rs (set (handled b')) w' outs K w''"
  show "attempted (handlers_for b) (r # rs) (set (handled b)) w (out # outs) K w''"
  proof (cases "row_key r \<in> set (handled b)")
    case True
    with bd rest show ?thesis by (simp add: bus_dispatch_def e(2) repeated)
  next
    case False
    obtain out' w1 where run: "run_handlers (handlers_for b (e_type e)) e w = (out', w1)"
      by (cases "run_handlers (handlers_for b (e_type e)) e w")
    have same: "handlers_for (b\<lparr>handling := x\<rparr>) = handlers_for b" for x by (rule handlers_for_cong) simp
    have "out' = out \<and> w1 = w' \<and>
        set (handled b') = (if out = None then insert (row_key r) (set (handled b)) else set (handled b))"
      using bd False assms(2) run
      by (cases out') (auto simp: bus_dispatch_def Let_def e(2) same set_add_def)
    then have out: "out' = out" "w1 = w'"
      "set (handled b') = (if out = None then insert (row_key r) (set (handled b)) else set (handled b))" by blast+
    note by_handlers = run_handlers_spec [OF run, unfolded out(1,2)]
    show ?thesis
      using False e(1) by_handlers rest out(3) by (cases out) (auto intro: success failure)
  qed
qed

text \<open>The rows after a batch with the given outcomes.\<close>

definition settled_rows :: "time \<Rightarrow> outbox_row list \<Rightarrow> string option list \<Rightarrow> outbox_row list \<Rightarrow> outbox_row list" where
  "settled_rows now due outs rows =
     map (\<lambda>r. case map_of (zip (map o_id due) outs) (o_id r) of None \<Rightarrow> r | Some out \<Rightarrow> settled now out r) rows"

lemma settled_rows_Cons:
  assumes "o_id row \<notin> o_id ` set due" "length outs = length due"
  shows "settled_rows now due outs (update_where (\<lambda>r. o_id r = o_id row) (settled now out) rows) =
    settled_rows now (row # due) (out # outs) rows"
proof -
  have "map_of (zip (map o_id due) outs) (o_id row) = None"
    using assms by (simp add: map_of_zip_is_None)
  then show ?thesis by (simp add: settled_rows_def update_where_def)
qed

lemma processRows_attempted:
  assumes "distinct (map o_id (ev_rows s))" "distinct (map o_id due)" "set due \<subseteq> set (ev_rows s)"
    and "\<forall>r\<in>set due. claimable st r \<and> payload_ok r" "handling (ev_bus s) = []"
  shows "\<exists>res outs s'. processRows False now st due acc s = (Inr res, s') \<and> length outs = length due \<and>
    attempted (handlers_for (ev_bus s)) due (set (handled (ev_bus s))) (ev_world s) outs (set (handled (ev_bus s'))) (ev_world s') \<and>
    n_processed res = n_processed acc + count_list outs None \<and>
    n_failed res = n_failed acc + (length outs - count_list outs None) \<and> n_skipped res = n_skipped acc \<and>
    ev_rows s' = settled_rows now due outs (ev_rows s)"
  using assms
proof (induction due arbitrary: s acc)
  case Nil
  then show ?case by (auto simp: settled_rows_def intro: no_row)
next
  case (Cons row due)
  obtain out b w where del: "deliver (o_payload row) (ev_bus s, ev_world s) = (out, (b, w))" by (metis surj_pair)
  have r: "row \<in> set (ev_rows s)" "claimable st row" "payload_ok row" using Cons.prems(3,4) by auto
  note p = process_row_claimed [OF Cons.prems(1) r(1) refl r(2) del]
  note step = deliver_attempt [OF r(3) Cons.prems(5) del]
  let ?s = "s\<lparr>ev_bus := b, ev_world := w, ev_rows := update_where (\<lambda>r. o_id r = o_id row) (settled now out) (ev_rows s)\<rparr>"
  obtain acc' where acc': "outcome_value False out acc = Inr acc'"
      "n_processed acc' = n_processed acc + (if out = None then 1 else 0)"
      "n_failed acc' = n_failed acc + (if out = None then 0 else 1)" "n_skipped acc' = n_skipped acc"
    using that [of "acc\<lparr>n_processed := n_processed acc + (if out = None then 1 else 0),
        n_failed := n_failed acc + (if out = None then 0 else 1)\<rparr>"]
    by (cases out; cases acc) (simp_all add: outcome_value_def)
  have "set due \<subseteq> set (ev_rows ?s)" using Cons.prems(2,3) by (force simp: set_update_where image_iff)
  moreover have "distinct (map o_id (ev_rows ?s))" using Cons.prems(1) by (simp add: table_simps)
  ultimately obtain res outs s' where IH: "processRows False now st due acc' ?s = (Inr res, s')" "length outs = length due"
      "attempted (handlers_for b) due (set (handled b)) w outs (set (handled (ev_bus s'))) (ev_world s')"
      "n_processed res = n_processed acc' + count_list outs None"
      "n_failed res = n_failed acc' + (length outs - count_list outs None)" "n_skipped res = n_skipped acc'"
      "ev_rows s' = settled_rows now due outs (ev_rows ?s)"
    using Cons.IH [of ?s acc'] Cons.prems(2,4) step(2) by auto
  have "processRows False now st (row # due) acc s = (Inr res, s')" using p acc'(1) IH(1) by simp
  moreover have "ev_rows s' = settled_rows now (row # due) (out # outs) (ev_rows s)"
    using IH(7) settled_rows_Cons [of row due outs now out "ev_rows s"] Cons.prems(2) IH(2) by simp
  moreover have "count_list outs None \<le> length outs" by (rule count_le_length)
  ultimately show ?case
    using IH acc' step(3) [OF IH(3) [unfolded step(1)]] by (intro exI [of _ res] exI [of _ "out # outs"] exI [of _ s']) auto
qed


section \<open>Deletion\<close>

lemma delete_processed_effect:
  assumes d: "distinct (map o_id rows)" and del: "deleteProcessedBefore cutoff limit rows = (n, rows')"
  shows "n \<le> limit \<and> length rows = length rows' + n \<and> set rows' \<subseteq> set rows \<and>
    (\<forall>r\<in>set rows. r \<notin> set rows' \<longrightarrow> processed_before cutoff r)"
proof -
  define doomed where "doomed = take limit (sort_key
    (\<lambda>r. (case o_processedAt r of None \<Rightarrow> 0 | Some t \<Rightarrow> t, o_createdAt r)) (filter (processed_before cutoff) rows))"
  have sub: "set doomed \<subseteq> set (filter (processed_before cutoff) rows)"
    by (auto simp: doomed_def dest: in_set_takeD)
  have dd: "distinct doomed" using d by (auto simp: doomed_def distinct_map)
  have mem: "o_id r \<in> o_id ` set doomed \<longleftrightarrow> r \<in> set doomed" if "r \<in> set rows" for r
    using d sub that by (auto simp: distinct_map dest: inj_onD)
  have n: "n = length (filter (\<lambda>r. r \<in> set doomed) rows)" "rows' = filter (\<lambda>r. r \<notin> set doomed) rows"
    using del mem by (auto simp: deleteProcessedBefore_def doomed_def [symmetric] Let_def count_where_def
        cong: filter_cong split: if_splits)
  have "set (filter (\<lambda>r. r \<in> set doomed) rows) = set doomed" using sub by auto
  moreover have "distinct (filter (\<lambda>r. r \<in> set doomed) rows)" using d by (simp add: distinct_map)
  ultimately have "n = length doomed" using distinct_card dd n(1) by metis
  then have "n \<le> limit" by (simp add: doomed_def)
  moreover have "length rows = length rows' + n"
    using n sum_length_filter_compl [of "\<lambda>r. r \<in> set doomed" rows] by simp
  ultimately show ?thesis using sub by (auto simp: n(2))
qed


lemma normalizeLimit_le: "fallback \<le> cap \<Longrightarrow> normalizeLimit v fallback cap \<le> cap"
  by (auto simp: normalizeLimit_def split: option.splits js_num.splits)


section \<open>A running example\<close>

text \<open>The outbox over the cache handler, with one stock event and one event left by an earlier run.\<close>

definition fresh_id :: "ident list \<Rightarrow> ident" where
  "fresh_id ids = concat ids @ ''x''"

lemma fresh_id_new: "fresh_id ids \<notin> set ids"
proof
  assume "fresh_id ids \<in> set ids"
  then obtain xs ys where "ids = xs @ fresh_id ids # ys" by (meson split_list)
  then have "length (concat ids) \<ge> length (fresh_id ids)" by (metis concat.simps(2) concat_append length_append le_add1 le_add2 order_trans)
  then show False by (simp add: fresh_id_def)
qed

definition stock_event :: "ident \<Rightarrow> ident \<Rightarrow> domain_event" where
  "stock_event i cat = createDomainEvent i 5 None None cat
     (Variant_stock_changed \<lparr>vc_productId = Some ''p'', vc_variantId = ''v'', vc_previous = Some 3,
        vc_next = Some 2, vc_source = Some S_cart, vc_reason = None, vc_integrationId = None,
        vc_externalId = None, vc_runId = None\<rparr>)"

definition demo_events :: "cache ev_state" where
  "demo_events =
     \<lparr>ev_rows = appendWithClient fresh_id 0 [stock_event ''e0'' ''c''] [],
      ev_bus = onModuleInit \<lparr>handlers = [], handled = [], handling = []\<rparr>,
      ev_world = \<lparr>versions = [], redis_up = True\<rparr>\<rparr>"

lemma demo_events_ok: "outbox_ok [] demo_events"
  by code_simp

lemma demo_events_reliable: "reliable (ev_bus demo_events)"
proof -
  have "\<exists>hs. handlers (ev_bus demo_events) = hs \<and>
      (\<forall>(ty, l)\<in>set hs. l = [(''CatalogCacheInvalidationHandler'', invalidateProductCaches)])"
    by (simp add: demo_events_def onModuleInit_def PRODUCT_CACHE_EVENT_TYPES_def subscribe_def
        handlers_for_def map_get_def Let_def)
  then show ?thesis by (fastforce simp: reliable_def handler_never_fails)
qed


section \<open>Properties\<close>



text \<open>
  C10. A drain always returns, whatever the handlers do.  It makes one delivery attempt for each of the
  first due rows, oldest first and up to the limit: the handlers of the event's type run on it in order,
  up to the first that throws, unless the event has been handled before.  A row ends PROCESSED when its
  handlers all returned and FAILED with the message of the one that threw; each is counted once, every
  other row is as it was, and the bus remembers exactly the events that succeeded.
\<close>

theorem drain_settles_due:
  assumes "outbox_ok old s"
    and "stale = (case staleMs of None \<Rightarrow> DEFAULT_PROCESSING_STALE_MS | Some m \<Rightarrow> m)"
    and "due = findDueForProcessing (normalizePositiveInt limit 100) (normalizePositiveInt maxAttempts 5)
                 (now - stale) (ev_rows s)"
  shows "\<exists>res outs s'. drainPending now limit maxAttempts staleMs s = (Inr res, s') \<and> length outs = length due \<and>
    attempted (handlers_for (ev_bus s)) due (set (handled (ev_bus s))) (ev_world s) outs (set (handled (ev_bus s'))) (ev_world s') \<and>
    n_processed res = count_list outs None \<and> n_failed res = length due - count_list outs None \<and> n_skipped res = 0 \<and>
    ev_rows s' = settled_rows now due outs (ev_rows s)"
proof -
  note d = table_okD(1) [OF outbox_okD(1) [OF assms(1)]]
  have "\<forall>r\<in>set due. claimable (now - stale) r \<and> payload_ok r"
    using due_claimable found_rows(3) table_okD(4) [OF outbox_okD(1) [OF assms(1)]] assms(3) by blast
  from processRows_attempted [OF d _ _ this outbox_okD(2) [OF assms(1)], of now no_rows] show ?thesis
    using found_distinct(3) [OF d] found_rows(3) assms(2,3) by (auto simp: drainPending_def Let_def)
qed

theorem drain_settles_due_witness:
  "\<exists>res outs s'. drainPending 20 None None None demo_events = (Inr res, s') \<and> length outs = 1 \<and>
    attempted (handlers_for (ev_bus demo_events)) (ev_rows demo_events) {} (ev_world demo_events) outs
      (set (handled (ev_bus s'))) (ev_world s') \<and> ev_rows s' = settled_rows 20 (ev_rows demo_events) outs (ev_rows demo_events)"
proof -
  have due: "ev_rows demo_events = findDueForProcessing (normalizePositiveInt None 100) (normalizePositiveInt None 5) (20 - 300000)
      (ev_rows demo_events)" by code_simp
  have one: "length (ev_rows demo_events) = 1" "set (handled (ev_bus demo_events)) = {}" by code_simp+
  have "300000 = (case None of None \<Rightarrow> DEFAULT_PROCESSING_STALE_MS | Some m \<Rightarrow> m)" by simp
  from drain_settles_due [OF demo_events_ok this due] show ?thesis unfolding one by blast
qed

text \<open>
  C11. Events are stored before they are delivered: whether a dispatch returns or throws, each of
  its events has a row.  If it returns, that row is PROCESSED, unless another delivery of the same
  event was under way; if a handler threw, a row is FAILED with the message.
\<close>

theorem dispatch_persists:
  assumes "outbox_ok old s" "\<forall>ids. gen ids \<notin> set ids" "e \<in> set events"
  shows "(\<exists>r\<in>set (ev_rows (snd (dispatchMany gen now events s))). o_eventId r = e_id e \<and>
      (fst (dispatchMany gen now events s) = Inr () \<longrightarrow> o_status r = PROCESSED \<or>
        (\<exists>r0\<in>set (ev_rows s). o_eventId r0 = e_id e \<and> o_status r0 = PROCESSING))) \<and>
    (\<forall>err. fst (dispatchMany gen now events s) = Inl err \<longrightarrow>
      (\<exists>msg. err = Handler_error msg \<and> (\<exists>r\<in>set (ev_rows (snd (dispatchMany gen now events s))).
         o_status r = FAILED \<and> o_lastError r = Some (formatDomainEventError msg))))"
proof -
  let ?d = "dispatchMany gen now events s" and ?rows1 = "appendWithClient gen now events (ev_rows s)"
  let ?st = "now - DEFAULT_PROCESSING_STALE_MS"
  have ev: "events \<noteq> []" using assms(3) by auto
  obtain out batch where eff: "ev_rows (snd ?d) = map (touched ?st now (o_id ` set batch) out) ?rows1"
    and good: "fst ?d = Inr () \<Longrightarrow> batch = findDispatchableByEventIds (map (\<lambda>e. e_id e) events) ?rows1 \<and>
        (\<forall>r\<in>set batch. out (o_id r) = None)"
    and bad: "\<And>err. fst ?d = Inl err \<Longrightarrow> \<exists>msg r. err = Handler_error msg \<and> r \<in> set ?rows1 \<and>
        claimable ?st r \<and> o_id r \<in> o_id ` set batch \<and> out (o_id r) = Some msg"
    by (rule dispatch_effect [OF assms(1) ev, where now = now and gen = gen]) blast
  obtain r where r: "r \<in> set ?rows1" "o_eventId r = e_id e" using append_mem assms(2,3) by metis
  let ?r = "touched ?st now (o_id ` set batch) out r"
  have "o_status ?r = PROCESSED \<or> (\<exists>r0\<in>set (ev_rows s). o_eventId r0 = e_id e \<and> o_status r0 = PROCESSING)"
    if "fst ?d = Inr ()"
  proof (cases "o_status r")
    case PROCESSING
    with append_status [OF r(1)] r(2) show ?thesis by auto
  next
    case PROCESSED
    then show ?thesis by (simp add: touched_def claimable_def)
  qed (use good [OF that] r assms(3) in
      \<open>force simp: touched_def claimable_def findDispatchableByEventIds_def\<close>)+
  moreover have "\<exists>msg. err = Handler_error msg \<and> (\<exists>r\<in>set (ev_rows (snd ?d)).
      o_status r = FAILED \<and> o_lastError r = Some (formatDomainEventError msg))" if "fst ?d = Inl err" for err
  proof -
    from bad [OF that] obtain msg r where "err = Handler_error msg" "r \<in> set ?rows1" "claimable ?st r"
        "o_id r \<in> o_id ` set batch" "out (o_id r) = Some msg" by blast
    then have "touched ?st now (o_id ` set batch) out r \<in> set (ev_rows (snd ?d))"
      "touched ?st now (o_id ` set batch) out r = settled now (Some msg) r"
      unfolding eff set_map by (blast, simp add: touched_def)
    with \<open>err = Handler_error msg\<close> show ?thesis by (auto simp: settled_def intro!: bexI)
  qed
  ultimately show ?thesis using r by (auto simp: eff)
qed

theorem dispatch_persists_witness:
  "\<exists>r\<in>set (ev_rows (snd (dispatchMany fresh_id 10 [stock_event ''e1'' ''c''] demo_events))).
     o_eventId r = ''e1'' \<and> o_status r = PROCESSED"
proof -
  have f: "\<forall>ids. fresh_id ids \<notin> set ids" by (simp add: fresh_id_new)
  have ok: "fst (dispatchMany fresh_id 10 [stock_event ''e1'' ''c''] demo_events) = Inr ()" by code_simp
  have np: "list_all (\<lambda>r. o_status r \<noteq> PROCESSING) (ev_rows demo_events)" by code_simp
  from dispatch_persists [OF demo_events_ok f, of "stock_event ''e1'' ''c''" "[stock_event ''e1'' ''c'']" 10]
  show ?thesis using ok np by (auto simp: list_all_iff stock_event_def createDomainEvent_def)
qed


text \<open>
  At most once after success: once an event has been handled, no later dispatch, drain or retry
  runs a handler on it again.  Any property of the world that the handlers keep on the other events
  survives every later history.
\<close>

theorem handled_event_has_no_effect:
  assumes "history (outbox_step gen) (\<lambda>_. True) s t"
    and "buildDomainEventIdempotencyKey e \<in> set (handled (ev_bus s))" "P (ev_world s)"
    and "\<forall>(ty, hs)\<in>set (handlers (ev_bus s)). \<forall>(n, h)\<in>set hs. \<forall>e' w.
      buildDomainEventIdempotencyKey e' \<noteq> buildDomainEventIdempotencyKey e \<longrightarrow> P w \<longrightarrow> P (snd (h e' w))"
  shows "P (ev_world t) \<and> buildDomainEventIdempotencyKey e \<in> set (handled (ev_bus t))"
  using quiet_outbox.history_invar [OF assms(1), of "buildDomainEventIdempotencyKey e" P] assms(2-4)
  by (simp add: quiet_def)

definition log_state :: "string list ev_state" where
  "log_state =
     \<lparr>ev_rows = [],
      ev_bus = subscribe ''variant.stock_changed'' ''log''
        (\<lambda>e w. (None, w @ [buildDomainEventIdempotencyKey e])) \<lparr>handlers = [], handled = [], handling = []\<rparr>,
      ev_world = []\<rparr>"

theorem handled_event_has_no_effect_witness:
  "count_list (ev_world (run_outbox fresh_id (Op_retry_failed None None None, 40)
     (run_outbox fresh_id (Op_dispatch [stock_event ''e1'' ''c'', stock_event ''e2'' ''c''], 30)
       (snd (dispatchMany fresh_id 10 [stock_event ''e1'' ''c''] log_state)))))
     (buildDomainEventIdempotencyKey (stock_event ''e1'' ''c'')) = 1"
proof -
  let ?s = "snd (dispatchMany fresh_id 10 [stock_event ''e1'' ''c''] log_state)"
  let ?k = "buildDomainEventIdempotencyKey (stock_event ''e1'' ''c'')"
  let ?ops = "[(Op_dispatch [stock_event ''e1'' ''c'', stock_event ''e2'' ''c''], 30),
      (Op_retry_failed None None None, 40)] :: (outbox_op \<times> time) list"
  have h: "history (outbox_step fresh_id) (\<lambda>_. True) ?s (foldl (committed (outbox_step fresh_id)) ?s ?ops)"
    by (rule history_sequence) simp
  have k: "?k \<in> set (handled (ev_bus ?s))" "count_list (ev_world ?s) ?k = 1" by code_simp+
  have keep: "\<forall>(ty, hs)\<in>set (handlers (ev_bus ?s)). \<forall>(n, hd)\<in>set hs. \<forall>e' w.
      buildDomainEventIdempotencyKey e' \<noteq> ?k \<longrightarrow> count_list w ?k = 1 \<longrightarrow> count_list (snd (hd e' w)) ?k = 1"
    by (simp add: dispatchMany_state Let_def processRows_handlers)
      (simp add: log_state_def subscribe_def handlers_for_def map_get_def Let_def)
  from handled_event_has_no_effect [OF h k(1), where P = "\<lambda>w. count_list w ?k = 1", OF k(2) keep]
  show ?thesis by (simp add: committed_def outbox_step_def)
qed

text \<open>
  C13. No event is left behind: when the handlers do not throw and no delivery is under way, a
  number of drains that can hold the backlog (rows waiting with attempts left) clears it.
\<close>

theorem drain_clears_backlog:
  assumes "outbox_ok old s" "reliable (ev_bus s)" "no_processing (ev_rows s)"
    and "length (backlog (normalizePositiveInt m 5) (ev_rows s)) \<le> length nows * normalizePositiveInt limit 100"
  shows "backlog (normalizePositiveInt m 5)
    (ev_rows (fold (\<lambda>now s. snd (drainPending now limit m staleMs s)) nows s)) = []"
  by (rule drain_sequence [OF assms])

theorem drain_clears_backlog_witness:
  "length (backlog 5 (ev_rows demo_events)) = 1 \<and>
   backlog 5 (ev_rows (fold (\<lambda>now s. snd (drainPending now None None None s)) [20] demo_events)) = []"
proof -
  have n: "normalizePositiveInt None 5 = 5" "normalizePositiveInt None 100 = 100"
    by (simp_all add: normalizePositiveInt_def)
  have "list_all (\<lambda>r. o_status r \<noteq> PROCESSING) (ev_rows demo_events)"
    and l: "length (backlog 5 (ev_rows demo_events)) = 1" by code_simp+
  then have "no_processing (ev_rows demo_events)" by (simp add: no_processing_def list_all_iff)
  from drain_clears_backlog [OF demo_events_ok demo_events_reliable this, of None "[20]" None None] l
  show ?thesis by (simp add: n)
qed

text \<open>
  Cleanup deletes only rows processed before the cutoff, at most the (capped) limit of them,
  reports how many, and keeps every row that still has to be delivered.
\<close>

theorem cleanup_only_processed:
  assumes "outbox_ok old s" "cleanupProcessed ed el now days limit s = (res, s')"
  shows "cl_limit res \<le> 50000 \<and> cl_deleted res \<le> cl_limit res \<and>
    length (ev_rows s) = length (ev_rows s') + cl_deleted res \<and> set (ev_rows s') \<subseteq> set (ev_rows s) \<and>
    (\<forall>r\<in>set (ev_rows s). r \<notin> set (ev_rows s') \<longrightarrow> processed_before (cl_cutoff res) r)"
proof -
  let ?days = "normalizeRetentionDays (case days of None \<Rightarrow> Some ed | Some d \<Rightarrow> Some d) 30"
  let ?lim = "normalizeLimit (case limit of None \<Rightarrow> Some el | Some l \<Rightarrow> Some l) 5000 50000"
  let ?cut = "buildRetentionCutoff ?days now"
  obtain n rows' where del: "deleteProcessedBefore ?cut ?lim (ev_rows s) = (n, rows')"
    by (metis surj_pair)
  with assms(2) have res: "cl_deleted res = n" "cl_limit res = ?lim" "cl_cutoff res = ?cut" "ev_rows s' = rows'"
    by (auto simp: cleanupProcessed_def Let_def)
  show ?thesis
    using delete_processed_effect [OF table_okD(1) [OF outbox_okD(1) [OF assms(1)]] del]
    unfolding res by (simp add: normalizeLimit_le)
qed

theorem cleanup_only_processed_witness:
  "fst (cleanupProcessed Non_integer Non_integer 86400100 (Some (Int_num 1)) None
       (snd (drainPending 20 None None None demo_events))) =
     \<lparr>cl_deleted = 1, cl_retentionDays = 1, cl_cutoff = 100, cl_limit = 5000\<rparr> \<and>
   list_all (processed_before 100) (ev_rows (snd (drainPending 20 None None None demo_events)))"
proof -
  let ?s = "snd (drainPending 20 None None None demo_events)"
  let ?c = "cleanupProcessed Non_integer Non_integer 86400100 (Some (Int_num 1)) None ?s"
  have "length (ev_rows ?s) = 1" "list_all (processed_before 100) (ev_rows ?s)" by code_simp+
  then obtain r where r: "ev_rows ?s = [r]" "processed_before 100 r"
    by (auto simp: length_Suc_conv)
  have norm: "normalizeRetentionDays (Some (Int_num 1)) 30 = 1" "buildRetentionCutoff 1 86400100 = 100"
    "normalizeLimit (Some Non_integer) 5000 50000 = 5000"
    by (simp_all add: normalizeRetentionDays_def buildRetentionCutoff_def normalizeLimit_def)
  have "deleteProcessedBefore 100 5000 [r] = (1, [])"
    using r(2) by (simp add: deleteProcessedBefore_def count_where_def)
  then have c: "fst ?c = \<lparr>cl_deleted = 1, cl_retentionDays = 1, cl_cutoff = 100, cl_limit = 5000\<rparr>"
    and e: "ev_rows (snd ?c) = []"
    unfolding cleanupProcessed_def Let_def option.case norm r(1) by simp_all
  have "\<forall>r\<in>set (ev_rows ?s). r \<notin> set (ev_rows (snd ?c)) \<longrightarrow> processed_before (cl_cutoff (fst ?c)) r"
    using cleanup_only_processed [OF drainPending_ok [OF demo_events_ok] prod.collapse [symmetric]] by blast
  then have "\<forall>r\<in>set (ev_rows ?s). processed_before 100 r"
    unfolding c e by (simp only: list.set empty_iff not_False_eq_True cleanup_result.simps simp_thms)
  with c show ?thesis by (simp add: list_all_iff)
qed

text \<open>
  C15. A stock event reaches the caches exactly once: delivered on an idle bus with the cache handler
  registered and Redis up, it raises the product and category-product versions of its catalog by
  one and no other version of these scopes, and a second delivery changes nothing.
\<close>

theorem stock_event_bumps_caches_once:
  assumes "handlers_for b ''variant.stock_changed'' = [(name, invalidateProductCaches)]"
    and "e_body e = Variant_stock_changed ch" "redis_up c"
    and "buildDomainEventIdempotencyKey e \<notin> set (handled b)" "handling b = []"
  shows "\<exists>b' c'. bus_dispatch e (b, c) = (None, (b', c')) \<and> bus_dispatch e (b', c') = (None, (b', c')) \<and>
    (\<forall>cat. getVersion PRODUCTS_CACHE_VERSION (Some cat) c' =
       getVersion PRODUCTS_CACHE_VERSION (Some cat) c + (if cat = e_catalogId (e_meta e) then 1 else 0)) \<and>
    (\<forall>cat. getVersion CATEGORY_PRODUCTS_CACHE_VERSION (Some cat) c' =
       getVersion CATEGORY_PRODUCTS_CACHE_VERSION (Some cat) c + (if cat = e_catalogId (e_meta e) then 1 else 0)) \<and>
    (\<forall>cat. getVersion CATEGORY_LIST_CACHE_VERSION (Some cat) c' =
       getVersion CATEGORY_LIST_CACHE_VERSION (Some cat) c)"
proof -
  let ?c' = "snd (invalidateProductCaches e c)"
  obtain c1 where c1: "invalidateProductCaches e c = (None, c1)"
    using handler_never_fails [of e c] by (cases "invalidateProductCaches e c") auto
  then have run: "run_handlers [(name, invalidateProductCaches)] e c = (None, ?c')" by simp
  have "handlers_for (b\<lparr>handling := x\<rparr>) ty = handlers_for b ty" for x ty by (simp add: handlers_for_def)
  with assms run obtain b' where b': "bus_dispatch e (b, c) = (None, (b', ?c'))"
    by (simp add: bus_dispatch_def Let_def)
  have "buildDomainEventIdempotencyKey e \<in> set (handled b')"
    by (rule bus_dispatch_success [OF b']) (simp add: assms(5))
  then have "bus_dispatch e (b', ?c') = (None, (b', ?c'))" by (rule bus_dispatch_handled)
  with b' stock_event_bumps [OF assms(2,3)] show ?thesis by blast
qed

theorem stock_event_bumps_caches_once_witness:
  "\<exists>b' c'. bus_dispatch (stock_event ''e1'' ''c'') (ev_bus demo_events, ev_world demo_events) = (None, (b', c')) \<and>
     getVersion PRODUCTS_CACHE_VERSION (Some ''c'') c' = 1 \<and> getVersion PRODUCTS_CACHE_VERSION (Some ''d'') c' = 0"
proof -
  have h: "handlers_for (ev_bus demo_events) ''variant.stock_changed''
      = [(''CatalogCacheInvalidationHandler'', invalidateProductCaches)]"
    by (simp add: demo_events_def onModuleInit_def PRODUCT_CACHE_EVENT_TYPES_def subscribe_def
        handlers_for_def map_get_def Let_def)
  have idle: "redis_up (ev_world demo_events)"
    "buildDomainEventIdempotencyKey (stock_event ''e1'' ''c'') \<notin> set (handled (ev_bus demo_events))"
    "handling (ev_bus demo_events) = []" by code_simp+
  have zero: "\<forall>cat. getVersion PRODUCTS_CACHE_VERSION (Some cat) (ev_world demo_events) = 0"
    by (simp add: getVersion_def demo_events_def map_get_def)
  obtain ch where body: "e_body (stock_event ''e1'' ''c'') = Variant_stock_changed ch"
    "e_catalogId (e_meta (stock_event ''e1'' ''c'')) = ''c''"
    by (simp add: stock_event_def createDomainEvent_def)
  from stock_event_bumps_caches_once [OF h body(1) idle] obtain b' c' where
    "bus_dispatch (stock_event ''e1'' ''c'') (ev_bus demo_events, ev_world demo_events) = (None, (b', c'))"
    "\<forall>cat. getVersion PRODUCTS_CACHE_VERSION (Some cat) c' =
       getVersion PRODUCTS_CACHE_VERSION (Some cat) (ev_world demo_events) + (if cat = ''c'' then 1 else 0)"
    unfolding body(2) by blast
  with zero show ?thesis by auto
qed

end
