(* ===== verification/Capability.thy ===== *)
theory Capability
  imports Prelude
begin

text \<open>
  Catalog capabilities (\<^verbatim>\<open>modules/capability\<close>): the entitlement table, the capabilities with
  their dependencies, and \<^verbatim>\<open>capability.service.ts\<close>, which switches a capability on when it
  and everything it depends on are entitled.  Expiry is inclusive of the local day
  (\<^verbatim>\<open>shared/utils/inclusive-expiry.ts\<close>); \<open>tz\<close> is the offset of the server's zone, taken
  as constant.  The Russian messages of the source are named by constructors.
\<close>


section \<open>Inclusive expiry\<close>

abbreviation MS_PER_DAY :: int where "MS_PER_DAY \<equiv> 24 * 60 * 60 * 1000"

definition startOfLocalDay :: "int \<Rightarrow> time \<Rightarrow> time" where
  "startOfLocalDay tz t = (t + tz) div MS_PER_DAY * MS_PER_DAY - tz"

definition getInclusiveExpiryBoundary :: "int \<Rightarrow> time \<Rightarrow> time" where
  "getInclusiveExpiryBoundary tz expiresAt = startOfLocalDay tz expiresAt + MS_PER_DAY"

definition isInclusiveExpiryActive :: "int \<Rightarrow> time option \<Rightarrow> time \<Rightarrow> bool" where
  "isInclusiveExpiryActive tz expiresAt now =
     (case expiresAt of None \<Rightarrow> True | Some t \<Rightarrow> now < getInclusiveExpiryBoundary tz t)"

text \<open>\<^verbatim>\<open>Math.ceil\<close> of the quotient is minus the floor of its negation.\<close>

definition getInclusiveCalendarDaysUntilExpiry :: "int \<Rightarrow> time \<Rightarrow> time \<Rightarrow> int" where
  "getInclusiveCalendarDaysUntilExpiry tz expiresAt now =
     - ((- (getInclusiveExpiryBoundary tz expiresAt - startOfLocalDay tz now)) div MS_PER_DAY)"


section \<open>Capabilities\<close>

datatype capability = PRODUCT_TYPES | PRODUCT_VARIANTS | CATALOG_SALE_UNITS | CATALOG_MODIFIERS
  | CATALOG_PRICE_LISTS | INVENTORY_INTERNAL | INTEGRATION_MOYSKLAD | INTEGRATION_IIKO | INTEGRATION_ONE_C

definition CATALOG_CAPABILITIES :: "capability list" where
  "CATALOG_CAPABILITIES =
     [PRODUCT_TYPES, PRODUCT_VARIANTS, CATALOG_SALE_UNITS, CATALOG_MODIFIERS, CATALOG_PRICE_LISTS,
      INVENTORY_INTERNAL, INTEGRATION_MOYSKLAD, INTEGRATION_IIKO, INTEGRATION_ONE_C]"

definition CATALOG_CAPABILITY_DEFINITIONS :: "(capability \<times> capability list) list" where
  "CATALOG_CAPABILITY_DEFINITIONS =
     [(PRODUCT_TYPES, []), (PRODUCT_VARIANTS, [PRODUCT_TYPES]), (CATALOG_SALE_UNITS, []),
      (CATALOG_MODIFIERS, []), (CATALOG_PRICE_LISTS, []), (INVENTORY_INTERNAL, []),
      (INTEGRATION_MOYSKLAD, []), (INTEGRATION_IIKO, [PRODUCT_TYPES, PRODUCT_VARIANTS]),
      (INTEGRATION_ONE_C, [])]"

text \<open>The stored feature names.\<close>

fun capability_key :: "capability \<Rightarrow> string" where
  "capability_key PRODUCT_TYPES = ''product.types''"
| "capability_key PRODUCT_VARIANTS = ''product.variants''"
| "capability_key CATALOG_SALE_UNITS = ''catalog.sale_units''"
| "capability_key CATALOG_MODIFIERS = ''catalog.modifiers''"
| "capability_key CATALOG_PRICE_LISTS = ''catalog.price_lists''"
| "capability_key INVENTORY_INTERNAL = ''inventory.internal''"
| "capability_key INTEGRATION_MOYSKLAD = ''integration.moysklad''"
| "capability_key INTEGRATION_IIKO = ''integration.iiko''"
| "capability_key INTEGRATION_ONE_C = ''integration.one_c''"

record entitlement =
  en_catalogId :: ident
  en_feature :: string
  en_enabled :: bool
  en_expiresAt :: "time option"

definition dependsOn :: "capability \<Rightarrow> capability list" where
  "dependsOn c = (case map_of CATALOG_CAPABILITY_DEFINITIONS c of None \<Rightarrow> [] | Some ds \<Rightarrow> ds)"

definition getRawCapabilityMap :: "int \<Rightarrow> entitlement list \<Rightarrow> ident \<Rightarrow> time \<Rightarrow> capability \<Rightarrow> bool" where
  "getRawCapabilityMap tz table catalogId now c =
     (\<exists>e\<in>set table. en_catalogId e = catalogId \<and> en_feature e = capability_key c \<and>
        en_enabled e \<and> isInclusiveExpiryActive tz (en_expiresAt e) now)"

definition resolveEffectiveCapabilityMap :: "(capability \<Rightarrow> bool) \<Rightarrow> capability \<Rightarrow> bool" where
  "resolveEffectiveCapabilityMap raw =
     foldl (\<lambda>eff (key, deps). if raw key then eff(key := list_all eff deps) else eff(key := False))
       raw CATALOG_CAPABILITY_DEFINITIONS"

datatype disabled_reason = Feature_disabled | Requires_feature capability | Feature_unavailable

definition resolveDisabledReason ::
    "capability \<Rightarrow> (capability \<Rightarrow> bool) \<Rightarrow> (capability \<Rightarrow> bool) \<Rightarrow> disabled_reason option" where
  "resolveDisabledReason c raw effective =
     (if effective c then None
      else if \<not> raw c then Some Feature_disabled
      else case List.find (\<lambda>d. \<not> effective d) (dependsOn c) of
        None \<Rightarrow> Some Feature_unavailable
      | Some d \<Rightarrow> Some (Requires_feature d))"

record capability_item =
  ci_key :: capability
  ci_raw :: bool
  ci_effective :: bool
  ci_disabledReason :: "disabled_reason option"

definition getCatalogCapabilities ::
    "int \<Rightarrow> entitlement list \<Rightarrow> ident \<Rightarrow> time \<Rightarrow> capability_item list" where
  "getCatalogCapabilities tz table catalogId now =
     (let raw = getRawCapabilityMap tz table catalogId now; effective = resolveEffectiveCapabilityMap raw
      in map (\<lambda>(key, _). \<lparr>ci_key = key, ci_raw = raw key, ci_effective = effective key,
            ci_disabledReason = resolveDisabledReason key raw effective\<rparr>) CATALOG_CAPABILITY_DEFINITIONS)"

definition can_use :: "int \<Rightarrow> entitlement list \<Rightarrow> ident \<Rightarrow> capability \<Rightarrow> time \<Rightarrow> bool" where
  "can_use tz table catalogId c now =
     resolveEffectiveCapabilityMap (getRawCapabilityMap tz table catalogId now) c"

text \<open>
  \<^verbatim>\<open>assert\<close>: the message of the thrown \<^verbatim>\<open>ForbiddenException\<close> is the given one, else the
  reason of the item.  \<open>Not_enabled c\<close> is the fixed message of the \<^verbatim>\<open>assertCanUse..\<close> method of \<open>c\<close>.
\<close>

datatype forbidden_message = Not_enabled capability | Reason_message disabled_reason | Default_message

definition assert_capability ::
    "int \<Rightarrow> entitlement list \<Rightarrow> time \<Rightarrow> ident \<Rightarrow> capability \<Rightarrow> forbidden_message option \<Rightarrow> forbidden_message + unit" where
  "assert_capability tz table now catalogId c message =
     (if can_use tz table catalogId c now then Inr ()
      else Inl (case message of
          Some m \<Rightarrow> m
        | None \<Rightarrow>
            (case List.find (\<lambda>i. ci_key i = c) (getCatalogCapabilities tz table catalogId now) of
               None \<Rightarrow> Default_message
             | Some i \<Rightarrow> (case ci_disabledReason i of None \<Rightarrow> Default_message | Some r \<Rightarrow> Reason_message r))))"

text \<open>The nine \<^verbatim>\<open>assertCanUse..\<close> methods, one per capability.\<close>

definition assertCanUseFeature ::
    "int \<Rightarrow> entitlement list \<Rightarrow> time \<Rightarrow> capability \<Rightarrow> ident \<Rightarrow> forbidden_message + unit" where
  "assertCanUseFeature tz table now c catalogId =
     assert_capability tz table now catalogId c (Some (Not_enabled c))"

definition assertCanUseInternalInventory ::
    "int \<Rightarrow> entitlement list \<Rightarrow> time \<Rightarrow> ident \<Rightarrow> forbidden_message + unit" where
  "assertCanUseInternalInventory tz table now catalogId = assertCanUseFeature tz table now INVENTORY_INTERNAL catalogId"


section \<open>Dependencies\<close>

text \<open>\<open>requires c d\<close>: \<open>d\<close> is \<open>c\<close> or is reached from \<open>c\<close> through dependencies.\<close>

inductive requires :: "capability \<Rightarrow> capability \<Rightarrow> bool" where
  self: "requires c c"
| dep: "d \<in> set (dependsOn c) \<Longrightarrow> requires d e \<Longrightarrow> requires c e"

inductive_simps requires_from: "requires c e"

lemma dependsOn_simps [simp]:
  "dependsOn PRODUCT_TYPES = []" "dependsOn PRODUCT_VARIANTS = [PRODUCT_TYPES]"
  "dependsOn CATALOG_SALE_UNITS = []" "dependsOn CATALOG_MODIFIERS = []"
  "dependsOn CATALOG_PRICE_LISTS = []" "dependsOn INVENTORY_INTERNAL = []"
  "dependsOn INTEGRATION_MOYSKLAD = []"
  "dependsOn INTEGRATION_IIKO = [PRODUCT_TYPES, PRODUCT_VARIANTS]" "dependsOn INTEGRATION_ONE_C = []"
  by (simp_all add: dependsOn_def CATALOG_CAPABILITY_DEFINITIONS_def)

text \<open>The single pass is enough: every capability is listed after what it depends on.\<close>

lemma effective_unfold:
  "resolveEffectiveCapabilityMap raw c \<longleftrightarrow> raw c \<and> list_all (resolveEffectiveCapabilityMap raw) (dependsOn c)"
  by (cases c) (auto simp: resolveEffectiveCapabilityMap_def CATALOG_CAPABILITY_DEFINITIONS_def)

lemma find_capability_item:
  "List.find (\<lambda>i. ci_key i = c) (getCatalogCapabilities tz table cat now) =
   (let raw = getRawCapabilityMap tz table cat now; effective = resolveEffectiveCapabilityMap raw
    in Some \<lparr>ci_key = c, ci_raw = raw c, ci_effective = effective c,
         ci_disabledReason = resolveDisabledReason c raw effective\<rparr>)"
  by (cases c) (simp_all add: getCatalogCapabilities_def Let_def CATALOG_CAPABILITY_DEFINITIONS_def)


section \<open>Properties\<close>

text \<open>
  A catalog may use a capability exactly when the capability and everything it requires,
  directly or through other capabilities, is entitled and not expired.
\<close>

theorem can_use_iff_required_entitled:
  "can_use tz table cat c now \<longleftrightarrow> (\<forall>d. requires c d \<longrightarrow> getRawCapabilityMap tz table cat now d)"
proof -
  let ?raw = "getRawCapabilityMap tz table cat now"
  have sound: "?raw d" if "requires c d" "resolveEffectiveCapabilityMap ?raw c" for c d
    using that
  proof (induction rule: requires.induct)
    case (self c)
    then show ?case using effective_unfold by blast
  next
    case (dep d c e)
    then show ?case using effective_unfold [of ?raw c] by (auto simp: list_all_iff)
  qed
  moreover have "resolveEffectiveCapabilityMap ?raw c" if "\<And>d. requires c d \<Longrightarrow> ?raw d"
  proof -
    have "resolveEffectiveCapabilityMap ?raw c \<longleftrightarrow> list_all ?raw (c # dependsOn c)"
      by (cases c) (auto simp: resolveEffectiveCapabilityMap_def CATALOG_CAPABILITY_DEFINITIONS_def)
    then show ?thesis using that by (auto simp: list_all_iff intro: requires.intros)
  qed
  ultimately show ?thesis unfolding can_use_def by blast
qed

theorem can_use_iff_required_entitled_witness:
  "\<not> can_use 0 [\<lparr>en_catalogId = ''c'', en_feature = ''integration.iiko'', en_enabled = True,
      en_expiresAt = None\<rparr>] ''c'' INTEGRATION_IIKO 0"
proof -
  have "requires INTEGRATION_IIKO PRODUCT_TYPES" by (auto intro: requires.intros)
  then show ?thesis
    unfolding can_use_iff_required_entitled by (auto simp: getRawCapabilityMap_def)
qed

text \<open>
  An entitlement with an expiry date stays active up to the end of the local day of that date:
  a moment is accepted exactly when its local day is not after the expiry day, and then at least
  one calendar day, the current one, is reported as left.
\<close>

theorem expiry_day_is_inclusive:
  "(isInclusiveExpiryActive tz (Some t) now \<longleftrightarrow> (now + tz) div MS_PER_DAY \<le> (t + tz) div MS_PER_DAY) \<and>
   (isInclusiveExpiryActive tz (Some t) now \<longleftrightarrow> 0 < getInclusiveCalendarDaysUntilExpiry tz t now) \<and>
   getInclusiveCalendarDaysUntilExpiry tz t now = (t + tz) div MS_PER_DAY - (now + tz) div MS_PER_DAY + 1"
proof -
  let ?D = "24 * 60 * 60 * 1000 :: int"
  have "now + tz = ?D * ((now + tz) div ?D) + (now + tz) mod ?D" "0 \<le> (now + tz) mod ?D"
    "(now + tz) mod ?D < ?D"
    by (simp_all only: mult_div_mod_eq) (simp_all add: pos_mod_bound pos_mod_sign)
  then have day: "now < (t + tz) div ?D * ?D - tz + ?D \<longleftrightarrow> (now + tz) div ?D \<le> (t + tz) div ?D"
    by linarith
  have "- ((t + tz) div ?D * ?D - tz + ?D - ((now + tz) div ?D * ?D - tz))
      = - ((t + tz) div ?D - (now + tz) div ?D + 1) * ?D" by (simp add: algebra_simps)
  then have left: "getInclusiveCalendarDaysUntilExpiry tz t now = (t + tz) div ?D - (now + tz) div ?D + 1"
    unfolding getInclusiveCalendarDaysUntilExpiry_def getInclusiveExpiryBoundary_def startOfLocalDay_def
    by simp
  show ?thesis
    using day left by (auto simp: isInclusiveExpiryActive_def getInclusiveExpiryBoundary_def startOfLocalDay_def)
qed

text \<open>
  The guard throws exactly when the capability is not usable.  With no message given, the
  reason names a direct dependency that is itself unusable or says that the capability is switched
  off; the generic reasons are never needed.
\<close>

theorem assert_reason_is_specific:
  "(assert_capability tz table now cat c None = Inr () \<longleftrightarrow> can_use tz table cat c now) \<and>
   (\<forall>m. assert_capability tz table now cat c None = Inl m \<longrightarrow>
      (m = Reason_message Feature_disabled \<and> \<not> getRawCapabilityMap tz table cat now c) \<or>
      (\<exists>d\<in>set (dependsOn c). m = Reason_message (Requires_feature d) \<and> \<not> can_use tz table cat d now))"
proof (cases "can_use tz table cat c now")
  case True
  then show ?thesis by (simp add: assert_capability_def)
next
  case False
  let ?raw = "getRawCapabilityMap tz table cat now"
  let ?eff = "resolveEffectiveCapabilityMap ?raw"
  show ?thesis
  proof (cases "?raw c")
    case False
    with \<open>\<not> can_use tz table cat c now\<close> show ?thesis
      by (simp add: assert_capability_def find_capability_item Let_def resolveDisabledReason_def can_use_def)
  next
    case True
    with False have "\<exists>d\<in>set (dependsOn c). \<not> ?eff d"
      using effective_unfold [of ?raw c] by (auto simp: can_use_def list_all_iff)
    then obtain d where d: "List.find (\<lambda>d. \<not> ?eff d) (dependsOn c) = Some d"
      using find_None_all [of "\<lambda>d. \<not> ?eff d" "dependsOn c"] by (cases "List.find (\<lambda>d. \<not> ?eff d) (dependsOn c)") auto
    with find_Some_iff_mem [OF d] True False show ?thesis
      by (simp add: assert_capability_def find_capability_item Let_def resolveDisabledReason_def can_use_def)
  qed
qed

theorem assert_reason_is_specific_witness:
  "assert_capability 0 [\<lparr>en_catalogId = ''c'', en_feature = ''product.variants'', en_enabled = True,
      en_expiresAt = None\<rparr>] 0 ''c'' PRODUCT_VARIANTS None = Inl (Reason_message (Requires_feature PRODUCT_TYPES))"
proof -
  let ?t = "[\<lparr>en_catalogId = ''c'', en_feature = ''product.variants'', en_enabled = True, en_expiresAt = None\<rparr>]"
  have "\<not> can_use 0 ?t ''c'' PRODUCT_VARIANTS 0" "getRawCapabilityMap 0 ?t ''c'' 0 PRODUCT_VARIANTS" by code_simp+
  with assert_reason_is_specific [of 0 ?t 0 "''c''" PRODUCT_VARIANTS] show ?thesis
    by (cases "assert_capability 0 ?t 0 ''c'' PRODUCT_VARIANTS None") auto
qed

end
