(* ===== verification/Inventory_Service.thy ===== *)
theory Inventory_Service
  imports Warehouse_Properties Event_Properties Capability
begin

text \<open>
  The inventory service (\<^verbatim>\<open>inventory.service.ts\<close>): the guards, the normalisation of the
  request, the repository call, the mapping of rejections to HTTP errors, the audit entry and the
  stock events.  Its state joins the tables of the components it calls.  A method that opens its
  own transactions returns its outcome beside the state it leaves; a \<^verbatim>\<open>..Tx\<close> method runs in its
  caller's transaction, so a throw leaves no state.  Metrics are not modelled.  \<open>slug\<close> stands for
  the \<^verbatim>\<open>slugify\<close> package.
\<close>


section \<open>State and errors\<close>

datatype inventory_mode = MODE_NONE | MODE_EXTERNAL | MODE_INTERNAL

datatype role = ROLE_CATALOG | ROLE_USER | ROLE_GEO_ADMIN | ROLE_ADMIN

record session_user =
  su_id :: ident
  su_role :: role

text \<open>
  The actor argument: nothing, a user id, a request with or without its user, or a user.
\<close>

datatype actor_ref = No_actor | Actor_id ident | Actor_request "session_user option" | Actor_user session_user

record audit_entry =
  au_actor :: "session_user option"
  au_movementId :: ident
  au_catalogId :: ident
  au_reason :: "string option"
  au_warehouseId :: ident
  au_variantId :: ident
  au_movementType :: movement_type
  au_source :: movement_source
  au_delta :: int
  au_before :: "int option"
  au_after :: "int option"
  au_variantStock :: int

record inv_service =
  sv_inv :: inv_db
  sv_ev :: "cache ev_state"
  sv_audit :: "audit_entry list"
  sv_audit_up :: bool
  sv_entitlements :: "entitlement list"
  sv_modes :: "(ident \<times> inventory_mode) list"

text \<open>What a request carries: tenant, clock, zone offset and the identifiers drawn for it.\<close>

record request =
  rq_catalogId :: ident
  rq_ownerUserId :: "ident option"
  rq_now :: time
  rq_tz :: int
  rq_gen :: idgen
  rq_uuid :: "nat \<Rightarrow> ident"

datatype http_error =
    BadRequest string
  | NotFound string
  | Forbidden_mode
  | Forbidden_feature forbidden_message
  | Db_exception inv_error
  | Dispatch_exception dispatch_error


section \<open>Guards and normalisation\<close>

definition assertInternalInventoryCatalog :: "request \<Rightarrow> ident \<Rightarrow> inv_service \<Rightarrow> http_error + unit" where
  "assertInternalInventoryCatalog rq catalogId s =
     (case assertCanUseInternalInventory (rq_tz rq) (sv_entitlements s) (rq_now rq) catalogId of
        Inl m \<Rightarrow> Inl (Forbidden_feature m)
      | Inr _ \<Rightarrow>
          guardE ((case map_get (sv_modes s) catalogId of None \<Rightarrow> MODE_NONE | Some m \<Rightarrow> m) = MODE_INTERNAL)
            Forbidden_mode)"

definition requireWarehouse :: "'a option \<Rightarrow> http_error + 'a" where
  "requireWarehouse w = option_to_res (NotFound ''Inventory warehouse not found'') w"

definition normalizeRequiredText :: "string \<Rightarrow> string \<Rightarrow> http_error + string" where
  "normalizeRequiredText value field =
     (let normalized = trim value in
      if normalized = [] then Inl (BadRequest (field @ '' is required'')) else Inr normalized)"

definition normalizeOptionalText :: "string option \<Rightarrow> string option" where
  "normalizeOptionalText value =
     (case value of None \<Rightarrow> None | Some v \<Rightarrow> (let n = trim v in if n = [] then None else Some n))"

definition normalizeStatus :: "string option \<Rightarrow> warehouse_status" where
  "normalizeStatus status = (if status = Some ''DISABLED'' then W_DISABLED else W_ACTIVE)"

definition normalizeWarehouseLimit :: "js_num option \<Rightarrow> http_error + nat" where
  "normalizeWarehouseLimit limit =
     (case limit of
        None \<Rightarrow> Inr 50
      | Some (Int_num n) \<Rightarrow>
          if n < 1 then Inl (BadRequest ''limit must be a positive integer'') else Inr (nat (min n 100))
      | Some Non_integer \<Rightarrow> Inl (BadRequest ''limit must be a positive integer''))"

definition assertDefaultWarehouseCanBeActive :: "warehouse_status option \<Rightarrow> bool option \<Rightarrow> http_error + unit" where
  "assertDefaultWarehouseCanBeActive status isDefault =
     guardE (\<not> (status = Some W_DISABLED \<and> isDefault = Some True))
       (BadRequest ''Disabled warehouse cannot be default'')"

fun resolveActorUserId :: "actor_ref \<Rightarrow> ident option" where
  "resolveActorUserId No_actor = None"
| "resolveActorUserId (Actor_id i) = (if i = [] then None else Some i)"
| "resolveActorUserId (Actor_request u) = map_option su_id u"
| "resolveActorUserId (Actor_user u) = Some (su_id u)"

fun resolveAuditActor :: "actor_ref \<Rightarrow> session_user option" where
  "resolveAuditActor No_actor = None"
| "resolveAuditActor (Actor_id i) = (if i = [] then None else Some \<lparr>su_id = i, su_role = ROLE_CATALOG\<rparr>)"
| "resolveAuditActor (Actor_request u) = u"
| "resolveAuditActor (Actor_user u) = Some u"


section \<open>Warehouse codes\<close>

text \<open>\<^verbatim>\<open>replace(/-+/g, '-')\<close>.\<close>

fun collapse_dashes :: "string \<Rightarrow> string" where
  "collapse_dashes (a # b # s) =
     (if a = CHR ''-'' \<and> b = CHR ''-'' then collapse_dashes (b # s) else a # collapse_dashes (b # s))"
| "collapse_dashes s = s"

definition normalizeCode :: "(string \<Rightarrow> string) \<Rightarrow> string \<Rightarrow> string" where
  "normalizeCode slug value =
     (let normalized = take 100 (collapse_dashes (slug value)) in
      if normalized = [] then ''warehouse'' else normalized)"

definition assertCodeAvailable :: "ident \<Rightarrow> string \<Rightarrow> ident option \<Rightarrow> inv_db \<Rightarrow> http_error + unit" where
  "assertCodeAvailable catalogId code exclude db =
     guardE (\<not> existsWarehouseCode catalogId code exclude db)
       (BadRequest ''Inventory warehouse code is already used in this catalog'')"

definition normalizeProvidedCode ::
    "(string \<Rightarrow> string) \<Rightarrow> ident \<Rightarrow> string \<Rightarrow> ident option \<Rightarrow> inv_db \<Rightarrow> http_error + string" where
  "normalizeProvidedCode slug catalogId code exclude db =
     (let normalized = normalizeCode slug code in
      bindE (assertCodeAvailable catalogId normalized exclude db) (\<lambda>_. Inr normalized))"

definition candidate_code :: "string \<Rightarrow> nat \<Rightarrow> string" where
  "candidate_code baseCode attempt =
     (if attempt = 0 then baseCode else baseCode @ ''-'' @ show_nat (attempt + 1))"

definition generateAvailableCode :: "(string \<Rightarrow> string) \<Rightarrow> ident \<Rightarrow> string \<Rightarrow> inv_db \<Rightarrow> http_error + string" where
  "generateAvailableCode slug catalogId name db =
     option_to_res (BadRequest ''Could not generate a unique warehouse code'')
       (List.find (\<lambda>code. \<not> existsWarehouseCode catalogId code None db)
         (map (candidate_code (normalizeCode slug name)) [0..<50]))"


section \<open>Stock events\<close>

definition compactInventoryStockChanges :: "stock_change list \<Rightarrow> stock_change list" where
  "compactInventoryStockChanges changes = filter changed (map snd (foldl compact_step [] changes))"

definition stock_changed_event ::
    "ident \<Rightarrow> time \<Rightarrow> ident \<Rightarrow> event_source \<Rightarrow> string option \<Rightarrow> stock_change \<Rightarrow> domain_event" where
  "stock_changed_event uuid now catalogId source reason c =
     createDomainEvent uuid now None None catalogId
       (Variant_stock_changed \<lparr>vc_productId = sc_productId c, vc_variantId = sc_variantId c,
          vc_previous = previousStock c, vc_next = Some (nextStock c), vc_source = Some source,
          vc_reason = reason, vc_integrationId = None, vc_externalId = None, vc_runId = None\<rparr>)"

definition buildStockChangedEvents ::
    "request \<Rightarrow> ident \<Rightarrow> stock_change list \<Rightarrow> event_source \<Rightarrow> string \<Rightarrow> domain_event list" where
  "buildStockChangedEvents rq catalogId changes source reason =
     map (\<lambda>(k, c). stock_changed_event (rq_uuid rq k) (rq_now rq) catalogId source (Some reason) c)
       (enumerate 0 (compactInventoryStockChanges changes))"

definition buildStockChangedEventsByCatalog ::
    "request \<Rightarrow> stock_change list \<Rightarrow> event_source \<Rightarrow> string \<Rightarrow> domain_event list" where
  "buildStockChangedEventsByCatalog rq changes source reason =
     concat (map (\<lambda>(k, c). case sc_catalogId c of
          None \<Rightarrow> []
        | Some cat \<Rightarrow> if cat = [] then []
            else [stock_changed_event (rq_uuid rq k) (rq_now rq) cat source (Some reason) c])
       (enumerate 0 (compactInventoryStockChanges changes)))"

definition appendDomainEventsTx :: "request \<Rightarrow> domain_event list \<Rightarrow> inv_service \<Rightarrow> inv_service" where
  "appendDomainEventsTx rq events s =
     (if events = [] then s
      else s\<lparr>sv_ev := (sv_ev s)\<lparr>ev_rows := appendWithClient (rq_gen rq) (rq_now rq) events (ev_rows (sv_ev s))\<rparr>\<rparr>)"

definition bump_catalog :: "cache \<Rightarrow> ident \<Rightarrow> cache" where
  "bump_catalog c cat =
     snd (bumpVersion CATEGORY_PRODUCTS_CACHE_VERSION (Some cat)
       (snd (bumpVersion PRODUCTS_CACHE_VERSION (Some cat) c)))"

text \<open>With events the dispatcher delivers them; without, the versions are raised directly.\<close>

definition invalidateProductCachesForCatalogs ::
    "request \<Rightarrow> ident option list \<Rightarrow> domain_event list \<Rightarrow> inv_service \<Rightarrow> (http_error + unit) \<times> inv_service" where
  "invalidateProductCachesForCatalogs rq catalogIds events s =
     (if events \<noteq> [] then
        (case dispatchMany (rq_gen rq) (rq_now rq) events (sv_ev s) of
           (Inl e, ev) \<Rightarrow> (Inl (Dispatch_exception e), s\<lparr>sv_ev := ev\<rparr>)
         | (Inr _, ev) \<Rightarrow> (Inr (), s\<lparr>sv_ev := ev\<rparr>))
      else
        let cats = foldl (\<lambda>acc c. case c of None \<Rightarrow> acc | Some i \<Rightarrow> if i = [] then acc else set_add i acc)
              [] catalogIds
        in (Inr (), s\<lparr>sv_ev := (sv_ev s)\<lparr>ev_world := foldl bump_catalog (ev_world (sv_ev s)) cats\<rparr>\<rparr>))"


section \<open>Warehouses\<close>

text \<open>
  Request bodies after validation: a missing field is \<open>None\<close>; the address of an update may be
  null, which is \<open>Some None\<close>.
\<close>

record create_warehouse_dto =
  cd_name :: string
  cd_code :: "string option"
  cd_status :: "string option"
  cd_address :: "string option"
  cd_isDefault :: "bool option"

record update_warehouse_dto =
  ud_name :: "string option"
  ud_code :: "string option"
  ud_status :: "string option"
  ud_address :: "string option option"
  ud_isDefault :: "bool option"

definition getWarehouses ::
    "(string \<Rightarrow> string \<Rightarrow> int) \<Rightarrow> request \<Rightarrow> inv_service \<Rightarrow> http_error + warehouse_view list" where
  "getWarehouses cmp rq s =
     bindE (assertInternalInventoryCatalog rq (rq_catalogId rq) s)
       (\<lambda>_. Inr (findWarehouses cmp (rq_catalogId rq) (sv_inv s)))"

definition getWarehouseById :: "request \<Rightarrow> ident \<Rightarrow> inv_service \<Rightarrow> http_error + warehouse_view" where
  "getWarehouseById rq i s =
     bindE (assertInternalInventoryCatalog rq (rq_catalogId rq) s)
       (\<lambda>_. requireWarehouse (findWarehouseById (rq_catalogId rq) i (sv_inv s)))"

definition create_code ::
    "(string \<Rightarrow> string) \<Rightarrow> ident \<Rightarrow> string \<Rightarrow> string option \<Rightarrow> inv_db \<Rightarrow> http_error + string" where
  "create_code slug catalogId name code db =
     (case code of
        Some c \<Rightarrow> if c = [] then generateAvailableCode slug catalogId name db
                  else normalizeProvidedCode slug catalogId c None db
      | None \<Rightarrow> generateAvailableCode slug catalogId name db)"

definition service_createWarehouse ::
    "(string \<Rightarrow> string) \<Rightarrow> request \<Rightarrow> create_warehouse_dto \<Rightarrow> inv_service
     \<Rightarrow> (http_error + warehouse_view) \<times> inv_service" where
  "service_createWarehouse slug rq dto s =
     (let cat = rq_catalogId rq; status = normalizeStatus (cd_status dto); isDefault = (cd_isDefault dto = Some True) in
      case bindE (assertInternalInventoryCatalog rq cat s)
             (\<lambda>_. bindE (normalizeRequiredText (cd_name dto) ''name'')
             (\<lambda>name. bindE (create_code slug cat name (cd_code dto) (sv_inv s))
             (\<lambda>code. bindE (assertDefaultWarehouseCanBeActive (Some status) (Some isDefault))
             (\<lambda>_. Inr (name, code))))) of
        Inl e \<Rightarrow> (Inl e, s)
      | Inr (name, code) \<Rightarrow>
          (case createWarehouse (rq_gen rq) (rq_now rq) cat (rq_ownerUserId rq) name code (Some status)
                  (normalizeOptionalText (cd_address dto)) isDefault (sv_inv s) of
             Inl e \<Rightarrow> (Inl (Db_exception e), s)
           | Inr (w, db') \<Rightarrow> (Inr w, s\<lparr>sv_inv := db'\<rparr>)))"

definition opt_field :: "'a option \<Rightarrow> ('a \<Rightarrow> 'e + 'b) \<Rightarrow> 'e + 'b option" where
  "opt_field x f = (case x of None \<Rightarrow> Inr None | Some a \<Rightarrow> bindE (f a) (\<lambda>b. Inr (Some b)))"

definition update_data ::
    "(string \<Rightarrow> string) \<Rightarrow> ident \<Rightarrow> ident \<Rightarrow> update_warehouse_dto \<Rightarrow> inv_db \<Rightarrow> http_error + warehouse_data" where
  "update_data slug catalogId i dto db =
     bindE (opt_field (ud_name dto) (\<lambda>n. normalizeRequiredText n ''name''))
       (\<lambda>name. bindE (opt_field (ud_code dto) (\<lambda>c. normalizeProvidedCode slug catalogId c (Some i) db))
       (\<lambda>code. Inr \<lparr>wd_name = name, wd_code = code, wd_status = map_option (\<lambda>st. normalizeStatus (Some st)) (ud_status dto),
                     wd_address = map_option normalizeOptionalText (ud_address dto)\<rparr>))"

definition resync_and_invalidate :: "request \<Rightarrow> ident \<Rightarrow> inv_service \<Rightarrow> (http_error + unit) \<times> inv_service" where
  "resync_and_invalidate rq i s =
     (case resyncWarehouseVariantStocks (rq_catalogId rq) i (sv_inv s) of
        Inl e \<Rightarrow> (Inl (Db_exception e), s)
      | Inr (vids, db') \<Rightarrow>
          if vids = [] then (Inr (), s\<lparr>sv_inv := db'\<rparr>)
          else invalidateProductCachesForCatalogs rq [Some (rq_catalogId rq)] [] (s\<lparr>sv_inv := db'\<rparr>))"

definition service_updateWarehouse ::
    "(string \<Rightarrow> string) \<Rightarrow> request \<Rightarrow> ident \<Rightarrow> update_warehouse_dto \<Rightarrow> inv_service
     \<Rightarrow> (http_error + warehouse_view) \<times> inv_service" where
  "service_updateWarehouse slug rq i dto s =
     (let cat = rq_catalogId rq in
      case bindE (assertInternalInventoryCatalog rq cat s)
             (\<lambda>_. bindE (update_data slug cat i dto (sv_inv s))
             (\<lambda>d. bindE (guardE (wd_name d \<noteq> None \<or> wd_code d \<noteq> None \<or> wd_status d \<noteq> None \<or> wd_address d \<noteq> None \<or>
                     ud_isDefault dto \<noteq> None) (BadRequest ''No inventory warehouse fields to update''))
             (\<lambda>_. bindE (assertDefaultWarehouseCanBeActive (wd_status d) (ud_isDefault dto)) (\<lambda>_. Inr d)))) of
        Inl e \<Rightarrow> (Inl e, s)
      | Inr d \<Rightarrow>
          (case updateWarehouse cat i d (ud_isDefault dto) (sv_inv s) of
             Inl e \<Rightarrow> (Inl (Db_exception e), s)
           | Inr (None, db') \<Rightarrow> (Inl (NotFound ''Inventory warehouse not found''), s\<lparr>sv_inv := db'\<rparr>)
           | Inr (Some w, db') \<Rightarrow>
               if ud_status dto = None then (Inr w, s\<lparr>sv_inv := db'\<rparr>)
               else (case resync_and_invalidate rq i (s\<lparr>sv_inv := db'\<rparr>) of
                       (Inl e, s') \<Rightarrow> (Inl e, s') | (Inr _, s') \<Rightarrow> (Inr w, s'))))"

definition service_removeWarehouse ::
    "request \<Rightarrow> ident \<Rightarrow> inv_service \<Rightarrow> (http_error + unit) \<times> inv_service" where
  "service_removeWarehouse rq i s =
     (case assertInternalInventoryCatalog rq (rq_catalogId rq) s of
        Inl e \<Rightarrow> (Inl e, s)
      | Inr _ \<Rightarrow>
          (case softDeleteWarehouse (rq_now rq) (rq_catalogId rq) i (sv_inv s) of
             (None, db') \<Rightarrow> (Inl (NotFound ''Inventory warehouse not found''), s\<lparr>sv_inv := db'\<rparr>)
           | (Some _, db') \<Rightarrow> resync_and_invalidate rq i (s\<lparr>sv_inv := db'\<rparr>)))"


section \<open>Manual adjustment\<close>

record adjustment_dto =
  ad_variantId :: ident
  ad_quantityDelta :: int
  ad_reason :: "string option"

fun adjustment_error :: "inv_error \<Rightarrow> http_error" where
  "adjustment_error (Rejected WAREHOUSE_NOT_FOUND _) = NotFound ''Inventory warehouse not found''"
| "adjustment_error (Rejected VARIANT_NOT_FOUND _) = NotFound ''Product variant not found''"
| "adjustment_error (Rejected WAREHOUSE_DISABLED _) = BadRequest ''Inventory warehouse is disabled''"
| "adjustment_error (Rejected _ _) = BadRequest ''Insufficient stock for write-off''"
| "adjustment_error (DbError e) = Db_exception (DbError e)"

definition auditManualMovement ::
    "ident \<Rightarrow> ident \<Rightarrow> adjustment_dto \<Rightarrow> adjustment \<Rightarrow> actor_ref \<Rightarrow> inv_service \<Rightarrow> inv_service" where
  "auditManualMovement catalogId warehouseId dto result actorOrReq s =
     (let m = adj_movement result; after = quantityAfter m;
          before = map_option (\<lambda>q. q - ad_quantityDelta dto) after
      in if sv_audit_up s
         then s\<lparr>sv_audit := sv_audit s @ [\<lparr>au_actor = resolveAuditActor actorOrReq, au_movementId = m_id m,
                au_catalogId = catalogId, au_reason = normalizeOptionalText (ad_reason dto),
                au_warehouseId = warehouseId, au_variantId = ad_variantId dto, au_movementType = m_type m,
                au_source = m_source m, au_delta = ad_quantityDelta dto, au_before = before, au_after = after,
                au_variantStock = adj_variantStock result\<rparr>]\<rparr>
         else s)"

definition publishManualStockChangedEvent ::
    "request \<Rightarrow> ident \<Rightarrow> adjustment \<Rightarrow> string option \<Rightarrow> inv_service \<Rightarrow> (http_error + bool) \<times> inv_service" where
  "publishManualStockChangedEvent rq catalogId result reason s =
     (if \<not> changed (adj_change result) then (Inr False, s)
      else
        case dispatch_event (rq_gen rq) (rq_now rq)
               (stock_changed_event (rq_uuid rq 0) (rq_now rq) catalogId S_manual reason (adj_change result)) (sv_ev s) of
          (Inl e, ev) \<Rightarrow> (Inl (Dispatch_exception e), s\<lparr>sv_ev := ev\<rparr>)
        | (Inr _, ev) \<Rightarrow> (Inr True, s\<lparr>sv_ev := ev\<rparr>))"

definition adjustWarehouseStock ::
    "request \<Rightarrow> ident \<Rightarrow> adjustment_dto \<Rightarrow> actor_ref \<Rightarrow> inv_service \<Rightarrow> (http_error + adjustment) \<times> inv_service" where
  "adjustWarehouseStock rq warehouseId dto actorOrReq s =
     (let cat = rq_catalogId rq; reason = normalizeOptionalText (ad_reason dto) in
      case assertInternalInventoryCatalog rq cat s of
        Inl e \<Rightarrow> (Inl e, s)
      | Inr _ \<Rightarrow>
          (case adjustStock (rq_gen rq) (rq_now rq) cat warehouseId (ad_variantId dto) (ad_quantityDelta dto)
                  reason (resolveActorUserId actorOrReq) (sv_inv s) of
             Inl e \<Rightarrow> (Inl (adjustment_error e), s)
           | Inr (result, db') \<Rightarrow>
               let s1 = auditManualMovement cat warehouseId dto result actorOrReq (s\<lparr>sv_inv := db'\<rparr>) in
               (case publishManualStockChangedEvent rq cat result reason s1 of
                  (Inl e, s2) \<Rightarrow> (Inl e, s2)
                | (Inr True, s2) \<Rightarrow> (Inr result, s2)
                | (Inr False, s2) \<Rightarrow>
                    (case invalidateProductCachesForCatalogs rq [Some cat] [] s2 of
                       (Inl e, s3) \<Rightarrow> (Inl e, s3) | (Inr _, s3) \<Rightarrow> (Inr result, s3)))))"


section \<open>The reservation port\<close>

record tx_effects =
  fx_catalogIds :: "ident list"
  fx_events :: "domain_event list"

abbreviation CART_RESERVATION_TTL_MS :: int where "CART_RESERVATION_TTL_MS \<equiv> 30 * 60 * 1000"

fun consume_error :: "inv_error \<Rightarrow> http_error" where
  "consume_error (Rejected WAREHOUSE_NOT_FOUND _) =
     BadRequest ''Internal inventory warehouse is required to complete this order''"
| "consume_error (Rejected WAREHOUSE_AMBIGUOUS _) =
     BadRequest ''Default internal inventory warehouse is required to complete this order''"
| "consume_error (Rejected VARIANT_NOT_FOUND _) = NotFound ''Product variant not found''"
| "consume_error (Rejected _ _) = BadRequest ''Insufficient stock for completed order''"
| "consume_error (DbError e) = Db_exception (DbError e)"

fun reserve_error :: "inv_error \<Rightarrow> http_error" where
  "reserve_error (Rejected WAREHOUSE_NOT_FOUND _) =
     BadRequest ''Internal inventory warehouse is required to reserve this cart''"
| "reserve_error (Rejected WAREHOUSE_AMBIGUOUS _) =
     BadRequest ''Default internal inventory warehouse is required to reserve this cart''"
| "reserve_error (Rejected VARIANT_NOT_FOUND _) = NotFound ''Product variant not found''"
| "reserve_error (Rejected MISSING_VARIANT _) =
     BadRequest ''Internal inventory cart items must have variantId''"
| "reserve_error (Rejected _ _) = BadRequest ''Insufficient stock to reserve this cart''"
| "reserve_error (DbError e) = Db_exception (DbError e)"

definition map_error :: "('e \<Rightarrow> 'f) \<Rightarrow> 'e + 'a \<Rightarrow> 'f + 'a" where
  "map_error f r = map_sum f id r"

definition finish_tx ::
    "request \<Rightarrow> ident \<Rightarrow> ident list \<Rightarrow> domain_event list \<Rightarrow> inv_service \<Rightarrow> http_error + (tx_effects \<times> inv_service)" where
  "finish_tx rq catalogId variantIds events s =
     Inr (\<lparr>fx_catalogIds = (if variantIds = [] then [] else [catalogId]), fx_events = events\<rparr>,
          appendDomainEventsTx rq events s)"

definition consumeCompletedOrderStockTx ::
    "request \<Rightarrow> ident \<Rightarrow> ident \<Rightarrow> ident \<Rightarrow> line list \<Rightarrow> ident option \<Rightarrow> inv_service
     \<Rightarrow> http_error + (tx_effects \<times> inv_service)" where
  "consumeCompletedOrderStockTx rq catalogId cartId orderId lines actor s =
     bindE (assertInternalInventoryCatalog rq catalogId s)
       (\<lambda>_. bindE (map_error consume_error
              (consumeCompletedOrderStock (rq_gen rq) (rq_now rq) catalogId cartId orderId lines actor (sv_inv s)))
       (\<lambda>(result, db'). finish_tx rq catalogId (con_variantIds result)
          (buildStockChangedEvents rq catalogId (con_changes result) S_order ''completed_order_stock_consume'')
          (s\<lparr>sv_inv := db'\<rparr>)))"

definition reserveCartStockTx ::
    "request \<Rightarrow> ident \<Rightarrow> ident \<Rightarrow> line list \<Rightarrow> ident option \<Rightarrow> inv_service
     \<Rightarrow> http_error + (tx_effects \<times> inv_service)" where
  "reserveCartStockTx rq catalogId cartId lines actor s =
     bindE (assertInternalInventoryCatalog rq catalogId s)
       (\<lambda>_. bindE (map_error reserve_error
              (reserveCartStock (rq_gen rq) (rq_now rq) catalogId cartId lines
                (rq_now rq + CART_RESERVATION_TTL_MS) actor (sv_inv s)))
       (\<lambda>(result, db'). finish_tx rq catalogId (res_variantIds result)
          (buildStockChangedEvents rq catalogId (res_changes result) S_cart ''cart_reservation'')
          (s\<lparr>sv_inv := db'\<rparr>)))"

definition releaseCartReservationsTx ::
    "request \<Rightarrow> ident option \<Rightarrow> ident \<Rightarrow> string \<Rightarrow> ident option \<Rightarrow> inv_service
     \<Rightarrow> http_error + ((release_result \<times> domain_event list) \<times> inv_service)" where
  "releaseCartReservationsTx rq catalogId cartId reason actor s =
     bindE (map_error Db_exception
              (releaseCartReservations (rq_gen rq) (rq_now rq) catalogId cartId reason actor (sv_inv s)))
       (\<lambda>(result, db').
          let events = (case catalogId of
                None \<Rightarrow> []
              | Some cat \<Rightarrow> if cat = [] then []
                  else buildStockChangedEvents rq cat (rel_changes result) S_cart ''cart_reservation_release'')
          in Inr ((result, events), appendDomainEventsTx rq events (s\<lparr>sv_inv := db'\<rparr>)))"

text \<open>The scheduled release of up to 100 expired reservations, each in its own transaction.\<close>

definition service_releaseExpiredReservations ::
    "request \<Rightarrow> inv_service \<Rightarrow> (http_error + release_result) \<times> inv_service" where
  "service_releaseExpiredReservations rq s =
     (case releaseExpiredReservations (rq_gen rq) (rq_now rq) 100 (sv_inv s) of
        (Inl e, db') \<Rightarrow> (Inl (Db_exception e), s\<lparr>sv_inv := db'\<rparr>)
      | (Inr result, db') \<Rightarrow>
          (case invalidateProductCachesForCatalogs rq (map Some (rel_catalogIds result))
                  (buildStockChangedEventsByCatalog rq (rel_changes result) S_system ''expired_reservation_release'')
                  (s\<lparr>sv_inv := db'\<rparr>) of
             (Inl e, s') \<Rightarrow> (Inl e, s') | (Inr _, s') \<Rightarrow> (Inr result, s')))"

end
