(* ===== verification/Stock_Tracking.thy ===== *)
theory Stock_Tracking
  imports Inventory_Read_Model
begin

text \<open>
  The stock changes an operation returns describe what it did to the shown stock.  \<open>tracked db cs
  db'\<close> says it of a list of changes; the list is built by concatenation along the operation and
  compacted per variant, and both keep the relation.
\<close>


section \<open>Compaction\<close>

definition stock_of :: "inv_db \<Rightarrow> ident \<Rightarrow> int option" where
  "stock_of db v = Option.bind (variant_by_id db v) v_stock"

definition change_ok :: "stock_change \<Rightarrow> bool" where
  "change_ok c \<longleftrightarrow> changed c = (previousStock c \<noteq> Some (nextStock c))"

definition changes_of :: "ident \<Rightarrow> stock_change list \<Rightarrow> stock_change list" where
  "changes_of v cs = filter (\<lambda>c. changed c \<and> sc_variantId c = v) cs"

text \<open>The change that spans a run of changes of one variant.\<close>

definition span_of :: "stock_change list \<Rightarrow> stock_change" where
  "span_of cs = (last cs)\<lparr>previousStock := previousStock (hd cs),
     changed := (previousStock (hd cs) \<noteq> Some (nextStock (last cs)))\<rparr>"

lemma changes_of_append [simp]: "changes_of v (xs @ ys) = changes_of v xs @ changes_of v ys"
  by (simp add: changes_of_def)

lemma changes_of_Nil [simp]: "changes_of v [] = []"
  by (simp add: changes_of_def)

lemma span_single: "change_ok c \<Longrightarrow> span_of [c] = c"
  by (simp add: span_of_def change_ok_def)

lemma compact_step_get:
  "map_get (compact_step m c) v =
    (if changed c \<and> sc_variantId c = v
     then Some (case map_get m v of None \<Rightarrow> c
       | Some e \<Rightarrow> c\<lparr>previousStock := previousStock e, changed := (previousStock e \<noteq> Some (nextStock c))\<rparr>)
     else map_get m v)"
  by (auto simp: compact_step_def map_get_set split: option.splits)

lemma compact_get:
  assumes "list_all change_ok cs"
  shows "map_get (foldl compact_step [] cs) v =
    (if changes_of v cs = [] then None else Some (span_of (changes_of v cs)))"
  using assms
proof (induction cs rule: rev_induct)
  case (snoc c cs)
  let ?m = "foldl compact_step [] cs"
  have IH: "map_get ?m v = (if changes_of v cs = [] then None else Some (span_of (changes_of v cs)))"
    using snoc by simp
  show ?case
  proof (cases "changed c \<and> sc_variantId c = v")
    case True
    then have "changes_of v (cs @ [c]) = changes_of v cs @ [c]" by (simp add: changes_of_def)
    with True IH snoc.prems show ?thesis
      by (cases "changes_of v cs = []") (simp_all add: compact_step_get span_single, simp add: span_of_def)
  next
    case False
    then have "changes_of v (cs @ [c]) = changes_of v cs" by (simp add: changes_of_def)
    with False IH show ?thesis by (auto simp: compact_step_get)
  qed
qed (simp add: map_get_def)

definition keyed :: "(ident \<times> stock_change) list \<Rightarrow> bool" where
  "keyed m \<longleftrightarrow> distinct (map fst m) \<and> list_all (\<lambda>p. sc_variantId (snd p) = fst p) m"

lemma keyed_set: "keyed m \<Longrightarrow> keyed (map_set (sc_variantId c) c m)"
proof -
  have "list_all (\<lambda>p. sc_variantId (snd p) = fst p) (map_set (sc_variantId c) c m)"
    if "list_all (\<lambda>p. sc_variantId (snd p) = fst p) m"
    using that by (induction m) auto
  then show "keyed m \<Longrightarrow> ?thesis" by (simp add: keyed_def distinct_map_set)
qed

lemma keyed_step: "keyed m \<Longrightarrow> keyed (compact_step m c)"
  using keyed_set [of m c] keyed_set [of m "c\<lparr>previousStock := p, changed := b\<rparr>" for p b]
  by (auto simp: compact_step_def split: option.splits)

lemma compact_keyed: "keyed (foldl compact_step [] cs)"
  by (induction cs rule: rev_induct) (simp_all add: keyed_step, simp add: keyed_def)

lemma values_with_key:
  assumes "keyed m"
  shows "filter (\<lambda>c. sc_variantId c = v) (map snd m) = (case map_get m v of None \<Rightarrow> [] | Some c \<Rightarrow> [c])"
  using assms
proof (induction m)
  case (Cons p m)
  obtain k c where p: "p = (k, c)" by (cases p)
  have none: "filter (\<lambda>c. sc_variantId c = v) (map snd m) = []" if "v = k"
    using Cons.prems p that by (force simp: filter_empty_conv keyed_def list_all_iff)
  from Cons p have "filter (\<lambda>c. sc_variantId c = v) (map snd m) = (case map_get m v of None \<Rightarrow> [] | Some c \<Rightarrow> [c])"
    by (simp add: keyed_def)
  with none p Cons.prems show ?case by (auto simp: map_get_def keyed_def)
qed (simp add: map_get_def)

text \<open>Compaction leaves one change per variant whose stock is not back where it started.\<close>

lemma changes_of_compact:
  assumes "list_all change_ok cs"
  shows "changes_of v (compactStockChanges cs) =
    (let r = changes_of v cs in if r = [] \<or> previousStock (hd r) = Some (nextStock (last r)) then [] else [span_of r])"
proof -
  let ?m = "foldl compact_step [] cs"
  have "changes_of v (compactStockChanges cs) = filter changed (filter (\<lambda>c. sc_variantId c = v) (map snd ?m))"
    by (simp add: changes_of_def compactStockChanges_def conj_commute)
  also have "filter (\<lambda>c. sc_variantId c = v) (map snd ?m) = (case map_get ?m v of None \<Rightarrow> [] | Some c \<Rightarrow> [c])"
    by (rule values_with_key [OF compact_keyed])
  finally show ?thesis
    by (simp add: compact_get [OF assms] Let_def) (auto simp: span_of_def)
qed

lemma compact_change_ok:
  assumes "list_all change_ok cs"
  shows "list_all change_ok (compactStockChanges cs)"
proof -
  have "change_ok c" if "c \<in> set (compactStockChanges cs)" for c
  proof -
    from that have "c \<in> set (changes_of (sc_variantId c) (compactStockChanges cs))"
      by (auto simp: changes_of_def compactStockChanges_def)
    then have "c = span_of (changes_of (sc_variantId c) cs)"
      unfolding changes_of_compact [OF assms] by (simp add: Let_def split: if_splits)
    moreover have "change_ok (span_of r)" for r by (simp add: change_ok_def span_of_def)
    ultimately show ?thesis by metis
  qed
  then show ?thesis by (simp add: list_all_iff)
qed


section \<open>Tracking\<close>

definition tracks_at :: "ident \<Rightarrow> inv_db \<Rightarrow> stock_change list \<Rightarrow> inv_db \<Rightarrow> bool" where
  "tracks_at v db cs db' \<longleftrightarrow>
     (let r = changes_of v cs in
      if r = [] then stock_of db' v = stock_of db v
      else previousStock (hd r) = stock_of db v \<and> Some (nextStock (last r)) = stock_of db' v)"

definition tracked :: "inv_db \<Rightarrow> stock_change list \<Rightarrow> inv_db \<Rightarrow> bool" where
  "tracked db cs db' \<longleftrightarrow> list_all change_ok cs \<and> (\<forall>v. tracks_at v db cs db')"

lemma tracked_refl [simp]: "tracked db [] db"
  by (simp add: tracked_def tracks_at_def)

lemma stock_of_cong: "variants db' = variants db \<Longrightarrow> stock_of db' v = stock_of db v"
  by (simp add: stock_of_def variant_by_id_def)

lemma tracked_same: "tracked db cs db1 \<Longrightarrow> variants db2 = variants db1 \<Longrightarrow> tracked db cs db2"
  using stock_of_cong [of db2 db1] unfolding tracked_def tracks_at_def by presburger

lemma tracked_append: "tracked a cs b \<Longrightarrow> tracked b ds c \<Longrightarrow> tracked a (cs @ ds) c"
proof -
  assume ab: "tracked a cs b" and bc: "tracked b ds c"
  have "tracks_at v a (cs @ ds) c" for v
  proof -
    from ab bc have "tracks_at v a cs b" "tracks_at v b ds c" by (auto simp: tracked_def)
    then show ?thesis
      by (cases "changes_of v cs = []"; cases "changes_of v ds = []") (auto simp: tracks_at_def Let_def)
  qed
  with ab bc show ?thesis by (simp add: tracked_def)
qed

lemma tracked_compact: "tracked db cs db' \<Longrightarrow> tracked db (compactStockChanges cs) db'"
proof -
  assume t: "tracked db cs db'"
  then have ok: "list_all change_ok cs" by (simp add: tracked_def)
  have "tracks_at v db (compactStockChanges cs) db'" for v
  proof -
    from t have "tracks_at v db cs db'" by (simp add: tracked_def)
    then show ?thesis
      by (auto simp: tracks_at_def changes_of_compact [OF ok] Let_def span_of_def split: if_splits)
  qed
  with compact_change_ok [OF ok] show ?thesis by (simp add: tracked_def)
qed

lemma tracked_relabel:
  assumes "tracked db cs db'"
  shows "tracked db (map (\<lambda>c. c\<lparr>sc_catalogId := f c\<rparr>) cs) db'"
proof -
  let ?g = "\<lambda>c. c\<lparr>sc_catalogId := f c\<rparr>"
  have m: "changes_of v (map ?g cs) = map ?g (changes_of v cs)" for v
    by (simp add: changes_of_def filter_map comp_def)
  have "list_all change_ok (map ?g cs) = list_all change_ok cs"
    by (simp add: list_all_iff change_ok_def)
  with assms show ?thesis
    by (auto simp: tracked_def tracks_at_def Let_def m hd_map last_map)
qed

definition reported :: "stock_change \<Rightarrow> stock_change list" where
  "reported c = (if changed c then [c] else [])"

lemma sync_tracked:
  assumes "syncVariantStockReadModel v db = Inr (c, db')"
  shows "tracked db (reported c) db'"
proof -
  note db' = sync_Inr(1) [OF assms]
  have c: "sc_variantId c = v" "previousStock c = stock_of db v" "change_ok c"
    and v: "variant_by_id db v \<noteq> None" and n: "nextStock c = max 0 (available_total db v)"
    using assms by (auto simp: syncVariantStockReadModel_def Let_def stock_of_def change_ok_def split: if_splits)
  have find: "List.find (\<lambda>x. v_id x = u) (update_where (\<lambda>x. v_id x = v) (\<lambda>x. x\<lparr>v_stock := Some q\<rparr>) xs) =
      map_option (\<lambda>x. if v_id x = v then x\<lparr>v_stock := Some q\<rparr> else x) (List.find (\<lambda>x. v_id x = u) xs)" for u q xs
    by (induction xs) (auto simp: table_simps)
  have other: "stock_of db' u = stock_of db u" if "u \<noteq> v" for u
    using that by (cases "List.find (\<lambda>x. v_id x = u) (variants db)")
      (auto simp: db' stock_of_def variant_by_id_def find dest: find_Some_iff_mem)
  have self: "stock_of db' v = Some (nextStock c)"
    using v n by (auto simp: db' stock_of_def variant_by_id_def find dest: find_Some_iff_mem)
  have "tracks_at u db (reported c) db'" for u
    using c other [of u] self by (cases "u = v") (auto simp: tracks_at_def changes_of_def Let_def change_ok_def reported_def)
  with c(3) show ?thesis by (simp add: tracked_def reported_def)
qed

text \<open>The step of every loop: writes outside the variants, then one resynchronisation.\<close>

lemma tracked_sync:
  assumes "tracked db cs db1" "variants db2 = variants db1" "syncVariantStockReadModel v db2 = Inr (c, db3)"
  shows "tracked db (cs @ reported c) db3"
  using tracked_append [OF tracked_same [OF assms(1,2)] sync_tracked [OF assms(3)]] .

end
