(* ===== verification/Stock_Reporting.thy ===== *)
theory Stock_Reporting
  imports Stock_Tracking
begin

text \<open>
  Every stock operation of the repository reports its effect on the shown stock: the changes it
  returns are tracked.
\<close>

section \<open>Writes that leave the variants alone\<close>

lemma releaseReserved_variants [simp]: "variants (snd (releaseReservedQuantity now w v q db)) = variants db"
  by (simp add: releaseReservedQuantity_def Let_def split: option.splits)

lemma move_reserved_variants: "move_reserved now w v d db = Inr db' \<Longrightarrow> variants db' = variants db"
  by (auto simp: move_reserved_def take_available_def Let_def split: if_splits)

lemma write_reservation_variants:
  "write_reservation gen now ex w v q c i t k db = Inr (rid, db') \<Longrightarrow> variants db' = variants db"
  by (auto simp: write_reservation_def dest: update_reservation_Inr create_reservation_Inr split: option.splits)

lemma reserve_movement_variants:
  "record_reserve_movement gen w v c actor d rid db = Inr db' \<Longrightarrow> variants db' = variants db"
  by (auto simp: record_reserve_movement_def dest: create_movement_Inr(1) split: if_splits)

lemma consumeBalance_variants: "consumeStockBalance now w v q r d db = Inr (a, db') \<Longrightarrow> variants db' = variants db"
  by (auto simp: consumeStockBalance_def Let_def split: option.splits if_splits)

lemma saleMovement_variants: "createSaleMovement gen w v q a r ord c actor k db = Inr db' \<Longrightarrow> variants db' = variants db"
  by (auto simp: createSaleMovement_def dest: create_movement_Inr(1))

lemma consume_reservation_variants:
  "consume_reservation gen now ord c i v k (ids, db) x = Inr (ids', db') \<Longrightarrow> variants db' = variants db"
  by (drule consume_reservation_same) (simp add: same_tables_def)

lemma consume_group_variants:
  "consume_group gen now ord c v actor k ids (a, db) g = Inr (a', db') \<Longrightarrow> variants db' = variants db"
  by (auto simp: consume_group_def dest!: consumeBalance_variants saleMovement_variants split: prod.splits)

lemma consume_direct_variants:
  "consume_direct gen now ord c i v actor k w rem (a, db) = Inr (f, db') \<Longrightarrow> variants db' = variants db"
  by (auto simp: consume_direct_def dest!: create_reservation_Inr(1) consumeBalance_variants saleMovement_variants
      split: prod.splits)

lemma foldE_variants:
  assumes "foldE f (acc, db) xs = Inr (acc', db')"
    and "\<And>a d x a' d'. f (a, d) x = Inr (a', d') \<Longrightarrow> variants d' = variants d"
  shows "variants db' = variants db"
proof -
  have "(\<lambda>s s'. variants (snd s') = variants (snd s)) (acc, db) (acc', db')"
    by (rule foldE_rel [OF assms(1)]) (auto dest: assms(2))
  then show ?thesis by simp
qed


section \<open>Operations\<close>

lemma releaseActive_sync:
  assumes "releaseActiveReservation gen now st src reason actor k r db = Inr (out, db')"
  obtains (none) "out = None" "db' = db"
  | (sync) c db1 where "out = Some c" "variants db1 = variants db" "syncVariantStockReadModel (r_variantId r) db1 = Inr (c, db')"
proof (cases "count_where (\<lambda>x. r_id x = r_id r \<and> r_status x = R_ACTIVE) (reservations db) \<noteq> 1")
  case True
  with assms(1) none show thesis by (auto simp: releaseActiveReservation_def Let_def)
next
  case False
  let ?db1 = "db\<lparr>reservations := update_where (\<lambda>x. r_id x = r_id r \<and> r_status x = R_ACTIVE)
      (\<lambda>x. x\<lparr>r_status := st, r_releasedAt := Some now\<rparr>) (reservations db)\<rparr>"
  obtain onHand db2 where rel:
    "releaseReservedQuantity now (r_warehouseId r) (r_variantId r) (r_quantity r) ?db1 = (onHand, db2)"
    by (cases "releaseReservedQuantity now (r_warehouseId r) (r_variantId r) (r_quantity r) ?db1")
  have v2: "variants db2 = variants db"
    using releaseReserved_variants [of now "r_warehouseId r" "r_variantId r" "r_quantity r" ?db1] rel by simp
  from assms False obtain c db3 where c: "out = Some c" "db3 = db2 \<or> (\<exists>m. db3 = db2\<lparr>movements := movements db2 @ [m]\<rparr>)"
    "syncVariantStockReadModel (r_variantId r) db3 = Inr (c, db')"
    by (auto simp: releaseActiveReservation_def Let_def rel split: if_splits dest!: create_movement_Inr(1))
  from c(2) v2 have "variants db3 = variants db" by auto
  with c(1,3) sync show thesis by blast
qed

definition reported_opt :: "stock_change option \<Rightarrow> stock_change list" where
  "reported_opt out = (case out of None \<Rightarrow> [] | Some c \<Rightarrow> if changed c then [c] else [])"

lemma reported_opt_simps [simp]: "reported_opt None = []" "reported_opt (Some c) = reported c"
  by (simp_all add: reported_opt_def reported_def)

lemma releaseActive_tracked:
  assumes "releaseActiveReservation gen now st src reason actor k r db = Inr (out, db')" "tracked db0 cs db"
  shows "tracked db0 (cs @ reported_opt out) db'"
  using assms(1) by (cases rule: releaseActive_sync) (use assms(2) in \<open>auto intro: tracked_sync\<close>)

text \<open>The loops keep the changes in the third component of their accumulator.\<close>

lemma tracked_loop:
  assumes "foldE f ((n, vids, cs), db) xs = Inr ((n', vids', cs'), db')" "tracked db0 cs db"
    and "\<And>n vids cs db x n' vids' cs' db'. x \<in> set xs \<Longrightarrow> f ((n, vids, cs), db) x = Inr ((n', vids', cs'), db') \<Longrightarrow>
      tracked db0 cs db \<Longrightarrow> tracked db0 cs' db'"
  shows "tracked db0 cs' db'"
proof -
  let ?I = "\<lambda>((n, vids, cs), db). tracked db0 cs db"
  have "?I ((n', vids', cs'), db')"
    by (rule foldE_invariant [OF assms(1), of ?I]) (use assms(2,3) in \<open>auto split: prod.splits\<close>)
  then show ?thesis by simp
qed

lemma release_one_tracked:
  "release_one gen now reason actor ((n, vids, cs), db) r = Inr ((n', vids', cs'), db') \<Longrightarrow>
   tracked db0 cs db \<Longrightarrow> tracked db0 cs' db'"
  by (auto simp: release_one_def reported_opt_def split: option.splits dest!: releaseActive_tracked)

lemma release_unwanted_tracked:
  "release_unwanted gen now ks actor ((n, vids, cs), db) r = Inr ((n', vids', cs'), db') \<Longrightarrow>
   tracked db0 cs db \<Longrightarrow> tracked db0 cs' db'"
  by (auto simp: release_unwanted_def split: option.splits if_splits intro: release_one_tracked)

lemma releaseCart_tracked:
  assumes "releaseCartReservations gen now cat cart reason actor db = Inr (res, db')"
  shows "tracked db (rel_changes res) db'"
proof -
  from assms obtain n vids cs where f: "foldE (release_one gen now reason actor) ((0, [], []), db)
      (active_cart_reservations db cart) = Inr ((n, vids, cs), db')"
    and res: "rel_changes res = map (\<lambda>c. c\<lparr>sc_catalogId := (case cat of None \<Rightarrow> sc_catalogId c | Some cid \<Rightarrow> Some cid)\<rparr>)
      (compactStockChanges cs)"
    by (auto simp: releaseCartReservations_def)
  have "tracked db cs db'" using f tracked_refl by (rule tracked_loop) (rule release_one_tracked)
  then show ?thesis unfolding res by (intro tracked_relabel tracked_compact)
qed

lemma reserveLine_tracked:
  assumes "reserveCartLine gen now cat cart w i v q t actor db = Inr ((b, lcs), db')" "tracked db0 cs db"
  shows "tracked db0 (cs @ lcs) db'"
proof -
  let ?ex = "List.find (\<lambda>r. r_key r = Some (buildCartReservationIdempotencyKey cart i v)) (reservations db)"
  let ?d = "q - kept_quantity w ?ex"
  from assms(1) obtain out db1 db2 rid db3 db4 where
    rel: "release_moved gen now w actor ?ex db = Inr (out, db1)"
    and mv: "move_reserved now w v ?d db1 = Inr db2"
    and wr: "write_reservation gen now ?ex w v q cart i t (buildCartReservationIdempotencyKey cart i v) db2 = Inr (rid, db3)"
    and rm: "record_reserve_movement gen w v cart actor ?d rid db3 = Inr db4"
    and fin: "(out = None \<and> ?d = 0 \<and> lcs = compactStockChanges [] \<and> db' = db4) \<or>
      (\<exists>c. syncVariantStockReadModel v db4 = Inr (c, db') \<and>
        lcs = compactStockChanges (reported_opt out @ reported c))"
    by (auto simp: reserveCartLine_def Let_def reported_def [symmetric] reported_opt_def [symmetric] split: if_splits)
  have "tracked db (reported_opt out) db1"
    using rel releaseActive_tracked [OF _ tracked_refl, of gen now _ _ _ actor _ _ db out db1]
    by (auto simp: release_moved_def split: option.splits if_splits)
  moreover have v4: "variants db4 = variants db1"
    using move_reserved_variants [OF mv] write_reservation_variants [OF wr] reserve_movement_variants [OF rm] by simp
  ultimately have "tracked db lcs db'"
    using fin
    by (auto intro!: tracked_compact intro: tracked_sync [OF _ v4] tracked_same [OF _ v4] simp: tracked_same [OF _ v4])
  then show ?thesis using assms(2) by (rule tracked_append [rotated])
qed

lemma reserve_line_tracked:
  "reserve_line gen now cat cart w t actor ((n, vids, cs), db) l = Inr ((n', vids', cs'), db') \<Longrightarrow>
   tracked db0 cs db \<Longrightarrow> tracked db0 cs' db'"
  by (auto simp: reserve_line_def split: option.splits dest: reserveLine_tracked)

lemma reserveCart_tracked:
  assumes "reserveCartStock gen now cat cart ls t actor db = Inr (res, db')"
  shows "tracked db (res_changes res) db'"
proof (cases "filter (\<lambda>l. l_quantity l > 0) ls = []")
  case True
  with assms show ?thesis by (auto simp: reserveCartStock_def dest: releaseCart_tracked)
next
  case False
  with assms obtain w rel vids cs db1 n vids' cs' where
    r: "foldE (release_unwanted gen now (desired_keys cart (filter (\<lambda>l. l_quantity l > 0) ls)) actor)
       ((0, [], []), db) (active_cart_reservations db cart) = Inr ((rel, vids, cs), db1)"
    and f: "foldE (reserve_line gen now cat cart w t actor) ((0, vids, cs), db1)
       (filter (\<lambda>l. l_quantity l > 0) ls) = Inr ((n, vids', cs'), db')"
    and res: "res_changes res = compactStockChanges cs'"
    by (auto simp: reserveCartStock_def Let_def split: sum.splits if_splits)
  have "tracked db cs db1" using r tracked_refl by (rule tracked_loop) (rule release_unwanted_tracked)
  with f have "tracked db cs' db'" by (rule tracked_loop) (rule reserve_line_tracked)
  then show ?thesis unfolding res by (rule tracked_compact)
qed

lemma consumeLine_tracked:
  assumes "consumeCompletedOrderLine gen now cat c ord i v q actor db = Inr (out, db')" "tracked db0 cs db"
  shows "tracked db0 (cs @ reported_opt (snd out)) db'"
proof (cases "\<exists>m\<in>set (movements db). m_key m = Some (buildSaleIdempotencyKey ord i)")
  case True
  with assms show ?thesis by (auto simp: consumeCompletedOrderLine_def Let_def)
next
  case False
  then have "\<forall>m\<in>set (movements db). m_key m \<noteq> Some (buildSaleIdempotencyKey ord i)" by blast
  with assms(1) show ?thesis
  proof (cases rule: consume_line_Inr)
    case (1 used gs remaining direct ids db1 n first db2 first' db3 ch)
    have "variants db1 = variants db" using 1(3) by (rule foldE_variants) (rule consume_reservation_variants)
    moreover have "variants db2 = variants db1" using 1(4) by (rule foldE_variants) (rule consume_group_variants)
    moreover have "variants db3 = variants db2"
      using 1(5) by (auto split: option.splits dest: consume_direct_variants)
    ultimately have "variants db3 = variants db" by simp
    with assms(2) have "tracked db0 (cs @ reported ch) db'" using 1(6) by (rule tracked_sync)
    with 1(7) show ?thesis by simp
  qed
qed

lemma append_reported_opt:
  "(case out of None \<Rightarrow> cs | Some c \<Rightarrow> if changed c then cs @ [c] else cs) = cs @ reported_opt out"
  by (simp add: reported_opt_def split: option.split)

lemma consume_line_tracked:
  assumes "consume_line gen now cat c ord actor ((w, vids, cs), db) l = Inr ((w', vids', cs'), db')" "tracked db0 cs db"
  shows "tracked db0 cs' db'"
proof (cases "l_variantId l")
  case None
  with assms show ?thesis by (simp add: consume_line_def)
next
  case (Some v)
  with assms(1) obtain out where
    o: "consumeCompletedOrderLine gen now cat c ord (l_cartItemId l) v (l_quantity l) actor db = Inr (out, db')"
    and cs: "cs' = cs @ reported_opt (snd out)"
    by (auto simp: consume_line_def append_reported_opt)
  show ?thesis unfolding cs using o assms(2) by (rule consumeLine_tracked)
qed

lemma consumeOrder_tracked:
  assumes "consumeCompletedOrderStock gen now cat c ord ls actor db = Inr (res, db')"
  shows "tracked db (con_changes res) db'"
proof -
  from assms obtain w vids cs where f: "foldE (consume_line gen now cat c ord actor) ((None, [], []), db)
      (filter (\<lambda>l. has_variant l \<and> l_quantity l > 0) ls) = Inr ((w, vids, cs), db')"
    and res: "con_changes res = compactStockChanges cs"
    by (auto simp: consumeCompletedOrderStock_def Let_def)
  have "tracked db cs db'" using f tracked_refl by (rule tracked_loop) (rule consume_line_tracked)
  then show ?thesis unfolding res by (rule tracked_compact)
qed

end
