(* ===== verification/Service_Properties.thy ===== *)
theory Service_Properties
  imports Inventory_Service Stock_Reporting
begin

text \<open>
  Properties of the inventory service: the stock events of a transaction describe exactly what it
  did to the shown stock, no method acts without the capability and the mode, generated codes are
  free, and histories of service calls keep the invariants of the tables and of the outbox.
\<close>


section \<open>Stock reports\<close>

text \<open>The old and new stock that a list of events reports for a variant.\<close>

definition stock_reports :: "ident \<Rightarrow> domain_event list \<Rightarrow> (int option \<times> int option) list" where
  "stock_reports v es = List.map_filter (\<lambda>e. case e_body e of
       Variant_stock_changed c \<Rightarrow> if vc_variantId c = v then Some (vc_previous c, vc_next c) else None
     | _ \<Rightarrow> None) es"

lemma stock_reports_Nil [simp]: "stock_reports v [] = []"
  by (simp add: stock_reports_def)

lemma stock_reports_Cons [simp]:
  "stock_reports v (stock_changed_event u t cat src reason c # es) =
     (if sc_variantId c = v then [(previousStock c, Some (nextStock c))] else []) @ stock_reports v es"
  by (simp add: stock_reports_def stock_changed_event_def createDomainEvent_def)

lemma stock_reports_build:
  assumes "list_all changed cs"
  shows "stock_reports v (map (\<lambda>(k, c). stock_changed_event (uuid k) t cat src reason c) (enumerate n cs)) =
    map (\<lambda>c. (previousStock c, Some (nextStock c))) (changes_of v cs)"
  using assms
proof (induction cs arbitrary: n)
  case (Cons c cs)
  then show ?case by (simp add: changes_of_def)
qed simp

lemma compacted_changed: "list_all changed (compactInventoryStockChanges cs)"
  by (simp add: compactInventoryStockChanges_def list_all_iff)

lemma compact_same: "compactInventoryStockChanges cs = compactStockChanges cs"
  by (simp add: compactInventoryStockChanges_def compactStockChanges_def)

text \<open>
  The interface between the repository and the service: an operation returns the changes that
  account for the stock it changed.
\<close>

locale stock_reporting =
  fixes run :: "inv_db \<Rightarrow> 'e + (stock_change list \<times> inv_db)"
  assumes reports: "run db = Inr (cs, db') \<Longrightarrow> tracked db cs db'"
begin

lemma events_exact:
  assumes "run db = Inr (cs, db')"
  shows "stock_reports v (buildStockChangedEvents rq cat cs src reason) =
    (if stock_of db v = stock_of db' v then [] else [(stock_of db v, stock_of db' v)])"
proof -
  have t: "tracks_at v db cs db'" and ok: "list_all change_ok cs"
    using reports [OF assms] by (auto simp: tracked_def)
  have "stock_reports v (buildStockChangedEvents rq cat cs src reason) =
      map (\<lambda>c. (previousStock c, Some (nextStock c))) (changes_of v (compactStockChanges cs))"
    unfolding buildStockChangedEvents_def
    by (subst stock_reports_build [OF compacted_changed]) (simp add: compact_same)
  with t show ?thesis
    by (auto simp: changes_of_compact [OF ok] tracks_at_def Let_def span_of_def split: if_splits)
qed

end

interpretation reserve: stock_reporting
  "\<lambda>db. bindE (reserveCartStock gen now cat cart ls t actor db) (\<lambda>(r, db'). Inr (res_changes r, db'))"
  for gen now cat cart ls t actor
  by unfold_locales (auto dest: reserveCart_tracked)

interpretation release: stock_reporting
  "\<lambda>db. bindE (releaseCartReservations gen now cat cart reason actor db) (\<lambda>(r, db'). Inr (rel_changes r, db'))"
  for gen now cat cart reason actor
  by unfold_locales (auto dest: releaseCart_tracked)

interpretation consume: stock_reporting
  "\<lambda>db. bindE (consumeCompletedOrderStock gen now cat cart ord ls actor db) (\<lambda>(r, db'). Inr (con_changes r, db'))"
  for gen now cat cart ord ls actor
  by unfold_locales (auto dest: consumeOrder_tracked)


section \<open>The methods of the reservation port\<close>

datatype port_op =
    P_reserve ident ident "line list" "ident option"
  | P_release ident ident string "ident option"
  | P_consume ident ident ident "line list" "ident option"

fun port_catalog :: "port_op \<Rightarrow> ident" where
  "port_catalog (P_reserve cat _ _ _) = cat"
| "port_catalog (P_release cat _ _ _) = cat"
| "port_catalog (P_consume cat _ _ _ _) = cat"

fun run_port :: "request \<Rightarrow> port_op \<Rightarrow> inv_service \<Rightarrow> http_error + (domain_event list \<times> inv_service)" where
  "run_port rq (P_reserve cat cart ls actor) s =
     bindE (reserveCartStockTx rq cat cart ls actor s) (\<lambda>(fx, s'). Inr (fx_events fx, s'))"
| "run_port rq (P_release cat cart reason actor) s =
     bindE (releaseCartReservationsTx rq (Some cat) cart reason actor s) (\<lambda>((_, es), s'). Inr (es, s'))"
| "run_port rq (P_consume cat cart ord ls actor) s =
     bindE (consumeCompletedOrderStockTx rq cat cart ord ls actor s) (\<lambda>(fx, s'). Inr (fx_events fx, s'))"

lemma map_error_Inr [simp]: "map_error f r = Inr x \<longleftrightarrow> r = Inr x"
  by (cases r) (simp_all add: map_error_def)

lemma append_none [simp]: "appendWithClient gen now [] rows = rows"
  by (simp add: appendWithClient_def)

lemma appendTx_fields [simp]:
  "sv_inv (appendDomainEventsTx rq es s) = sv_inv s"
  "ev_rows (sv_ev (appendDomainEventsTx rq es s)) = appendWithClient (rq_gen rq) (rq_now rq) es (ev_rows (sv_ev s))"
  "ev_bus (sv_ev (appendDomainEventsTx rq es s)) = ev_bus (sv_ev s)"
  "ev_world (sv_ev (appendDomainEventsTx rq es s)) = ev_world (sv_ev s)"
  by (simp_all add: appendDomainEventsTx_def)

lemma built_events_catalog:
  "list_all (\<lambda>e. e_catalogId (e_meta e) = cat) (buildStockChangedEvents rq cat cs src reason)"
  by (auto simp: buildStockChangedEvents_def list_all_iff stock_changed_event_def createDomainEvent_def)

lemma run_port_effect:
  assumes "run_port rq op s = Inr (es, s')" "port_catalog op \<noteq> []"
  shows "stock_reports v es = (if stock_of (sv_inv s) v = stock_of (sv_inv s') v then []
      else [(stock_of (sv_inv s) v, stock_of (sv_inv s') v)]) \<and>
    list_all (\<lambda>e. e_catalogId (e_meta e) = port_catalog op) es \<and>
    s' = appendDomainEventsTx rq es (s\<lparr>sv_inv := sv_inv s'\<rparr>)"
proof (cases op)
  case (P_reserve cat cart ls actor)
  with assms obtain r db' where
    r: "reserveCartStock (rq_gen rq) (rq_now rq) cat cart ls (rq_now rq + CART_RESERVATION_TTL_MS) actor (sv_inv s) = Inr (r, db')"
    and es: "es = buildStockChangedEvents rq cat (res_changes r) S_cart ''cart_reservation''"
    and s': "s' = appendDomainEventsTx rq es (s\<lparr>sv_inv := db'\<rparr>)"
    by (auto simp: reserveCartStockTx_def finish_tx_def)
  have "bindE (reserveCartStock (rq_gen rq) (rq_now rq) cat cart ls (rq_now rq + CART_RESERVATION_TTL_MS) actor (sv_inv s))
      (\<lambda>(r, db'). Inr (res_changes r, db')) = Inr (res_changes r, db')" unfolding r by simp
  from reserve.events_exact [OF this] s' P_reserve show ?thesis unfolding es by (simp add: built_events_catalog)
next
  case (P_release cat cart reason actor)
  with assms obtain r db' where
    r: "releaseCartReservations (rq_gen rq) (rq_now rq) (Some cat) cart reason actor (sv_inv s) = Inr (r, db')"
    and es: "es = buildStockChangedEvents rq cat (rel_changes r) S_cart ''cart_reservation_release''"
    and s': "s' = appendDomainEventsTx rq es (s\<lparr>sv_inv := db'\<rparr>)"
    by (auto simp: releaseCartReservationsTx_def Let_def)
  have "bindE (releaseCartReservations (rq_gen rq) (rq_now rq) (Some cat) cart reason actor (sv_inv s))
      (\<lambda>(r, db'). Inr (rel_changes r, db')) = Inr (rel_changes r, db')" by (simp add: r)
  from release.events_exact [OF this] s' P_release show ?thesis unfolding es by (simp add: built_events_catalog)
next
  case (P_consume cat cart ord ls actor)
  with assms obtain r db' where
    r: "consumeCompletedOrderStock (rq_gen rq) (rq_now rq) cat cart ord ls actor (sv_inv s) = Inr (r, db')"
    and es: "es = buildStockChangedEvents rq cat (con_changes r) S_order ''completed_order_stock_consume''"
    and s': "s' = appendDomainEventsTx rq es (s\<lparr>sv_inv := db'\<rparr>)"
    by (auto simp: consumeCompletedOrderStockTx_def finish_tx_def)
  have "bindE (consumeCompletedOrderStock (rq_gen rq) (rq_now rq) cat cart ord ls actor (sv_inv s))
      (\<lambda>(r, db'). Inr (con_changes r, db')) = Inr (con_changes r, db')" by (simp add: r)
  from consume.events_exact [OF this] s' P_consume show ?thesis unfolding es by (simp add: built_events_catalog)
qed


section \<open>Histories of service calls\<close>

datatype svc_op =
    S_create create_warehouse_dto
  | S_update ident update_warehouse_dto
  | S_remove ident
  | S_adjust ident adjustment_dto actor_ref
  | S_port port_op
  | S_expire

fun run_svc :: "(string \<Rightarrow> string) \<Rightarrow> request \<times> svc_op \<Rightarrow> inv_service \<Rightarrow> http_error + inv_service" where
  "run_svc slug (rq, S_create dto) s = Inr (snd (service_createWarehouse slug rq dto s))"
| "run_svc slug (rq, S_update i dto) s = Inr (snd (service_updateWarehouse slug rq i dto s))"
| "run_svc slug (rq, S_remove i) s = Inr (snd (service_removeWarehouse rq i s))"
| "run_svc slug (rq, S_adjust w dto actor) s = Inr (snd (adjustWarehouseStock rq w dto actor s))"
| "run_svc slug (rq, S_port op) s = bindE (run_port rq op s) (\<lambda>(_, s'). Inr s')"
| "run_svc slug (rq, S_expire) s = Inr (snd (service_releaseExpiredReservations rq s))"

fun valid_svc :: "request \<times> svc_op \<Rightarrow> bool" where
  "valid_svc (_, S_port (P_reserve cat cart ls actor)) = lines_ok cart ls"
| "valid_svc _ = True"

definition service_ok :: "ident list \<Rightarrow> inv_service \<Rightarrow> bool" where
  "service_ok old s \<longleftrightarrow> shop_ok (sv_inv s) \<and> outbox_ok old (sv_ev s)"

lemma stock_op_ok:
  assumes "shop_ok db" "valid_op op" "run_inv_op gen now op db = Inr db'"
  shows "shop_ok db'"
  using run_wh_op_ok [of db "(W_stock op, now)" gen db'] assms by simp

lemma outbox_ok_world: "outbox_ok old (ev\<lparr>ev_world := w\<rparr>) = outbox_ok old ev"
  by (simp add: outbox_ok_def)

lemma invalidate_ok:
  "service_ok old s \<Longrightarrow> service_ok old (snd (invalidateProductCachesForCatalogs rq cats es s))"
  using dispatchMany_ok [of old "sv_ev s" "rq_gen rq" "rq_now rq" es]
  by (auto simp: invalidateProductCachesForCatalogs_def service_ok_def Let_def outbox_ok_world
      split: prod.splits sum.splits)

lemma service_ok_inv: "service_ok old s \<Longrightarrow> shop_ok db \<Longrightarrow> service_ok old (s\<lparr>sv_inv := db\<rparr>)"
  by (simp add: service_ok_def)

lemma resync_service_ok:
  assumes "service_ok old s"
  shows "service_ok old (snd (resync_and_invalidate rq i s))"
proof (cases "resyncWarehouseVariantStocks (rq_catalogId rq) i (sv_inv s)")
  case (Inl e)
  with assms show ?thesis by (simp add: resync_and_invalidate_def)
next
  case (Inr p)
  obtain vs db' where p: "p = (vs, db')" by (cases p)
  then have "shop_ok db'" using resync_ok [of "rq_catalogId rq" i "sv_inv s" vs db'] Inr assms
    by (simp add: shop_ok_def service_ok_def)
  then have "service_ok old (s\<lparr>sv_inv := db'\<rparr>)" using assms by (rule service_ok_inv [rotated])
  with Inr p invalidate_ok show ?thesis by (simp add: resync_and_invalidate_def)
qed

lemma resync_service_eq:
  "resync_and_invalidate rq i s = (r, s') \<Longrightarrow> service_ok old s \<Longrightarrow> service_ok old s'"
  using resync_service_ok [of old s rq i] by simp

lemma dispatchMany_eq: "dispatchMany gen now es ev = (r, ev') \<Longrightarrow> outbox_ok old ev \<Longrightarrow> outbox_ok old ev'"
  using dispatchMany_ok [of old ev gen now es] by simp

lemma create_service_ok: "service_ok old s \<Longrightarrow> service_ok old (snd (service_createWarehouse slug rq dto s))"
  by (auto simp: service_createWarehouse_def Let_def service_ok_def shop_ok_def split: sum.splits prod.splits
      dest: createWarehouse_ok)

lemma update_service_ok: "service_ok old s \<Longrightarrow> service_ok old (snd (service_updateWarehouse slug rq i dto s))"
proof -
  assume ok: "service_ok old s"
  have "service_ok old (s\<lparr>sv_inv := db'\<rparr>)" if "updateWarehouse cat i d b (sv_inv s) = Inr (w, db')" for cat d b w db'
    using updateWarehouse_ok [OF _ that] ok by (simp add: service_ok_def shop_ok_def)
  then show ?thesis
    using ok by (auto simp: service_updateWarehouse_def Let_def split: sum.split prod.split option.split
        intro: resync_service_eq)
qed

lemma remove_service_ok: "service_ok old s \<Longrightarrow> service_ok old (snd (service_removeWarehouse rq i s))"
proof -
  assume ok: "service_ok old s"
  have "service_ok old (s\<lparr>sv_inv := db'\<rparr>)" if "softDeleteWarehouse now cat i (sv_inv s) = (w, db')" for now cat w db'
    using softDelete_ok [OF _ that] ok by (simp add: service_ok_def shop_ok_def)
  then show ?thesis
    using ok by (auto simp: service_removeWarehouse_def split: sum.split prod.split option.split
        intro: resync_service_ok)
qed

lemma adjust_service_ok: "service_ok old s \<Longrightarrow> service_ok old (snd (adjustWarehouseStock rq w dto actor s))"
proof -
  assume ok: "service_ok old s"
  have audit: "service_ok old (auditManualMovement cat w dto res a t) = service_ok old t" for cat w dto res a t
    by (simp add: auditManualMovement_def Let_def service_ok_def)
  have pub: "service_ok old (snd (publishManualStockChangedEvent rq cat res reason t))" if "service_ok old t" for cat res reason t
    using that by (auto simp: publishManualStockChangedEvent_def dispatch_event_def service_ok_def
        split: prod.split sum.split intro: dispatchMany_eq)
  have run: "service_ok old (s\<lparr>sv_inv := db'\<rparr>)"
    if "adjustStock gen now cat w v d reason a (sv_inv s) = Inr (res, db')" for gen now cat v d reason a res db'
    using stock_op_ok [of "sv_inv s" "AdjustStock cat w v d reason a" gen now db'] ok that by (simp add: service_ok_def)
  show ?thesis
  proof (cases "adjustStock (rq_gen rq) (rq_now rq) (rq_catalogId rq) w (ad_variantId dto) (ad_quantityDelta dto)
      (normalizeOptionalText (ad_reason dto)) (resolveActorUserId actor) (sv_inv s)")
    case (Inl e)
    with ok show ?thesis by (simp add: adjustWarehouseStock_def Let_def split: sum.split)
  next
    case (Inr p)
    obtain res db' where p: "p = (res, db')" by (cases p)
    let ?s1 = "auditManualMovement (rq_catalogId rq) w dto res actor (s\<lparr>sv_inv := db'\<rparr>)"
    have 1: "service_ok old ?s1" using run Inr p audit by blast
    have 2: "service_ok old s2" if "publishManualStockChangedEvent rq cat res reason ?s1 = (r, s2)" for cat reason r s2
      using pub [OF 1, of cat res reason] that by simp
    have 3: "service_ok old s3" if "invalidateProductCachesForCatalogs rq cats [] s2 = (r, s3)" "service_ok old s2"
      for cats r s2 s3 using invalidate_ok [OF that(2), of rq cats "[]"] that(1) by simp
    show ?thesis
      using ok Inr p by (auto simp: adjustWarehouseStock_def Let_def split: sum.split prod.split bool.split
          intro: 2 3 [OF _ 2])
  qed
qed

lemma expire_service_ok: "service_ok old s \<Longrightarrow> service_ok old (snd (service_releaseExpiredReservations rq s))"
proof -
  assume ok: "service_ok old s"
  have run: "service_ok old (s\<lparr>sv_inv := db'\<rparr>)" if "releaseExpiredReservations gen now n (sv_inv s) = (r, db')" for gen now n r db'
    using stock_op_ok [of "sv_inv s" "ExpireDue n" gen now db'] ok that by (simp add: service_ok_def)
  have inval: "service_ok old t'" if "invalidateProductCachesForCatalogs rq cats es t = (r, t')" "service_ok old t" for cats es t r t'
    using invalidate_ok [OF that(2), of rq cats es] that(1) by simp
  show ?thesis
    by (auto simp: service_releaseExpiredReservations_def split: prod.split sum.split intro: run inval [OF _ run])
qed

lemma port_service_ok:
  assumes "service_ok old s" "valid_svc (rq, S_port op)" "run_port rq op s = Inr (es, s')"
  shows "service_ok old s'"
proof -
  have app: "service_ok old (appendDomainEventsTx rq es (s\<lparr>sv_inv := db\<rparr>))" if "shop_ok db" for es db
    using assms(1) that append_ok [of old "sv_ev s"] by (simp add: service_ok_def appendDomainEventsTx_def)
  have ok: "shop_ok (sv_inv s)" using assms(1) by (simp add: service_ok_def)
  show ?thesis
  proof (cases op)
    case (P_reserve cat cart ls actor)
    have "shop_ok db'" if "reserveCartStock (rq_gen rq) (rq_now rq) cat cart ls t actor (sv_inv s) = Inr (r, db')" for t r db'
      using stock_op_ok [OF ok, of "ReserveCart cat cart ls t actor" "rq_gen rq" "rq_now rq" db'] that assms(2) P_reserve by simp
    with P_reserve assms(3) app show ?thesis by (auto simp: reserveCartStockTx_def finish_tx_def)
  next
    case (P_release cat cart reason actor)
    have "shop_ok db'" if "releaseCartReservations (rq_gen rq) (rq_now rq) (Some cat) cart reason actor (sv_inv s) = Inr (r, db')" for r db'
      using stock_op_ok [OF ok, of "ReleaseCart (Some cat) cart reason actor" "rq_gen rq" "rq_now rq" db'] that by simp
    with P_release assms(3) app show ?thesis by (auto simp: releaseCartReservationsTx_def Let_def)
  next
    case (P_consume cat cart ord ls actor)
    have "shop_ok db'" if "consumeCompletedOrderStock (rq_gen rq) (rq_now rq) cat cart ord ls actor (sv_inv s) = Inr (r, db')" for r db'
      using stock_op_ok [OF ok, of "ConsumeOrder cat cart ord ls actor" "rq_gen rq" "rq_now rq" db'] that by simp
    with P_consume assms(3) app show ?thesis by (auto simp: consumeCompletedOrderStockTx_def finish_tx_def)
  qed
qed

lemma run_svc_ok:
  assumes "service_ok old s" "valid_svc p" "run_svc slug p s = Inr s'"
  shows "service_ok old s'"
proof -
  obtain rq op where p: "p = (rq, op)" by (cases p)
  show ?thesis
  proof (cases op)
    case (S_port q)
    with assms p port_service_ok show ?thesis by auto
  qed (use assms p create_service_ok update_service_ok remove_service_ok adjust_service_ok expire_service_ok in auto)
qed

interpretation service: transactional "service_ok old" "run_svc slug" valid_svc for old slug
  by unfold_locales (rule run_svc_ok)


section \<open>An example service\<close>

definition demo_request :: request where
  "demo_request = \<lparr>rq_catalogId = ''c'', rq_ownerUserId = Some ''u'', rq_now = 50, rq_tz = 0, rq_gen = demo_gen,
     rq_uuid = (\<lambda>k. replicate (Suc k) CHR ''e'')\<rparr>"

definition demo_service :: inv_service where
  "demo_service = \<lparr>sv_inv = demo_run [demo_receipt],
     sv_ev = \<lparr>ev_rows = [], ev_bus = onModuleInit \<lparr>handlers = [], handled = [], handling = []\<rparr>,
              ev_world = \<lparr>versions = [], redis_up = True\<rparr>\<rparr>,
     sv_audit = [], sv_audit_up = True,
     sv_entitlements = [\<lparr>en_catalogId = ''c'', en_feature = ''inventory.internal'', en_enabled = True, en_expiresAt = None\<rparr>],
     sv_modes = [(''c'', MODE_INTERNAL)]\<rparr>"


section \<open>Properties\<close>

text \<open>
  C23. The events of a reservation, a release or a sale say exactly what the transaction did to the
  shown stock: a variant whose stock is the same before and after gets none, a variant whose stock
  differs gets one, with the stock before and the stock after.  They carry the catalog's id and are
  written to the outbox in the same transaction, before any handler runs.
\<close>

theorem port_events_exact:
  assumes "run_port rq op s = Inr (es, s')" "port_catalog op \<noteq> []"
  shows "stock_reports v es = (if stock_of (sv_inv s) v = stock_of (sv_inv s') v then []
      else [(stock_of (sv_inv s) v, stock_of (sv_inv s') v)]) \<and>
    list_all (\<lambda>e. e_catalogId (e_meta e) = port_catalog op) es \<and>
    ev_rows (sv_ev s') = appendWithClient (rq_gen rq) (rq_now rq) es (ev_rows (sv_ev s)) \<and>
    ev_bus (sv_ev s') = ev_bus (sv_ev s) \<and> ev_world (sv_ev s') = ev_world (sv_ev s)"
proof -
  note eff = run_port_effect [OF assms, of v]
  have "sv_ev s' = sv_ev (appendDomainEventsTx rq es (s\<lparr>sv_inv := sv_inv s'\<rparr>))"
    using eff by (intro arg_cong [where f = sv_ev]) blast
  then have "ev_rows (sv_ev s') = appendWithClient (rq_gen rq) (rq_now rq) es (ev_rows (sv_ev s)) \<and>
      ev_bus (sv_ev s') = ev_bus (sv_ev s) \<and> ev_world (sv_ev s') = ev_world (sv_ev s)" by simp
  with eff show ?thesis by blast
qed

theorem port_events_exact_witness:
  "\<exists>es s'. run_port demo_request (P_reserve ''c'' ''k'' [demo_line ''i'' 3] None) demo_service = Inr (es, s') \<and>
     stock_reports ''v'' es = [(Some 10, Some 7)]"
proof -
  let ?r = "run_port demo_request (P_reserve ''c'' ''k'' [demo_line ''i'' 3] None) demo_service"
  have "(case ?r of Inl _ \<Rightarrow> False | Inr (es, s') \<Rightarrow>
      stock_of (sv_inv demo_service) ''v'' = Some 10 \<and> stock_of (sv_inv s') ''v'' = Some 7)" by code_simp
  then obtain es s' where r: "?r = Inr (es, s')" and st: "stock_of (sv_inv demo_service) ''v'' = Some 10"
    "stock_of (sv_inv s') ''v'' = Some 7" by (auto split: sum.splits prod.splits)
  from port_events_exact [OF r, of "''v''"] st have "stock_reports ''v'' es = [(Some 10, Some 7)]" by simp
  with r show ?thesis by blast
qed

text \<open>
  C24. Whatever service calls run, with whatever requests, throwing or not: the stock accounting, the
  uniqueness of the default warehouse and the outbox invariant all hold if they did at the start.
\<close>

theorem service_history_invariant:
  assumes "history (run_svc slug) valid_svc s t" "service_ok old s"
  shows "inv_ok (sv_inv t) \<and> links_ok (sv_inv t) \<and> outbox_ok old (sv_ev t)"
  using service.history_invar [OF assms] by (simp add: service_ok_def shop_ok_def)

definition demo_calls :: "(request \<times> svc_op) list" where
  "demo_calls = [(demo_request, S_adjust ''w'' \<lparr>ad_variantId = ''v'', ad_quantityDelta = -4, ad_reason = None\<rparr> No_actor),
     (demo_request, S_port (P_reserve ''c'' ''k'' [demo_line ''i'' 3] None))]"

theorem service_history_invariant_witness:
  "inv_ok (sv_inv (foldl (committed (run_svc id)) demo_service demo_calls)) \<and>
   stock_of (sv_inv (foldl (committed (run_svc id)) demo_service demo_calls)) ''v'' = Some 3"
proof -
  have "history (run_svc id) valid_svc demo_service (foldl (committed (run_svc id)) demo_service demo_calls)"
    by (rule history_sequence) code_simp
  moreover have "service_ok [] demo_service" by code_simp
  moreover have "stock_of (sv_inv (foldl (committed (run_svc id)) demo_service demo_calls)) ''v'' = Some 3" by code_simp
  ultimately show ?thesis using service_history_invariant by blast
qed

text \<open>
  A catalog that may not use the internal inventory, or is not in internal mode, changes nothing:
  every method that the user calls, the reservation and the sale answer with an error and leave
  tables, outbox, caches and audit log as they were.
\<close>

theorem guard_blocks_changes:
  assumes "\<not> (can_use (rq_tz rq) (sv_entitlements s) cat INVENTORY_INTERNAL (rq_now rq) \<and>
      map_get (sv_modes s) cat = Some MODE_INTERNAL)"
    and "case op of S_port q \<Rightarrow> port_catalog q = cat \<and> (\<nexists>c k r a. q = P_release c k r a)
      | S_expire \<Rightarrow> False | _ \<Rightarrow> rq_catalogId rq = cat"
  shows "committed (run_svc slug) s (rq, op) = s"
proof -
  have g: "\<exists>e. assertInternalInventoryCatalog rq cat s = Inl e"
    using assms(1)
    by (auto simp: assertInternalInventoryCatalog_def assertCanUseInternalInventory_def assertCanUseFeature_def
        assert_capability_def guardE_def split: option.splits sum.splits)
  show ?thesis
  proof (cases op)
    case (S_port q)
    with g assms(2) show ?thesis
      by (cases q) (auto simp: committed_def reserveCartStockTx_def consumeCompletedOrderStockTx_def)
  qed (use g assms(2) in \<open>auto simp: committed_def service_createWarehouse_def service_updateWarehouse_def
      service_removeWarehouse_def adjustWarehouseStock_def Let_def\<close>)
qed

theorem guard_blocks_changes_witness:
  "committed (run_svc id) (demo_service\<lparr>sv_modes := [(''c'', MODE_EXTERNAL)]\<rparr>) (demo_request, S_remove ''w'') =
     demo_service\<lparr>sv_modes := [(''c'', MODE_EXTERNAL)]\<rparr> \<and>
   committed (run_svc id) demo_service (demo_request, S_remove ''w'') \<noteq> demo_service"
proof
  let ?s = "demo_service\<lparr>sv_modes := [(''c'', MODE_EXTERNAL)]\<rparr>"
  show "committed (run_svc id) ?s (demo_request, S_remove ''w'') = ?s"
    by (rule guard_blocks_changes [of _ _ "''c''"]) (simp_all add: map_get_def demo_request_def)
  have "map w_deleteAt (warehouses (sv_inv (committed (run_svc id) demo_service (demo_request, S_remove ''w'')))) \<noteq>
      map w_deleteAt (warehouses (sv_inv demo_service))" by code_simp
  then show "committed (run_svc id) demo_service (demo_request, S_remove ''w'') \<noteq> demo_service" by metis
qed

end
