(* ===== verification/Warehouse_Codes.thy ===== *)
theory Warehouse_Codes
  imports Service_Properties
begin

text \<open>
  Generated warehouse codes: the candidates are pairwise different, so fifty attempts find a free
  one for any catalog with fewer than fifty warehouses.  Then the consequences of removing and of
  updating a warehouse through the service.
\<close>


section \<open>Candidates\<close>

definition digits_value :: "string \<Rightarrow> nat" where
  "digits_value s = foldl (\<lambda>n c. 10 * n + (of_char c - 48)) 0 s"

lemma digits_value_show: "digits_value (show_nat n) = n"
proof (induction n rule: show_nat.induct)
  case (1 n)
  show ?case
  proof (cases "n < 10")
    case True
    then show ?thesis by (subst show_nat.simps) (simp add: digits_value_def)
  next
    case False
    with 1 have "digits_value (show_nat (n div 10)) = n div 10" by simp
    with False show ?thesis by (subst show_nat.simps) (simp add: digits_value_def)
  qed
qed

lemma show_nat_inject: "show_nat m = show_nat n \<longleftrightarrow> m = n"
  by (metis digits_value_show)

lemma show_nat_length: "0 < length (show_nat n)"
  by (subst show_nat.simps) simp

lemma candidate_inject: "candidate_code base j = candidate_code base k \<longleftrightarrow> j = k"
  by (auto simp: candidate_code_def show_nat_inject split: if_splits)

lemma candidate_length: "0 < k \<Longrightarrow> length base + 2 \<le> length (candidate_code base k)"
  using show_nat_length [of "k + 1"] by (simp add: candidate_code_def Suc_le_eq)

lemma taken_code:
  assumes "existsWarehouseCode cat code None db"
  obtains l where "l \<in> set (warehouse_catalogs db)" "wc_catalogId l = cat"
    "map_option w_code (warehouse_by_id db (wc_warehouseId l)) = Some code"
  using assms by (auto simp: existsWarehouseCode_def split: option.splits)

text \<open>As many codes are taken as the catalog has links, at most.\<close>

lemma free_candidate:
  assumes "length (filter (\<lambda>l. wc_catalogId l = cat) (warehouse_catalogs db)) < n"
  shows "\<exists>k<n. \<not> existsWarehouseCode cat (candidate_code base k) None db"
proof (rule ccontr)
  let ?links = "filter (\<lambda>l. wc_catalogId l = cat) (warehouse_catalogs db)"
  let ?code = "\<lambda>l. map_option w_code (warehouse_by_id db (wc_warehouseId l))"
  assume "\<not> ?thesis"
  then have taken: "existsWarehouseCode cat (candidate_code base k) None db" if "k < n" for k using that by blast
  have "Some (candidate_code base k) \<in> ?code ` set ?links" if "k < n" for k
    using taken [OF that] by (rule taken_code) (rule image_eqI [where f = ?code], rule sym, simp_all)
  then have "(\<lambda>k. Some (candidate_code base k)) ` {..<n} \<subseteq> ?code ` set ?links" by blast
  then have "card ((\<lambda>k. Some (candidate_code base k)) ` {..<n}) \<le> length ?links"
    by (meson List.finite_set card_image_le card_length card_mono finite_imageI le_trans)
  moreover have "card ((\<lambda>k. Some (candidate_code base k)) ` {..<n}) = n"
    by (subst card_image) (auto simp: inj_on_def candidate_inject)
  ultimately show False using assms by simp
qed

lemma generate_Inr:
  assumes "generateAvailableCode slug cat name db = Inr code"
  obtains k where "k < 50" "code = candidate_code (normalizeCode slug name) k" "\<not> existsWarehouseCode cat code None db"
proof -
  from assms have "List.find (\<lambda>code. \<not> existsWarehouseCode cat code None db)
      (map (candidate_code (normalizeCode slug name)) [0..<50]) = Some code"
    by (simp add: generateAvailableCode_def del: upt_rec_numeral)
  from find_Some_iff_mem [OF this] that show thesis by (auto simp del: upt_rec_numeral)
qed


section \<open>Properties\<close>

text \<open>
  C26. A generated code is free in the catalog, and the search ends with one after at most fifty
  attempts whenever the catalog has fewer than fifty warehouses, whatever the name and the slug function.
\<close>

theorem generated_code_is_free:
  assumes "length (filter (\<lambda>l. wc_catalogId l = cat) (warehouse_catalogs db)) < 50"
  shows "\<exists>code. generateAvailableCode slug cat name db = Inr code \<and> code \<noteq> [] \<and>
    \<not> existsWarehouseCode cat code None db \<and> length code \<le> 103"
proof -
  let ?cands = "map (candidate_code (normalizeCode slug name)) [0..<50]"
  from free_candidate [OF assms, of "normalizeCode slug name"] obtain k where
    "k < 50" "\<not> existsWarehouseCode cat (candidate_code (normalizeCode slug name) k) None db" by blast
  then have "List.find (\<lambda>code. \<not> existsWarehouseCode cat code None db) ?cands \<noteq> None"
    unfolding find_None_all by (auto simp del: upt_rec_numeral)
  then obtain code where code: "generateAvailableCode slug cat name db = Inr code"
    by (auto simp: generateAvailableCode_def simp del: upt_rec_numeral)
  then obtain j where j: "j < 50" "code = candidate_code (normalizeCode slug name) j"
    "\<not> existsWarehouseCode cat code None db" by (rule generate_Inr)
  have base: "normalizeCode slug name \<noteq> [] \<and> length (normalizeCode slug name) \<le> 100"
    by (auto simp: normalizeCode_def Let_def)
  have "length (show_nat m) \<le> 2" if "m < 100" for m
    using that by (subst show_nat.simps) (subst show_nat.simps, simp)
  from this [of "j + 1"] j(1,2) base have "code \<noteq> []" "length code \<le> 103"
    by (auto simp: candidate_code_def)
  with code j(3) show ?thesis by blast
qed

theorem generated_code_is_free_witness:
  "\<exists>code. generateAvailableCode id ''c'' ''main'' demo_shop = Inr code \<and> \<not> existsWarehouseCode ''c'' code None demo_shop"
proof -
  have "length (filter (\<lambda>l. wc_catalogId l = ''c'') (warehouse_catalogs demo_shop)) < 50"
    by (simp add: demo_shop_def)
  from generated_code_is_free [OF this, of id "''main''"] show ?thesis by blast
qed

text \<open>
  When the base code of a name fills the code column, a second warehouse of that name cannot be
  created without an explicit code: every further candidate is too long and the call fails with a
  database error, although free codes exist.
\<close>

theorem full_length_name_collides:
  assumes "length (normalizeCode slug (trim (cd_name dto))) = 100" "cd_code dto = None"
    and "existsWarehouseCode (rq_catalogId rq) (normalizeCode slug (trim (cd_name dto))) None (sv_inv s)"
  shows "\<exists>e. service_createWarehouse slug rq dto s = (Inl e, s)"
proof -
  let ?name = "trim (cd_name dto)"
  have long: "100 < length code"
    if gen: "generateAvailableCode slug (rq_catalogId rq) ?name (sv_inv s) = Inr code" for code
  proof -
    from gen obtain k where k: "code = candidate_code (normalizeCode slug ?name) k"
      "\<not> existsWarehouseCode (rq_catalogId rq) code None (sv_inv s)" by (rule generate_Inr)
    with assms(3) have "0 < k" by (cases k) (auto simp: candidate_code_def)
    from candidate_length [OF this, of "normalizeCode slug ?name"] k(1) assms(1) show ?thesis by simp
  qed
  have "\<exists>e. createWarehouse (rq_gen rq) (rq_now rq) (rq_catalogId rq) (rq_ownerUserId rq) name code st addr d (sv_inv s) = Inl e"
    if "100 < length code" for name code st addr d
    using that by (simp add: createWarehouse_def Let_def fits_columns_def)
  with long assms(2) show ?thesis
    by (auto simp: service_createWarehouse_def create_code_def normalizeRequiredText_def Let_def
        split: sum.split prod.split) (metis Inl_Inr_False)
qed

theorem full_length_name_collides_witness:
  "\<exists>e s1. fst (service_createWarehouse id demo_request \<lparr>cd_name = replicate 100 CHR ''a'', cd_code = None,
        cd_status = None, cd_address = None, cd_isDefault = None\<rparr> s1) = Inl e \<and>
     s1 = snd (service_createWarehouse id demo_request \<lparr>cd_name = replicate 100 CHR ''a'', cd_code = None,
        cd_status = None, cd_address = None, cd_isDefault = None\<rparr> demo_service)"
proof -
  let ?dto = "\<lparr>cd_name = replicate 100 CHR ''a'', cd_code = None, cd_status = None, cd_address = None, cd_isDefault = None\<rparr>"
  let ?s1 = "snd (service_createWarehouse id demo_request ?dto demo_service)"
  have "length (normalizeCode id (trim (cd_name ?dto))) = 100"
    "existsWarehouseCode (rq_catalogId demo_request) (normalizeCode id (trim (cd_name ?dto))) None (sv_inv ?s1)"
    by code_simp+
  from full_length_name_collides [OF this(1) _ this(2)] show ?thesis by auto
qed

text \<open>
  Removing a warehouse keeps the shown stock of the acting catalog's variants exact: a variant
  whose shown stock was its available stock before has this property after the call.
\<close>

theorem removal_keeps_shown_stock:
  assumes "service_removeWarehouse rq i s = (Inr (), s')"
    and "variant_catalog (sv_inv s) u = Some (rq_catalogId rq)" "read_model_at (sv_inv s) u"
  shows "read_model_at (sv_inv s') u"
proof -
  let ?cat = "rq_catalogId rq" and ?db = "sv_inv s"
  from assms(1) obtain v db1 where del: "softDeleteWarehouse (rq_now rq) ?cat i ?db = (Some v, db1)"
    and res: "resync_and_invalidate rq i (s\<lparr>sv_inv := db1\<rparr>) = (Inr (), s')"
    by (auto simp: service_removeWarehouse_def split: sum.splits prod.splits option.splits)
  from res obtain vs db2 where sync: "resyncWarehouseVariantStocks ?cat i db1 = Inr (vs, db2)" and db2: "sv_inv s' = db2"
    by (auto simp: resync_and_invalidate_def invalidateProductCachesForCatalogs_def Let_def
        split: sum.splits prod.splits if_splits)
  note frame = softDelete_frame(1-3) [OF del] and link = softDelete_frame(4) [OF del]
  have vs: "vs = remdups (map b_variantId (filter (\<lambda>b. b_warehouseId b = i \<and>
      variant_catalog db1 (b_variantId b) = Some ?cat) (balances db1)))"
    and loop: "foldE (\<lambda>db v. bindE (syncVariantStockReadModel v db) (\<lambda>(_, db'). Inr db')) db1 vs = Inr db2"
    using sync link by (auto simp: resyncWarehouseVariantStocks_def Let_def)
  show ?thesis
  proof (cases "u \<in> set vs")
    case True
    with resync_loop [OF loop] db2 show ?thesis by simp
  next
    case False
    have "variant_catalog db1 u = Some ?cat" using assms(2) variant_catalog_cong [OF frame(2,3), of u] by simp
    with False vs have "\<forall>b\<in>set (balances ?db). b_variantId b = u \<longrightarrow> b_warehouseId b \<noteq> i"
      by (auto simp: frame)
    from removal_available [OF del this] have "read_model_at db1 u"
      using assms(3) frame by (simp add: read_model_at_def)
    with False resync_loop [OF loop] db2 show ?thesis by simp
  qed
qed

theorem removal_keeps_shown_stock_witness:
  "read_model_at (sv_inv (snd (service_removeWarehouse demo_request ''w'' demo_service))) ''v'' \<and>
   stock_of (sv_inv (snd (service_removeWarehouse demo_request ''w'' demo_service))) ''v'' = Some 0 \<and>
   stock_of (sv_inv demo_service) ''v'' = Some 10"
proof -
  have "fst (service_removeWarehouse demo_request ''w'' demo_service) = Inr ()"
    "variant_catalog (sv_inv demo_service) ''v'' = Some (rq_catalogId demo_request)"
    "read_model_at (sv_inv demo_service) ''v''"
    "stock_of (sv_inv (snd (service_removeWarehouse demo_request ''w'' demo_service))) ''v'' = Some 0"
    "stock_of (sv_inv demo_service) ''v'' = Some 10"
    by code_simp+
  with removal_keeps_shown_stock [OF prod_eqI] show ?thesis by (metis fst_conv snd_conv)
qed


section \<open>Two executions that show limits of the guards\<close>

text \<open>
  The guard against a disabled default looks only at the status in the request: a warehouse that is
  already disabled can be made the default.
\<close>

definition demo_update :: update_warehouse_dto where
  "demo_update = \<lparr>ud_name = None, ud_code = None, ud_status = None, ud_address = None, ud_isDefault = None\<rparr>"

definition demo_disabled :: inv_service where
  "demo_disabled = snd (service_updateWarehouse id demo_request ''w'' (demo_update\<lparr>ud_status := Some ''DISABLED''\<rparr>) demo_service)"

lemma disabled_warehouse_becomes_default:
  "case service_updateWarehouse id demo_request ''w'' (demo_update\<lparr>ud_isDefault := Some True\<rparr>) demo_disabled of
     (Inr v, s) \<Rightarrow> wv_isDefault v \<and> w_status (wv_warehouse v) = W_DISABLED \<and>
       findSalesWarehouse ''c'' (sv_inv s) = Inl WAREHOUSE_NOT_FOUND
   | _ \<Rightarrow> False"
  by code_simp

text \<open>
  A warehouse is shared by the catalogs it is linked to, but its removal resynchronises only the
  variants of the acting catalog: the variant \<open>v2\<close> of catalog \<open>d\<close> keeps showing stock.
\<close>

definition demo_shared :: inv_service where
  "demo_shared = (let db = sv_inv demo_service in
     demo_service\<lparr>sv_inv := foldl (committed (run_at demo_gen))
       (db\<lparr>warehouse_catalogs := warehouse_catalogs db @ [\<lparr>wc_warehouseId = ''w'', wc_catalogId = ''d'', wc_isDefault = True, wc_createdAt = 0\<rparr>],
           variants := variants db @ [\<lparr>v_id = ''v2'', v_productId = ''p2'', v_stock = None, v_deleteAt = None\<rparr>],
           products := products db @ [\<lparr>p_id = ''p2'', p_catalogId = ''d'', p_deleteAt = None\<rparr>]\<rparr>)
       [(AdjustStock ''d'' ''w'' ''v2'' 6 None None, 2)]\<rparr>)"

lemma shared_warehouse_stays_shown:
  "read_model_ok (sv_inv demo_shared) \<and>
   fst (service_removeWarehouse demo_request ''w'' demo_shared) = Inr () \<and>
   stock_of (sv_inv (snd (service_removeWarehouse demo_request ''w'' demo_shared))) ''v2'' = Some 6 \<and>
   available_total (sv_inv (snd (service_removeWarehouse demo_request ''w'' demo_shared))) ''v2'' = 0"
  by code_simp

end
