(* ===== verification/Js_Double.thy ===== *)
theory Js_Double
  imports Prelude Complex_Main
begin

text \<open>
  JavaScript numbers as exact rationals with the rounding of each operation written out.  \<open>fl\<close>
  rounds to the nearest number with a 53-bit significand, ties to even, by scaling the argument
  into the binade from \<open>2\<^sup>5\<^sup>2\<close> to \<open>2\<^sup>5\<^sup>3\<close>; its fuel of 2100 doublings or halvings covers the exponent range
  of a double.  Overflow to infinity and the gradual underflow below \<open>2\<^sup>-\<^sup>1\<^sup>0\<^sup>2\<^sup>2\<close> are not modelled.
\<close>


section \<open>Rounding\<close>

text \<open>To the nearest integer, ties to even.\<close>

definition round_even :: "rat \<Rightarrow> int" where
  "round_even x =
     (let n = \<lfloor>x\<rfloor>; d = x - of_int n in
      if d < 1 / 2 then n else if 1 / 2 < d then n + 1 else if even n then n else n + 1)"

abbreviation binade_low :: rat where "binade_low \<equiv> 4503599627370496"
abbreviation binade_high :: rat where "binade_high \<equiv> 9007199254740992"

primrec fl_pos :: "nat \<Rightarrow> rat \<Rightarrow> rat" where
  "fl_pos 0 x = x"
| "fl_pos (Suc n) x =
     (if x < binade_low then fl_pos n (2 * x) / 2
      else if binade_high \<le> x then 2 * fl_pos n (x / 2)
      else of_int (round_even x))"

definition fl :: "rat \<Rightarrow> rat" where
  "fl x = (if x = 0 then 0 else if x < 0 then - fl_pos 2100 (- x) else fl_pos 2100 x)"

text \<open>\<^verbatim>\<open>Math.round\<close>: to the nearest integer, ties upwards.\<close>

definition js_round :: "rat \<Rightarrow> int" where
  "js_round x = \<lfloor>x + 1 / 2\<rfloor>"

definition js_trunc :: "rat \<Rightarrow> int" where
  "js_trunc x = (if x < 0 then \<lceil>x\<rceil> else \<lfloor>x\<rfloor>)"

text \<open>The value of \<^verbatim>\<open>toFixed(2)\<close>: the nearest multiple of a hundredth, ties away from zero.\<close>

definition to_fixed2 :: "rat \<Rightarrow> rat" where
  "to_fixed2 x = (if x < 0 then - (of_int \<lfloor>1 / 2 - 100 * x\<rfloor> / 100) else of_int \<lfloor>100 * x + 1 / 2\<rfloor> / 100)"

text \<open>
  What a value of unknown type reads as: null or undefined, a finite number (a number, or a string or
  decimal object that denotes one), or anything else.
\<close>

datatype js_value = Nullish | Finite rat | Unreadable

fun toFiniteNumber :: "js_value \<Rightarrow> rat option" where
  "toFiniteNumber (Finite x) = Some x"
| "toFiniteNumber _ = None"

text \<open>The operator \<^verbatim>\<open>??\<close>.\<close>

fun nullish_or :: "js_value \<Rightarrow> js_value \<Rightarrow> js_value" where
  "nullish_or Nullish y = y"
| "nullish_or x y = x"


section \<open>Laws of rounding\<close>

lemma round_even_int [simp]: "round_even (of_int n) = n"
  by (simp add: round_even_def Let_def)

lemma round_even_near: "\<lfloor>x\<rfloor> \<le> round_even x" "round_even x \<le> \<lfloor>x\<rfloor> + 1"
  by (simp_all add: round_even_def Let_def)

lemma round_even_mono: "x \<le> y \<Longrightarrow> round_even x \<le> round_even y"
proof -
  assume xy: "x \<le> y"
  then have "\<lfloor>x\<rfloor> \<le> \<lfloor>y\<rfloor>" by (rule floor_mono)
  show ?thesis
  proof (cases "\<lfloor>x\<rfloor> = \<lfloor>y\<rfloor>")
    case True
    with xy show ?thesis by (auto simp: round_even_def Let_def)
  next
    case False
    with \<open>\<lfloor>x\<rfloor> \<le> \<lfloor>y\<rfloor>\<close> have "\<lfloor>x\<rfloor> + 1 \<le> \<lfloor>y\<rfloor>" by simp
    with round_even_near(2) [of x] round_even_near(1) [of y] show ?thesis by linarith
  qed
qed

lemma round_even_le: "x \<le> of_int m \<Longrightarrow> round_even x \<le> m"
  using round_even_mono [of x "of_int m"] by simp

lemma round_even_ge: "of_int m \<le> x \<Longrightarrow> m \<le> round_even x"
  using round_even_mono [of "of_int m" x] by simp

lemma fl_pos_le: "x \<le> binade_high \<Longrightarrow> fl_pos n x \<le> binade_high"
proof (induction n arbitrary: x)
  case (Suc n)
  show ?case
  proof (cases "x < binade_low")
    case True
    with Suc.IH [of "2 * x"] show ?thesis by simp
  next
    case False
    have "of_int (round_even x) \<le> (of_int 9007199254740992 :: rat)"
      using Suc.prems by (intro of_int_le_iff [THEN iffD2] round_even_le) simp
    moreover have "2 * fl_pos n (x / 2) \<le> binade_high" if "binade_high \<le> x"
    proof -
      have "x = binade_high" using that Suc.prems by simp
      then show ?thesis by (cases n) (simp_all add: round_even_int [of 4503599627370496, simplified])
    qed
    ultimately show ?thesis using False by simp
  qed
qed simp

lemma fl_pos_ge: "binade_low \<le> x \<Longrightarrow> binade_low \<le> fl_pos n x"
proof (induction n arbitrary: x)
  case (Suc n)
  have "(of_int 4503599627370496 :: rat) \<le> of_int (round_even x)"
    using Suc.prems by (intro of_int_le_iff [THEN iffD2] round_even_ge) simp
  moreover have "binade_low \<le> 2 * fl_pos n (x / 2)" if "binade_high \<le> x"
    using that Suc.IH [of "x / 2"] by simp
  ultimately show ?case using Suc.prems by simp
qed simp

text \<open>Rounding is monotone.\<close>

lemma fl_pos_mono: "x \<le> y \<Longrightarrow> fl_pos n x \<le> fl_pos n y"
proof (induction n arbitrary: x y)
  case (Suc n)
  let ?r = "\<lambda>z. of_int (round_even z) :: rat"
  consider (low) "y < binade_low" | (enter) "x < binade_low" "binade_low \<le> y"
    | (mid) "binade_low \<le> x" "y < binade_high" | (leave) "binade_low \<le> x" "x < binade_high" "binade_high \<le> y"
    | (high) "binade_high \<le> x"
    using Suc.prems by linarith
  then show ?case
  proof cases
    case low
    with Suc show ?thesis by simp
  next
    case enter
    have "fl_pos (Suc n) x \<le> binade_low" using enter(1) fl_pos_le [of "2 * x" n] by simp
    also have "\<dots> \<le> fl_pos (Suc n) y" using enter(2) by (rule fl_pos_ge)
    finally show ?thesis .
  next
    case mid
    with Suc.prems round_even_mono [of x y] show ?thesis by simp
  next
    case leave
    have "fl_pos (Suc n) x \<le> binade_high" using leave(2) by (intro fl_pos_le) simp
    also have "\<dots> \<le> fl_pos (Suc n) y" using leave(3) fl_pos_ge [of "y / 2" n] by simp
    finally show ?thesis .
  next
    case high
    with Suc show ?thesis by simp
  qed
qed simp

text \<open>Integers up to \<open>2\<^sup>5\<^sup>3\<close> are exact.\<close>

lemma fl_pos_int: "m \<le> 9007199254740992 \<Longrightarrow> fl_pos n (of_int m) = of_int m"
proof (induction n arbitrary: m)
  case (Suc n)
  have low: "fl_pos n (2 * of_int m) / 2 = (of_int m :: rat)" if "of_int m < binade_low"
  proof -
    have "(of_int m :: rat) < of_int 4503599627370496" using that by simp
    then have "m < 4503599627370496" by (simp only: of_int_less_iff)
    with Suc.IH [of "2 * m"] show ?thesis by simp
  qed
  have high: "2 * fl_pos n (of_int m / 2) = (of_int m :: rat)" if "binade_high \<le> of_int m"
  proof -
    have "(of_int 9007199254740992 :: rat) \<le> of_int m" using that by simp
    then have "m = 9007199254740992" using Suc.prems by (simp only: of_int_le_iff)
    with Suc.IH [of 4503599627370496] show ?thesis by simp
  qed
  show ?case using low high by simp
qed simp

lemma fl_int: "\<bar>m\<bar> \<le> 9007199254740992 \<Longrightarrow> fl (of_int m) = of_int m"
  using fl_pos_int [of m 2100] fl_pos_int [of "- m" 2100] by (auto simp: fl_def)

text \<open>An equation for evaluation: integers in the exact range need no scaling.\<close>

lemma fl_code [code]:
  "fl x = (if of_int \<lfloor>x\<rfloor> = x \<and> \<bar>\<lfloor>x\<rfloor>\<bar> \<le> 9007199254740992 then x
     else if x < 0 then - fl_pos 2100 (- x) else fl_pos 2100 x)"
proof (cases "of_int \<lfloor>x\<rfloor> = x \<and> \<bar>\<lfloor>x\<rfloor>\<bar> \<le> 9007199254740992")
  case True
  then have "fl x = x" using fl_int by metis
  with True show ?thesis by (simp only: if_True simp_thms)
next
  case False
  then have "x \<noteq> 0" by auto
  with False show ?thesis by (simp only: fl_def if_False simp_thms)
qed

lemma fl_0 [simp]: "fl 0 = 0"
  by (simp add: fl_def)

lemma fl_nonneg: "0 \<le> x \<Longrightarrow> 0 \<le> fl x"
  using fl_pos_mono [of 0 x 2100] fl_pos_int [of 0 2100] by (auto simp: fl_def)

lemma fl_mono: "0 \<le> x \<Longrightarrow> x \<le> y \<Longrightarrow> fl x \<le> fl y"
  using fl_nonneg [of y] fl_pos_mono [of x y 2100] by (auto simp: fl_def)

lemma fl_le_int: "0 \<le> x \<Longrightarrow> x \<le> of_int m \<Longrightarrow> m \<le> 9007199254740992 \<Longrightarrow> fl x \<le> of_int m"
proof -
  assume x: "0 \<le> x" "x \<le> of_int m" and m: "m \<le> 9007199254740992"
  then have "(0::rat) \<le> of_int m" by linarith
  then have "\<bar>m\<bar> \<le> 9007199254740992" using m by simp
  with fl_mono [OF x] fl_int show ?thesis by simp
qed

lemma fl_ge_int: "of_int m \<le> x \<Longrightarrow> 0 \<le> m \<Longrightarrow> m \<le> 9007199254740992 \<Longrightarrow> of_int m \<le> fl x"
  using fl_mono [of "of_int m" x] fl_int [of m] by simp

lemma js_round_mono: "x \<le> y \<Longrightarrow> js_round x \<le> js_round y"
  by (simp add: js_round_def floor_mono)

lemma js_round_int [simp]: "js_round (of_int n) = n"
proof -
  have "(of_int n :: rat) \<le> of_int n + 1 / 2" "(of_int n :: rat) + 1 / 2 < of_int n + 1" by simp_all
  then show ?thesis unfolding js_round_def by (simp add: floor_unique)
qed

lemma js_round_nonneg: "0 \<le> x \<Longrightarrow> 0 \<le> js_round x"
  using js_round_mono [of 0 x] js_round_int [of 0] by simp

end
