(* ===== verification/Price_Resolver.thy ===== *)
theory Price_Resolver
  imports Js_Double
begin

text \<open>
  Prices of cart and order lines (\<^verbatim>\<open>shared/order/price-resolver.utils.ts\<close>).  Money is counted in
  cents as integers, as in the source; where the source divides or multiplies fractions the result
  goes through \<open>fl\<close>.  Sums and products of cents are exact while they stay below \<open>2\<^sup>5\<^sup>3\<close>.
\<close>


section \<open>Input and output\<close>

text \<open>A date column or the date a string denotes: absent, an instant, or not a date.\<close>

datatype js_date = No_date | Date time | Invalid_date

record price_attribute =
  pa_key :: "string option"
  pa_valueDecimal :: js_value
  pa_valueInteger :: js_value
  pa_valueString :: js_value
  pa_valueDateTime :: js_date
  pa_stringDate :: js_date

record price_modifier =
  pm_quantity :: js_value
  pm_price :: js_value
  pm_unitPriceSnapshot :: js_value

record price_line =
  pl_productPrice :: js_value
  pl_attributes :: "price_attribute list"
  pl_variant :: "js_value option"
  pl_saleUnit :: "js_value option"
  pl_modifiers :: "price_modifier list"
  pl_quantity :: "rat option"
  pl_unitPriceSnapshot :: js_value
  pl_snapshotIsBasePrice :: bool
  pl_now :: time

record line_pricing =
  baseUnitPrice :: rat
  baseUnitPriceCents :: int
  unitPrice :: rat
  unitPriceCents :: int
  discountPercent :: int
  hasDiscount :: bool
  lineTotal :: rat
  lineTotalCents :: int
  lp_quantity :: int

record discount_rule =
  dr_percent :: rat
  dr_price :: "rat option"
  dr_startAt :: "time option"
  dr_endAt :: "time option"


section \<open>Helpers\<close>

definition to_lower :: "char \<Rightarrow> char" where
  "to_lower c = (let n = of_char c :: nat in if 65 \<le> n \<and> n \<le> 90 then char_of (n + 32) else c)"

definition is_alnum :: "char \<Rightarrow> bool" where
  "is_alnum c = (let n = of_char c :: nat in
     (48 \<le> n \<and> n \<le> 57) \<or> (65 \<le> n \<and> n \<le> 90) \<or> (97 \<le> n \<and> n \<le> 122))"

definition normalizeAttributeKey :: "string option \<Rightarrow> string" where
  "normalizeAttributeKey key = map to_lower (filter is_alnum (case key of None \<Rightarrow> [] | Some k \<Rightarrow> k))"

definition toCents :: "js_value \<Rightarrow> int" where
  "toCents v = (case toFiniteNumber v of None \<Rightarrow> 0 | Some x \<Rightarrow> max 0 (js_round (fl (x * 100))))"

definition fromCents :: "int \<Rightarrow> rat" where
  "fromCents n = fl (to_fixed2 (fl (of_int n / 100)))"

definition resolveModifierUnitTotalCents :: "price_modifier list \<Rightarrow> int" where
  "resolveModifierUnitTotalCents ms =
     foldl (\<lambda>sum m.
        let quantity = max 1 (js_trunc (case toFiniteNumber (pm_quantity m) of None \<Rightarrow> 1 | Some q \<Rightarrow> q));
            price = nullish_or (pm_unitPriceSnapshot m) (pm_price m)
        in sum + toCents price * quantity) 0 ms"

definition clampDiscountPercent :: "rat option \<Rightarrow> rat" where
  "clampDiscountPercent v = (case v of None \<Rightarrow> 0 | Some p \<Rightarrow> min 100 (max 0 p))"

definition readAttributeNumber :: "price_attribute \<Rightarrow> rat option" where
  "readAttributeNumber a =
     (case toFiniteNumber (pa_valueDecimal a) of
        Some x \<Rightarrow> Some x
      | None \<Rightarrow> (case toFiniteNumber (pa_valueInteger a) of
          Some x \<Rightarrow> Some x
        | None \<Rightarrow> toFiniteNumber (pa_valueString a)))"

definition readAttributeDate :: "price_attribute \<Rightarrow> time option" where
  "readAttributeDate a =
     (case (case pa_valueDateTime a of No_date \<Rightarrow> pa_stringDate a | d \<Rightarrow> d) of
        Date t \<Rightarrow> Some t | _ \<Rightarrow> None)"

definition rule_step :: "discount_rule \<Rightarrow> price_attribute \<Rightarrow> discount_rule" where
  "rule_step rule a =
     (let key = normalizeAttributeKey (pa_key a) in
      if key = ''discount'' then rule\<lparr>dr_percent := clampDiscountPercent (readAttributeNumber a)\<rparr>
      else if key = ''discountedprice'' then
        rule\<lparr>dr_price := (case readAttributeNumber a of None \<Rightarrow> None | Some x \<Rightarrow> if 0 \<le> x then Some x else None)\<rparr>
      else if key = ''discountstartat'' then rule\<lparr>dr_startAt := readAttributeDate a\<rparr>
      else if key = ''discountendat'' then rule\<lparr>dr_endAt := readAttributeDate a\<rparr>
      else rule)"

definition resolveDiscountRule :: "price_attribute list \<Rightarrow> discount_rule" where
  "resolveDiscountRule attributes =
     foldl rule_step \<lparr>dr_percent = 0, dr_price = None, dr_startAt = None, dr_endAt = None\<rparr> attributes"

definition isDiscountWindowActive :: "discount_rule \<Rightarrow> time \<Rightarrow> bool" where
  "isDiscountWindowActive rule now =
     ((case dr_startAt rule of None \<Rightarrow> True | Some t \<Rightarrow> t \<le> now) \<and>
      (case dr_endAt rule of None \<Rightarrow> True | Some t \<Rightarrow> now \<le> t))"

definition applyProductDiscountCents :: "int \<Rightarrow> price_attribute list \<Rightarrow> bool \<Rightarrow> time \<Rightarrow> int" where
  "applyProductDiscountCents base attributes canUseLegacyDiscountedPrice now =
     (if base \<le> 0 then base
      else
        let rule = resolveDiscountRule attributes in
        if \<not> isDiscountWindowActive rule now then base
        else if canUseLegacyDiscountedPrice \<and>
             (case dr_price rule of None \<Rightarrow> False | Some p \<Rightarrow> p < fromCents base)
        then min base (case dr_price rule of None \<Rightarrow> 0 | Some p \<Rightarrow> toCents (Finite p))
        else if dr_percent rule \<le> 0 then base
        else max 0 (js_round (fl (of_int base * fl (fl (100 - dr_percent rule) / 100)))))"

definition resolveDiscountPercent :: "int \<Rightarrow> int \<Rightarrow> int" where
  "resolveDiscountPercent base unit =
     (if base \<le> 0 \<or> unit \<ge> base then 0
      else js_round (fl (fl (of_int (base - unit) / of_int base) * 100)))"

definition price_of :: "js_value option \<Rightarrow> js_value" where
  "price_of p = (case p of None \<Rightarrow> Nullish | Some v \<Rightarrow> v)"

definition resolveLinePricing :: "price_line \<Rightarrow> line_pricing" where
  "resolveLinePricing i =
     (let quantity = max 0 (js_trunc (case pl_quantity i of None \<Rightarrow> 1 | Some q \<Rightarrow> q));
          baseItem = toCents (nullish_or (price_of (pl_saleUnit i))
                        (nullish_or (price_of (pl_variant i)) (pl_productPrice i)));
          modifiers = resolveModifierUnitTotalCents (pl_modifiers i);
          hasVariantOrSaleUnit = (pl_saleUnit i \<noteq> None \<or> pl_variant i \<noteq> None);
          discounted = applyProductDiscountCents baseItem (pl_attributes i) (\<not> hasVariantOrSaleUnit) (pl_now i);
          snapshot = (if pl_unitPriceSnapshot i = Nullish then None else Some (toCents (pl_unitPriceSnapshot i)));
          snapshotIsBase = (pl_snapshotIsBasePrice i \<and> snapshot \<noteq> None);
          base = (case snapshot of Some c \<Rightarrow> if pl_snapshotIsBasePrice i then c else baseItem | None \<Rightarrow> baseItem) + modifiers;
          unit = (case snapshot of Some c \<Rightarrow> c | None \<Rightarrow> discounted) + modifiers;
          total = unit * quantity;
          percent = (if snapshotIsBase then 0 else resolveDiscountPercent base unit)
      in \<lparr>baseUnitPrice = fromCents base, baseUnitPriceCents = base, unitPrice = fromCents unit,
          unitPriceCents = unit, discountPercent = percent, hasDiscount = (percent > 0),
          lineTotal = fromCents total, lineTotalCents = total, lp_quantity = quantity\<rparr>)"


section \<open>Lemmas\<close>

lemma toCents_nonneg [simp]: "0 \<le> toCents v"
  by (simp add: toCents_def split: option.splits)

lemma modifiers_nonneg: "0 \<le> resolveModifierUnitTotalCents ms"
proof -
  have "0 \<le> foldl (\<lambda>sum m. let quantity = max 1 (js_trunc (case toFiniteNumber (pm_quantity m) of None \<Rightarrow> 1 | Some q \<Rightarrow> q));
      price = nullish_or (pm_unitPriceSnapshot m) (pm_price m) in sum + toCents price * quantity) (n :: int) ms" if "0 \<le> n" for n
    using that by (induction ms arbitrary: n) (simp_all add: Let_def)
  then show ?thesis by (simp add: resolveModifierUnitTotalCents_def)
qed

text \<open>The percentage of a rule is between 0 and 100, whatever the attributes say.\<close>

lemma rule_percent_range: "0 \<le> dr_percent (resolveDiscountRule as) \<and> dr_percent (resolveDiscountRule as) \<le> 100"
proof -
  have "0 \<le> dr_percent (foldl rule_step r as) \<and> dr_percent (foldl rule_step r as) \<le> 100"
    if "0 \<le> dr_percent r \<and> dr_percent r \<le> 100" for r
    using that
  proof (induction as arbitrary: r)
    case (Cons a as)
    have "0 \<le> dr_percent (rule_step r a) \<and> dr_percent (rule_step r a) \<le> 100"
      using Cons.prems by (auto simp: rule_step_def Let_def clampDiscountPercent_def split: option.splits)
    with Cons.IH show ?case by simp
  qed simp
  then show ?thesis by (simp add: resolveDiscountRule_def)
qed

lemma discount_factor:
  assumes "0 \<le> p" "p \<le> 100"
  shows "0 \<le> fl (fl (100 - p) / 100)" "fl (fl (100 - p) / 100) \<le> 1"
proof -
  have "0 \<le> fl (100 - p)" "fl (100 - p) \<le> of_int 100"
    using assms fl_le_int [of "100 - p" 100] by (auto intro!: fl_nonneg)
  then show "0 \<le> fl (fl (100 - p) / 100)" "fl (fl (100 - p) / 100) \<le> 1"
    using fl_le_int [of "fl (100 - p) / 100" 1] by (auto intro!: fl_nonneg)
qed

text \<open>A discount never raises the price and never makes it negative.\<close>

lemma discount_range:
  assumes "base \<le> 9007199254740992"
  shows "applyProductDiscountCents base as legacy now \<le> base"
    and "0 \<le> base \<Longrightarrow> 0 \<le> applyProductDiscountCents base as legacy now"
proof -
  let ?p = "dr_percent (resolveDiscountRule as)"
  let ?f = "fl (fl (100 - ?p) / 100)"
  have percent: "max 0 (js_round (fl (of_int base * ?f))) \<le> base" if "0 < base"
  proof -
    have f: "0 \<le> ?f" "?f \<le> 1" using rule_percent_range [of as] by (auto intro: discount_factor)
    then have "of_int base * ?f \<le> of_int base" "0 \<le> of_int base * ?f"
      using that by (simp_all add: mult_left_le)
    then have "fl (of_int base * ?f) \<le> of_int base" using assms by (intro fl_le_int) auto
    from js_round_mono [OF this] that show ?thesis by simp
  qed
  then show "applyProductDiscountCents base as legacy now \<le> base"
    by (simp add: applyProductDiscountCents_def Let_def)
  show "0 \<le> applyProductDiscountCents base as legacy now" if "0 \<le> base"
    using that by (auto simp: applyProductDiscountCents_def Let_def split: option.splits)
qed

lemma percent_range:
  assumes "0 \<le> unit" "base \<le> 9007199254740992"
  shows "0 \<le> resolveDiscountPercent base unit" "resolveDiscountPercent base unit \<le> 100"
proof -
  let ?q = "of_int (base - unit) / of_int base :: rat"
  have "0 \<le> js_round (fl (fl ?q * 100)) \<and> js_round (fl (fl ?q * 100)) \<le> 100" if "0 < base" "unit < base"
  proof -
    have q: "0 \<le> ?q" "?q \<le> of_int 1" using that assms(1) by simp_all
    then have "0 \<le> fl ?q" "fl ?q \<le> of_int 1" using fl_nonneg fl_le_int [of ?q 1] by simp_all
    then have "0 \<le> fl ?q * 100" "fl ?q * 100 \<le> of_int 100" by simp_all
    then have "0 \<le> fl (fl ?q * 100)" "fl (fl ?q * 100) \<le> of_int 100"
      using fl_nonneg fl_le_int [of "fl ?q * 100" 100] by simp_all
    from js_round_nonneg [OF this(1)] js_round_mono [OF this(2)] js_round_int [of 100] show ?thesis by simp
  qed
  then show "0 \<le> resolveDiscountPercent base unit" "resolveDiscountPercent base unit \<le> 100"
    by (auto simp: resolveDiscountPercent_def)
qed

lemma percent_zero: "base \<le> unit \<Longrightarrow> resolveDiscountPercent base unit = 0"
  by (simp add: resolveDiscountPercent_def)

text \<open>The cents of a price with at most two decimals are read exactly.\<close>

lemma toCents_exact:
  assumes "0 \<le> c" "c \<le> 9007199254740992"
  shows "toCents (Finite (of_int c / 100)) = c"
  using assms fl_int [of c] by (simp add: toCents_def)

lemmas pricing_simps = resolveLinePricing_def Let_def

lemma pricing_fields:
  "lineTotalCents (resolveLinePricing i) = unitPriceCents (resolveLinePricing i) * lp_quantity (resolveLinePricing i)"
  "0 \<le> unitPriceCents (resolveLinePricing i)" "0 \<le> baseUnitPriceCents (resolveLinePricing i)"
  "0 \<le> lp_quantity (resolveLinePricing i)"
proof -
  have d: "0 \<le> applyProductDiscountCents b as l t" if "0 \<le> b" for b as l t
    using that by (auto simp: applyProductDiscountCents_def Let_def split: option.splits)
  show "lineTotalCents (resolveLinePricing i) = unitPriceCents (resolveLinePricing i) * lp_quantity (resolveLinePricing i)"
    "0 \<le> unitPriceCents (resolveLinePricing i)" "0 \<le> baseUnitPriceCents (resolveLinePricing i)"
    "0 \<le> lp_quantity (resolveLinePricing i)"
    using modifiers_nonneg [of "pl_modifiers i"] by (auto simp: pricing_simps intro!: add_nonneg_nonneg d split: option.splits)
qed

end
