(* ===== verification/Cart_Utils.thy ===== *)
theory Cart_Utils
  imports Price_Resolver
begin

text \<open>
  The pure part of the cart (\<^verbatim>\<open>modules/cart/cart.utils.ts\<close>): line keys, merging of lines that
  became equal, base quantities, prices and totals of the cart that is shown, and the normalisation of
  cart input.  Names, media and labels, which are copied through, are left out of the records.
  \<open>cmp\<close> stands for \<^verbatim>\<open>localeCompare\<close>.
\<close>


section \<open>Lines\<close>

datatype js_qty = Q_undefined | Q_null | Q_num int

record cart_modifier =
  cm_productModifierOptionId :: "string option"
  cm_quantity :: int
  cm_unitPriceSnapshot :: js_value

record sale_unit =
  su_baseQuantity :: js_value
  su_price :: js_value

record cart_line =
  k_id :: ident
  k_productId :: ident
  k_variantId :: "ident option"
  k_saleUnitId :: "ident option"
  k_modifierSignature :: "string option"
  k_quantity :: int
  k_baseQuantity :: js_qty
  k_unitPriceSnapshot :: js_value
  k_priceListId :: "ident option"
  k_guestSessionId :: "string option"
  k_variantPrice :: "js_value option"
  k_saleUnit :: "sale_unit option"
  k_modifiers :: "cart_modifier list"
  k_productPrice :: js_value
  k_attributes :: "price_attribute list"

record map_options =
  canUseProductVariants :: bool
  canUseCatalogSaleUnits :: bool
  canUseCatalogModifiers :: bool

definition trimToNull :: "string option \<Rightarrow> string option" where
  "trimToNull v = (case v of None \<Rightarrow> None | Some s \<Rightarrow> (let t = trim s in if t = [] then None else Some t))"

fun join_with :: "string \<Rightarrow> string list \<Rightarrow> string" where
  "join_with sep [] = []"
| "join_with sep [x] = x"
| "join_with sep (x # y # ys) = x @ sep @ join_with sep (y # ys)"

definition modifier_count :: "int \<Rightarrow> int" where
  "modifier_count q = max 1 (if q = 0 then 1 else q)"

definition buildModifierSignatureFromCartItem :: "cart_line \<Rightarrow> string" where
  "buildModifierSignatureFromCartItem item =
     join_with ''|'' (sort (List.map_filter (\<lambda>m. map_option
       (\<lambda>i. i @ ''x'' @ show_nat (nat (modifier_count (cm_quantity m))))
       (trimToNull (cm_productModifierOptionId m))) (k_modifiers item)))"

definition default_to :: "string option \<Rightarrow> string" where
  "default_to v = (case v of None \<Rightarrow> ''default'' | Some s \<Rightarrow> s)"

definition buildCartItemLineKey :: "map_options \<Rightarrow> cart_line \<Rightarrow> string" where
  "buildCartItemLineKey opts item =
     join_with '':'' [k_productId item,
       if canUseProductVariants opts then default_to (trimToNull (k_variantId item)) else ''default'',
       if canUseCatalogSaleUnits opts then default_to (trimToNull (k_saleUnitId item)) else ''default'',
       if canUseCatalogModifiers opts
         then (case trimToNull (k_modifierSignature item) of
                 Some s \<Rightarrow> s | None \<Rightarrow> buildModifierSignatureFromCartItem item)
         else ''default'',
       default_to (trimToNull (k_guestSessionId item))]"

fun mergeCartItemQuantity :: "js_qty \<Rightarrow> js_qty \<Rightarrow> js_qty" where
  "mergeCartItemQuantity Q_undefined Q_undefined = Q_undefined"
| "mergeCartItemQuantity Q_null Q_null = Q_null"
| "mergeCartItemQuantity l r =
     Q_num ((case l of Q_num n \<Rightarrow> n | _ \<Rightarrow> 0) + (case r of Q_num n \<Rightarrow> n | _ \<Rightarrow> 0))"

definition merge_into :: "cart_line \<Rightarrow> cart_line \<Rightarrow> cart_line" where
  "merge_into existing item =
     existing\<lparr>k_quantity := k_quantity existing + k_quantity item,
       k_baseQuantity := mergeCartItemQuantity (k_baseQuantity existing) (k_baseQuantity item),
       k_unitPriceSnapshot := nullish_or (k_unitPriceSnapshot existing) (k_unitPriceSnapshot item)\<rparr>"

definition merge_step :: "map_options \<Rightarrow> (string \<times> cart_line) list \<Rightarrow> cart_line \<Rightarrow> (string \<times> cart_line) list" where
  "merge_step opts m item =
     (let key = buildCartItemLineKey opts item in
      map_set key (case map_get m key of None \<Rightarrow> item | Some e \<Rightarrow> merge_into e item) m)"

definition mergeDuplicateCartItems :: "map_options \<Rightarrow> cart_line list \<Rightarrow> cart_line list" where
  "mergeDuplicateCartItems opts items = map snd (foldl (merge_step opts) [] items)"


section \<open>Quantities and prices\<close>

definition toNumber :: "js_value \<Rightarrow> rat" where
  "toNumber v = (case toFiniteNumber v of None \<Rightarrow> 0 | Some x \<Rightarrow> x)"

definition toOptionalMoney :: "js_value \<Rightarrow> rat option" where
  "toOptionalMoney v =
     map_option (\<lambda>x. fl (of_int (max 0 (js_round (fl (x * 100)))) / 100)) (toFiniteNumber v)"

definition resolveCartItemBaseQuantity :: "int \<Rightarrow> js_qty \<Rightarrow> sale_unit option \<Rightarrow> int" where
  "resolveCartItemBaseQuantity quantity baseQuantity saleUnit =
     (case baseQuantity of
        Q_num n \<Rightarrow> max 0 n
      | _ \<Rightarrow>
          let multiplier = (case saleUnit of None \<Rightarrow> 1 | Some u \<Rightarrow> toNumber (su_baseQuantity u))
          in max 0 \<lceil>fl (of_int quantity * (if multiplier > 0 then multiplier else 1))\<rceil>)"

definition modifier_price :: "cart_modifier \<Rightarrow> price_modifier" where
  "modifier_price m = \<lparr>pm_quantity = Finite (of_int (cm_quantity m)), pm_price = Nullish,
     pm_unitPriceSnapshot = cm_unitPriceSnapshot m\<rparr>"

definition resolveCartItemPricing :: "time \<Rightarrow> cart_line \<Rightarrow> line_pricing" where
  "resolveCartItemPricing now item =
     resolveLinePricing \<lparr>pl_productPrice = k_productPrice item, pl_attributes = k_attributes item,
       pl_variant = k_variantPrice item, pl_saleUnit = map_option su_price (k_saleUnit item),
       pl_modifiers = map modifier_price (k_modifiers item), pl_quantity = Some (of_int (k_quantity item)),
       pl_unitPriceSnapshot = k_unitPriceSnapshot item,
       pl_snapshotIsBasePrice = (case k_priceListId item of None \<Rightarrow> False | Some i \<Rightarrow> i \<noteq> []), pl_now = now\<rparr>"

definition shouldUseSnapshot :: "map_options \<Rightarrow> cart_line \<Rightarrow> bool" where
  "shouldUseSnapshot opts item =
     (toOptionalMoney (k_unitPriceSnapshot item) \<noteq> None \<and>
      ((case k_priceListId item of None \<Rightarrow> False | Some i \<Rightarrow> i \<noteq> []) \<or>
       ((canUseProductVariants opts \<or> k_variantId item = None \<or> k_variantId item = Some []) \<and>
        (canUseCatalogSaleUnits opts \<or> k_saleUnitId item = None \<or> k_saleUnitId item = Some []))))"

text \<open>The line as the catalog may show it, from which its price is computed.\<close>

definition pricing_source :: "map_options \<Rightarrow> cart_line \<Rightarrow> cart_line" where
  "pricing_source opts item =
     item\<lparr>k_unitPriceSnapshot := (if shouldUseSnapshot opts item then k_unitPriceSnapshot item else Nullish),
       k_variantPrice := (if canUseProductVariants opts then k_variantPrice item else None),
       k_saleUnit := (if canUseCatalogSaleUnits opts then k_saleUnit item else None),
       k_modifiers := (if canUseCatalogModifiers opts then k_modifiers item else [])\<rparr>"

record line_view =
  lv_id :: ident
  lv_productId :: ident
  lv_variantId :: "ident option"
  lv_saleUnitId :: "ident option"
  lv_quantity :: int
  lv_baseQuantity :: int
  lv_unitPriceSnapshot :: "rat option"
  lv_price :: "rat option"
  lv_pricing :: line_pricing

record cart_totals =
  itemsCount :: int
  baseSubtotal :: rat
  discountTotal :: rat
  ct_hasDiscount :: bool
  subtotal :: rat
  ct_total :: rat

definition line_view_of :: "map_options \<Rightarrow> time \<Rightarrow> cart_line \<Rightarrow> line_view" where
  "line_view_of opts now item =
     (let src = pricing_source opts item; pricing = resolveCartItemPricing now src;
          snapshot = (if shouldUseSnapshot opts item then toOptionalMoney (k_unitPriceSnapshot item) else None);
          known = toOptionalMoney (case snapshot of
              Some p \<Rightarrow> Finite p
            | None \<Rightarrow> nullish_or (price_of (map_option su_price (k_saleUnit src)))
                (nullish_or (price_of (k_variantPrice src)) (k_productPrice item))) \<noteq> None
      in \<lparr>lv_id = k_id item, lv_productId = k_productId item,
          lv_variantId = (if canUseProductVariants opts then k_variantId item else None),
          lv_saleUnitId = (if canUseCatalogSaleUnits opts then k_saleUnitId item else None),
          lv_quantity = k_quantity item,
          lv_baseQuantity = resolveCartItemBaseQuantity (k_quantity item)
             (if k_saleUnit src = None then Q_null else k_baseQuantity item) (k_saleUnit src),
          lv_unitPriceSnapshot = snapshot, lv_price = (if known then Some (unitPrice pricing) else None),
          lv_pricing = pricing\<rparr>)"

definition cart_totals_of :: "line_view list \<Rightarrow> cart_totals" where
  "cart_totals_of lines =
     (let base = sum_list (map (\<lambda>l. baseUnitPriceCents (lv_pricing l) * lv_quantity l) lines);
          sub = sum_list (map (\<lambda>l. lineTotalCents (lv_pricing l)) lines);
          baseSub = fl (of_int base / 100); subTotal = fl (of_int sub / 100)
      in \<lparr>itemsCount = sum_list (map lv_quantity lines), baseSubtotal = baseSub,
          discountTotal = max 0 (fl (baseSub - subTotal)), ct_hasDiscount = (baseSub > subTotal),
          subtotal = subTotal, ct_total = subTotal\<rparr>)"

definition mapCartEntity :: "map_options \<Rightarrow> time \<Rightarrow> cart_line list \<Rightarrow> line_view list \<times> cart_totals" where
  "mapCartEntity opts now items =
     (let lines = map (line_view_of opts now) (mergeDuplicateCartItems opts items)
      in (lines, cart_totals_of lines))"


section \<open>Input\<close>

datatype cart_input_error = Product_required | Quantity_invalid | Modifier_group_missing
  | Modifier_option_missing | Modifier_quantity_invalid

record modifier_input =
  mi_group :: string
  mi_option :: string
  mi_quantity :: "js_num option"

record normalized_modifier =
  nm_group :: string
  nm_option :: string
  nm_quantity :: int

record item_input =
  ii_productId :: string
  ii_variantId :: "string option"
  ii_saleUnitId :: "string option"
  ii_quantity :: js_num
  ii_guestSessionId :: "string option"
  ii_guestName :: "string option"
  ii_modifiers :: "modifier_input list"

record normalized_item =
  ni_productId :: string
  ni_variantId :: "string option"
  ni_saleUnitId :: "string option"
  ni_quantity :: int
  ni_guestSessionId :: "string option"
  ni_guestName :: "string option"
  ni_modifiers :: "normalized_modifier list"

definition cart_optional_text :: "string option \<Rightarrow> nat \<Rightarrow> string option" where
  "cart_optional_text v maxLength = map_option (take maxLength) (trimToNull v)"

definition modifier_step ::
    "(string \<times> normalized_modifier) list \<Rightarrow> modifier_input \<Rightarrow> cart_input_error + (string \<times> normalized_modifier) list" where
  "modifier_step m i =
     (let g = trim (mi_group i); opt = trim (mi_option i);
          q = (case mi_quantity i of None \<Rightarrow> Int_num 1 | Some q \<Rightarrow> q)
      in if g = [] then Inl Modifier_group_missing
         else if opt = [] then Inl Modifier_option_missing
         else case q of
           Non_integer \<Rightarrow> Inl Modifier_quantity_invalid
         | Int_num n \<Rightarrow>
             if n < 1 then Inl Modifier_quantity_invalid
             else let key = g @ '':'' @ opt in
               Inr (map_set key (case map_get m key of
                   Some c \<Rightarrow> c\<lparr>nm_quantity := nm_quantity c + n\<rparr>
                 | None \<Rightarrow> \<lparr>nm_group = g, nm_option = opt, nm_quantity = n\<rparr>) m))"

definition normalizeCartItemModifiers ::
    "(string \<Rightarrow> string \<Rightarrow> int) \<Rightarrow> modifier_input list \<Rightarrow> cart_input_error + normalized_modifier list" where
  "normalizeCartItemModifiers cmp modifiers =
     bindE (foldE modifier_step [] modifiers)
       (\<lambda>m. Inr (sort_by (\<lambda>l r. let c = cmp (nm_group l) (nm_group r) in
                if c \<noteq> 0 then c else cmp (nm_option l) (nm_option r)) (map snd m)))"

definition normalizeCartItemInput ::
    "(string \<Rightarrow> string \<Rightarrow> int) \<Rightarrow> item_input \<Rightarrow> cart_input_error + normalized_item" where
  "normalizeCartItemInput cmp i =
     bindE (normalizeCartItemModifiers cmp (ii_modifiers i))
       (\<lambda>ms. if trim (ii_productId i) = [] then Inl Product_required
         else case ii_quantity i of
           Non_integer \<Rightarrow> Inl Quantity_invalid
         | Int_num n \<Rightarrow>
             if n < 0 then Inl Quantity_invalid
             else Inr \<lparr>ni_productId = trim (ii_productId i), ni_variantId = trimToNull (ii_variantId i),
               ni_saleUnitId = trimToNull (ii_saleUnitId i), ni_quantity = n,
               ni_guestSessionId = cart_optional_text (ii_guestSessionId i) 64,
               ni_guestName = cart_optional_text (ii_guestName i) 120, ni_modifiers = ms\<rparr>)"

end
