(* ===== verification/Cart_Pricing.thy ===== *)
theory Cart_Pricing
  imports Cart_Utils
begin

text \<open>
  Properties of prices, merged lines and cart totals.
\<close>

section \<open>Merging\<close>

text \<open>Merging changes no field the key is built from.\<close>

lemma merge_into_key [simp]: "buildCartItemLineKey opts (merge_into e i) = buildCartItemLineKey opts e"
  by (simp add: merge_into_def buildCartItemLineKey_def buildModifierSignatureFromCartItem_def cong: option.case_cong)

lemma merge_into_quantity [simp]: "k_quantity (merge_into e i) = k_quantity e + k_quantity i"
  by (simp add: merge_into_def)

definition lines_keyed :: "map_options \<Rightarrow> (string \<times> cart_line) list \<Rightarrow> bool" where
  "lines_keyed opts m \<longleftrightarrow>
     distinct (map fst m) \<and> list_all (\<lambda>p. buildCartItemLineKey opts (snd p) = fst p) m"

lemma map_get_keyed: "list_all (\<lambda>p. f (snd p) = fst p) m \<Longrightarrow> map_get m k = Some v \<Longrightarrow> f v = k"
  by (auto simp: map_get_def list_all_iff dest!: map_of_SomeD)

lemma list_all_map_set: "list_all P m \<Longrightarrow> P (k, v) \<Longrightarrow> list_all P (map_set k v m)"
  by (induction m) auto

lemma merge_step_keyed:
  assumes "lines_keyed opts m"
  shows "lines_keyed opts (merge_step opts m item)"
proof -
  let ?k = "buildCartItemLineKey opts item"
  let ?v = "case map_get m ?k of None \<Rightarrow> item | Some e \<Rightarrow> merge_into e item"
  have "buildCartItemLineKey opts ?v = ?k"
    using assms unfolding lines_keyed_def by (auto intro: map_get_keyed split: option.splits)
  with assms show ?thesis
    by (simp add: lines_keyed_def merge_step_def Let_def distinct_map_set list_all_map_set)
qed

lemma merge_keyed: "lines_keyed opts (foldl (merge_step opts) [] items)"
  by (induction items rule: rev_induct) (simp_all add: merge_step_keyed, simp add: lines_keyed_def)

text \<open>A sum over the values of a map changes by the new value less the old one.\<close>

lemma sum_map_set:
  fixes f :: "'v \<Rightarrow> int"
  assumes "distinct (map fst m)"
  shows "sum_list (map (\<lambda>p. f (snd p)) (map_set k v m)) =
    sum_list (map (\<lambda>p. f (snd p)) m) + f v - (case map_get m k of None \<Rightarrow> 0 | Some w \<Rightarrow> f w)"
  using assms
proof (induction m)
  case (Cons p m)
  obtain k' v' where p: "p = (k', v')" by (cases p)
  have "map_get m k' = None" using Cons.prems p by (auto simp: map_get_def map_of_eq_None_iff)
  with Cons p show ?case by (auto simp: map_get_def)
qed (simp add: map_get_def)

lemma sum_where_if: "sum_where P f xs = sum_list (map (\<lambda>x. if P x then f x else 0) xs)"
  by (induction xs) (simp_all add: table_simps)

lemma merged_sum:
  "sum_where P k_quantity (mergeDuplicateCartItems opts items) = sum_where P k_quantity items"
  if P: "\<And>a b. buildCartItemLineKey opts a = buildCartItemLineKey opts b \<Longrightarrow> P a = P b"
proof (induction items rule: rev_induct)
  case (snoc item items)
  let ?m = "foldl (merge_step opts) [] items" and ?k = "buildCartItemLineKey opts item"
  let ?f = "\<lambda>v. if P v then k_quantity v else 0"
  have keyed: "lines_keyed opts ?m" by (rule merge_keyed)
  have key: "buildCartItemLineKey opts e = ?k" if "map_get ?m ?k = Some e" for e
    using keyed that unfolding lines_keyed_def by (blast intro: map_get_keyed)
  have d: "distinct (map fst ?m)" using keyed by (simp add: lines_keyed_def)
  have "sum_list (map (\<lambda>p. ?f (snd p)) (merge_step opts ?m item)) = sum_list (map (\<lambda>p. ?f (snd p)) ?m) + ?f item"
  proof (cases "map_get ?m ?k")
    case None
    with sum_map_set [OF d, of ?f ?k item] show ?thesis by (simp add: merge_step_def Let_def)
  next
    case (Some e)
    have "P e = P item" "P (merge_into e item) = P item" using P [of e item] P [of "merge_into e item" item] key [OF Some] by simp_all
    with Some sum_map_set [OF d, of ?f ?k "merge_into e item"] show ?thesis by (simp add: merge_step_def Let_def)
  qed
  with snoc show ?case
    by (simp add: mergeDuplicateCartItems_def sum_where_append table_simps sum_where_if comp_def)
qed (simp add: mergeDuplicateCartItems_def)

lemma merged_keys:
  "distinct (map (buildCartItemLineKey opts) (mergeDuplicateCartItems opts items))"
  "buildCartItemLineKey opts ` set (mergeDuplicateCartItems opts items) = buildCartItemLineKey opts ` set items"
proof -
  let ?m = "foldl (merge_step opts) [] items"
  have eq: "map (buildCartItemLineKey opts) (map snd ?m) = map fst ?m"
    using merge_keyed [of opts items] by (auto simp: lines_keyed_def list_all_iff)
  with merge_keyed [of opts items] show "distinct (map (buildCartItemLineKey opts) (mergeDuplicateCartItems opts items))"
    by (simp only: mergeDuplicateCartItems_def lines_keyed_def)
  have "fst ` set ?m = buildCartItemLineKey opts ` set items"
    by (induction items rule: rev_induct) (simp_all add: merge_step_def Let_def keys_map_set)
  with eq show "buildCartItemLineKey opts ` set (mergeDuplicateCartItems opts items) = buildCartItemLineKey opts ` set items"
    by (metis mergeDuplicateCartItems_def set_map)
qed

text \<open>Lines with different keys are left as they are, in their order.\<close>

lemma merge_distinct:
  assumes "distinct (map (buildCartItemLineKey opts) items)"
  shows "mergeDuplicateCartItems opts items = items"
proof -
  have "foldl (merge_step opts) [] items = map (\<lambda>i. (buildCartItemLineKey opts i, i)) items"
    using assms
  proof (induction items rule: rev_induct)
    case (snoc item items)
    let ?m = "map (\<lambda>i. (buildCartItemLineKey opts i, i)) items" and ?k = "buildCartItemLineKey opts item"
    have new: "?k \<notin> fst ` set m \<Longrightarrow> map_set ?k item m = m @ [(?k, item)]" for m
      by (induction m) auto
    have "?k \<notin> fst ` set ?m" using snoc.prems by auto
    then have "map_get ?m ?k = None" "map_set ?k item ?m = ?m @ [(?k, item)]"
      by (simp_all add: map_get_def map_of_eq_None_iff new)
    with snoc show ?case by (simp add: merge_step_def Let_def)
  qed simp
  then show ?thesis by (simp add: mergeDuplicateCartItems_def comp_def)
qed


section \<open>Totals\<close>

abbreviation max_exact :: int where "max_exact \<equiv> 9007199254740992"

text \<open>A line priced without a snapshot costs at most its base price.\<close>

lemma unit_le_base:
  assumes "pl_unitPriceSnapshot i = Nullish" "baseUnitPriceCents (resolveLinePricing i) \<le> max_exact"
  shows "unitPriceCents (resolveLinePricing i) \<le> baseUnitPriceCents (resolveLinePricing i)"
proof -
  let ?b = "toCents (nullish_or (price_of (pl_saleUnit i)) (nullish_or (price_of (pl_variant i)) (pl_productPrice i)))"
  have "?b \<le> max_exact"
    using assms modifiers_nonneg [of "pl_modifiers i"] by (simp add: pricing_simps)
  from discount_range(1) [OF this] show ?thesis using assms(1) by (simp add: pricing_simps)
qed

lemma fl_cents_mono: "0 \<le> a \<Longrightarrow> a \<le> b \<Longrightarrow> fl (of_int a / 100) \<le> fl (of_int b / 100)"
  by (intro fl_mono) (simp_all add: divide_right_mono)

lemma sum_list_le: "(\<And>x. x \<in> set xs \<Longrightarrow> f x \<le> (g x :: int)) \<Longrightarrow> sum_list (map f xs) \<le> sum_list (map g xs)"
  by (induction xs) (auto intro: add_mono)

lemma line_quantity: "0 \<le> k_quantity item \<Longrightarrow> lp_quantity (resolveCartItemPricing now item) = k_quantity item"
  by (simp add: resolveCartItemPricing_def pricing_simps js_trunc_def)


section \<open>Properties\<close>

text \<open>
  C30. The price of a line that has no stored price: it is not negative, a discount never raises it
  above the base price, the shown percentage is between 0 and 100 and is positive only when the line
  is really cheaper, and the total is the unit price times the quantity.  Attributes of any content,
  out-of-range percentages and rounding of fractions are included.
\<close>

theorem line_price_bounds:
  assumes "pl_unitPriceSnapshot i = Nullish" "baseUnitPriceCents (resolveLinePricing i) \<le> max_exact"
  shows "0 \<le> unitPriceCents (resolveLinePricing i) \<and>
    unitPriceCents (resolveLinePricing i) \<le> baseUnitPriceCents (resolveLinePricing i) \<and>
    0 \<le> discountPercent (resolveLinePricing i) \<and> discountPercent (resolveLinePricing i) \<le> 100 \<and>
    (hasDiscount (resolveLinePricing i) \<longrightarrow>
      unitPriceCents (resolveLinePricing i) < baseUnitPriceCents (resolveLinePricing i)) \<and>
    lineTotalCents (resolveLinePricing i) = unitPriceCents (resolveLinePricing i) * lp_quantity (resolveLinePricing i)"
proof -
  let ?r = "resolveLinePricing i"
  have pct: "discountPercent ?r = resolveDiscountPercent (baseUnitPriceCents ?r) (unitPriceCents ?r)"
    and dis: "hasDiscount ?r = (0 < discountPercent ?r)"
    using assms(1) by (simp_all add: pricing_simps)
  have "unitPriceCents ?r < baseUnitPriceCents ?r" if "hasDiscount ?r"
    using that pct dis percent_zero [of "baseUnitPriceCents ?r" "unitPriceCents ?r"]
    by (cases "baseUnitPriceCents ?r \<le> unitPriceCents ?r") simp_all
  then show ?thesis
    using pricing_fields [of i] unit_le_base [OF assms] percent_range [OF pricing_fields(2) assms(2)] pct by simp
qed

definition demo_price_line :: price_line where
  "demo_price_line = \<lparr>pl_productPrice = Finite 200, pl_attributes = [\<lparr>pa_key = Some ''Discount'',
       pa_valueDecimal = Finite 250, pa_valueInteger = Nullish, pa_valueString = Nullish, pa_valueDateTime = No_date,
       pa_stringDate = No_date\<rparr>], pl_variant = None, pl_saleUnit = None, pl_modifiers = [], pl_quantity = Some 3,
     pl_unitPriceSnapshot = Nullish, pl_snapshotIsBasePrice = False, pl_now = 0\<rparr>"

theorem line_price_bounds_witness:
  "unitPriceCents (resolveLinePricing demo_price_line) \<le> 20000 \<and>
   0 \<le> lineTotalCents (resolveLinePricing demo_price_line)"
proof -
  have "baseUnitPriceCents (resolveLinePricing demo_price_line) = 20000"
    using toCents_exact [of 20000]
    by (simp add: demo_price_line_def pricing_simps price_of_def resolveModifierUnitTotalCents_def)
  moreover have "pl_unitPriceSnapshot demo_price_line = Nullish" by (simp add: demo_price_line_def)
  moreover have "0 \<le> lp_quantity (resolveLinePricing demo_price_line)" by (rule pricing_fields)
  ultimately show ?thesis using line_price_bounds [of demo_price_line] by simp
qed

text \<open>
  A stored price is final: a line with a price snapshot costs the same whatever happens to the
  price of its product, variant or sale unit, to the discount attributes, and whenever it is shown.
\<close>

theorem snapshot_freezes_price:
  assumes "pl_unitPriceSnapshot i = Finite p"
  shows "unitPriceCents (resolveLinePricing (i\<lparr>pl_productPrice := a, pl_attributes := as, pl_variant := v,
      pl_saleUnit := u, pl_now := t\<rparr>)) = toCents (Finite p) + resolveModifierUnitTotalCents (pl_modifiers i) \<and>
    lineTotalCents (resolveLinePricing (i\<lparr>pl_productPrice := a, pl_attributes := as, pl_variant := v,
      pl_saleUnit := u, pl_now := t\<rparr>)) = lineTotalCents (resolveLinePricing i)"
  using assms by (simp add: pricing_simps)

theorem snapshot_freezes_price_witness:
  "unitPriceCents (resolveLinePricing (demo_price_line\<lparr>pl_unitPriceSnapshot := Finite 150, pl_productPrice := Finite 999\<rparr>)) = 15000"
proof -
  let ?i = "demo_price_line\<lparr>pl_unitPriceSnapshot := Finite 150\<rparr>"
  have "?i\<lparr>pl_productPrice := Finite 999, pl_attributes := pl_attributes ?i, pl_variant := pl_variant ?i,
      pl_saleUnit := pl_saleUnit ?i, pl_now := pl_now ?i\<rparr> =
      demo_price_line\<lparr>pl_unitPriceSnapshot := Finite 150, pl_productPrice := Finite 999\<rparr>"
    by (simp add: demo_price_line_def)
  then show ?thesis
    using snapshot_freezes_price [where i = ?i and p = 150 and a = "Finite 999" and as = "pl_attributes ?i" and
        v = "pl_variant ?i" and u = "pl_saleUnit ?i" and t = "pl_now ?i"]
      toCents_exact [of 15000]
    by (simp add: demo_price_line_def resolveModifierUnitTotalCents_def)
qed

text \<open>
  C32. Merging the lines of a cart loses nothing: the merged lines have different keys, exactly the keys
  of the given lines, the quantity of a merged line is the sum of the quantities of the lines with
  its key, and merging again changes nothing.
\<close>

theorem merge_keeps_quantities:
  "distinct (map (buildCartItemLineKey opts) (mergeDuplicateCartItems opts items)) \<and>
   buildCartItemLineKey opts ` set (mergeDuplicateCartItems opts items) = buildCartItemLineKey opts ` set items \<and>
   sum_where (\<lambda>i. buildCartItemLineKey opts i = key) k_quantity (mergeDuplicateCartItems opts items) =
     sum_where (\<lambda>i. buildCartItemLineKey opts i = key) k_quantity items \<and>
   mergeDuplicateCartItems opts (mergeDuplicateCartItems opts items) = mergeDuplicateCartItems opts items"
  using merged_keys [of opts items] merged_sum [of opts "\<lambda>i. buildCartItemLineKey opts i = key" items]
    merge_distinct [OF merged_keys(1), of opts items] by simp

text \<open>
  The totals of a shown cart: the item count is the number of items in the cart, whichever lines
  were merged, and while no line has a stored price the subtotal is at most the base subtotal.
\<close>

theorem cart_totals_bounds:
  assumes "mapCartEntity opts now items = (lines, totals)"
    and "\<forall>i\<in>set items. 0 \<le> k_quantity i"
    and "\<forall>l\<in>set lines. baseUnitPriceCents (lv_pricing l) \<le> max_exact \<and> lv_unitPriceSnapshot l = None"
  shows "itemsCount totals = sum_list (map k_quantity items) \<and> 0 \<le> subtotal totals \<and>
    subtotal totals \<le> baseSubtotal totals \<and> 0 \<le> discountTotal totals \<and> ct_total totals = subtotal totals"
proof -
  let ?ms = "mergeDuplicateCartItems opts items"
  have lines: "lines = map (line_view_of opts now) ?ms" and totals: "totals = cart_totals_of lines"
    using assms(1) by (auto simp: mapCartEntity_def Let_def)
  have count: "itemsCount totals = sum_list (map k_quantity items)"
    using merged_sum [of opts "\<lambda>_. True" items]
    by (simp add: totals lines cart_totals_of_def Let_def line_view_of_def comp_def sum_where_def)
  have q: "0 \<le> k_quantity m" if "m \<in> set ?ms" for m
  proof -
    have "0 \<le> sum_where (\<lambda>i. buildCartItemLineKey opts i = buildCartItemLineKey opts m) k_quantity items"
      using assms(2) by (intro sum_where_nonneg) blast
    then show ?thesis
      using merged_sum [of opts "\<lambda>i. buildCartItemLineKey opts i = buildCartItemLineKey opts m" items]
        sum_where_unique_key [OF merged_keys(1) that] by simp
  qed
  have line: "0 \<le> lineTotalCents (lv_pricing l) \<and> lineTotalCents (lv_pricing l) \<le> baseUnitPriceCents (lv_pricing l) * lv_quantity l"
    if "l \<in> set lines" for l
  proof -
    from that lines obtain m where m: "m \<in> set ?ms" "l = line_view_of opts now m" by auto
    let ?src = "pricing_source opts m"
    have lv: "lv_pricing l = resolveCartItemPricing now ?src" "lv_quantity l = k_quantity m"
      by (simp_all add: m(2) line_view_of_def Let_def)
    have "lv_unitPriceSnapshot l = None" using assms(3) that by blast
    then have "k_unitPriceSnapshot ?src = Nullish"
      by (auto simp: m(2) line_view_of_def Let_def pricing_source_def shouldUseSnapshot_def split: if_splits)
    moreover have "baseUnitPriceCents (resolveCartItemPricing now ?src) \<le> max_exact"
      using assms(3) that unfolding lv(1) [symmetric] by blast
    ultimately have "unitPriceCents (lv_pricing l) \<le> baseUnitPriceCents (lv_pricing l)"
      unfolding lv(1) resolveCartItemPricing_def by (intro unit_le_base) simp_all
    moreover have "lp_quantity (lv_pricing l) = k_quantity m"
      using q [OF m(1)] line_quantity [of ?src now] by (simp add: lv pricing_source_def)
    moreover have "0 \<le> unitPriceCents (lv_pricing l)"
      "lineTotalCents (lv_pricing l) = unitPriceCents (lv_pricing l) * lp_quantity (lv_pricing l)"
      unfolding lv(1) resolveCartItemPricing_def by (rule pricing_fields)+
    ultimately show ?thesis using q [OF m(1)] lv(2) by (simp add: mult_right_mono)
  qed
  have "0 \<le> sum_list (map (\<lambda>l. lineTotalCents (lv_pricing l)) lines)"
    using line by (intro sum_list_nonneg) auto
  moreover have "sum_list (map (\<lambda>l. lineTotalCents (lv_pricing l)) lines) \<le>
      sum_list (map (\<lambda>l. baseUnitPriceCents (lv_pricing l) * lv_quantity l) lines)"
    using line by (intro sum_list_le) blast
  ultimately have "0 \<le> subtotal totals" "subtotal totals \<le> baseSubtotal totals"
    using fl_cents_mono by (auto simp: totals cart_totals_of_def Let_def intro!: fl_nonneg)
  with count show ?thesis by (simp add: totals cart_totals_of_def Let_def)
qed

definition demo_cart_line :: "ident \<Rightarrow> int \<Rightarrow> cart_line" where
  "demo_cart_line i q = \<lparr>k_id = i, k_productId = ''p'', k_variantId = None, k_saleUnitId = None, k_modifierSignature = None,
     k_quantity = q, k_baseQuantity = Q_null, k_unitPriceSnapshot = Nullish, k_priceListId = None, k_guestSessionId = None,
     k_variantPrice = None, k_saleUnit = None, k_modifiers = [], k_productPrice = Finite 100, k_attributes = []\<rparr>"

definition demo_options :: map_options where
  "demo_options = \<lparr>canUseProductVariants = True, canUseCatalogSaleUnits = True, canUseCatalogModifiers = True\<rparr>"

theorem cart_totals_bounds_witness:
  "length (fst (mapCartEntity demo_options 0 [demo_cart_line ''a'' 2, demo_cart_line ''b'' 3])) = 1 \<and>
   itemsCount (snd (mapCartEntity demo_options 0 [demo_cart_line ''a'' 2, demo_cart_line ''b'' 3])) = 5"
proof -
  let ?items = "[demo_cart_line ''a'' 2, demo_cart_line ''b'' 3]"
  let ?c = "mapCartEntity demo_options 0 ?items"
  have merged: "mergeDuplicateCartItems demo_options ?items = [merge_into (demo_cart_line ''a'' 2) (demo_cart_line ''b'' 3)]"
    by code_simp
  have lines: "fst ?c = [line_view_of demo_options 0 (merge_into (demo_cart_line ''a'' 2) (demo_cart_line ''b'' 3))]"
    by (simp add: mapCartEntity_def Let_def merged)
  have "\<forall>l\<in>set (fst ?c). baseUnitPriceCents (lv_pricing l) \<le> max_exact \<and> lv_unitPriceSnapshot l = None"
    using toCents_exact [of 10000] unfolding lines
    by (simp add: line_view_of_def Let_def pricing_source_def shouldUseSnapshot_def toOptionalMoney_def demo_cart_line_def
        demo_options_def merge_into_def resolveCartItemPricing_def pricing_simps price_of_def resolveModifierUnitTotalCents_def)
  moreover have "\<forall>i\<in>set ?items. 0 \<le> k_quantity i" by (simp add: demo_cart_line_def)
  ultimately have "itemsCount (snd ?c) = sum_list (map k_quantity ?items)"
    using cart_totals_bounds [of demo_options 0 ?items "fst ?c" "snd ?c"] by simp
  then show ?thesis using lines by (simp add: demo_cart_line_def)
qed

end
