(* ===== verification/Cart_Input.thy ===== *)
theory Cart_Input
  imports Cart_Pricing
begin

text \<open>
  Normalisation of cart input: which requests are accepted, and what becomes of the modifiers.
\<close>

section \<open>Lemmas\<close>

lemma sum_insert_by: "sum_where P f (insert_by cmp x xs) = (if P x then f x else 0) + sum_where P f xs"
  by (induction xs) (simp_all add: table_simps)

lemma sum_sort_by: "sum_where P f (sort_by cmp xs) = sum_where P f xs"
  by (induction xs) (simp_all add: sort_by_def table_simps sum_insert_by)

lemma set_insert_by [simp]: "set (insert_by cmp x xs) = insert x (set xs)"
  by (induction xs) auto

lemma set_sort_by [simp]: "set (sort_by cmp xs) = set xs"
  by (induction xs) (simp_all add: sort_by_def)

lemma distinct_insert_by: "distinct (map key (insert_by cmp x xs)) \<longleftrightarrow> distinct (key x # map key xs)"
  by (induction xs) auto

lemma distinct_sort_by: "distinct (map key (sort_by cmp xs)) \<longleftrightarrow> distinct (map key xs)"
proof (induction xs)
  case (Cons x xs)
  have "set (foldr (insert_by cmp) xs []) = set xs" using set_sort_by [of cmp xs] by (simp add: sort_by_def)
  with Cons show ?case by (simp add: sort_by_def distinct_insert_by)
qed (simp add: sort_by_def)

definition modifier_count_of :: "modifier_input \<Rightarrow> int" where
  "modifier_count_of i = (case mi_quantity i of Some (Int_num n) \<Rightarrow> n | Some Non_integer \<Rightarrow> 0 | None \<Rightarrow> 1)"

definition modifier_input_ok :: "modifier_input \<Rightarrow> bool" where
  "modifier_input_ok i \<longleftrightarrow> trim (mi_group i) \<noteq> [] \<and> trim (mi_option i) \<noteq> [] \<and> 1 \<le> modifier_count_of i"

definition input_key :: "modifier_input \<Rightarrow> string" where
  "input_key i = trim (mi_group i) @ '':'' @ trim (mi_option i)"

definition normalized_key :: "normalized_modifier \<Rightarrow> string" where
  "normalized_key m = nm_group m @ '':'' @ nm_option m"

definition modifiers_keyed :: "(string \<times> normalized_modifier) list \<Rightarrow> bool" where
  "modifiers_keyed m \<longleftrightarrow> distinct (map fst m) \<and>
     list_all (\<lambda>p. normalized_key (snd p) = fst p) m \<and> list_all (\<lambda>p. 1 \<le> nm_quantity (snd p)) m"

definition add_modifier :: "(string \<times> normalized_modifier) list \<Rightarrow> modifier_input \<Rightarrow> normalized_modifier" where
  "add_modifier m i =
     (case map_get m (input_key i) of
        Some c \<Rightarrow> c\<lparr>nm_quantity := nm_quantity c + modifier_count_of i\<rparr>
      | None \<Rightarrow> \<lparr>nm_group = trim (mi_group i), nm_option = trim (mi_option i), nm_quantity = modifier_count_of i\<rparr>)"

lemma modifier_step_ok:
  "modifier_input_ok i \<Longrightarrow> modifier_step m i = Inr (map_set (input_key i) (add_modifier m i) m)"
  by (auto simp: modifier_step_def Let_def modifier_input_ok_def modifier_count_of_def input_key_def add_modifier_def
      split: option.splits js_num.splits)

lemma modifier_step_bad: "\<not> modifier_input_ok i \<Longrightarrow> \<exists>e. modifier_step m i = Inl e"
  by (auto simp: modifier_step_def Let_def modifier_input_ok_def modifier_count_of_def
      split: option.splits js_num.splits)

lemma modifier_step_keyed:
  assumes "modifiers_keyed m" "modifier_step m i = Inr m'"
  shows "modifiers_keyed m' \<and>
    sum_list (map (\<lambda>p. if fst p = k then nm_quantity (snd p) else 0) m') =
    sum_list (map (\<lambda>p. if fst p = k then nm_quantity (snd p) else 0) m) + (if input_key i = k then modifier_count_of i else 0)"
proof -
  let ?k = "input_key i"
  let ?v = "add_modifier m i"
  have ok: "modifier_input_ok i" using assms(2) modifier_step_bad [of i m] by (cases "modifier_input_ok i") auto
  have m': "m' = map_set ?k ?v m" using assms(2) modifier_step_ok [OF ok, of m] by simp
  have mem: "normalized_key c = ?k \<and> 1 \<le> nm_quantity c" if "map_get m ?k = Some c" for c
    using assms(1) that by (auto simp: modifiers_keyed_def list_all_iff map_get_def dest!: map_of_SomeD)
  have v: "normalized_key ?v = ?k" "1 \<le> nm_quantity ?v"
    using ok mem by (auto simp: add_modifier_def modifier_input_ok_def input_key_def normalized_key_def split: option.splits)
  have d: "distinct (map fst m)" using assms(1) by (simp add: modifiers_keyed_def)
  have sum: "sum_list (map (\<lambda>p. if fst p = k then nm_quantity (snd p) else 0) (map_set ?k w m)) =
      sum_list (map (\<lambda>p. if fst p = k then nm_quantity (snd p) else 0) m) +
      (if ?k = k then nm_quantity w - (case map_get m ?k of None \<Rightarrow> 0 | Some c \<Rightarrow> nm_quantity c) else 0)" for w
    using d
  proof (induction m)
    case (Cons p m)
    obtain k' v' where p: "p = (k', v')" by (cases p)
    have "map_get m k' = None" using Cons.prems p by (auto simp: map_get_def map_of_eq_None_iff)
    with Cons p show ?case by (auto simp: map_get_def)
  qed (simp add: map_get_def)
  have "nm_quantity ?v - (case map_get m ?k of None \<Rightarrow> 0 | Some c \<Rightarrow> nm_quantity c) = modifier_count_of i"
    by (simp add: add_modifier_def split: option.split)
  note sum [of ?v, unfolded this]
  with v d assms(1) show ?thesis
    unfolding m' by (simp add: modifiers_keyed_def distinct_map_set list_all_map_set)
qed

lemma modifiers_loop:
  assumes "foldE modifier_step m ins = Inr m'" "modifiers_keyed m"
  shows "modifiers_keyed m' \<and>
    sum_list (map (\<lambda>p. if fst p = k then nm_quantity (snd p) else 0) m') =
    sum_list (map (\<lambda>p. if fst p = k then nm_quantity (snd p) else 0) m) + sum_where (\<lambda>i. input_key i = k) modifier_count_of ins"
  using assms
proof (induction ins arbitrary: m)
  case (Cons i ins)
  then obtain m1 where s: "modifier_step m i = Inr m1" and f: "foldE modifier_step m1 ins = Inr m'" by auto
  from modifier_step_keyed [OF Cons.prems(2) s, of k] Cons.IH [OF f] show ?case by (simp add: table_simps)
qed (simp add: table_simps)

lemma modifiers_accepted: "(\<exists>m'. foldE modifier_step m ins = Inr m') \<longleftrightarrow> list_all modifier_input_ok ins"
proof (induction ins arbitrary: m)
  case (Cons i ins)
  show ?case
  proof (cases "modifier_input_ok i")
    case True
    with Cons modifier_step_ok [OF True, of m] show ?thesis by simp
  next
    case False
    with modifier_step_bad [OF False, of m] show ?thesis by auto
  qed
qed simp


section \<open>Properties\<close>

text \<open>
  The modifiers of a request are accepted exactly when each names a group and an option and has a
  positive integer count.  Accepted modifiers come out one per group and option, with a positive count
  that is the sum of the counts given for it; nothing else is added or dropped.
\<close>

theorem modifiers_normalized:
  "((\<exists>r. normalizeCartItemModifiers cmp ins = Inr r) \<longleftrightarrow> list_all modifier_input_ok ins) \<and>
   (\<forall>r. normalizeCartItemModifiers cmp ins = Inr r \<longrightarrow>
      distinct (map normalized_key r) \<and> list_all (\<lambda>m. 1 \<le> nm_quantity m) r \<and>
      sum_where (\<lambda>m. normalized_key m = k) nm_quantity r = sum_where (\<lambda>i. input_key i = k) modifier_count_of ins)"
proof (intro conjI allI impI)
  show "(\<exists>r. normalizeCartItemModifiers cmp ins = Inr r) \<longleftrightarrow> list_all modifier_input_ok ins"
    using modifiers_accepted [of "[]" ins] by (simp add: normalizeCartItemModifiers_def)
next
  fix r
  assume "normalizeCartItemModifiers cmp ins = Inr r"
  then obtain m where f: "foldE modifier_step [] ins = Inr m"
    and r: "r = sort_by (\<lambda>l r. let c = cmp (nm_group l) (nm_group r) in if c \<noteq> 0 then c else cmp (nm_option l) (nm_option r)) (map snd m)"
    by (auto simp: normalizeCartItemModifiers_def)
  have m: "modifiers_keyed m"
    "sum_list (map (\<lambda>p. if fst p = k then nm_quantity (snd p) else 0) m) = sum_where (\<lambda>i. input_key i = k) modifier_count_of ins"
    using modifiers_loop [OF f, of k] by (simp_all add: modifiers_keyed_def)
  have keys: "map normalized_key (map snd m) = map fst m"
    using m(1) by (auto simp: modifiers_keyed_def list_all_iff)
  show "distinct (map normalized_key r)"
    using m(1) keys unfolding r by (simp only: distinct_sort_by modifiers_keyed_def)
  show "list_all (\<lambda>m. 1 \<le> nm_quantity m) r"
    using m(1) unfolding r by (auto simp: list_all_iff modifiers_keyed_def)
  have "sum_where (\<lambda>m. normalized_key m = k) nm_quantity r = sum_where (\<lambda>m. normalized_key m = k) nm_quantity (map snd m)"
    unfolding r by (rule sum_sort_by)
  also have "\<dots> = sum_list (map (\<lambda>p. if normalized_key (snd p) = k then nm_quantity (snd p) else 0) m)"
    by (simp add: sum_where_if comp_def)
  also have "\<dots> = sum_list (map (\<lambda>p. if fst p = k then nm_quantity (snd p) else 0) m)"
    using m(1) by (intro arg_cong [where f = sum_list]) (auto simp: modifiers_keyed_def list_all_iff)
  finally show "sum_where (\<lambda>m. normalized_key m = k) nm_quantity r = sum_where (\<lambda>i. input_key i = k) modifier_count_of ins"
    using m(2) by simp
qed

definition demo_modifier :: "string \<Rightarrow> js_num option \<Rightarrow> modifier_input" where
  "demo_modifier opt q = \<lparr>mi_group = '' g '', mi_option = opt, mi_quantity = q\<rparr>"

theorem modifiers_normalized_witness:
  "\<exists>r. normalizeCartItemModifiers (\<lambda>_ _. 0) [demo_modifier ''a'' None, demo_modifier ''b'' None, demo_modifier ''a'' (Some (Int_num 2))] = Inr r \<and>
     sum_where (\<lambda>m. normalized_key m = ''g:a'') nm_quantity r = 3"
proof -
  let ?ins = "[demo_modifier ''a'' None, demo_modifier ''b'' None, demo_modifier ''a'' (Some (Int_num 2))]"
  have "list_all modifier_input_ok ?ins" "sum_where (\<lambda>i. input_key i = ''g:a'') modifier_count_of ?ins = 3" by code_simp+
  with modifiers_normalized [of "\<lambda>_ _. 0" ?ins "''g:a''"] show ?thesis by auto
qed

end
