(* ===== verification/Cart_Cookie.thy ===== *)
theory Cart_Cookie
  imports Prelude
begin

text \<open>
  The cart token: drawn by \<^verbatim>\<open>cart-current.service.ts\<close>, read back from the cookie header by
  \<^verbatim>\<open>readCartTokenFromCookie\<close> of \<^verbatim>\<open>cart.utils.ts\<close>.  Strings are UTF-8 bytes here, so
  \<^verbatim>\<open>decodeURIComponent\<close> replaces escapes by bytes and throws (\<open>None\<close>) when the escapes of a
  character are not its well-formed encoding.
\<close>


section \<open>Percent decoding\<close>

definition hex_val :: "char \<Rightarrow> nat option" where
  "hex_val c = (let n = of_char c :: nat in
     if 48 \<le> n \<and> n \<le> 57 then Some (n - 48)
     else if 65 \<le> n \<and> n \<le> 70 then Some (n - 55)
     else if 97 \<le> n \<and> n \<le> 102 then Some (n - 87) else None)"

fun escape_at :: "string \<Rightarrow> (nat \<times> string) option" where
  "escape_at (p # a # b # s) =
     (if p = CHR ''%'' then
        (case (hex_val a, hex_val b) of (Some x, Some y) \<Rightarrow> Some (16 * x + y, s) | _ \<Rightarrow> None)
      else None)"
| "escape_at _ = None"

text \<open>How many continuation bytes follow a leading byte, and the range of the first of them.\<close>

definition continuations :: "nat \<Rightarrow> (nat \<times> nat \<times> nat) option" where
  "continuations b =
     (if b < 128 then Some (0, 128, 191)
      else if 194 \<le> b \<and> b \<le> 223 then Some (1, 128, 191)
      else if b = 224 then Some (2, 160, 191)
      else if b = 237 then Some (2, 128, 159)
      else if 225 \<le> b \<and> b \<le> 239 then Some (2, 128, 191)
      else if b = 240 then Some (3, 144, 191)
      else if b = 244 then Some (3, 128, 143)
      else if 241 \<le> b \<and> b \<le> 243 then Some (3, 128, 191)
      else None)"

fun read_continuations :: "nat \<Rightarrow> nat \<Rightarrow> nat \<Rightarrow> string \<Rightarrow> (nat list \<times> string) option" where
  "read_continuations 0 lo hi s = Some ([], s)"
| "read_continuations (Suc n) lo hi s =
     (case escape_at s of
        Some (b, s') \<Rightarrow>
          if lo \<le> b \<and> b \<le> hi
          then map_option (\<lambda>(bs, r). (b # bs, r)) (read_continuations n 128 191 s') else None
      | None \<Rightarrow> None)"

lemma escape_at_shorter: "escape_at s = Some (b, r) \<Longrightarrow> length r < length s"
  by (induction s rule: escape_at.induct) (auto split: if_splits option.splits)

lemma read_continuations_le: "read_continuations n lo hi s = Some (bs, r) \<Longrightarrow> length r \<le> length s"
  by (induction n lo hi s arbitrary: bs r rule: read_continuations.induct)
    (auto split: option.splits if_splits dest!: escape_at_shorter, fastforce)

function decodeURIComponent :: "string \<Rightarrow> string option" where
  "decodeURIComponent s =
     (case s of
        [] \<Rightarrow> Some []
      | c # s' \<Rightarrow>
          if c \<noteq> CHR ''%'' then map_option (\<lambda>t. c # t) (decodeURIComponent s')
          else
            (case escape_at s of
               None \<Rightarrow> None
             | Some (b, r) \<Rightarrow>
                 (case continuations b of
                    None \<Rightarrow> None
                  | Some (n, lo, hi) \<Rightarrow>
                      (case read_continuations n lo hi r of
                         None \<Rightarrow> None
                       | Some (bs, r') \<Rightarrow>
                           map_option (\<lambda>t. map char_of (b # bs) @ t) (decodeURIComponent r')))))"
  by auto
termination
  by (relation "measure length") (auto dest!: escape_at_shorter read_continuations_le)

declare decodeURIComponent.simps [simp del]


section \<open>The cookie header\<close>

fun split_on :: "char \<Rightarrow> string \<Rightarrow> string list" where
  "split_on c [] = [[]]"
| "split_on c (x # xs) =
     (if x = c then [] # split_on c xs
      else case split_on c xs of [] \<Rightarrow> [[x]] | p # ps \<Rightarrow> (x # p) # ps)"

fun join_char :: "char \<Rightarrow> string list \<Rightarrow> string" where
  "join_char c [] = []"
| "join_char c [x] = x"
| "join_char c (x # y # ys) = x @ c # join_char c (y # ys)"

abbreviation CART_COOKIE_NAME :: string where "CART_COOKIE_NAME \<equiv> ''cart_token''"

definition cookie_value :: "string \<Rightarrow> string option" where
  "cookie_value raw =
     (if raw = [] then None
      else case decodeURIComponent raw of Some v \<Rightarrow> Some v | None \<Rightarrow> Some raw)"

fun find_cookie :: "string list \<Rightarrow> string option" where
  "find_cookie [] = None"
| "find_cookie (pair # pairs) =
     (case split_on CHR ''='' pair of
        [] \<Rightarrow> find_cookie pairs
      | key # rest \<Rightarrow>
          if key = [] \<or> trim key \<noteq> CART_COOKIE_NAME then find_cookie pairs
          else cookie_value (trim (join_char CHR ''='' rest)))"

definition readCartTokenFromCookie :: "string option \<Rightarrow> string option" where
  "readCartTokenFromCookie header =
     (case header of
        None \<Rightarrow> None
      | Some h \<Rightarrow> if h = [] then None else find_cookie (split_on CHR '';'' h))"


section \<open>Tokens\<close>

text \<open>\<^verbatim>\<open>randomBytes(n).toString('hex')\<close> for the drawn bytes.\<close>

definition hex_digit :: "nat \<Rightarrow> char" where
  "hex_digit n = char_of (if n < 10 then 48 + n else 87 + n)"

definition hex_string :: "nat list \<Rightarrow> string" where
  "hex_string bs = concat (map (\<lambda>b. [hex_digit (b div 16 mod 16), hex_digit (b mod 16)]) bs)"


section \<open>Lemmas\<close>

lemma split_on_nonempty [simp]: "split_on c s \<noteq> []"
  by (induction s) (auto split: list.splits)

lemma join_split: "join_char c (split_on c s) = s"
proof (induction s)
  case (Cons x s)
  obtain p ps where s: "split_on c s = p # ps" by (cases "split_on c s") simp_all
  with Cons show ?case by (cases ps) auto
qed simp

lemma split_no_sep: "c \<notin> set s \<Longrightarrow> split_on c s = [s]"
  by (induction s) auto

lemma split_append: "c \<notin> set a \<Longrightarrow> split_on c (a @ c # b) = a # split_on c b"
  by (induction a) auto

lemma split_join:
  assumes "\<forall>p\<in>set ps. c \<notin> set p" "ps \<noteq> []"
  shows "split_on c (join_char c ps) = ps"
  using assms
proof (induction c ps rule: join_char.induct)
  case (3 c x y ys)
  then show ?case by (simp add: split_append)
qed (simp_all add: split_no_sep)

lemma decode_plain: "CHR ''%'' \<notin> set s \<Longrightarrow> decodeURIComponent s = Some s"
proof (induction s)
  case Nil
  show ?case by (subst decodeURIComponent.simps) simp
next
  case (Cons c s)
  then show ?case by (subst decodeURIComponent.simps) auto
qed

lemma hex_digit_chars: "n < 16 \<Longrightarrow> of_char (hex_digit n) \<in> {48..57} \<union> {97..102 :: nat}"
  by (auto simp: hex_digit_def)

lemma hex_string_chars:
  assumes "c \<in> set (hex_string bs)"
  shows "of_char c \<in> {48..57} \<union> {97..102 :: nat}"
proof -
  from assms obtain b where "c = hex_digit (b div 16 mod 16) \<or> c = hex_digit (b mod 16)"
    by (auto simp: hex_string_def)
  moreover have "b div 16 mod 16 < 16" "b mod 16 < 16" by simp_all
  ultimately show ?thesis using hex_digit_chars by blast
qed

lemma plain_char:
  assumes "c \<in> set (hex_string bs)"
  shows "c \<noteq> CHR ''%''" "c \<noteq> CHR '';''" "c \<noteq> CHR ''=''" "\<not> is_blank c"
  using hex_string_chars [OF assms] by (auto simp: is_blank_def)

lemma trim_left_id: "s = [] \<or> \<not> is_blank (hd s) \<Longrightarrow> trim_left s = s"
  by (cases s) (auto simp: trim_left_def)

lemma trim_blanks:
  assumes "list_all is_blank a" "list_all is_blank d" "\<And>c. c \<in> set s \<Longrightarrow> \<not> is_blank c"
  shows "trim (a @ s @ d) = s"
proof -
  have skip: "trim_left (xs @ ys) = trim_left ys" if "list_all is_blank xs" for xs ys
    using that by (simp add: trim_left_def list_all_iff dropWhile_append2)
  have none: "trim_left xs = []" if "list_all is_blank xs" for xs
    using that by (simp add: trim_left_def list_all_iff)
  show ?thesis
  proof (cases "s = []")
    case True
    with assms show ?thesis by (simp add: trim_def skip none)
  next
    case False
    then have "trim_left (s @ d) = s @ d" "trim_left (rev s) = rev s"
      using assms(3) hd_in_set [of s] hd_in_set [of "rev s"] by (auto intro!: trim_left_id)
    with assms(1,2) show ?thesis by (simp add: trim_def skip)
  qed
qed

lemma trim_id: "(\<And>c. c \<in> set s \<Longrightarrow> \<not> is_blank c) \<Longrightarrow> trim s = s"
  using trim_blanks [of "[]" "[]" s] by simp

lemma blank_no_sep: "list_all is_blank x \<Longrightarrow> CHR ''='' \<notin> set x" "list_all is_blank x \<Longrightarrow> CHR '';'' \<notin> set x"
  by (auto simp: list_all_iff is_blank_def)

lemma hex_nonempty: "bs \<noteq> [] \<Longrightarrow> hex_string bs \<noteq> []"
  by (cases bs) (simp_all add: hex_string_def)


lemma find_cookie_skip:
  assumes "\<forall>p\<in>set pre. trim (hd (split_on CHR ''='' p)) \<noteq> CART_COOKIE_NAME"
  shows "find_cookie (pre @ pairs) = find_cookie pairs"
  using assms
proof (induction pre)
  case (Cons p pre)
  obtain k r where "split_on CHR ''='' p = k # r" by (cases "split_on CHR ''='' p") simp_all
  with Cons show ?case by simp
qed simp

lemma find_cookie_pair:
  assumes "bs \<noteq> []" "list_all is_blank (a @ b @ c @ d)"
  shows "find_cookie ((a @ CART_COOKIE_NAME @ b @ CHR ''='' # c @ hex_string bs @ d) # pairs) = Some (hex_string bs)"
proof -
  let ?s = "hex_string bs"
  have blank: "list_all is_blank a" "list_all is_blank b" "list_all is_blank c" "list_all is_blank d" using assms(2) by simp_all
  have "CHR ''='' \<notin> set (a @ CART_COOKIE_NAME @ b)" using blank_no_sep(1) blank by simp
  moreover have "CHR ''='' \<notin> set (c @ ?s @ d)" using blank_no_sep(1) blank plain_char(3) by auto
  ultimately have "split_on CHR ''='' ((a @ CART_COOKIE_NAME @ b) @ CHR ''='' # (c @ ?s @ d)) = [a @ CART_COOKIE_NAME @ b, c @ ?s @ d]"
    by (subst split_append) (simp_all add: split_no_sep)
  moreover have "trim (a @ CART_COOKIE_NAME @ b) = CART_COOKIE_NAME"
    using blank by (intro trim_blanks) (auto simp: is_blank_def)
  moreover have "trim (c @ ?s @ d) = ?s" using blank plain_char(4) by (intro trim_blanks) auto
  moreover have "decodeURIComponent ?s = Some ?s" using plain_char(1) by (intro decode_plain) auto
  ultimately show ?thesis using hex_nonempty [OF assms(1)] by (simp add: cookie_value_def)
qed


section \<open>Properties\<close>

text \<open>
  C29. A token handed out by the server is read back unchanged from any cookie header that carries it under
  its name: as the only cookie, the first or a later one, with blanks around the name and the value, and
  among cookies of other names before it and any cookies after it.
\<close>

theorem token_cookie_roundtrip:
  assumes "bs \<noteq> []" "\<forall>p\<in>set pre. CHR '';'' \<notin> set p \<and> trim (hd (split_on CHR ''='' p)) \<noteq> CART_COOKIE_NAME"
    and "\<forall>p\<in>set post. CHR '';'' \<notin> set p" "list_all is_blank (a @ b @ c @ d)"
  shows "readCartTokenFromCookie (Some (join_char CHR '';''
      (pre @ (a @ CART_COOKIE_NAME @ b @ CHR ''='' # c @ hex_string bs @ d) # post))) = Some (hex_string bs)"
proof -
  let ?pair = "a @ CART_COOKIE_NAME @ b @ CHR ''='' # c @ hex_string bs @ d"
  let ?all = "pre @ ?pair # post"
  have "CHR '';'' \<notin> set ?pair" using assms(4) blank_no_sep(2) plain_char(2) by auto
  with assms(2,3) have split: "split_on CHR '';'' (join_char CHR '';'' ?all) = ?all"
    by (intro split_join) auto
  have "join_char CHR '';'' ?all \<noteq> []"
  proof
    assume "join_char CHR '';'' ?all = []"
    with split have "?all = [[]]" by simp
    then show False by (cases pre) auto
  qed
  with split find_cookie_skip [of pre] find_cookie_pair [OF assms(1,4)] assms(2)
  show ?thesis by (simp add: readCartTokenFromCookie_def)
qed

theorem token_cookie_roundtrip_witness:
  "readCartTokenFromCookie (Some ''cart_token=0aff'') = Some ''0aff'' \<and>
   readCartTokenFromCookie (Some ''lang=ru; cart_token = 0aff;x'') = Some ''0aff''"
proof -
  note t = token_cookie_roundtrip [of "[10, 255]"]
  have "readCartTokenFromCookie (Some (''cart_token='' @ hex_string [10, 255])) = Some (hex_string [10, 255])"
    using t [of "[]" "[]" "[]" "[]" "[]" "[]"] by simp
  moreover have "readCartTokenFromCookie (Some (''lang=ru; cart_token = '' @ hex_string [10, 255] @ '';x'')) = Some (hex_string [10, 255])"
    using t [of "[''lang=ru'']" "[''x'']" "'' ''" "'' ''" "'' ''" "[]"] by (simp add: trim_def trim_left_def is_blank_def)
  moreover have "hex_string [10, 255] = ''0aff''" by code_simp
  ultimately show ?thesis by simp
qed

end
