(* ===== verification/Product_Schema.thy ===== *)
theory Product_Schema
  imports Cart_Utils Service_Properties
begin

text \<open>
  The product side of the catalog as the cart and the price resolution read it
  (\<^verbatim>\<open>prisma/schema/product.prisma\<close>, \<^verbatim>\<open>modifier.prisma\<close>, \<^verbatim>\<open>price-list.prisma\<close>).  The inventory already
  keeps the rows of products and variants with their catalog, stock and deletion time; the columns that
  only the product side uses stand in records of their own with the same identifier, and a row is the
  pair of both parts.  Descriptions, barcodes, links and media are left out.
\<close>


section \<open>Tables\<close>

datatype product_status = P_DRAFT | P_ACTIVE | P_ARCHIVED | P_HIDDEN | P_DELETE

datatype variant_status = V_ACTIVE | V_OUT_OF_STOCK | V_DISABLED

datatype variant_kind = K_DEFAULT | K_MATRIX

datatype modifier_scope = S_PRODUCT | S_VARIANT

datatype price_target = TARGET_PRODUCT | TARGET_VARIANT | TARGET_SALE_UNIT

record product_info =
  pi_id :: ident
  pi_sku :: string
  pi_price :: js_value
  pi_status :: product_status
  pi_attributes :: "price_attribute list"

text \<open>\<open>vi_attributes\<close> are the identifiers of the attribute values that are not deleted.\<close>

record variant_info =
  vi_id :: ident
  vi_sku :: string
  vi_variantKey :: string
  vi_kind :: variant_kind
  vi_price :: js_value
  vi_status :: variant_status
  vi_isAvailable :: bool
  vi_attributes :: "ident list"
  vi_createdAt :: time

record sale_unit_row =
  sr_id :: ident
  sr_variantId :: ident
  sr_catalogSaleUnitId :: "ident option"
  sr_code :: string
  sr_name :: string
  sr_unit :: sale_unit
  sr_isDefault :: bool
  sr_isActive :: bool
  sr_displayOrder :: int
  sr_createdAt :: time
  sr_deleteAt :: "time option"

record modifier_option =
  mo_id :: ident
  mo_name :: string
  mo_price :: js_value
  mo_maxQuantity :: "int option"
  mo_isAvailable :: bool
  mo_displayOrder :: int
  mo_deleteAt :: "time option"

record modifier_group =
  mg_id :: ident
  mg_productId :: ident
  mg_variantId :: "ident option"
  mg_scope :: modifier_scope
  mg_name :: string
  mg_isRequired :: bool
  mg_minSelected :: int
  mg_maxSelected :: "int option"
  mg_isActive :: bool
  mg_displayOrder :: int
  mg_deleteAt :: "time option"
  mg_options :: "modifier_option list"

record price_list =
  pr_id :: ident
  pr_catalogId :: ident
  pr_code :: string
  pr_name :: string
  pr_isActive :: bool
  pr_displayOrder :: int
  pr_deleteAt :: "time option"

record price_list_price =
  pp_priceListId :: ident
  pp_target :: price_target
  pp_targetId :: ident
  pp_productId :: ident
  pp_variantId :: "ident option"
  pp_saleUnitId :: "ident option"
  pp_price :: js_value
  pp_deleteAt :: "time option"

record product_tables =
  pt_products :: "product_info list"
  pt_variants :: "variant_info list"
  pt_saleUnits :: "sale_unit_row list"
  pt_groups :: "modifier_group list"
  pt_priceLists :: "price_list list"
  pt_prices :: "price_list_price list"


section \<open>Rows\<close>

text \<open>A product that is not deleted, with the columns of both parts.\<close>

definition product_row :: "(product \<Rightarrow> bool) \<Rightarrow> ident \<Rightarrow> inv_db \<Rightarrow> product_tables \<Rightarrow> (product \<times> product_info) option" where
  "product_row P productId db pt =
     Option.bind (List.find (\<lambda>p. p_id p = productId \<and> P p \<and> p_deleteAt p = None) (products db))
       (\<lambda>p. map_option (Pair p) (List.find (\<lambda>i. pi_id i = p_id p) (pt_products pt)))"

text \<open>A variant as \<^verbatim>\<open>productSellableSelect\<close> returns it, with its live sale units in their order.\<close>

record variant_view =
  vv_id :: ident
  vv_productId :: ident
  vv_variantKey :: string
  vv_kind :: variant_kind
  vv_price :: js_value
  vv_stock :: "int option"
  vv_status :: variant_status
  vv_isAvailable :: bool
  vv_attributes :: "ident list"
  vv_saleUnits :: "sale_unit_row list"
  vv_createdAt :: time
  vv_deleteAt :: "time option"

definition live_sale_units :: "ident \<Rightarrow> product_tables \<Rightarrow> sale_unit_row list" where
  "live_sale_units variantId pt =
     sort_key (\<lambda>u. (\<not> sr_isDefault u, sr_displayOrder u, sr_createdAt u))
       (filter (\<lambda>u. sr_variantId u = variantId \<and> sr_isActive u \<and> sr_deleteAt u = None) (pt_saleUnits pt))"

definition variant_view_of :: "product_tables \<Rightarrow> variant \<Rightarrow> variant_info \<Rightarrow> variant_view" where
  "variant_view_of pt v i =
     \<lparr>vv_id = v_id v, vv_productId = v_productId v, vv_variantKey = vi_variantKey i, vv_kind = vi_kind i,
      vv_price = vi_price i, vv_stock = v_stock v, vv_status = vi_status i, vv_isAvailable = vi_isAvailable i,
      vv_attributes = vi_attributes i, vv_saleUnits = live_sale_units (v_id v) pt,
      vv_createdAt = vi_createdAt i, vv_deleteAt = v_deleteAt v\<rparr>"

definition all_variants :: "ident \<Rightarrow> inv_db \<Rightarrow> product_tables \<Rightarrow> variant_view list" where
  "all_variants productId db pt =
     sort_key (\<lambda>v. (vv_createdAt v, vv_id v))
       (List.map_filter (\<lambda>v. map_option (variant_view_of pt v) (List.find (\<lambda>i. vi_id i = v_id v) (pt_variants pt)))
          (filter (\<lambda>v. v_productId v = productId) (variants db)))"

definition live_variants :: "ident \<Rightarrow> inv_db \<Rightarrow> product_tables \<Rightarrow> variant_view list" where
  "live_variants productId db pt = filter (\<lambda>v. vv_deleteAt v = None) (all_variants productId db pt)"

definition DEFAULT_VARIANT_KEY :: string where
  "DEFAULT_VARIANT_KEY = ''default''"

definition isDefaultVariant :: "variant_view \<Rightarrow> bool" where
  "isDefaultVariant v = (vv_kind v = K_DEFAULT \<or> vv_variantKey v = DEFAULT_VARIANT_KEY)"

definition isMatrixVariant :: "variant_view \<Rightarrow> bool" where
  "isMatrixVariant v = (\<not> isDefaultVariant v \<and> (vv_kind v = K_MATRIX \<or> vv_attributes v \<noteq> []))"


section \<open>Facts\<close>

lemma product_row_Some:
  "product_row P i db pt = Some (p, f) \<Longrightarrow> p \<in> set (products db) \<and> p_id p = i \<and> P p \<and> p_deleteAt p = None \<and> pi_id f = i"
  using find_Some_iff_mem [of _ "products db" p] find_Some_iff_mem [of _ "pt_products pt" f]
  by (auto simp: product_row_def bind_eq_Some_conv)

lemma all_variants_mem:
  assumes "x \<in> set (all_variants productId db pt)"
  obtains v i where "v \<in> set (variants db)" "i \<in> set (pt_variants pt)" "vi_id i = v_id v" "v_productId v = productId"
    "x = variant_view_of pt v i"
  using assms find_Some_iff_mem [of _ "pt_variants pt"]
  by (fastforce simp: all_variants_def map_filter_def split: option.splits)

lemma variant_view_id:
  assumes "x \<in> set (all_variants productId db pt)"
  shows "vv_productId x = productId" "vv_id x \<in> vi_id ` set (pt_variants pt)" "vv_id x \<in> v_id ` set (variants db)"
  using assms by (auto elim!: all_variants_mem simp: variant_view_of_def) (metis image_eqI)

end
