(* ===== verification/Cart_Schema.thy ===== *)
theory Cart_Schema
  imports Cart_Cookie Product_Schema
begin

text \<open>
  The tables of the stateful cart (\<^verbatim>\<open>prisma/schema/cart.prisma\<close>, \<^verbatim>\<open>order.prisma\<close>) with the
  columns the cart services read or write, the lookups of \<^verbatim>\<open>cart-lookup.service.ts\<close> and
  \<^verbatim>\<open>cart-current.service.ts\<close>, and the loops that draw an unused token or public key.  Every write of
  a cart row sets its \<^verbatim>\<open>updatedAt\<close>, as the client does.  The Russian messages of the source are named
  by constructors.
\<close>


section \<open>Tables\<close>

datatype cart_status = C_DRAFT | C_SHARED | C_IN_PROGRESS | C_PAUSED | C_CONVERTED | C_CANCELLED | C_EXPIRED

datatype session_status = T_OPEN | T_PENDING_CONFIRMATION | T_SUBMITTED | T_EXPORT_ERROR | T_CLOSED
  | T_CANCELLED | T_EXPIRED

datatype checkout_method = DELIVERY | PICKUP | PREORDER

datatype json = J_null | J_bool bool | J_num rat | J_str string | J_arr "json list" | J_obj "(string \<times> json) list"

record cart_row =
  ca_id :: ident
  ca_catalogId :: ident
  ca_userId :: "ident option"
  ca_token :: "string option"
  ca_status :: cart_status
  ca_statusChangedAt :: time
  ca_publicKey :: "string option"
  ca_checkoutKey :: "string option"
  ca_comment :: "string option"
  ca_checkoutMethod :: "checkout_method option"
  ca_checkoutData :: "json option"
  ca_checkoutContacts :: "json option"
  ca_assignedManagerId :: "ident option"
  ca_managerSessionStartedAt :: "time option"
  ca_managerLastSeenAt :: "time option"
  ca_closedAt :: "time option"
  ca_deleteAt :: "time option"
  ca_updatedAt :: time

text \<open>
  A cart item is its row with the columns of the product, the variant and the sale unit it refers to:
  \<open>rejoin\<close> brings these columns up to date after a change of the product tables.
\<close>

record cart_item =
  it_line :: cart_line
  it_cartId :: ident
  it_guestName :: "string option"
  it_priceListCode :: "string option"
  it_priceListName :: "string option"
  it_productCatalogId :: "ident option"
  it_createdAt :: time
  it_deleteAt :: "time option"

record table_session =
  ts_id :: ident
  ts_catalogId :: ident
  ts_integrationId :: ident
  ts_cartId :: ident
  ts_externalTableItemId :: "ident option"
  ts_submittedOrderId :: "ident option"
  ts_status :: session_status
  ts_activeKey :: "string option"
  ts_publicCode :: string
  ts_tableExternalId :: ident
  ts_tableNumber :: "string option"
  ts_tableName :: "string option"
  ts_sectionExternalId :: "string option"
  ts_sectionName :: "string option"
  ts_guestsCount :: "int option"
  ts_externalOrderId :: "string option"
  ts_externalCorrelationId :: "string option"
  ts_submittedAt :: "time option"
  ts_closedAt :: "time option"
  ts_deleteAt :: "time option"

record catalog_row =
  cg_id :: ident
  cg_userId :: "ident option"
  cg_parentId :: "ident option"
  cg_activePriceListId :: "ident option"
  cg_deleteAt :: "time option"

datatype price_state = UNKNOWN | KNOWN | RANGE

text \<open>One entry of the \<^verbatim>\<open>products\<close> column of an order.\<close>

record snapshot_item =
  sn_id :: ident
  sn_productId :: ident
  sn_variantId :: "ident option"
  sn_saleUnitId :: "ident option"
  sn_priceListId :: "ident option"
  sn_variantHidden :: bool
  sn_saleUnitHidden :: bool
  sn_guestSessionId :: "string option"
  sn_quantity :: int
  sn_baseQuantity :: int
  sn_priceState :: price_state
  sn_displayPrice :: js_value
  sn_pricing :: line_pricing

record order_row =
  od_id :: ident
  od_catalogId :: ident
  od_comment :: "string option"
  od_isDelivery :: bool
  od_address :: "string option"
  od_checkoutMethod :: "checkout_method option"
  od_checkoutData :: "json option"
  od_checkoutContacts :: "json option"
  od_products :: "snapshot_item list"
  od_totalAmount :: rat

record cart_world =
  cw_carts :: "cart_row list"
  cw_items :: "cart_item list"
  cw_sessions :: "table_session list"
  cw_orders :: "order_row list"
  cw_catalogs :: "catalog_row list"
  cw_products :: product_tables
  cw_svc :: inv_service

datatype checkout_error =
    Method_not_enabled
  | Method_required
  | Address_required
  | Persons_count_required
  | Visit_time_required
  | Preorder_too_soon int
  | Preorder_too_far int
  | Hall_table_id_required

datatype cart_error =
    Cart_not_found
  | Cart_already_closed
  | Cart_already_completed
  | Cart_empty
  | Public_key_required
  | Session_not_found
  | Session_not_active
  | Taken_by_other_manager
  | Assigned_to_other_manager
  | Managers_only
  | Catalog_not_found
  | No_access_to_cart
  | Internal_items_need_variant
  | Price_list_price_missing
  | Variant_choice_required
  | Out_of_stock int
  | Not_orderable
  | Product_not_found
  | Variant_not_found
  | Product_not_in_catalog
  | Variant_not_of_product
  | Variant_unavailable
  | Variant_price_invalid
  | Variant_structure_invalid
  | Sale_unit_unavailable
  | Sale_unit_required
  | Modifiers_disabled
  | Modifiers_unavailable
  | Modifier_group_unavailable
  | Modifier_option_unavailable
  | Modifier_option_limit int
  | Modifier_group_minimum int
  | Modifier_group_maximum int
  | Quantity_limit
  | Items_limit
  | Item_id_required
  | Item_not_found
  | Item_of_other_guest
  | Table_session_not_open
  | Table_code_required
  | Table_link_invalid
  | Table_id_required
  | Table_cart_expected
  | Guest_token_required
  | Guest_secret_required
  | Waiters_not_reached
  | Checkout_refused checkout_error
  | Cart_input_invalid cart_input_error
  | No_return
  | Inventory_failed http_error
  | Cart_db db_error


section \<open>Rows\<close>

definition TERMINAL_CART_STATUSES :: "cart_status list" where
  "TERMINAL_CART_STATUSES = [C_CONVERTED, C_CANCELLED, C_EXPIRED]"

definition CURRENT_CART_VISIBLE_STATUSES :: "cart_status list" where
  "CURRENT_CART_VISIBLE_STATUSES = [C_DRAFT, C_SHARED, C_IN_PROGRESS, C_PAUSED]"

definition ACTIVE_HALL_TABLE_SESSION_STATUSES :: "session_status list" where
  "ACTIVE_HALL_TABLE_SESSION_STATUSES = [T_OPEN, T_PENDING_CONFIRMATION]"

definition truthy :: "string option \<Rightarrow> bool" where
  "truthy s = (case s of None \<Rightarrow> False | Some x \<Rightarrow> x \<noteq> [])"

text \<open>\<^verbatim>\<open>cart.update\<close> by id throws when the row is gone; \<^verbatim>\<open>cart.updateMany\<close> counts.\<close>

definition cart_updateMany :: "time \<Rightarrow> (cart_row \<Rightarrow> bool) \<Rightarrow> (cart_row \<Rightarrow> cart_row) \<Rightarrow> cart_world \<Rightarrow> cart_world" where
  "cart_updateMany now P f w =
     w\<lparr>cw_carts := update_where P (\<lambda>c. (f c)\<lparr>ca_updatedAt := now\<rparr>) (cw_carts w)\<rparr>"

definition cart_update ::
    "time \<Rightarrow> ident \<Rightarrow> (cart_row \<Rightarrow> cart_row) \<Rightarrow> cart_world \<Rightarrow> cart_error + cart_world" where
  "cart_update now i f w =
     (if \<exists>c\<in>set (cw_carts w). ca_id c = i then Inr (cart_updateMany now (\<lambda>c. ca_id c = i) f w)
      else Inl (Cart_db RecordNotFound))"

definition join_item :: "inv_db \<Rightarrow> product_tables \<Rightarrow> cart_item \<Rightarrow> cart_item" where
  "join_item db pt x =
     (let l = it_line x; info = List.find (\<lambda>i. pi_id i = k_productId l) (pt_products pt) in
      x\<lparr>it_line := l\<lparr>k_variantPrice := Option.bind (k_variantId l)
            (\<lambda>v. map_option vi_price (List.find (\<lambda>i. vi_id i = v) (pt_variants pt))),
          k_saleUnit := Option.bind (k_saleUnitId l)
            (\<lambda>u. map_option sr_unit (List.find (\<lambda>r. sr_id r = u) (pt_saleUnits pt))),
          k_productPrice := (case info of None \<Rightarrow> Nullish | Some i \<Rightarrow> pi_price i),
          k_attributes := (case info of None \<Rightarrow> [] | Some i \<Rightarrow> pi_attributes i)\<rparr>,
        it_productCatalogId := map_option p_catalogId (List.find (\<lambda>p. p_id p = k_productId l) (products db))\<rparr>)"

definition rejoin :: "cart_world \<Rightarrow> cart_world" where
  "rejoin w = w\<lparr>cw_items := map (join_item (sv_inv (cw_svc w)) (cw_products w)) (cw_items w)\<rparr>"

text \<open>The relation \<^verbatim>\<open>tableSession\<close> of a cart and its live items in the order of \<^verbatim>\<open>cartSelect\<close>.\<close>

definition session_of :: "ident \<Rightarrow> cart_world \<Rightarrow> table_session option" where
  "session_of i w = List.find (\<lambda>t. ts_cartId t = i) (cw_sessions w)"

definition live_items :: "ident \<Rightarrow> cart_world \<Rightarrow> cart_item list" where
  "live_items i w = sort_key (\<lambda>x. (it_createdAt x, k_id (it_line x)))
     (filter (\<lambda>x. it_cartId x = i \<and> it_deleteAt x = None) (cw_items w))"

definition lookup_findByIdOrThrow :: "ident \<Rightarrow> cart_world \<Rightarrow> cart_error + cart_row" where
  "lookup_findByIdOrThrow i w =
     option_to_res Cart_not_found (List.find (\<lambda>c. ca_deleteAt c = None \<and> ca_id c = i) (cw_carts w))"

definition lookup_findByPublicKeyOrThrow :: "string \<Rightarrow> cart_world \<Rightarrow> cart_error + cart_row" where
  "lookup_findByPublicKeyOrThrow publicKey w =
     (let normalized = trim publicKey in
      if normalized = [] then Inl Public_key_required
      else option_to_res Cart_not_found
        (List.find (\<lambda>c. ca_deleteAt c = None \<and> ca_publicKey c = Some normalized) (cw_carts w)))"


section \<open>The current cart\<close>

definition findByToken :: "ident \<Rightarrow> string \<Rightarrow> cart_world \<Rightarrow> cart_row option" where
  "findByToken catalogId token w =
     List.find (\<lambda>c. ca_catalogId c = catalogId \<and> ca_deleteAt c = None \<and>
       ca_status c \<in> set CURRENT_CART_VISIBLE_STATUSES \<and> ca_token c = Some token) (cw_carts w)"

definition getOrThrow :: "ident \<Rightarrow> string option \<Rightarrow> cart_world \<Rightarrow> cart_error + (cart_row \<times> string)" where
  "getOrThrow catalogId token w =
     (case trimToNull token of
        None \<Rightarrow> Inl Cart_not_found
      | Some t \<Rightarrow>
          (case findByToken catalogId t w of None \<Rightarrow> Inl Cart_not_found | Some c \<Rightarrow> Inr (c, t)))"

text \<open>
  The two loops without bound: draw a candidate until it is unused.  \<open>draw k\<close> is the \<open>k\<close>-th random
  candidate; a loop that never finds one has the value \<open>None\<close>.
\<close>

partial_function (option) draw_unused :: "(nat \<Rightarrow> string) \<Rightarrow> (string \<Rightarrow> bool) \<Rightarrow> nat \<Rightarrow> string option" where
  "draw_unused draw used k = (if used (draw k) then draw_unused draw used (Suc k) else Some (draw k))"

declare draw_unused.simps [code]

definition generateUniqueToken :: "(nat \<Rightarrow> nat list) \<Rightarrow> cart_world \<Rightarrow> string option" where
  "generateUniqueToken bytes w =
     draw_unused (\<lambda>k. hex_string (bytes k)) (\<lambda>t. \<exists>c\<in>set (cw_carts w). ca_token c = Some t) 0"

definition new_cart :: "ident \<Rightarrow> time \<Rightarrow> ident \<Rightarrow> string \<Rightarrow> cart_row" where
  "new_cart i now catalogId token =
     \<lparr>ca_id = i, ca_catalogId = catalogId, ca_userId = None, ca_token = Some token, ca_status = C_DRAFT,
      ca_statusChangedAt = now, ca_publicKey = None, ca_checkoutKey = None, ca_comment = None,
      ca_checkoutMethod = None, ca_checkoutData = None, ca_checkoutContacts = None,
      ca_assignedManagerId = None, ca_managerSessionStartedAt = None, ca_managerLastSeenAt = None,
      ca_closedAt = None, ca_deleteAt = None, ca_updatedAt = now\<rparr>"

definition create_cart :: "request \<Rightarrow> ident \<Rightarrow> string \<Rightarrow> cart_world \<Rightarrow> cart_error + (cart_row \<times> cart_world)" where
  "create_cart rq catalogId token w =
     (let i = rq_gen rq (map ca_id (cw_carts w)); c = new_cart i (rq_now rq) catalogId token in
      if i \<in> ca_id ` set (cw_carts w) then Inl (Cart_db UniqueViolation)
      else Inr (c, w\<lparr>cw_carts := cw_carts w @ [c]\<rparr>))"

text \<open>\<open>None\<close> only when the token loop does not end.\<close>

definition getOrCreate ::
    "request \<Rightarrow> (nat \<Rightarrow> nat list) \<Rightarrow> ident \<Rightarrow> string option \<Rightarrow> cart_world
     \<Rightarrow> (cart_error + ((cart_row \<times> bool \<times> string) \<times> cart_world)) option" where
  "getOrCreate rq bytes catalogId token w =
     (case Option.bind (trimToNull token) (\<lambda>t. map_option (\<lambda>c. (c, t)) (findByToken catalogId t w)) of
        Some (c, t) \<Rightarrow> Some (Inr ((c, False, t), w))
      | None \<Rightarrow>
          map_option (\<lambda>t. bindE (create_cart rq catalogId t w) (\<lambda>(c, w'). Inr ((c, True, t), w')))
            (generateUniqueToken bytes w))"

end
