(* ===== verification/Cart_Snapshot.thy ===== *)
theory Cart_Snapshot
  imports Cart_Schema
begin

text \<open>
  The lines of a completed order (\<^verbatim>\<open>cart-order-snapshot.service.ts\<close>): what is sold, in which
  base quantity and at which price.  The service reaches the products and the price lists through two
  injected ports; they are the fields of \<open>snapshot_ports\<close>.  Names, labels and the links to external
  systems, which are copied into the order, are left out.  \<^verbatim>\<open>Promise.all\<close> is the first error in the
  order of the items.
\<close>


section \<open>Ports\<close>

datatype sellable_mode = SIMPLE | MATRIX

datatype availability_state = AVAILABLE | OUT_OF_STOCK | UNAVAILABLE

record sellable_projection =
  pj_mode :: sellable_mode
  pj_variantId :: "ident option"
  pj_defaultVariantId :: "ident option"
  pj_requiresVariantSelection :: bool
  pj_priceState :: price_state
  pj_displayPrice :: js_value
  pj_maxPrice :: js_value
  pj_availabilityState :: availability_state
  pj_stock :: "int option"
  pj_usesPriceList :: bool

record line_price =
  ll_priceListId :: "ident option"
  ll_priceListCode :: "string option"
  ll_priceListName :: "string option"
  ll_price :: js_value
  ll_target :: "price_target option"

record resolve_options =
  ro_quantity :: int
  ro_enforceStock :: bool
  ro_buyerCatalogId :: ident

text \<open>
  \<^verbatim>\<open>resolveVariantSellable\<close>, \<^verbatim>\<open>resolveProductSellable\<close> and the optional
  \<^verbatim>\<open>resolveLinePrice\<close>, with the arguments in the order of the contracts.
\<close>

record snapshot_ports =
  resolveVariantSellable :: "ident \<Rightarrow> ident \<Rightarrow> ident \<Rightarrow> resolve_options \<Rightarrow> cart_error + sellable_projection"
  resolveProductSellable :: "ident \<Rightarrow> ident \<Rightarrow> resolve_options \<Rightarrow> cart_error + sellable_projection"
  resolveLinePrice ::
    "(ident \<Rightarrow> ident \<Rightarrow> ident \<Rightarrow> ident option \<Rightarrow> ident option \<Rightarrow> sellable_mode \<Rightarrow> line_price) option"


section \<open>Checks and prices of one item\<close>

definition ensureProjectionCanBeOrdered :: "sellable_projection \<Rightarrow> cart_error + unit" where
  "ensureProjectionCanBeOrdered pj =
     (if pj_requiresVariantSelection pj then Inl Variant_choice_required
      else case pj_availabilityState pj of
        AVAILABLE \<Rightarrow> Inr ()
      | OUT_OF_STOCK \<Rightarrow> Inl (Out_of_stock (case pj_stock pj of None \<Rightarrow> 0 | Some n \<Rightarrow> n))
      | UNAVAILABLE \<Rightarrow> Inl Not_orderable)"

definition product_catalog :: "ident \<Rightarrow> cart_item \<Rightarrow> ident" where
  "product_catalog catalogId item =
     (case it_productCatalogId item of None \<Rightarrow> catalogId | Some c \<Rightarrow> c)"

definition resolveCommercialProjection ::
    "snapshot_ports \<Rightarrow> map_options \<Rightarrow> bool \<Rightarrow> ident \<Rightarrow> cart_item \<Rightarrow> cart_error + sellable_projection" where
  "resolveCommercialProjection ports opts enforceStock catalogId item =
     (let l = it_line item; units = canUseCatalogSaleUnits opts;
          ro = \<lparr>ro_quantity = resolveCartItemBaseQuantity (k_quantity l)
                  (if units then k_baseQuantity l else Q_null) (if units then k_saleUnit l else None),
                ro_enforceStock = enforceStock, ro_buyerCatalogId = catalogId\<rparr>
      in bindE (case k_variantId l of
             Some v \<Rightarrow> if v \<noteq> [] then resolveVariantSellable ports (product_catalog catalogId item) (k_productId l) v ro
                       else resolveProductSellable ports (product_catalog catalogId item) (k_productId l) ro
           | None \<Rightarrow> resolveProductSellable ports (product_catalog catalogId item) (k_productId l) ro)
         (\<lambda>pj. if pj_usesPriceList pj \<and> pj_priceState pj = UNKNOWN then Inl Price_list_price_missing
               else bindE (ensureProjectionCanBeOrdered pj) (\<lambda>_. Inr pj)))"

definition no_line_price :: line_price where
  "no_line_price = \<lparr>ll_priceListId = None, ll_priceListCode = None, ll_priceListName = None, ll_price = Nullish, ll_target = None\<rparr>"

definition resolvePriceListLine ::
    "snapshot_ports \<Rightarrow> ident \<Rightarrow> ident \<Rightarrow> ident \<Rightarrow> ident option \<Rightarrow> ident option \<Rightarrow> sellable_projection
     \<Rightarrow> cart_error + line_price" where
  "resolvePriceListLine ports buyerCatalogId productCatalogId productId variantId saleUnitId pj =
     (if \<not> pj_usesPriceList pj then Inr no_line_price
      else case resolveLinePrice ports of
        None \<Rightarrow> Inl Price_list_price_missing
      | Some resolve \<Rightarrow>
          let l = resolve buyerCatalogId productCatalogId productId variantId saleUnitId (pj_mode pj) in
          if ll_priceListId l = None then Inr no_line_price
          else if ll_price l = Nullish then Inl Price_list_price_missing
          else Inr l)"

definition withPrice :: "js_value \<Rightarrow> js_value \<Rightarrow> js_value" where
  "withPrice price new = (if new = Nullish then price else new)"

definition resolveCommercialPrice :: "sellable_projection \<Rightarrow> js_value" where
  "resolveCommercialPrice pj = (if pj_priceState pj = UNKNOWN then Nullish else pj_displayPrice pj)"

definition normalizeMoneyString :: "js_value \<Rightarrow> js_value" where
  "normalizeMoneyString v = (case toFiniteNumber v of None \<Rightarrow> Nullish | Some x \<Rightarrow> Finite (to_fixed2 x))"


section \<open>The lines of the order\<close>

text \<open>
  A source is the cart line with the prices of the price list in place, and the projection it was
  resolved to.
\<close>

record snapshot_source =
  ss_line :: cart_line
  ss_variantHidden :: bool
  ss_saleUnitHidden :: bool
  ss_projection :: sellable_projection

definition snapshot_source_of ::
    "snapshot_ports \<Rightarrow> map_options \<Rightarrow> bool \<Rightarrow> ident \<Rightarrow> cart_item \<Rightarrow> cart_error + snapshot_source" where
  "snapshot_source_of ports opts enforceStock catalogId item =
     bindE (resolveCommercialProjection ports opts enforceStock catalogId item)
       (\<lambda>pj. let l = it_line item;
                 variantId = (case k_variantId l of None \<Rightarrow> pj_variantId pj | Some v \<Rightarrow> Some v);
                 saleUnit = (if canUseCatalogSaleUnits opts then k_saleUnit l else None);
                 saleUnitId = (if canUseCatalogSaleUnits opts then k_saleUnitId l else None)
             in bindE (resolvePriceListLine ports catalogId (product_catalog catalogId item) (k_productId l)
                         variantId saleUnitId pj)
       (\<lambda>pl. Inr \<lparr>ss_line = l\<lparr>k_variantId := variantId, k_saleUnitId := saleUnitId,
              k_productPrice := (if ll_target pl = Some TARGET_PRODUCT then ll_price pl else k_productPrice l),
              k_variantPrice := (if ll_target pl = Some TARGET_VARIANT
                 then map_option (\<lambda>_. ll_price pl) (k_variantPrice l) else k_variantPrice l),
              k_saleUnit := (if ll_target pl = Some TARGET_SALE_UNIT
                 then map_option (\<lambda>u. u\<lparr>su_price := ll_price pl\<rparr>) saleUnit else saleUnit),
              k_modifiers := (if canUseCatalogModifiers opts then k_modifiers l else []),
              k_unitPriceSnapshot := Nullish, k_priceListId := ll_priceListId pl\<rparr>,
            ss_variantHidden = (truthy variantId \<and> \<not> canUseProductVariants opts),
            ss_saleUnitHidden = (truthy (k_saleUnitId l) \<and> \<not> truthy saleUnitId),
            ss_projection = pj\<rparr>))"

definition buildPricingSource :: "snapshot_source \<Rightarrow> cart_line" where
  "buildPricingSource src =
     (let l = ss_line src; price = resolveCommercialPrice (ss_projection src);
          has = truthy (k_variantId l) \<and> k_variantPrice l \<noteq> None
      in l\<lparr>k_productPrice := (if has then k_productPrice l else withPrice (k_productPrice l) price),
           k_variantPrice := (if has then map_option (\<lambda>p. withPrice p price) (k_variantPrice l) else k_variantPrice l),
           k_unitPriceSnapshot := Nullish\<rparr>)"

definition resolveSnapshotBaseQuantity :: "cart_line \<Rightarrow> int" where
  "resolveSnapshotBaseQuantity l =
     resolveCartItemBaseQuantity (k_quantity l) (if k_saleUnit l = None then Q_null else k_baseQuantity l)
       (k_saleUnit l)"

definition snapshot_item_of :: "time \<Rightarrow> snapshot_source \<Rightarrow> snapshot_item" where
  "snapshot_item_of now src =
     (let l = ss_line src; pj = ss_projection src in
      \<lparr>sn_id = k_id l, sn_productId = k_productId l, sn_variantId = k_variantId l,
       sn_saleUnitId = k_saleUnitId l, sn_priceListId = k_priceListId l,
       sn_variantHidden = ss_variantHidden src, sn_saleUnitHidden = ss_saleUnitHidden src,
       sn_guestSessionId = k_guestSessionId l, sn_quantity = k_quantity l,
       sn_baseQuantity = resolveSnapshotBaseQuantity l,
       sn_priceState = (if k_saleUnit l \<noteq> None then KNOWN else pj_priceState pj),
       sn_displayPrice = (case k_saleUnit l of Some u \<Rightarrow> normalizeMoneyString (su_price u)
          | None \<Rightarrow> pj_displayPrice pj),
       sn_pricing = resolveCartItemPricing now (buildPricingSource src)\<rparr>)"

fun mapE :: "('a \<Rightarrow> 'e + 'b) \<Rightarrow> 'a list \<Rightarrow> 'e + 'b list" where
  "mapE f [] = Inr []"
| "mapE f (x # xs) = bindE (f x) (\<lambda>y. bindE (mapE f xs) (\<lambda>ys. Inr (y # ys)))"

definition buildSnapshotItems ::
    "snapshot_ports \<Rightarrow> map_options \<Rightarrow> bool \<Rightarrow> time \<Rightarrow> ident \<Rightarrow> cart_item list
     \<Rightarrow> cart_error + snapshot_item list" where
  "buildSnapshotItems ports opts enforceStock now catalogId items =
     bindE (mapE (snapshot_source_of ports opts enforceStock catalogId) items)
       (\<lambda>sources. Inr (map (snapshot_item_of now) sources))"

text \<open>\<^verbatim>\<open>checkoutData\<close> of any shape; only an object with a non-blank text as its address counts.\<close>

definition resolveDeliveryAddress :: "checkout_method option \<Rightarrow> json option \<Rightarrow> string option" where
  "resolveDeliveryAddress m data =
     (if m \<noteq> Some DELIVERY then None
      else case data of
        Some (J_obj members) \<Rightarrow>
          (case map_of (rev members) ''address'' of
             Some (J_str s) \<Rightarrow> if trim s \<noteq> [] then Some (trim s) else None
           | _ \<Rightarrow> None)
      | _ \<Rightarrow> None)"

definition resolveTotalAmount :: "snapshot_item list \<Rightarrow> rat" where
  "resolveTotalAmount items =
     fl (of_int (sum_list (map (\<lambda>i. js_round (fl (lineTotal (sn_pricing i) * 100))) items)) / 100)"


section \<open>Facts\<close>

lemma mapE_Inr: "mapE f xs = Inr ys \<Longrightarrow> length ys = length xs \<and> (\<forall>i<length xs. f (xs ! i) = Inr (ys ! i))"
proof (induction xs arbitrary: ys)
  case (Cons x xs)
  from Cons.prems obtain y zs where y: "f x = Inr y" "mapE f xs = Inr zs" "ys = y # zs" by auto
  with Cons.IH [OF y(2)] show ?case by (auto simp: nth_Cons split: nat.split)
qed simp

lemma mapE_map: "mapE f xs = Inr ys \<Longrightarrow> (\<And>x y. f x = Inr y \<Longrightarrow> h y = g x) \<Longrightarrow> map h ys = map g xs"
  by (induction xs arbitrary: ys) auto

lemma snapshot_source_line:
  assumes "snapshot_source_of ports opts enforce cat item = Inr src"
  shows "k_id (ss_line src) = k_id (it_line item)" "k_productId (ss_line src) = k_productId (it_line item)"
    "k_quantity (ss_line src) = k_quantity (it_line item)"
    "k_baseQuantity (ss_line src) = k_baseQuantity (it_line item)"
    "k_variantId (it_line item) = Some v \<Longrightarrow> k_variantId (ss_line src) = Some v"
    "map_option su_baseQuantity (k_saleUnit (ss_line src)) =
       (if canUseCatalogSaleUnits opts then map_option su_baseQuantity (k_saleUnit (it_line item)) else None)"
  using assms by (auto simp: snapshot_source_of_def Let_def option.map_comp comp_def)

end
