(* ===== verification/Cart_Lifecycle.thy ===== *)
theory Cart_Lifecycle
  imports Cart_Snapshot
begin

text \<open>
  The life of a cart: sharing (\<^verbatim>\<open>cart-share.service.ts\<close>), the work of a manager on it
  (\<^verbatim>\<open>cart-manager-session.service.ts\<close>), deletion, expiry and closed hall tables
  (\<^verbatim>\<open>cart-lifecycle.service.ts\<close>) and the checkout (\<^verbatim>\<open>order-checkout.service.ts\<close>), with the stock
  reserved and released on the way (\<^verbatim>\<open>cart-inventory-reservation.service.ts\<close>).

  A transaction is one atomic step.  What a method reads before its transaction is an argument of the
  transaction's definition (\<open>session_tx\<close>, \<open>delete_tx\<close>, ..), so that a stale reading can be expressed; the
  method itself is the reading followed by the transaction.  After the commit the events are delivered
  or, without events, the caches are invalidated; if that throws the committed state stays.  The
  several clock readings of one call are one instant.
\<close>


section \<open>Stock of a cart\<close>

definition inventory_mode_of :: "ident \<Rightarrow> cart_world \<Rightarrow> inventory_mode" where
  "inventory_mode_of catalogId w =
     (case map_get (sv_modes (cw_svc w)) catalogId of None \<Rightarrow> MODE_NONE | Some m \<Rightarrow> m)"

definition shouldReserveCartStock :: "cart_status \<Rightarrow> inventory_mode \<Rightarrow> bool" where
  "shouldReserveCartStock status mode =
     (mode = MODE_INTERNAL \<and> (status = C_SHARED \<or> status = C_IN_PROGRESS \<or> status = C_PAUSED))"

definition reservation_line :: "cart_item \<Rightarrow> line" where
  "reservation_line item =
     (let l = it_line item in
      \<lparr>l_cartItemId = k_id l, l_productId = k_productId l, l_variantId = k_variantId l,
       l_quantity = resolveCartItemBaseQuantity (k_quantity l) (k_baseQuantity l) (k_saleUnit l)\<rparr>)"

type_synonym stock_effects = "ident list \<times> domain_event list"

definition reserveCartStockIfNeededTx ::
    "request \<Rightarrow> cart_row \<Rightarrow> ident option \<Rightarrow> cart_world \<Rightarrow> cart_error + ((bool \<times> stock_effects) \<times> cart_world)" where
  "reserveCartStockIfNeededTx rq cart actor w =
     (if \<not> shouldReserveCartStock (ca_status cart) (inventory_mode_of (ca_catalogId cart) w)
      then Inr ((False, [], []), w)
      else bindE (map_error Inventory_failed (reserveCartStockTx rq (ca_catalogId cart) (ca_id cart)
                    (map reservation_line (live_items (ca_id cart) w)) actor (cw_svc w)))
             (\<lambda>(fx, s). Inr ((True, fx_catalogIds fx, fx_events fx), w\<lparr>cw_svc := s\<rparr>)))"

definition cart_releaseReservationsTx ::
    "request \<Rightarrow> ident \<Rightarrow> ident \<Rightarrow> string \<Rightarrow> ident option \<Rightarrow> cart_world \<Rightarrow> cart_error + (stock_effects \<times> cart_world)" where
  "cart_releaseReservationsTx rq catalogId cartId reason actor w =
     bindE (map_error Inventory_failed
              (releaseCartReservationsTx rq (Some catalogId) cartId reason actor (cw_svc w)))
       (\<lambda>((r, events), s). Inr ((rel_catalogIds r, events), w\<lparr>cw_svc := s\<rparr>))"

definition cart_invalidateCaches ::
    "request \<Rightarrow> stock_effects \<Rightarrow> 'a \<Rightarrow> cart_world \<Rightarrow> (cart_error + 'a) \<times> cart_world" where
  "cart_invalidateCaches rq fx result w =
     (case invalidateProductCachesForCatalogs rq (map Some (fst fx)) (snd fx) (cw_svc w) of
        (Inl e, s) \<Rightarrow> (Inl (Inventory_failed e), w\<lparr>cw_svc := s\<rparr>)
      | (Inr _, s) \<Rightarrow> (Inr result, w\<lparr>cw_svc := s\<rparr>))"

text \<open>The end of a method: roll back, or commit and tell the caches.\<close>

definition commit_tx ::
    "request \<Rightarrow> cart_error + (('a \<times> stock_effects) \<times> cart_world) \<Rightarrow> cart_world \<Rightarrow> (cart_error + 'a) \<times> cart_world" where
  "commit_tx rq tx w =
     (case tx of Inl e \<Rightarrow> (Inl e, w) | Inr ((result, fx), w') \<Rightarrow> cart_invalidateCaches rq fx result w')"

text \<open>A loop over carts in one transaction; each event gets an identifier of its own.\<close>

definition release_step ::
    "request \<Rightarrow> string \<Rightarrow> stock_effects \<times> cart_world \<Rightarrow> ident \<times> ident \<Rightarrow> cart_error + (stock_effects \<times> cart_world)" where
  "release_step rq reason acc p =
     (case (acc, p) of (((cats, events), w), (catalogId, cartId)) \<Rightarrow>
      bindE (cart_releaseReservationsTx (rq\<lparr>rq_uuid := \<lambda>k. rq_uuid rq (length events + k)\<rparr>) catalogId cartId
               reason None w)
        (\<lambda>((cs, es), w'). Inr ((foldl (\<lambda>xs x. set_add x xs) cats cs, events @ es), w')))"


section \<open>Sharing\<close>

datatype share_input = Share_comment string | Share_fields "string option"

fun share_comment :: "share_input option \<Rightarrow> string option" where
  "share_comment None = None"
| "share_comment (Some (Share_comment c)) = Some c"
| "share_comment (Some (Share_fields c)) = c"

text \<open>
  \<^verbatim>\<open>randomBytes(18).toString('base64url')\<close>: the public keys drawn, and the checkout snapshot the
  catalog's configuration gives, are arguments.
\<close>

definition generateUniquePublicKey :: "(nat \<Rightarrow> string) \<Rightarrow> cart_world \<Rightarrow> string option" where
  "generateUniquePublicKey keys w =
     draw_unused keys (\<lambda>t. \<exists>c\<in>set (cw_carts w). ca_publicKey c = Some t) 0"

type_synonym checkout_snapshot = "checkout_method option \<times> json \<times> json"

definition share_data :: "time \<Rightarrow> cart_row \<Rightarrow> string \<Rightarrow> string option \<Rightarrow> checkout_snapshot \<Rightarrow> cart_row \<Rightarrow> cart_row" where
  "share_data now cart publicKey comment checkout c =
     c\<lparr>ca_publicKey := (if truthy (ca_publicKey cart) then ca_publicKey c else Some publicKey),
       ca_status := (if ca_status cart = C_DRAFT then C_SHARED else ca_status c),
       ca_statusChangedAt := (if ca_status cart = C_DRAFT then now else ca_statusChangedAt c),
       ca_comment := (if comment \<noteq> ca_comment cart then comment else ca_comment c),
       ca_checkoutMethod := fst checkout, ca_checkoutData := Some (fst (snd checkout)),
       ca_checkoutContacts := Some (snd (snd checkout))\<rparr>"

definition share_tx ::
    "request \<Rightarrow> cart_row \<Rightarrow> string \<Rightarrow> string option \<Rightarrow> checkout_snapshot \<Rightarrow> cart_world
     \<Rightarrow> cart_error + ((cart_row \<times> stock_effects) \<times> cart_world)" where
  "share_tx rq cart publicKey comment checkout w =
     bindE (cart_update (rq_now rq) (ca_id cart) (share_data (rq_now rq) cart publicKey comment checkout) w)
       (\<lambda>w1. bindE (lookup_findByIdOrThrow (ca_id cart) w1)
       (\<lambda>updated. bindE (reserveCartStockIfNeededTx rq updated None w1)
       (\<lambda>((reserved, fx), w2).
          bindE (if reserved then lookup_findByIdOrThrow (ca_id cart) w2 else Inr updated)
            (\<lambda>result. Inr ((result, fx), w2)))))"

definition shareCurrentCart ::
    "request \<Rightarrow> (nat \<Rightarrow> nat list) \<Rightarrow> (nat \<Rightarrow> string) \<Rightarrow> ident \<Rightarrow> string option \<Rightarrow> share_input option
     \<Rightarrow> cart_error + checkout_snapshot \<Rightarrow> cart_world \<Rightarrow> ((cart_error + cart_row \<times> string) \<times> cart_world) option" where
  "shareCurrentCart rq bytes keys catalogId token input checkout w =
     Option.bind (getOrCreate rq bytes catalogId token w)
       (\<lambda>current. case current of
          Inl e \<Rightarrow> Some (Inl e, w)
        | Inr ((cart, _, t), w1) \<Rightarrow>
            (case checkout of
               Inl e \<Rightarrow> Some (Inl e, w1)
             | Inr snap \<Rightarrow>
                 map_option (\<lambda>key. apfst (map_sum id (\<lambda>c. (c, t)))
                      (commit_tx rq (share_tx rq cart key (trimToNull (share_comment input)) snap w1) w1))
                   (if truthy (ca_publicKey cart) then Some [] else generateUniquePublicKey keys w1)))"


section \<open>The manager's session\<close>

definition ensureCartIsOpen :: "cart_status \<Rightarrow> cart_error + unit" where
  "ensureCartIsOpen status = guardE (status \<notin> set TERMINAL_CART_STATUSES) Cart_already_closed"

definition held_by_other :: "cart_row \<Rightarrow> session_user \<Rightarrow> bool" where
  "held_by_other cart user =
     (truthy (ca_assignedManagerId cart) \<and> ca_assignedManagerId cart \<noteq> Some (su_id user) \<and> su_role user \<noteq> ROLE_ADMIN)"

definition ensureManagerCanTakeCart :: "cart_row \<Rightarrow> session_user \<Rightarrow> cart_error + unit" where
  "ensureManagerCanTakeCart cart user =
     guardE (\<not> (ca_status cart = C_IN_PROGRESS \<and> held_by_other cart user)) Taken_by_other_manager"

definition ensureManagerCanRefreshPresence :: "cart_row \<Rightarrow> session_user \<Rightarrow> cart_error + unit" where
  "ensureManagerCanRefreshPresence cart user = guardE (\<not> held_by_other cart user) Assigned_to_other_manager"

definition ensureManagerOwnsCatalog :: "ident \<Rightarrow> session_user \<Rightarrow> cart_world \<Rightarrow> cart_error + unit" where
  "ensureManagerOwnsCatalog catalogId user w =
     (if su_role user = ROLE_ADMIN then Inr ()
      else if su_role user \<noteq> ROLE_CATALOG then Inl Managers_only
      else case List.find (\<lambda>g. cg_id g = catalogId \<and> cg_deleteAt g = None) (cw_catalogs w) of
        None \<Rightarrow> Inl Catalog_not_found
      | Some g \<Rightarrow> guardE (truthy (cg_userId g) \<and> cg_userId g = Some (su_id user)) No_access_to_cart)"

definition findManageableCartByPublicKeyOrThrow :: "string \<Rightarrow> session_user \<Rightarrow> cart_world \<Rightarrow> cart_error + cart_row" where
  "findManageableCartByPublicKeyOrThrow publicKey user w =
     bindE (lookup_findByPublicKeyOrThrow publicKey w)
       (\<lambda>cart. bindE (ensureManagerOwnsCatalog (ca_catalogId cart) user w) (\<lambda>_. Inr cart))"

definition session_data :: "time \<Rightarrow> session_user \<Rightarrow> cart_row \<Rightarrow> cart_row \<Rightarrow> cart_row" where
  "session_data now user cart c =
     (let same = (ca_status cart = C_IN_PROGRESS \<and> ca_assignedManagerId cart = Some (su_id user)) in
      c\<lparr>ca_status := C_IN_PROGRESS,
        ca_statusChangedAt := (if same then ca_statusChangedAt cart else now),
        ca_assignedManagerId := Some (su_id user),
        ca_managerSessionStartedAt := (if same \<and> ca_managerSessionStartedAt cart \<noteq> None
          then ca_managerSessionStartedAt cart else Some now),
        ca_managerLastSeenAt := Some now\<rparr>)"

text \<open>The transaction of \<^verbatim>\<open>begin\<close> and of \<^verbatim>\<open>heartbeat\<close>: \<open>cart\<close> is the row read before it.\<close>

definition session_tx ::
    "request \<Rightarrow> session_user \<Rightarrow> cart_row \<Rightarrow> cart_world \<Rightarrow> cart_error + ((cart_row \<times> stock_effects) \<times> cart_world)" where
  "session_tx rq user cart w =
     bindE (cart_update (rq_now rq) (ca_id cart) (session_data (rq_now rq) user cart) w)
       (\<lambda>w1. bindE (lookup_findByIdOrThrow (ca_id cart) w1)
       (\<lambda>updated. bindE (reserveCartStockIfNeededTx rq updated (Some (su_id user)) w1)
       (\<lambda>((reserved, fx), w2).
          bindE (if reserved then lookup_findByIdOrThrow (ca_id cart) w2 else Inr updated)
            (\<lambda>result. Inr ((result, fx), w2)))))"

text \<open>The result of a session call is the cart and whether its status or manager changed.\<close>

definition session_changed :: "cart_status \<Rightarrow> session_user \<Rightarrow> cart_row \<Rightarrow> bool" where
  "session_changed status user cart =
     (ca_status cart \<noteq> status \<or> ca_assignedManagerId cart \<noteq> Some (su_id user))"

definition session_begin ::
    "request \<Rightarrow> string \<Rightarrow> session_user \<Rightarrow> cart_world \<Rightarrow> (cart_error + cart_row \<times> bool) \<times> cart_world" where
  "session_begin rq publicKey user w =
     (case bindE (findManageableCartByPublicKeyOrThrow publicKey user w)
             (\<lambda>cart. bindE (ensureCartIsOpen (ca_status cart))
             (\<lambda>_. bindE (ensureManagerCanTakeCart cart user) (\<lambda>_. Inr cart))) of
        Inl e \<Rightarrow> (Inl e, w)
      | Inr cart \<Rightarrow> apfst (map_sum id (\<lambda>c. (c, session_changed C_IN_PROGRESS user cart)))
          (commit_tx rq (session_tx rq user cart w) w))"

definition session_heartbeat ::
    "request \<Rightarrow> string \<Rightarrow> session_user \<Rightarrow> cart_world \<Rightarrow> (cart_error + cart_row \<times> bool) \<times> cart_world" where
  "session_heartbeat rq publicKey user w =
     (case bindE (findManageableCartByPublicKeyOrThrow publicKey user w)
             (\<lambda>cart. bindE (ensureCartIsOpen (ca_status cart))
             (\<lambda>_. bindE (ensureManagerCanRefreshPresence cart user) (\<lambda>_. Inr cart))) of
        Inl e \<Rightarrow> (Inl e, w)
      | Inr cart \<Rightarrow> apfst (map_sum id (\<lambda>c. (c, session_changed C_IN_PROGRESS user cart)))
          (commit_tx rq (session_tx rq user cart w) w))"

definition pause_data :: "time \<Rightarrow> session_user \<Rightarrow> cart_row \<Rightarrow> cart_row \<Rightarrow> cart_row" where
  "pause_data now user cart c =
     c\<lparr>ca_status := C_PAUSED,
       ca_statusChangedAt := (if ca_status cart = C_PAUSED \<and> ca_assignedManagerId cart = Some (su_id user)
         then ca_statusChangedAt cart else now),
       ca_assignedManagerId := Some (su_id user),
       ca_managerSessionStartedAt := (case ca_managerSessionStartedAt cart of None \<Rightarrow> Some now | Some t \<Rightarrow> Some t),
       ca_managerLastSeenAt := Some now\<rparr>"

definition session_release ::
    "request \<Rightarrow> string \<Rightarrow> session_user \<Rightarrow> cart_world \<Rightarrow> (cart_error + cart_row \<times> bool) \<times> cart_world" where
  "session_release rq publicKey user w =
     (case bindE (findManageableCartByPublicKeyOrThrow publicKey user w)
             (\<lambda>cart. bindE (ensureCartIsOpen (ca_status cart))
             (\<lambda>_. bindE (ensureManagerCanRefreshPresence cart user)
             (\<lambda>_. bindE (cart_update (rq_now rq) (ca_id cart) (pause_data (rq_now rq) user cart) w)
             (\<lambda>w1. Inr (cart, w1))))) of
        Inl e \<Rightarrow> (Inl e, w)
      | Inr (cart, w1) \<Rightarrow>
          (map_sum id (\<lambda>c. (c, session_changed C_PAUSED user cart)) (lookup_findByIdOrThrow (ca_id cart) w1), w1))"


section \<open>Deletion\<close>

datatype delete_result = Deleted ident time string | Detached ident string

definition findCurrentCartOrThrow :: "ident \<Rightarrow> string option \<Rightarrow> cart_world \<Rightarrow> cart_error + (cart_row \<times> string)" where
  "findCurrentCartOrThrow catalogId token w =
     (case trimToNull token of
        None \<Rightarrow> Inl Cart_not_found
      | Some t \<Rightarrow> bindE (option_to_res Cart_not_found
            (List.find (\<lambda>c. ca_catalogId c = catalogId \<and> ca_token c = Some t \<and>
               ca_status c \<in> {C_DRAFT, C_SHARED, C_IN_PROGRESS, C_PAUSED} \<and> ca_deleteAt c = None) (cw_carts w)))
          (\<lambda>c. Inr (c, t)))"

definition delete_tx ::
    "request \<Rightarrow> ident \<Rightarrow> cart_row \<Rightarrow> string \<Rightarrow> cart_world \<Rightarrow> cart_error + ((delete_result \<times> stock_effects) \<times> cart_world)" where
  "delete_tx rq catalogId cart token w =
     (let now = rq_now rq;
          w1 = w\<lparr>cw_items := update_where (\<lambda>x. it_cartId x = ca_id cart \<and> it_deleteAt x = None)
                 (\<lambda>x. x\<lparr>it_deleteAt := Some now\<rparr>) (cw_items w)\<rparr>
      in bindE (cart_update now (ca_id cart)
             (\<lambda>c. c\<lparr>ca_deleteAt := Some now, ca_token := None, ca_userId := None, ca_publicKey := None,
                    ca_checkoutKey := None, ca_checkoutMethod := None, ca_checkoutData := None,
                    ca_checkoutContacts := None\<rparr>) w1)
           (\<lambda>w2. bindE (cart_releaseReservationsTx rq catalogId (ca_id cart) ''Cart deleted by customer'' None w2)
           (\<lambda>(fx, w3). Inr ((Deleted (ca_id cart) now token, fx), w3))))"

definition deleteCurrentCart ::
    "request \<Rightarrow> ident \<Rightarrow> string option \<Rightarrow> cart_world \<Rightarrow> (cart_error + delete_result) \<times> cart_world" where
  "deleteCurrentCart rq catalogId token w =
     (case findCurrentCartOrThrow catalogId token w of
        Inl e \<Rightarrow> (Inl e, w)
      | Inr (cart, t) \<Rightarrow>
          if ca_status cart = C_IN_PROGRESS \<or> truthy (ca_assignedManagerId cart) then
            (case cart_update (rq_now rq) (ca_id cart) (\<lambda>c. c\<lparr>ca_token := None, ca_userId := None\<rparr>) w of
               Inl e \<Rightarrow> (Inl e, w) | Inr w' \<Rightarrow> (Inr (Detached (ca_id cart) t), w'))
          else commit_tx rq (delete_tx rq catalogId cart t w) w)"


section \<open>Expiry\<close>

definition expireInactiveManagerSessions :: "request \<Rightarrow> int \<Rightarrow> cart_world \<Rightarrow> cart_row list \<times> cart_world" where
  "expireInactiveManagerSessions rq inactivityMs w =
     (let threshold = rq_now rq - inactivityMs;
          stale = map ca_id (filter (\<lambda>c. ca_deleteAt c = None \<and> ca_status c = C_IN_PROGRESS \<and>
            (case ca_managerLastSeenAt c of None \<Rightarrow> False | Some t \<Rightarrow> t < threshold)) (cw_carts w))
      in if stale = [] then ([], w)
         else
           let w' = cart_updateMany (rq_now rq) (\<lambda>c. ca_id c \<in> set stale \<and> ca_status c = C_IN_PROGRESS)
                 (\<lambda>c. c\<lparr>ca_status := C_PAUSED, ca_statusChangedAt := rq_now rq\<rparr>) w
           in (filter (\<lambda>c. ca_id c \<in> set stale \<and> ca_deleteAt c = None \<and> ca_status c = C_PAUSED) (cw_carts w'), w'))"

definition stale_drafts :: "time \<Rightarrow> cart_world \<Rightarrow> cart_row list" where
  "stale_drafts threshold w =
     filter (\<lambda>c. ca_deleteAt c = None \<and> ca_status c \<in> {C_DRAFT, C_SHARED} \<and> ca_updatedAt c < threshold \<and>
       session_of (ca_id c) w = None) (cw_carts w)"

definition expire_drafts_tx ::
    "request \<Rightarrow> cart_row list \<Rightarrow> cart_world \<Rightarrow> cart_error + ((nat \<times> stock_effects) \<times> cart_world)" where
  "expire_drafts_tx rq stale w =
     (let now = rq_now rq; ids = map ca_id stale;
          w1 = cart_updateMany now (\<lambda>c. ca_id c \<in> set ids \<and> ca_status c \<in> {C_DRAFT, C_SHARED})
                 (\<lambda>c. c\<lparr>ca_status := C_EXPIRED, ca_statusChangedAt := now\<rparr>) w
      in bindE (foldE (release_step rq ''Cart expired'') (([], []), w1) (map (\<lambda>c. (ca_catalogId c, ca_id c)) stale))
           (\<lambda>(fx, w2). Inr ((length ids, fx), w2)))"

definition expireAbandonedDraftCarts :: "request \<Rightarrow> int \<Rightarrow> cart_world \<Rightarrow> (cart_error + nat) \<times> cart_world" where
  "expireAbandonedDraftCarts rq draftTtlMs w =
     (let stale = stale_drafts (rq_now rq - draftTtlMs) w in
      if stale = [] then (Inr 0, w) else commit_tx rq (expire_drafts_tx rq stale w) w)"


section \<open>Hall tables\<close>

definition close_data :: "cart_status \<Rightarrow> time \<Rightarrow> cart_row \<Rightarrow> cart_row" where
  "close_data status now c =
     c\<lparr>ca_status := status, ca_statusChangedAt := now, ca_closedAt := Some now, ca_assignedManagerId := None,
       ca_managerLastSeenAt := None, ca_publicKey := None, ca_checkoutKey := None\<rparr>"

definition isActiveHallTableSessionStatus :: "session_status \<Rightarrow> bool" where
  "isActiveHallTableSessionStatus st = (st \<in> set ACTIVE_HALL_TABLE_SESSION_STATUSES)"

definition session_updateMany ::
    "(table_session \<Rightarrow> bool) \<Rightarrow> session_status \<Rightarrow> time \<Rightarrow> cart_world \<Rightarrow> cart_world" where
  "session_updateMany P st now w =
     w\<lparr>cw_sessions := update_where P (\<lambda>t. t\<lparr>ts_status := st, ts_activeKey := None, ts_closedAt := Some now\<rparr>)
        (cw_sessions w)\<rparr>"

definition close_table_tx ::
    "request \<Rightarrow> cart_row \<Rightarrow> table_session \<Rightarrow> session_status \<Rightarrow> ident option \<Rightarrow> cart_world
     \<Rightarrow> cart_error + ((cart_row \<times> stock_effects) \<times> cart_world)" where
  "close_table_tx rq cart session st actor w =
     (let now = rq_now rq;
          S = (\<lambda>t. ts_id t = ts_id session \<and> ts_status t \<in> set ACTIVE_HALL_TABLE_SESSION_STATUSES \<and> ts_deleteAt t = None);
          K = (\<lambda>c. ca_id c = ca_id cart \<and> ca_deleteAt c = None \<and> ca_status c \<notin> set TERMINAL_CART_STATUSES);
          w1 = session_updateMany S st now w;
          w2 = cart_updateMany now K (close_data C_CANCELLED now) w1
      in if count_where S (cw_sessions w) = 0 then Inl Session_not_active
         else if count_where K (cw_carts w1) = 0 then Inl Cart_already_closed
         else bindE (cart_releaseReservationsTx rq (ca_catalogId cart) (ca_id cart)
                (if st = T_CLOSED then ''Hall table session closed'' else ''Hall table session reset'') actor w2)
           (\<lambda>(fx, w3). bindE (lookup_findByIdOrThrow (ca_id cart) w3) (\<lambda>fresh. Inr ((fresh, fx), w3))))"

definition closeHallTableSession ::
    "request \<Rightarrow> cart_row \<Rightarrow> table_session option \<Rightarrow> session_status \<Rightarrow> ident option \<Rightarrow> cart_world
     \<Rightarrow> (cart_error + cart_row) \<times> cart_world" where
  "closeHallTableSession rq cart session st actor w =
     (case session of
        None \<Rightarrow> (Inl Session_not_found, w)
      | Some t \<Rightarrow>
          if \<not> isActiveHallTableSessionStatus (ts_status t) then (Inl Session_not_active, w)
          else commit_tx rq (close_table_tx rq cart t st actor w) w)"

definition stale_tables :: "time \<Rightarrow> cart_world \<Rightarrow> table_session list" where
  "stale_tables threshold w =
     filter (\<lambda>t. ts_deleteAt t = None \<and> ts_status t \<in> set ACTIVE_HALL_TABLE_SESSION_STATUSES \<and>
       (case List.find (\<lambda>c. ca_id c = ts_cartId t) (cw_carts w) of
          None \<Rightarrow> False
        | Some c \<Rightarrow> ca_deleteAt c = None \<and> ca_status c \<in> {C_SHARED, C_IN_PROGRESS, C_PAUSED} \<and>
            ca_updatedAt c < threshold)) (cw_sessions w)"

definition expire_tables_tx ::
    "request \<Rightarrow> table_session list \<Rightarrow> cart_world \<Rightarrow> cart_error + ((nat \<times> stock_effects) \<times> cart_world)" where
  "expire_tables_tx rq stale w =
     (let now = rq_now rq; cartIds = remdups (map ts_cartId stale);
          w1 = session_updateMany (\<lambda>t. ts_id t \<in> ts_id ` set stale \<and>
                 ts_status t \<in> set ACTIVE_HALL_TABLE_SESSION_STATUSES) T_EXPIRED now w;
          w2 = cart_updateMany now (\<lambda>c. ca_id c \<in> set cartIds \<and> ca_deleteAt c = None \<and>
                 ca_status c \<in> {C_SHARED, C_IN_PROGRESS, C_PAUSED}) (close_data C_EXPIRED now) w1
      in bindE (foldE (release_step rq ''Hall table session expired'') (([], []), w2)
                  (map (\<lambda>t. (ts_catalogId t, ts_cartId t)) stale))
           (\<lambda>(fx, w3). Inr ((length stale, fx), w3)))"

definition expireStaleHallTableSessions ::
    "request \<Rightarrow> int \<Rightarrow> cart_world \<Rightarrow> (cart_error + nat \<times> cart_row list) \<times> cart_world" where
  "expireStaleHallTableSessions rq ttlMs w =
     (let stale = stale_tables (rq_now rq - ttlMs) w in
      if stale = [] then (Inr (0, []), w)
      else case commit_tx rq (expire_tables_tx rq stale w) w of
        (Inl e, w') \<Rightarrow> (Inl e, w')
      | (Inr n, w') \<Rightarrow>
          (Inr (n, filter (\<lambda>c. ca_id c \<in> ts_cartId ` set stale \<and> ca_deleteAt c = None \<and> ca_status c = C_EXPIRED)
             (cw_carts w')), w'))"


section \<open>Checkout\<close>

definition current_features :: "request \<Rightarrow> ident \<Rightarrow> cart_world \<Rightarrow> map_options" where
  "current_features rq catalogId w =
     (let can = (\<lambda>c. can_use (rq_tz rq) (sv_entitlements (cw_svc w)) catalogId c (rq_now rq)) in
      \<lparr>canUseProductVariants = can PRODUCT_VARIANTS, canUseCatalogSaleUnits = can CATALOG_SALE_UNITS,
       canUseCatalogModifiers = can CATALOG_MODIFIERS\<rparr>)"

definition shouldEnforceStockOnCheckout :: "inventory_mode \<Rightarrow> bool" where
  "shouldEnforceStockOnCheckout mode = (mode \<noteq> MODE_NONE \<and> mode \<noteq> MODE_EXTERNAL \<and> mode \<noteq> MODE_INTERNAL)"

definition order_line_of :: "snapshot_item \<Rightarrow> line" where
  "order_line_of i = \<lparr>l_cartItemId = sn_id i, l_productId = sn_productId i, l_variantId = sn_variantId i,
     l_quantity = sn_baseQuantity i\<rparr>"

definition create_order :: "request \<Rightarrow> cart_row \<Rightarrow> snapshot_item list \<Rightarrow> cart_world \<Rightarrow> cart_error + (order_row \<times> cart_world)" where
  "create_order rq cart items w =
     (let i = rq_gen rq (map od_id (cw_orders w));
          order = \<lparr>od_id = i, od_catalogId = ca_catalogId cart, od_comment = ca_comment cart,
            od_isDelivery = (ca_checkoutMethod cart = Some DELIVERY),
            od_address = resolveDeliveryAddress (ca_checkoutMethod cart) (ca_checkoutData cart),
            od_checkoutMethod = ca_checkoutMethod cart, od_checkoutData = ca_checkoutData cart,
            od_checkoutContacts = ca_checkoutContacts cart, od_products = items,
            od_totalAmount = resolveTotalAmount items\<rparr>
      in if i \<in> od_id ` set (cw_orders w) then Inl (Cart_db UniqueViolation)
         else Inr (order, w\<lparr>cw_orders := cw_orders w @ [order]\<rparr>))"

definition convert_data :: "time \<Rightarrow> ident option \<Rightarrow> cart_row \<Rightarrow> cart_row" where
  "convert_data now actor c =
     c\<lparr>ca_status := C_CONVERTED, ca_statusChangedAt := now, ca_assignedManagerId := actor,
       ca_managerLastSeenAt := Some now, ca_closedAt := Some now, ca_publicKey := None, ca_checkoutKey := None\<rparr>"

definition consume_if_internal ::
    "request \<Rightarrow> cart_row \<Rightarrow> inventory_mode \<Rightarrow> ident \<Rightarrow> snapshot_item list \<Rightarrow> ident option \<Rightarrow> cart_world
     \<Rightarrow> cart_error + (stock_effects \<times> cart_world)" where
  "consume_if_internal rq cart mode orderId items actor w =
     (if mode \<noteq> MODE_INTERNAL then Inr (([], []), w)
      else bindE (map_error Inventory_failed (consumeCompletedOrderStockTx rq (ca_catalogId cart) (ca_id cart) orderId
                    (map order_line_of items) actor (cw_svc w)))
             (\<lambda>(fx, s). Inr ((fx_catalogIds fx, fx_events fx), w\<lparr>cw_svc := s\<rparr>)))"

definition complete_tx ::
    "request \<Rightarrow> snapshot_ports \<Rightarrow> ident \<Rightarrow> ident option \<Rightarrow> cart_world
     \<Rightarrow> cart_error + ((order_row \<times> stock_effects) \<times> cart_world)" where
  "complete_tx rq ports cartId actor w =
     bindE (lookup_findByIdOrThrow cartId w)
       (\<lambda>cart. bindE (ensureCartIsOpen (ca_status cart))
       (\<lambda>_. let items = live_items (ca_id cart) w;
                K = (\<lambda>c. ca_id c = ca_id cart \<and> ca_status c \<in> set CURRENT_CART_VISIBLE_STATUSES \<and> ca_deleteAt c = None);
                w1 = cart_updateMany (rq_now rq) K (convert_data (rq_now rq) actor) w;
                mode = inventory_mode_of (ca_catalogId cart) w
            in if items = [] then Inl Cart_empty
               else if count_where K (cw_carts w) \<noteq> 1 then Inl Cart_already_completed
               else bindE (buildSnapshotItems ports (current_features rq (ca_catalogId cart) w)
                             (shouldEnforceStockOnCheckout mode) (rq_now rq) (ca_catalogId cart) items)
       (\<lambda>sn. if mode = MODE_INTERNAL \<and> (\<exists>i\<in>set sn. \<not> truthy (sn_variantId i)) then Inl Internal_items_need_variant
             else bindE (create_order rq cart sn w1)
       (\<lambda>(order, w2). bindE (consume_if_internal rq cart mode (od_id order) sn actor w2)
       (\<lambda>(fx, w3). Inr ((order, fx), w3))))))"

definition checkout_complete ::
    "request \<Rightarrow> snapshot_ports \<Rightarrow> ident \<Rightarrow> ident option \<Rightarrow> cart_world \<Rightarrow> (cart_error + order_row) \<times> cart_world" where
  "checkout_complete rq ports cartId actor w = commit_tx rq (complete_tx rq ports cartId actor w) w"

end
