(* ===== verification/Cart_Stock.thy ===== *)
theory Cart_Stock
  imports Cart_Lifecycle Inventory_Properties
begin

text \<open>
  Which carts hold stock.  Only a reservation for a cart can make it hold stock, a release of the cart
  ends it, and every other stock operation leaves the set of holding carts as it is or makes it smaller.
\<close>


section \<open>Holding carts\<close>

definition active_carts :: "inv_db \<Rightarrow> ident set" where
  "active_carts db = {c. \<exists>r\<in>set (reservations db). r_cartId r = Some c \<and> r_status r = R_ACTIVE}"

lemma active_carts_cong: "reservations db' = reservations db \<Longrightarrow> active_carts db' = active_carts db"
  by (simp add: active_carts_def)

lemma active_carts_update:
  assumes "reservations db' = update_where P f (reservations db)"
    and "\<And>r c. P r \<Longrightarrow> r_cartId (f r) = Some c \<Longrightarrow> r_status (f r) = R_ACTIVE \<Longrightarrow>
      c \<in> C \<or> r_cartId r = Some c \<and> r_status r = R_ACTIVE"
  shows "active_carts db' \<subseteq> C \<union> active_carts db"
  using assms(2) by (auto simp: active_carts_def assms(1) set_update_where)

lemma update_active:
  assumes "update_reservation i f db = Inr db'"
    and "\<And>r c. r_cartId (f r) = Some c \<Longrightarrow> r_status (f r) = R_ACTIVE \<Longrightarrow>
      c \<in> C \<or> r_cartId r = Some c \<and> r_status r = R_ACTIVE"
  shows "active_carts db' \<subseteq> C \<union> active_carts db"
  by (rule active_carts_update [where P = "\<lambda>r. r_id r = i" and f = f])
    (use update_reservation_Inr(1) [OF assms(1)] assms(2) in auto)

lemma create_active:
  assumes "create_reservation gen s db = Inr (i, db')" "r_status s = R_ACTIVE \<Longrightarrow> r_cartId s \<in> Some ` C"
  shows "active_carts db' \<subseteq> C \<union> active_carts db"
  using create_reservation_Inr(1) [OF assms(1)] assms(2) by (auto simp: active_carts_def)

text \<open>A loop whose body adds at most the carts \<open>C\<close>.\<close>

lemma foldE_active:
  assumes "foldE f s xs = Inr s'"
    and "\<And>a d x a' d'. x \<in> set xs \<Longrightarrow> f (a, d) x = Inr (a', d') \<Longrightarrow> active_carts d' \<subseteq> C \<union> active_carts d"
  shows "active_carts (snd s') \<subseteq> C \<union> active_carts (snd s)"
proof (rule foldE_rel [where R = "\<lambda>s s'. active_carts (snd s') \<subseteq> C \<union> active_carts (snd s)", OF assms(1)])
  fix s x s'
  assume "x \<in> set xs" "f s x = Inr s'"
  with assms(2) [of x "fst s" "snd s" "fst s'" "snd s'"] show "active_carts (snd s') \<subseteq> C \<union> active_carts (snd s)"
    by simp
qed auto

lemma release_active:
  assumes "releaseActiveReservation gen now st src reason actor mk r db = Inr (c, db')" "st \<noteq> R_ACTIVE"
  shows "active_carts db' \<subseteq> active_carts db"
  using assms(1)
proof (cases rule: releaseActive_cases)
  case (released h db2)
  have "reservations db2 = update_where (claim r) (mark st now) (reservations db)"
    using releaseReservedQuantity_frame [OF released(3)] by simp
  with released(5) have "reservations db' = update_where (claim r) (mark st now) (reservations db)" by simp
  from active_carts_update [OF this, of "{}"] assms(2) show ?thesis by auto
qed simp

lemma release_one_active:
  "release_one gen now reason actor (acc, db) r = Inr (acc', db') \<Longrightarrow> active_carts db' \<subseteq> active_carts db"
  by (drule release_one_Inr) (auto dest: release_active)

lemma releaseCart_active:
  assumes "inv_ok db" "releaseCartReservations gen now cat c reason actor db = Inr (res, db')"
  shows "active_carts db' \<subseteq> active_carts db - {c}"
proof -
  from assms(2) obtain acc where
      f: "foldE (release_one gen now reason actor) ((0, [], []), db) (active_cart_reservations db c) = Inr (acc, db')"
    by (auto simp: releaseCartReservations_def)
  have "active_carts (snd (acc, db')) \<subseteq> {} \<union> active_carts (snd ((0::nat, [] :: ident list, [] :: stock_change list), db))"
    by (rule foldE_active [OF f]) (use release_one_active in auto)
  moreover have "c \<notin> active_carts db'"
  proof -
    have rows: "reservations db' = update_where (\<lambda>x. r_id x \<in> r_id ` set (active_cart_reservations db c) \<and>
        r_status x = R_ACTIVE) (mark R_RELEASED now) (reservations db)"
      using release_list_rows [OF f releasing_active_cart(1) [OF assms(1)]] by blast
    show ?thesis
      unfolding active_carts_def rows set_update_where
      using active_cart_ids [OF inv_okD(1) [OF assms(1)], of _ c] by auto
  qed
  ultimately show ?thesis by auto
qed

lemma expire_loop_active: "active_carts (snd (expire_loop gen now acc db rs)) \<subseteq> active_carts db"
proof (induction rs arbitrary: acc db)
  case Nil
  show ?case by (cases acc) simp
next
  case (Cons p rs)
  obtain r c where p: "p = (r, c)" by (cases p)
  obtain n vs cs ds where acc: "acc = (n, vs, cs, ds)" by (cases acc)
  show ?case
  proof (cases "releaseExpiredReservation gen now r db")
    case (Inr q)
    obtain ch db1 where q: "q = (ch, db1)" by (cases q)
    have "active_carts db1 \<subseteq> active_carts db"
      using release_active [OF Inr [unfolded q releaseExpiredReservation_def]] by simp
    then have "active_carts (snd (expire_loop gen now acc' db1 rs)) \<subseteq> active_carts db" for acc'
      using Cons.IH by (rule subset_trans [rotated])
    with Inr p q acc show ?thesis by (cases ch) simp_all
  qed (simp add: p acc)
qed

lemma releaseExpired_active: "active_carts (snd (releaseExpiredReservations gen now n db)) \<subseteq> active_carts db"
  using expire_loop_active [of gen now "(0, [], [], [])" db "expired_reservations db now n"]
  by (auto simp: releaseExpiredReservations_def split: prod.split sum.split)

lemma adjust_active:
  assumes "adjustStock gen now cat w v d reason actor db = Inr (a, db')"
  shows "active_carts db' = active_carts db"
  using assms by (rule adjustStock_Inr) (auto intro!: active_carts_cong simp: sync_frame movement_frame)


section \<open>Reservation\<close>

lemma reserveCartLine_active:
  assumes "reserveCartLine gen now cat c w i v q expires actor db = Inr (out, db')"
  shows "active_carts db' \<subseteq> {c} \<union> active_carts db"
  using assms
proof (cases rule: reserveCartLine_Inr)
  case (1 key existing released db1 db2 rid db3 db4)
  have "active_carts db1 \<subseteq> active_carts db"
    using 1(3) release_active by (auto simp: release_moved_def split: option.splits if_splits)
  moreover have "active_carts db2 = active_carts db1"
    by (rule active_carts_cong) (rule move_reserved_rows [OF 1(4)])
  moreover have "active_carts db3 \<subseteq> {c} \<union> active_carts db2"
  proof (cases existing)
    case None
    with 1(5) show ?thesis unfolding write_reservation_def by (auto dest: create_active [where C = "{c}"])
  next
    case (Some e)
    with 1(5) obtain f where "update_reservation (r_id e) f db2 = Inr db3" "\<And>r. r_cartId (f r) = Some c"
      by (auto simp: write_reservation_def)
    then show ?thesis by (intro update_active) auto
  qed
  moreover have "active_carts db4 = active_carts db3"
    using record_reserve_movement_Inr [OF 1(6)] by (auto intro!: active_carts_cong simp: movement_frame)
  moreover have "active_carts db' = active_carts db4"
    using 1(7) by (auto intro!: active_carts_cong simp: sync_frame)
  ultimately show ?thesis by auto
qed

lemma reserveCart_active:
  assumes "inv_ok db" "reserveCartStock gen now cat c lines expires actor db = Inr (res, db')"
  shows "active_carts db' \<subseteq> {c} \<union> active_carts db"
proof (cases "\<exists>l\<in>set lines. l_quantity l > 0")
  case False
  then have "filter (\<lambda>l. l_quantity l > 0) lines = []" by (auto simp: filter_empty_conv)
  with assms(2) obtain rel where
      "releaseCartReservations gen now (Some cat) c ''Cart reservation refreshed'' actor db = Inr (rel, db')"
    by (auto simp: reserveCartStock_def)
  from releaseCart_active [OF assms(1) this] show ?thesis by blast
next
  case True
  with assms(2) show ?thesis
  proof (cases rule: reserveCartStock_Inr)
    case (1 w acc1 db1 acc2)
    have "active_carts (snd (acc1, db1)) \<subseteq> {} \<union> active_carts (snd ((0::nat, [] :: ident list, [] :: stock_change list), db))"
      by (rule foldE_active [OF 1(3)]) (auto simp: release_unwanted_def split: option.splits if_splits dest: release_one_active)
    moreover have "active_carts (snd (acc2, db')) \<subseteq> {c} \<union> active_carts (snd ((0::nat, snd acc1), db1))"
      by (rule foldE_active [OF 1(4)]) (blast elim: reserve_line_Inr dest: reserveCartLine_active)
    ultimately show ?thesis by auto
  qed
qed


section \<open>Consumption\<close>

lemma consume_reservation_active:
  assumes "consume_reservation gen now ord cart item v key (ids, db) p = Inr (ids', db')"
  shows "active_carts db' \<subseteq> active_carts db"
proof -
  obtain r q where p: "p = (r, q)" by (cases p)
  show ?thesis
  proof (cases "q \<ge> r_quantity r")
    case True
    with assms p have "\<exists>f. update_reservation (r_id r) f db = Inr db' \<and> (\<forall>x. r_status (f x) = R_CONSUMED)"
      by (auto simp: consume_reservation_def)
    then obtain f where f: "update_reservation (r_id r) f db = Inr db'" "\<And>x. r_status (f x) = R_CONSUMED" by blast
    from update_active [OF f(1), of "{}"] f(2) show ?thesis by auto
  next
    case False
    with assms p obtain f db1 s i where f: "update_reservation (r_id r) f db = Inr db1"
        "\<And>x. r_status (f x) = r_status x" "\<And>x. r_cartId (f x) = r_cartId x"
        and s: "create_reservation gen s db1 = Inr (i, db')" "r_status s = R_CONSUMED"
      by (auto simp: consume_reservation_def)
    from update_active [OF f(1), of "{}"] f(2,3) have "active_carts db1 \<subseteq> active_carts db" by auto
    moreover from create_active [OF s(1), of "{}"] s(2) have "active_carts db' \<subseteq> active_carts db1" by simp
    ultimately show ?thesis by auto
  qed
qed

lemma consumeBalance_rows: "consumeStockBalance now w v q r d db = Inr (a, db') \<Longrightarrow> reservations db' = reservations db"
  by (auto simp: consumeStockBalance_def Let_def split: option.splits if_splits)

lemma saleMovement_rows:
  "createSaleMovement gen w v q a r ord c actor k db = Inr db' \<Longrightarrow> reservations db' = reservations db"
  by (auto simp: createSaleMovement_def movement_frame)

lemma consume_group_rows:
  "consume_group gen now ord cart v actor key ids (a, db) g = Inr (a', db') \<Longrightarrow> reservations db' = reservations db"
  by (cases a; cases g) (auto simp: consume_group_def dest!: consumeBalance_rows saleMovement_rows)

lemma consume_direct_active:
  assumes "consume_direct gen now ord cart item v actor key w q ((n, f), db) = Inr (f', db')"
  shows "active_carts db' \<subseteq> active_carts db"
proof -
  from assms obtain s i db1 where s: "create_reservation gen s db = Inr (i, db1)" "r_status s = R_CONSUMED"
      and rows: "reservations db' = reservations db1"
    by (auto simp: consume_direct_def dest!: consumeBalance_rows saleMovement_rows)
  from create_active [OF s(1), of "{}"] s(2) have "active_carts db1 \<subseteq> active_carts db" by simp
  with active_carts_cong [OF rows] show ?thesis by simp
qed

lemma consumeLine_active:
  assumes "consumeCompletedOrderLine gen now cat cart ord item v q actor db = Inr (out, db')"
  shows "active_carts db' \<subseteq> active_carts db"
proof (cases "\<exists>m\<in>set (movements db). m_key m = Some (buildSaleIdempotencyKey ord item)")
  case True
  with assms show ?thesis by (simp add: consumeCompletedOrderLine_def Let_def)
next
  case False
  then have "\<forall>m\<in>set (movements db). m_key m \<noteq> Some (buildSaleIdempotencyKey ord item)" by blast
  with assms show ?thesis
  proof (cases rule: consume_line_Inr)
    case (1 used gs remaining direct ids db1 n first db2 first' db3 ch)
    have "active_carts (snd (ids, db1)) \<subseteq> {} \<union> active_carts (snd ([] :: (ident \<times> ident) list, db))"
      by (rule foldE_active [OF 1(3)]) (use consume_reservation_active in auto)
    moreover have "active_carts (snd ((n, first), db2)) \<subseteq> {} \<union> active_carts (snd ((0::nat, None :: ident option), db1))"
      by (rule foldE_active [OF 1(4)]) (use active_carts_cong [OF consume_group_rows] in auto)
    moreover have "active_carts db3 \<subseteq> active_carts db2"
      using 1(5) consume_direct_active by (auto split: option.splits)
    moreover have "active_carts db' = active_carts db3"
      by (rule active_carts_cong) (rule sync_frame(2) [OF 1(6)])
    ultimately show ?thesis by simp
  qed
qed

lemma consume_line_active:
  assumes "consume_line gen now cat cart ord actor (acc, db) l = Inr (acc', db')"
  shows "active_carts db' \<subseteq> active_carts db"
proof (cases "l_variantId l")
  case None
  with assms show ?thesis by (cases acc) (simp add: consume_line_def)
next
  case (Some v)
  with assms obtain out where
      "consumeCompletedOrderLine gen now cat cart ord (l_cartItemId l) v (l_quantity l) actor db = Inr (out, db')"
    by (cases acc) (auto simp: consume_line_def)
  then show ?thesis by (rule consumeLine_active)
qed

lemma consumeOrder_active:
  assumes "consumeCompletedOrderStock gen now cat cart ord lines actor db = Inr (res, db')"
  shows "active_carts db' \<subseteq> active_carts db"
proof -
  from assms obtain acc where f: "foldE (consume_line gen now cat cart ord actor) ((None, [], []), db)
      (filter (\<lambda>l. has_variant l \<and> l_quantity l > 0) lines) = Inr (acc, db')"
    by (auto simp: consumeCompletedOrderStock_def Let_def)
  have "active_carts (snd (acc, db')) \<subseteq>
      {} \<union> active_carts (snd ((None :: ident option, [] :: ident list, [] :: stock_change list), db))"
    by (rule foldE_active [OF f]) (use consume_line_active in auto)
  then show ?thesis by simp
qed

end
