(* ===== verification/Cart_Invariant.thy ===== *)
theory Cart_Invariant
  imports Cart_Stock
begin

text \<open>
  The cart services as a state machine, and its invariant: the stock and outbox invariants of the
  inventory service hold, identifiers are unique, and a deleted, cancelled or expired cart holds no
  stock.  Inside a transaction the last part may fail for the carts that the transaction still has to
  release; \<open>cart_ok_but D\<close> is the invariant without the carts \<open>D\<close>.
\<close>


section \<open>Invariant\<close>

definition cart_dead :: "cart_row \<Rightarrow> bool" where
  "cart_dead c = (ca_deleteAt c \<noteq> None \<or> ca_status c = C_CANCELLED \<or> ca_status c = C_EXPIRED)"

definition item_ids_ok :: "cart_item list \<Rightarrow> bool" where
  "item_ids_ok items = (distinct (map (k_id \<circ> it_line) items) \<and>
     list_all (\<lambda>x. case k_variantId (it_line x) of None \<Rightarrow> True | Some v \<Rightarrow> CHR '':'' \<notin> set v) items)"

definition holders_ok :: "ident set \<Rightarrow> cart_world \<Rightarrow> bool" where
  "holders_ok D w = (\<forall>c\<in>set (cw_carts w). cart_dead c \<longrightarrow> ca_id c \<notin> active_carts (sv_inv (cw_svc w)) - D)"

definition variant_ids_ok :: "product_tables \<Rightarrow> bool" where
  "variant_ids_ok pt = list_all (\<lambda>i. CHR '':'' \<notin> set (vi_id i)) (pt_variants pt)"

definition cart_ok_but :: "ident list \<Rightarrow> ident set \<Rightarrow> cart_world \<Rightarrow> bool" where
  "cart_ok_but old D w = (service_ok old (cw_svc w) \<and> distinct (map ca_id (cw_carts w)) \<and>
     item_ids_ok (cw_items w) \<and> variant_ids_ok (cw_products w) \<and> holders_ok D w)"

abbreviation cart_ok :: "ident list \<Rightarrow> cart_world \<Rightarrow> bool" where
  "cart_ok old w \<equiv> cart_ok_but old {} w"

text \<open>What a step on the stock leaves of the other tables.\<close>

definition same_tables_but_stock :: "cart_world \<Rightarrow> cart_world \<Rightarrow> bool" where
  "same_tables_but_stock w w' = (cw_carts w' = cw_carts w \<and> cw_items w' = cw_items w \<and>
     cw_sessions w' = cw_sessions w \<and> cw_orders w' = cw_orders w \<and> cw_catalogs w' = cw_catalogs w \<and> cw_products w' = cw_products w)"

lemma same_tables_refl [simp]: "same_tables_but_stock w w" "same_tables_but_stock w (w\<lparr>cw_svc := s\<rparr>)"
  by (simp_all add: same_tables_but_stock_def)

lemma same_tables_trans:
  "same_tables_but_stock w w' \<Longrightarrow> same_tables_but_stock w' w'' \<Longrightarrow> same_tables_but_stock w w''"
  by (simp add: same_tables_but_stock_def)

lemma ok_but_svc:
  assumes "cart_ok_but old D w" "service_ok old s" "active_carts (sv_inv s) - D' \<subseteq> active_carts (sv_inv (cw_svc w)) - D"
  shows "cart_ok_but old D' (w\<lparr>cw_svc := s\<rparr>)"
  using assms by (auto simp: cart_ok_but_def holders_ok_def)

lemma ok_but_mono: "cart_ok_but old D w \<Longrightarrow> D \<subseteq> D' \<Longrightarrow> cart_ok_but old D' w"
  by (auto simp: cart_ok_but_def holders_ok_def)

text \<open>A write of cart rows adds the carts it closes to the pending ones.\<close>

lemma updateMany_ok:
  assumes "cart_ok_but old D w" "\<And>c. ca_id (f c) = ca_id c"
    and "\<And>c. c \<in> set (cw_carts w) \<Longrightarrow> P c \<Longrightarrow> cart_dead (f c) \<Longrightarrow> cart_dead c \<or> ca_id c \<in> D'"
  shows "cart_ok_but old (D \<union> D') (cart_updateMany now P f w)"
proof -
  have "map ca_id (update_where P (\<lambda>c. (f c)\<lparr>ca_updatedAt := now\<rparr>) (cw_carts w)) = map ca_id (cw_carts w)"
    using assms(2) by (simp add: map_update_where)
  moreover have "holders_ok (D \<union> D') (cart_updateMany now P f w)"
    unfolding holders_ok_def
  proof (intro ballI impI)
    fix x
    assume x: "x \<in> set (cw_carts (cart_updateMany now P f w))" "cart_dead x"
    then obtain c where c: "c \<in> set (cw_carts w)" "ca_id x = ca_id c" "cart_dead c \<or> ca_id c \<in> D'"
      using assms(2,3) by (auto simp: cart_updateMany_def set_update_where cart_dead_def split: if_splits)
    with assms(1) show "ca_id x \<notin> active_carts (sv_inv (cw_svc (cart_updateMany now P f w))) - (D \<union> D')"
      by (auto simp: cart_ok_but_def holders_ok_def cart_updateMany_def)
  qed
  ultimately show ?thesis using assms(1) by (simp add: cart_ok_but_def cart_updateMany_def)
qed

lemma update_ok:
  assumes "cart_update now i f w = Inr w'" "cart_ok_but old D w" "\<And>c. ca_id (f c) = ca_id c"
    and "\<And>c. cart_dead (f c) \<Longrightarrow> cart_dead c \<or> i \<in> D'"
  shows "cart_ok_but old (D \<union> D') w'"
proof -
  have "w' = cart_updateMany now (\<lambda>c. ca_id c = i) f w" using assms(1) by (simp add: cart_update_def split: if_splits)
  then show ?thesis using updateMany_ok [OF assms(2,3), where P = "\<lambda>c. ca_id c = i" and D' = D'] assms(4) by auto
qed


section \<open>Stock steps\<close>

lemma release_svc:
  assumes "releaseCartReservationsTx rq (Some cat) c reason actor s = Inr ((r, es), s')" "service_ok old s"
  shows "service_ok old s'" "active_carts (sv_inv s') \<subseteq> active_carts (sv_inv s) - {c}"
proof -
  show "service_ok old s'"
    using port_service_ok [of old s rq "P_release cat c reason actor"] assms by simp
  from assms(1) obtain db' where
      "releaseCartReservations (rq_gen rq) (rq_now rq) (Some cat) c reason actor (sv_inv s) = Inr (r, db')" "sv_inv s' = db'"
    by (auto simp: releaseCartReservationsTx_def Let_def)
  with releaseCart_active [of "sv_inv s"] assms(2) show "active_carts (sv_inv s') \<subseteq> active_carts (sv_inv s) - {c}"
    by (simp add: service_ok_def shop_ok_def)
qed

lemma cart_release_ok:
  assumes "cart_releaseReservationsTx rq cat i reason actor w = Inr (fx, w')"
  shows "cart_ok_but old D w \<Longrightarrow> cart_ok_but old (D - {i}) w'" "same_tables_but_stock w w'"
proof -
  from assms obtain r es s where r: "releaseCartReservationsTx rq (Some cat) i reason actor (cw_svc w) = Inr ((r, es), s)"
      "w' = w\<lparr>cw_svc := s\<rparr>"
    by (auto simp: cart_releaseReservationsTx_def)
  then show "same_tables_but_stock w w'" by simp
  assume ok: "cart_ok_but old D w"
  then have "service_ok old (cw_svc w)" by (simp add: cart_ok_but_def)
  from release_svc [OF r(1) this] show "cart_ok_but old (D - {i}) w'"
    unfolding r(2) by (intro ok_but_svc [OF ok]) auto
qed

lemma release_step_Inr:
  assumes "release_step rq reason ((cats, es), w) (cat, i) = Inr (fx, w')"
  shows "\<exists>rq' fx'. cart_releaseReservationsTx rq' cat i reason None w = Inr (fx', w')"
  using assms by (auto simp: release_step_def)

lemma release_loop_ok:
  assumes "foldE (release_step rq reason) (fx, w) ps = Inr (fx', w')"
  shows "(cart_ok_but old D w \<longrightarrow> cart_ok_but old (D - snd ` set ps) w') \<and> same_tables_but_stock w w'"
  using assms
proof (induction ps arbitrary: fx w D)
  case (Cons p ps)
  obtain cat i where p: "p = (cat, i)" by (cases p)
  obtain cats es where fx: "fx = (cats, es)" by (cases fx)
  from Cons.prems obtain fx1 w1 where st: "release_step rq reason (fx, w) p = Inr (fx1, w1)"
      and f: "foldE (release_step rq reason) (fx1, w1) ps = Inr (fx', w')"
    by (auto simp: split_paired_all)
  from release_step_Inr [OF st [unfolded p fx]] obtain rq' fx0 where
      s: "cart_releaseReservationsTx rq' cat i reason None w = Inr (fx0, w1)" by blast
  have "cart_ok_but old D w \<longrightarrow> cart_ok_but old (D - {i} - snd ` set ps) w'"
    using cart_release_ok(1) [OF s] Cons.IH [OF f] by blast
  moreover have "D - {i} - snd ` set ps = D - snd ` set (p # ps)" by (auto simp: p)
  moreover have "same_tables_but_stock w w'"
    using same_tables_trans cart_release_ok(2) [OF s] Cons.IH [OF f] by blast
  ultimately show ?case by simp
qed simp

lemma release_loop_all:
  "foldE (release_step rq reason) (fx, w) ps = Inr (fx', w') \<Longrightarrow> cart_ok_but old (snd ` set ps) w \<Longrightarrow> cart_ok old w'"
  using release_loop_ok [of rq reason fx w ps fx' w' old "snd ` set ps"] by simp

lemma release_loop_tables:
  "foldE (release_step rq reason) (fx, w) ps = Inr (fx', w') \<Longrightarrow> same_tables_but_stock w w'"
  using release_loop_ok by blast

lemma line_key_item: "good_line l \<Longrightarrow> good_line l' \<Longrightarrow> line_key c l = line_key c l' \<Longrightarrow> l_cartItemId l = l_cartItemId l'"
  using last_segment_cart_key [of "case l_variantId l of None \<Rightarrow> [] | Some v \<Rightarrow> v" c "l_cartItemId l"]
    last_segment_cart_key [of "case l_variantId l' of None \<Rightarrow> [] | Some v \<Rightarrow> v" c "l_cartItemId l'"]
  by (auto simp: line_key_def good_line_def buildCartReservationIdempotencyKey_def split: option.splits)

lemma cart_lines_ok:
  assumes "item_ids_ok (cw_items w)"
  shows "lines_ok c (map reservation_line (live_items i w))"
proof -
  let ?ls = "filter (\<lambda>l. l_quantity l > 0) (map reservation_line (live_items i w))"
  have mem: "x \<in> set (cw_items w)" if "x \<in> set (live_items i w)" for x using that by (simp add: live_items_def)
  have id: "l_cartItemId (reservation_line x) = k_id (it_line x)" "l_variantId (reservation_line x) = k_variantId (it_line x)" for x
    by (simp_all add: reservation_line_def Let_def)
  have good: "good_line l" if "l \<in> set ?ls" for l
  proof -
    from that obtain x where x: "x \<in> set (cw_items w)" "l = reservation_line x" "0 < l_quantity l" using mem by auto
    with assms show ?thesis by (cases "k_variantId (it_line x)") (auto simp: good_line_def id item_ids_ok_def list_all_iff)
  qed
  have "distinct (map (k_id \<circ> it_line) (live_items i w))"
    using assms by (simp add: live_items_def item_ids_ok_def distinct_map inj_on_def)
  then have "distinct (map l_cartItemId (map reservation_line (live_items i w)))" by (simp add: comp_def id)
  then have d: "distinct (map l_cartItemId ?ls)" by (rule distinct_map_filter)
  have "distinct (map (line_key c) ?ls)"
    unfolding distinct_map
  proof
    show "distinct ?ls" using d by (simp only: distinct_map)
    show "inj_on (line_key c) (set ?ls)"
      using d good line_key_item unfolding distinct_map inj_on_def by metis
  qed
  with good show ?thesis unfolding lines_ok_def Let_def list_all_iff by blast
qed

lemma reserve_ok:
  assumes "cart_ok_but old {} w" "lookup_findByIdOrThrow i w = Inr cart"
    and "reserveCartStockIfNeededTx rq cart actor w = Inr ((b, fx), w')"
  shows "cart_ok_but old {} w'"
proof (cases "shouldReserveCartStock (ca_status cart) (inventory_mode_of (ca_catalogId cart) w)")
  case False
  with assms show ?thesis by (simp add: reserveCartStockIfNeededTx_def)
next
  case True
  let ?ls = "map reservation_line (live_items (ca_id cart) w)"
  from True assms(3) obtain e s where r: "reserveCartStockTx rq (ca_catalogId cart) (ca_id cart) ?ls actor (cw_svc w) = Inr (e, s)"
      "w' = w\<lparr>cw_svc := s\<rparr>"
    by (auto simp: reserveCartStockIfNeededTx_def)
  have ok: "service_ok old (cw_svc w)" "inv_ok (sv_inv (cw_svc w))"
    using assms(1) by (simp_all add: cart_ok_but_def service_ok_def shop_ok_def)
  have "service_ok old s"
    using port_service_ok [of old "cw_svc w" rq "P_reserve (ca_catalogId cart) (ca_id cart) ?ls actor"] ok r(1)
      cart_lines_ok assms(1) by (simp add: cart_ok_but_def)
  moreover have act: "active_carts (sv_inv s) \<subseteq> {ca_id cart} \<union> active_carts (sv_inv (cw_svc w))"
  proof -
    from r(1) obtain res db' where
        "reserveCartStock (rq_gen rq) (rq_now rq) (ca_catalogId cart) (ca_id cart) ?ls (rq_now rq + CART_RESERVATION_TTL_MS)
           actor (sv_inv (cw_svc w)) = Inr (res, db')" "sv_inv s = db'"
      by (auto simp: reserveCartStockTx_def finish_tx_def)
    with reserveCart_active [OF ok(2)] show ?thesis by blast
  qed
  moreover have c: "cart \<in> set (cw_carts w)" "\<not> cart_dead cart"
    using assms(2) True find_Some_iff_mem [of _ "cw_carts w" cart]
    by (auto simp: lookup_findByIdOrThrow_def cart_dead_def shouldReserveCartStock_def)
  moreover have "x = cart" if "x \<in> set (cw_carts w)" "ca_id x = ca_id cart" for x
    using assms(1) c(1) that by (auto simp: cart_ok_but_def distinct_map dest: inj_onD)
  ultimately show ?thesis
    using assms(1) unfolding r(2) cart_ok_but_def holders_ok_def by auto
qed

lemma reserve_tables: "reserveCartStockIfNeededTx rq cart actor w = Inr (r, w') \<Longrightarrow> same_tables_but_stock w w'"
  by (auto simp: reserveCartStockIfNeededTx_def split: if_splits)

lemma invalidate_caches_ok:
  "cart_ok_but old D w \<Longrightarrow> cart_ok_but old D (snd (cart_invalidateCaches rq fx r w))"
proof -
  assume ok: "cart_ok_but old D w"
  obtain res s where i: "invalidateProductCachesForCatalogs rq (map Some (fst fx)) (snd fx) (cw_svc w) = (res, s)"
    by (cases "invalidateProductCachesForCatalogs rq (map Some (fst fx)) (snd fx) (cw_svc w)")
  have "service_ok old s" using invalidate_ok [of old "cw_svc w"] ok i by (metis cart_ok_but_def snd_conv)
  moreover have "sv_inv s = sv_inv (cw_svc w)"
    using i by (auto simp: invalidateProductCachesForCatalogs_def Let_def split: if_splits prod.splits sum.splits)
  ultimately show ?thesis
    using ok i by (auto simp: cart_invalidateCaches_def intro: ok_but_svc split: sum.split)
qed

lemma invalidate_caches_tables [simp]: "same_tables_but_stock w (snd (cart_invalidateCaches rq fx r w))"
  by (auto simp: cart_invalidateCaches_def split: prod.split sum.split)

lemma commit_ok:
  assumes "cart_ok old w" "\<And>r w'. tx = Inr (r, w') \<Longrightarrow> cart_ok old w'"
  shows "cart_ok old (snd (commit_tx rq tx w))"
  using assms invalidate_caches_ok by (auto simp: commit_tx_def split: sum.split)

end
