(* ===== verification/Product_Sellable.thy ===== *)
theory Product_Sellable
  imports Cart_Snapshot
begin

text \<open>
  What a buyer can be sold and at which price: the price lists of a catalog
  (\<^verbatim>\<open>catalog-price-list-resolver.service.ts\<close>) and the projection of a product to its price and
  availability (\<^verbatim>\<open>product-sellable.service.ts\<close>).  Both are the services behind the ports of
  \<^verbatim>\<open>Cart_Snapshot\<close>; \<open>sellable_ports\<close> fills the ports with them.  Prices that the code prints with two
  digits and reads again are the rounded numbers.
\<close>

definition can_buy :: "request \<Rightarrow> cart_world \<Rightarrow> ident \<Rightarrow> capability \<Rightarrow> bool" where
  "can_buy rq w catalogId c = can_use (rq_tz rq) (sv_entitlements (cw_svc w)) catalogId c (rq_now rq)"


section \<open>Price lists\<close>

definition resolveActivePriceList :: "request \<Rightarrow> cart_world \<Rightarrow> ident \<Rightarrow> ident option \<Rightarrow> price_list option" where
  "resolveActivePriceList rq w buyerCatalogId ownerCatalogId =
     (if \<not> can_buy rq w buyerCatalogId CATALOG_PRICE_LISTS then None
      else case List.find (\<lambda>g. cg_id g = buyerCatalogId \<and> cg_deleteAt g = None) (cw_catalogs w) of
        None \<Rightarrow> None
      | Some g \<Rightarrow>
          if \<not> truthy (cg_activePriceListId g) then None
          else let owner = (case cg_parentId g of None \<Rightarrow> cg_id g | Some p \<Rightarrow> p) in
            if truthy ownerCatalogId \<and> ownerCatalogId \<noteq> Some owner then None
            else if owner \<noteq> buyerCatalogId \<and> \<not> can_buy rq w owner CATALOG_PRICE_LISTS then None
            else List.find (\<lambda>l. Some (pr_id l) = cg_activePriceListId g \<and> pr_catalogId l = owner \<and> pr_isActive l \<and>
                   pr_deleteAt l = None) (pt_priceLists (cw_products w)))"

definition toDecimalString :: "js_value \<Rightarrow> js_value" where
  "toDecimalString v = (case v of Nullish \<Rightarrow> Finite 0 | Finite x \<Rightarrow> Finite (to_fixed2 x) | Unreadable \<Rightarrow> Unreadable)"

text \<open>The prices of a product in a price list; a later row of the same key replaces an earlier one.\<close>

record price_context =
  px_priceList :: "price_list option"
  px_productPrices :: "(ident \<times> js_value) list"
  px_variantPrices :: "(ident \<times> js_value) list"
  px_saleUnitPrices :: "(ident \<times> js_value) list"

definition emptyPriceContext :: price_context where
  "emptyPriceContext = \<lparr>px_priceList = None, px_productPrices = [], px_variantPrices = [], px_saleUnitPrices = []\<rparr>"

definition price_rows :: "price_list \<Rightarrow> (ident \<Rightarrow> bool) \<Rightarrow> product_tables \<Rightarrow> price_list_price list" where
  "price_rows l P pt = filter (\<lambda>r. pp_priceListId r = pr_id l \<and> P (pp_productId r) \<and> pp_deleteAt r = None) (pt_prices pt)"

definition context_step :: "price_context \<Rightarrow> price_list_price \<Rightarrow> price_context" where
  "context_step c r =
     (let price = toDecimalString (pp_price r) in
      case pp_target r of
        TARGET_PRODUCT \<Rightarrow> c\<lparr>px_productPrices := map_set (pp_productId r) price (px_productPrices c)\<rparr>
      | TARGET_VARIANT \<Rightarrow>
          (case pp_variantId r of
             Some v \<Rightarrow> if v = [] then c else c\<lparr>px_variantPrices := map_set v price (px_variantPrices c)\<rparr>
           | None \<Rightarrow> c)
      | TARGET_SALE_UNIT \<Rightarrow>
          (case pp_saleUnitId r of
             Some u \<Rightarrow> if u = [] then c else c\<lparr>px_saleUnitPrices := map_set u price (px_saleUnitPrices c)\<rparr>
           | None \<Rightarrow> c))"

definition resolveProductPriceContext :: "request \<Rightarrow> cart_world \<Rightarrow> ident \<Rightarrow> ident \<Rightarrow> ident list \<Rightarrow> price_context" where
  "resolveProductPriceContext rq w buyerCatalogId ownerCatalogId productIds =
     (case resolveActivePriceList rq w buyerCatalogId (Some ownerCatalogId) of
        None \<Rightarrow> emptyPriceContext
      | Some l \<Rightarrow>
          let ids = remdups (filter (\<lambda>i. i \<noteq> []) productIds); c = emptyPriceContext\<lparr>px_priceList := Some l\<rparr> in
          if ids = [] then c else foldl context_step c (price_rows l (\<lambda>i. i \<in> set ids) (cw_products w)))"

definition resolveLineTarget :: "ident \<Rightarrow> ident option \<Rightarrow> ident option \<Rightarrow> sellable_mode \<Rightarrow> price_target \<times> ident" where
  "resolveLineTarget productId variantId saleUnitId mode =
     (if truthy saleUnitId then (TARGET_SALE_UNIT, the saleUnitId)
      else if mode = MATRIX \<and> truthy variantId then (TARGET_VARIANT, the variantId)
      else (TARGET_PRODUCT, productId))"

definition service_resolveLinePrice ::
    "request \<Rightarrow> cart_world \<Rightarrow> ident \<Rightarrow> ident \<Rightarrow> ident \<Rightarrow> ident option \<Rightarrow> ident option \<Rightarrow> sellable_mode \<Rightarrow> line_price" where
  "service_resolveLinePrice rq w buyerCatalogId ownerCatalogId productId variantId saleUnitId mode =
     (case resolveActivePriceList rq w buyerCatalogId (Some ownerCatalogId) of
        None \<Rightarrow> no_line_price
      | Some l \<Rightarrow>
          let (target, targetId) = resolveLineTarget productId variantId saleUnitId mode in
          \<lparr>ll_priceListId = Some (pr_id l), ll_priceListCode = Some (pr_code l), ll_priceListName = Some (pr_name l),
           ll_price = (case List.find (\<lambda>r. pp_target r = target \<and> pp_targetId r = targetId)
               (price_rows l (\<lambda>i. i = productId) (cw_products w)) of
                 None \<Rightarrow> Nullish | Some r \<Rightarrow> toDecimalString (pp_price r)),
           ll_target = Some target\<rparr>)"


section \<open>The projection of a product\<close>

record buyer_features =
  bf_saleUnits :: bool
  bf_variants :: bool

definition resolveBuyerFeatures :: "request \<Rightarrow> cart_world \<Rightarrow> ident \<Rightarrow> buyer_features" where
  "resolveBuyerFeatures rq w catalogId =
     \<lparr>bf_saleUnits = can_buy rq w catalogId CATALOG_SALE_UNITS, bf_variants = can_buy rq w catalogId PRODUCT_VARIANTS\<rparr>"

definition findDefaultVariant :: "variant_view list \<Rightarrow> variant_view option" where
  "findDefaultVariant vs =
     (case List.find isDefaultVariant vs of Some v \<Rightarrow> Some v | None \<Rightarrow> List.find (\<lambda>v. vv_attributes v = []) vs)"

definition resolveImplicitVariant :: "sellable_mode \<Rightarrow> variant_view option \<Rightarrow> variant_view list \<Rightarrow> variant_view option" where
  "resolveImplicitVariant mode defaultVariant vs =
     (if mode = MATRIX then None
      else case defaultVariant of Some v \<Rightarrow> Some v | None \<Rightarrow> (case vs of [] \<Rightarrow> None | v # _ \<Rightarrow> Some v))"

definition resolvePriceCandidates ::
    "variant_view list \<Rightarrow> sellable_mode \<Rightarrow> variant_view option \<Rightarrow> variant_view option \<Rightarrow> variant_view list" where
  "resolvePriceCandidates vs mode selected defaultVariant =
     (case selected of
        Some v \<Rightarrow> [v]
      | None \<Rightarrow>
          if mode = SIMPLE then (case defaultVariant of Some v \<Rightarrow> [v] | None \<Rightarrow> vs)
          else filter (\<lambda>v. isMatrixVariant v \<and> vv_status v \<noteq> V_DISABLED) vs)"

definition resolveAvailabilityCandidates ::
    "variant_view list \<Rightarrow> sellable_mode \<Rightarrow> variant_view option \<Rightarrow> variant_view list" where
  "resolveAvailabilityCandidates vs mode defaultVariant =
     (if mode = SIMPLE then (case defaultVariant of Some v \<Rightarrow> [v] | None \<Rightarrow> vs) else filter isMatrixVariant vs)"

definition resolvePriceListDisplayPrice ::
    "ident \<Rightarrow> variant_view \<Rightarrow> sellable_mode \<Rightarrow> price_context \<Rightarrow> buyer_features \<Rightarrow> rat option" where
  "resolvePriceListDisplayPrice productId v mode c f =
     (if bf_saleUnits f \<and> vv_saleUnits v \<noteq> []
      then Option.bind (List.find (\<lambda>p. p \<noteq> None) (map (\<lambda>u. map_get (px_saleUnitPrices c) (sr_id u)) (vv_saleUnits v)))
             (\<lambda>p. Option.bind p toFiniteNumber)
      else if mode = MATRIX \<and> isMatrixVariant v then Option.bind (map_get (px_variantPrices c) (vv_id v)) toFiniteNumber
      else Option.bind (map_get (px_productPrices c) productId) toFiniteNumber)"

definition resolveDefaultSaleUnit :: "variant_view \<Rightarrow> sale_unit_row option" where
  "resolveDefaultSaleUnit v = (case vv_saleUnits v of [] \<Rightarrow> None | u # _ \<Rightarrow> Some u)"

definition resolveDisplayPrice ::
    "ident \<Rightarrow> variant_view \<Rightarrow> sellable_mode \<Rightarrow> price_context \<Rightarrow> buyer_features \<Rightarrow> rat option" where
  "resolveDisplayPrice productId v mode c f =
     (if px_priceList c \<noteq> None then resolvePriceListDisplayPrice productId v mode c f
      else toFiniteNumber (nullish_or
        (price_of (map_option (su_price \<circ> sr_unit) (if bf_saleUnits f then resolveDefaultSaleUnit v else None)))
        (vv_price v)))"

definition canUseLegacyProductPrice :: "sellable_mode \<Rightarrow> variant_view option \<Rightarrow> bool" where
  "canUseLegacyProductPrice mode selected =
     (mode \<noteq> MATRIX \<and> (case selected of None \<Rightarrow> True | Some v \<Rightarrow> \<not> isMatrixVariant v))"

definition resolvePriceState :: "rat option \<Rightarrow> rat option \<Rightarrow> price_state" where
  "resolvePriceState lo hi = (if lo = None \<or> hi = None then UNKNOWN else if lo = hi then KNOWN else RANGE)"

definition formatPrice :: "rat option \<Rightarrow> js_value" where
  "formatPrice p = (case p of None \<Rightarrow> Nullish | Some x \<Rightarrow> Finite (to_fixed2 x))"

definition resolveAvailabilityState ::
    "product_status \<Rightarrow> variant_view list \<Rightarrow> int \<Rightarrow> bool \<Rightarrow> bool \<Rightarrow> availability_state" where
  "resolveAvailabilityState status vs quantity enforceStock ignoreTechnical =
     (let enabled = filter (\<lambda>v. vv_status v \<noteq> V_DISABLED) vs;
          available = filter (\<lambda>v. vv_status v = V_ACTIVE \<and> vv_isAvailable v) enabled
      in if status \<noteq> P_ACTIVE then UNAVAILABLE
         else if ignoreTechnical then AVAILABLE
         else if enabled = [] then UNAVAILABLE
         else if available = [] then OUT_OF_STOCK
         else if \<not> enforceStock then AVAILABLE
         else if \<exists>v\<in>set available. case vv_stock v of None \<Rightarrow> True | Some n \<Rightarrow> max 1 quantity \<le> n then AVAILABLE
         else OUT_OF_STOCK)"

definition shouldIgnoreTechnicalVariantAvailability ::
    "buyer_features \<Rightarrow> bool \<Rightarrow> ident option \<Rightarrow> variant_view option \<Rightarrow> bool" where
  "shouldIgnoreTechnicalVariantAvailability f enforceStock variantId selected =
     (if bf_variants f \<or> enforceStock then False
      else if \<not> truthy variantId then True
      else (case selected of None \<Rightarrow> False | Some v \<Rightarrow> isDefaultVariant v))"

definition resolveTotalStock :: "variant_view list \<Rightarrow> int option" where
  "resolveTotalStock vs =
     (if vs = [] \<or> (\<exists>v\<in>set vs. vv_stock v = None) then None
      else Some (sum_list (map (\<lambda>v. max 0 (case vv_stock v of None \<Rightarrow> 0 | Some n \<Rightarrow> n)) vs)))"

definition list_min :: "rat list \<Rightarrow> rat option" where
  "list_min xs = (case xs of [] \<Rightarrow> None | y # ys \<Rightarrow> Some (foldl min y ys))"

definition list_max :: "rat list \<Rightarrow> rat option" where
  "list_max xs = (case xs of [] \<Rightarrow> None | y # ys \<Rightarrow> Some (foldl max y ys))"

definition selected_variant ::
    "variant_view list \<Rightarrow> sellable_mode \<Rightarrow> ident option \<Rightarrow> variant_view option" where
  "selected_variant vs mode variantId =
     (if truthy variantId then List.find (\<lambda>v. Some (vv_id v) = variantId) vs
      else resolveImplicitVariant mode (findDefaultVariant vs) vs)"

definition sellable_mode_of :: "buyer_features \<Rightarrow> variant_view list \<Rightarrow> sellable_mode" where
  "sellable_mode_of f vs = (if bf_variants f \<and> (\<exists>v\<in>set vs. isMatrixVariant v) then MATRIX else SIMPLE)"

definition buildProjection ::
    "product_info \<Rightarrow> variant_view list \<Rightarrow> ident option \<Rightarrow> int \<Rightarrow> bool \<Rightarrow> price_context \<Rightarrow> buyer_features
     \<Rightarrow> cart_error + sellable_projection" where
  "buildProjection info vs variantId quantity enforceStock c f =
     (let defaultVariant = findDefaultVariant vs; mode = sellable_mode_of f vs;
          selected = selected_variant vs mode variantId;
          prices = List.map_filter (\<lambda>v. resolveDisplayPrice (pi_id info) v mode c f)
            (resolvePriceCandidates vs mode selected defaultVariant);
          legacy = (case toFiniteNumber (pi_price info) of
              Some p \<Rightarrow> if px_priceList c = None \<and> canUseLegacyProductPrice mode selected then [p] else []
            | None \<Rightarrow> []);
          resolved = (if prices \<noteq> [] then prices else legacy);
          candidates = (case selected of Some v \<Rightarrow> [v] | None \<Rightarrow> resolveAvailabilityCandidates vs mode defaultVariant);
          priced = (if px_priceList c = None then candidates
            else filter (\<lambda>v. resolvePriceListDisplayPrice (pi_id info) v mode c f \<noteq> None) candidates)
      in if truthy variantId \<and> selected = None then Inl Variant_not_found
         else Inr \<lparr>pj_mode = mode, pj_variantId = map_option vv_id selected,
           pj_defaultVariantId = map_option vv_id defaultVariant,
           pj_requiresVariantSelection = (mode = MATRIX \<and> selected = None),
           pj_priceState = resolvePriceState (list_min resolved) (list_max resolved),
           pj_displayPrice = formatPrice (list_min resolved), pj_maxPrice = formatPrice (list_max resolved),
           pj_availabilityState = resolveAvailabilityState (pi_status info) priced quantity enforceStock
             (shouldIgnoreTechnicalVariantAvailability f enforceStock variantId selected),
           pj_stock = resolveTotalStock priced, pj_usesPriceList = (px_priceList c \<noteq> None)\<rparr>)"

definition service_resolveSellable ::
    "request \<Rightarrow> cart_world \<Rightarrow> ident \<Rightarrow> ident \<Rightarrow> ident option \<Rightarrow> resolve_options \<Rightarrow> cart_error + sellable_projection" where
  "service_resolveSellable rq w catalogId productId variantId ro =
     (let db = sv_inv (cw_svc w); pt = cw_products w in
      case product_row (\<lambda>p. p_catalogId p = catalogId) productId db pt of
        None \<Rightarrow> Inl Product_not_found
      | Some (p, info) \<Rightarrow>
          buildProjection info (live_variants productId db pt) variantId (ro_quantity ro) (ro_enforceStock ro)
            (resolveProductPriceContext rq w (ro_buyerCatalogId ro) catalogId [pi_id info])
            (resolveBuyerFeatures rq w (ro_buyerCatalogId ro)))"

definition sellable_ports :: "request \<Rightarrow> cart_world \<Rightarrow> snapshot_ports" where
  "sellable_ports rq w =
     \<lparr>resolveVariantSellable = (\<lambda>catalogId productId v ro. service_resolveSellable rq w catalogId productId (Some v) ro),
      resolveProductSellable = (\<lambda>catalogId productId ro. service_resolveSellable rq w catalogId productId None ro),
      resolveLinePrice = Some (service_resolveLinePrice rq w)\<rparr>"

end
