(* ===== verification/Product_Repair.thy ===== *)
theory Product_Repair
  imports Cart_Snapshot Warehouse_Codes
begin

text \<open>
  The repair of a product that has no usable default variant, as the cart calls it inside its own
  transaction: \<^verbatim>\<open>repairMissingDefaultVariantForProduct\<close> of \<^verbatim>\<open>product-maintenance.service.ts\<close>, the default
  variant it builds (\<^verbatim>\<open>product-variant.service.ts\<close>) and the repository methods that restore or create it
  (\<^verbatim>\<open>product.repository.ts\<close>).  A row of a variant stands in the inventory and in the product tables,
  so the writes go to both.
\<close>


section \<open>A free article number\<close>

definition SKU_MAX_LENGTH :: nat where
  "SKU_MAX_LENGTH = 100"

definition strip_dashes :: "string \<Rightarrow> string" where
  "strip_dashes s = rev (dropWhile (\<lambda>c. c = CHR ''-'') (rev s))"

definition applySuffix :: "string \<Rightarrow> nat \<Rightarrow> nat \<Rightarrow> string" where
  "applySuffix base n maxLength =
     (let part = (if n > 0 then ''-'' @ show_nat n else []) in
      strip_dashes (take (maxLength - length part) base) @ part)"

definition ensureUniqueDefaultVariantSku :: "(string \<Rightarrow> bool) \<Rightarrow> string \<Rightarrow> string option" where
  "ensureUniqueDefaultVariantSku used base =
     (let normalized = (if trim base = [] then ''SKU'' else trim base);
          candidate = applySuffix normalized 0 SKU_MAX_LENGTH
      in if \<not> used candidate then Some candidate
         else draw_unused (\<lambda>k. applySuffix (normalized @ ''-DEFAULT'') k SKU_MAX_LENGTH) used 0)"


section \<open>The default variant\<close>

text \<open>What the repair writes of a variant; its stock is never set, its attributes are none.\<close>

record default_variant =
  dv_sku :: string
  dv_price :: js_value
  dv_status :: variant_status

definition normalizeVariantPrice :: "js_value \<Rightarrow> cart_error + js_value" where
  "normalizeVariantPrice p =
     (case p of
        Nullish \<Rightarrow> Inr Nullish
      | Finite x \<Rightarrow> if x < 0 then Inl Variant_price_invalid else Inr (Finite x)
      | Unreadable \<Rightarrow> Inl Variant_price_invalid)"

definition resolveDefaultVariantStatus :: "product_status \<Rightarrow> variant_status" where
  "resolveDefaultVariantStatus status = (if status \<noteq> P_ACTIVE then V_OUT_OF_STOCK else V_ACTIVE)"

definition buildDefaultVariantData :: "product_info \<Rightarrow> product_tables \<Rightarrow> cart_error + default_variant" where
  "buildDefaultVariantData info pt =
     bindE (option_to_res No_return
              (ensureUniqueDefaultVariantSku (\<lambda>s. \<exists>i\<in>set (pt_variants pt). vi_sku i = s) (pi_sku info)))
       (\<lambda>sku. bindE (normalizeVariantPrice (pi_price info))
       (\<lambda>price. Inr \<lparr>dv_sku = sku, dv_price = price, dv_status = resolveDefaultVariantStatus (pi_status info)\<rparr>))"

definition inv_variants :: "(variant list \<Rightarrow> variant list) \<Rightarrow> cart_world \<Rightarrow> cart_world" where
  "inv_variants f w =
     w\<lparr>cw_svc := (cw_svc w)\<lparr>sv_inv := (sv_inv (cw_svc w))\<lparr>variants := f (variants (sv_inv (cw_svc w)))\<rparr>\<rparr>\<rparr>"

definition info_variants :: "(variant_info list \<Rightarrow> variant_info list) \<Rightarrow> cart_world \<Rightarrow> cart_world" where
  "info_variants f w = w\<lparr>cw_products := (cw_products w)\<lparr>pt_variants := f (pt_variants (cw_products w))\<rparr>\<rparr>"

text \<open>The update of an existing row; \<open>archive\<close> says whether its attribute values are deleted too.\<close>

definition restore_variant :: "ident \<Rightarrow> bool \<Rightarrow> default_variant \<Rightarrow> cart_world \<Rightarrow> cart_world" where
  "restore_variant i archive d w =
     info_variants (update_where (\<lambda>x. vi_id x = i)
         (\<lambda>x. x\<lparr>vi_variantKey := DEFAULT_VARIANT_KEY, vi_kind := K_DEFAULT, vi_price := dv_price d,
            vi_status := dv_status d, vi_isAvailable := (dv_status d = V_ACTIVE),
            vi_attributes := (if archive then [] else vi_attributes x)\<rparr>))
       (inv_variants (update_where (\<lambda>x. v_id x = i) (\<lambda>x. x\<lparr>v_stock := None, v_deleteAt := None\<rparr>)) w)"

definition createVariant :: "request \<Rightarrow> ident \<Rightarrow> default_variant \<Rightarrow> cart_world \<Rightarrow> cart_error + cart_world" where
  "createVariant rq productId d w =
     (let i = rq_gen rq (map v_id (variants (sv_inv (cw_svc w)))) in
      if i \<in> v_id ` set (variants (sv_inv (cw_svc w))) \<or> i \<in> vi_id ` set (pt_variants (cw_products w)) \<or>
         dv_sku d \<in> vi_sku ` set (pt_variants (cw_products w))
      then Inl (Cart_db UniqueViolation)
      else Inr (info_variants (\<lambda>xs. xs @ [\<lparr>vi_id = i, vi_sku = dv_sku d, vi_variantKey = DEFAULT_VARIANT_KEY,
             vi_kind = K_DEFAULT, vi_price = dv_price d, vi_status = dv_status d,
             vi_isAvailable = (dv_status d = V_ACTIVE), vi_attributes = [], vi_createdAt = rq_now rq\<rparr>])
           (inv_variants (\<lambda>xs. xs @ [\<lparr>v_id = i, v_productId = productId, v_stock = None, v_deleteAt = None\<rparr>]) w)))"

definition restoreOrCreateDefaultVariant ::
    "request \<Rightarrow> ident \<Rightarrow> default_variant \<Rightarrow> cart_world \<Rightarrow> cart_error + cart_world" where
  "restoreOrCreateDefaultVariant rq productId d w =
     (let vs = all_variants productId (sv_inv (cw_svc w)) (cw_products w) in
      case List.find isDefaultVariant vs of
        Some v \<Rightarrow> Inr (restore_variant (vv_id v) True d w)
      | None \<Rightarrow>
          (case List.find (\<lambda>v. vv_deleteAt v = None \<and> \<not> isDefaultVariant v \<and> vv_attributes v = []) vs of
             Some v \<Rightarrow> Inr (restore_variant (vv_id v) False d w)
           | None \<Rightarrow> createVariant rq productId d w))"

definition variant_shape_ok :: "variant_view \<Rightarrow> bool" where
  "variant_shape_ok v =
     ((vv_kind v = K_DEFAULT) = (vv_variantKey v = DEFAULT_VARIANT_KEY) \<and>
      (vv_kind v = K_DEFAULT) = (vv_attributes v = []))"

definition assertProductVariantStructuralInvariants :: "ident \<Rightarrow> cart_world \<Rightarrow> cart_error + unit" where
  "assertProductVariantStructuralInvariants productId w =
     (let vs = live_variants productId (sv_inv (cw_svc w)) (cw_products w) in
      guardE (list_all variant_shape_ok vs \<and> count_where (\<lambda>v. vv_kind v = K_DEFAULT) vs \<le> 1) Variant_structure_invalid)"

definition ensureDefaultVariant ::
    "request \<Rightarrow> ident \<Rightarrow> ident \<Rightarrow> default_variant \<Rightarrow> cart_world \<Rightarrow> cart_error + (bool option \<times> cart_world)" where
  "ensureDefaultVariant rq productId catalogId d w =
     (let db = sv_inv (cw_svc w) in
      if product_row (\<lambda>p. p_catalogId p = catalogId) productId db (cw_products w) = None then Inr (None, w)
      else if \<exists>v\<in>set (live_variants productId db (cw_products w)). isDefaultVariant v \<and> vv_status v \<noteq> V_DISABLED
      then Inr (Some False, w)
      else bindE (restoreOrCreateDefaultVariant rq productId d w)
        (\<lambda>w1. bindE (assertProductVariantStructuralInvariants productId w1) (\<lambda>_. Inr (Some True, rejoin w1))))"

definition repairMissingDefaultVariantForProduct ::
    "request \<Rightarrow> ident \<Rightarrow> ident \<Rightarrow> cart_world \<Rightarrow> cart_error + (bool option \<times> cart_world)" where
  "repairMissingDefaultVariantForProduct rq catalogId productId w =
     (case product_row (\<lambda>p. p_catalogId p = catalogId) productId (sv_inv (cw_svc w)) (cw_products w) of
        None \<Rightarrow> Inr (None, w)
      | Some (p, info) \<Rightarrow>
          bindE (buildDefaultVariantData info (cw_products w))
            (\<lambda>d. ensureDefaultVariant rq productId catalogId d w))"


section \<open>The search for an article number ends\<close>

lemma draw_unused_step: "draw_unused draw used k = (if used (draw k) then draw_unused draw used (Suc k) else Some (draw k))"
  by (rule draw_unused.simps)

lemma draw_unused_at:
  "(\<And>j. k \<le> j \<Longrightarrow> j < n \<Longrightarrow> used (draw j)) \<Longrightarrow> \<not> used (draw n) \<Longrightarrow> k \<le> n \<Longrightarrow> draw_unused draw used k = Some (draw n)"
proof (induction "n - k" arbitrary: k)
  case 0
  then show ?case by (subst draw_unused_step) simp
next
  case (Suc m)
  then show ?case by (subst draw_unused_step) simp
qed

lemma draw_unused_total:
  assumes "infinite (range draw)" "finite {s. used s}"
  obtains n where "draw_unused draw used 0 = Some (draw n)" "\<not> used (draw n)"
proof -
  have "\<exists>n. \<not> used (draw n)"
  proof (rule ccontr)
    assume "\<nexists>n. \<not> used (draw n)"
    then have "range draw \<subseteq> {s. used s}" by blast
    with assms show False using finite_subset by blast
  qed
  then obtain m where m: "\<not> used (draw m)" by blast
  define n where "n = (LEAST m. \<not> used (draw m))"
  have n: "\<not> used (draw n)" unfolding n_def using m by (rule LeastI)
  have "used (draw j)" if "j < n" for j using not_less_Least [of j "\<lambda>m. \<not> used (draw m)"] that by (auto simp: n_def)
  then have "draw_unused draw used 0 = Some (draw n)" using n by (intro draw_unused_at) auto
  from that [OF this n] show thesis .
qed

lemma show_nat_digits: "c \<in> set (show_nat n) \<Longrightarrow> c \<noteq> CHR ''-''"
proof (induction n rule: show_nat.induct)
  case (1 n)
  have digit: "char_of (48 + d) \<noteq> CHR ''-''" if "d < 10" for d :: nat
  proof
    assume "char_of (48 + d) = CHR ''-''"
    then have "of_char (char_of (48 + d) :: char) = (of_char CHR ''-'' :: nat)" by simp
    with that show False by (simp add: char_of_nat of_char_of)
  qed
  show ?case
  proof (cases "n < 10")
    case True
    with 1(2) digit show ?thesis by (subst (asm) show_nat.simps) auto
  next
    case False
    with 1 digit [of "n mod 10"] show ?thesis by (subst (asm) (2) show_nat.simps) auto
  qed
qed

lemma strip_dashes_length: "length (strip_dashes s) \<le> length s"
  by (simp add: strip_dashes_def le_trans [OF length_dropWhile_le])

lemma applySuffix_length: "n = 0 \<or> length (show_nat n) < maxLength \<Longrightarrow> length (applySuffix base n maxLength) \<le> maxLength"
  using strip_dashes_length [of "take (maxLength - length (if n > 0 then ''-'' @ show_nat n else [])) base"]
  by (auto simp: applySuffix_def Let_def)

lemma applySuffix_tail: "0 < n \<Longrightarrow> takeWhile (\<lambda>c. c \<noteq> CHR ''-'') (rev (applySuffix base n maxLength)) = rev (show_nat n)"
  by (simp add: applySuffix_def Let_def takeWhile_append show_nat_digits)

lemma applySuffix_infinite: "infinite (range (\<lambda>n. applySuffix base n maxLength))"
proof
  assume "finite (range (\<lambda>n. applySuffix base n maxLength))"
  then have "finite ((\<lambda>n. applySuffix base n maxLength) ` {0<..})" by (rule rev_finite_subset) auto
  moreover have "inj_on (\<lambda>n. applySuffix base n maxLength) {0<..}"
    by (rule inj_onI) (metis applySuffix_tail greaterThan_iff rev_is_rev_conv show_nat_inject)
  ultimately have "finite {0::nat<..}" using finite_imageD by blast
  then show False by (simp add: infinite_Ioi)
qed

theorem sku_search_ends:
  assumes "finite {s. used s}"
  shows "\<exists>s. ensureUniqueDefaultVariantSku used base = Some s \<and> \<not> used s"
proof -
  have "\<exists>s. draw_unused (\<lambda>k. applySuffix b k maxLength) used 0 = Some s \<and> \<not> used s" for b maxLength
    by (rule draw_unused_total [OF applySuffix_infinite [of b maxLength] assms]) blast
  then show ?thesis by (simp add: ensureUniqueDefaultVariantSku_def Let_def)
qed

end
