(* ===== verification/Cart_Lines.thy ===== *)
theory Cart_Lines
  imports Cart_Lifecycle Product_Sellable Product_Repair
begin

text \<open>
  The lines of a cart: adding, changing and removing an item (\<^verbatim>\<open>cart-line.service.ts\<close>), with the choice
  of the variant (\<^verbatim>\<open>cart-variant-selection.service.ts\<close>), the modifiers
  (\<^verbatim>\<open>cart-modifier-selection.service.ts\<close>), and the sale unit and price of the line
  (\<^verbatim>\<open>cart-line-pricing.service.ts\<close>).

  The transaction reads the tables it writes; the reader of products and prices that is injected as
  \<open>ports\<close> has a connection of its own, so it is evaluated on the state before the transaction.  In
  \<open>cart_upsertItem\<close> the ports are those of \<^verbatim>\<open>Product_Sellable\<close> on that state.
\<close>


section \<open>Choice of the variant\<close>

definition shouldEnforceStock :: "inventory_mode \<Rightarrow> bool" where
  "shouldEnforceStock mode = (mode \<noteq> MODE_NONE \<and> mode \<noteq> MODE_EXTERNAL)"

definition resolveImplicitProductVariantId ::
    "snapshot_ports \<Rightarrow> ident \<Rightarrow> normalized_item \<Rightarrow> inventory_mode \<Rightarrow> ident \<Rightarrow> bool \<Rightarrow> cart_error + ident option" where
  "resolveImplicitProductVariantId ports catalogId input mode buyerCatalogId requireExplicit =
     bindE (resolveProductSellable ports catalogId (ni_productId input)
              \<lparr>ro_quantity = ni_quantity input, ro_enforceStock = shouldEnforceStock mode,
               ro_buyerCatalogId = buyerCatalogId\<rparr>)
       (\<lambda>pj. if pj_requiresVariantSelection pj
             then (if requireExplicit then Inl Variant_choice_required else Inr None)
             else Inr (pj_variantId pj))"

definition resolveCartVariantId ::
    "request \<Rightarrow> snapshot_ports \<Rightarrow> ident \<Rightarrow> normalized_item \<Rightarrow> inventory_mode \<Rightarrow> ident \<Rightarrow> cart_world
     \<Rightarrow> cart_error + ident option" where
  "resolveCartVariantId rq ports catalogId input mode buyerCatalogId w =
     (let canUseVariants = can_buy rq w catalogId PRODUCT_VARIANTS; pt = cw_products w; db = sv_inv (cw_svc w) in
      if ni_quantity input \<le> 0 then Inr (ni_variantId input)
      else if canUseVariants \<and> truthy (ni_variantId input) then Inr (ni_variantId input)
      else if truthy (ni_saleUnitId input)
      then map_sum id (Some \<circ> sr_variantId) (option_to_res Sale_unit_unavailable
        (List.find (\<lambda>u. Some (sr_id u) = ni_saleUnitId input \<and> sr_isActive u \<and> sr_deleteAt u = None \<and>
             (\<exists>v\<in>set (variants db). v_id v = sr_variantId u \<and> v_productId v = ni_productId input \<and> v_deleteAt v = None))
           (pt_saleUnits pt)))
      else resolveImplicitProductVariantId ports catalogId input mode buyerCatalogId canUseVariants)"

definition ensureVariantMatchesProduct :: "ident \<Rightarrow> ident option \<Rightarrow> cart_world \<Rightarrow> cart_error + js_value option" where
  "ensureVariantMatchesProduct productId variantId w =
     (if \<not> truthy variantId then Inr None
      else map_sum id (Some \<circ> vv_price) (option_to_res Variant_not_of_product
        (List.find (\<lambda>v. Some (vv_id v) = variantId) (live_variants productId (sv_inv (cw_svc w)) (cw_products w)))))"


section \<open>Modifiers\<close>

record resolved_modifier =
  rm_group :: ident
  rm_option :: ident
  rm_quantity :: int
  rm_price :: js_value

fun scope_rank :: "modifier_scope \<Rightarrow> nat" where
  "scope_rank S_PRODUCT = 0"
| "scope_rank S_VARIANT = 1"

definition available_options :: "modifier_group \<Rightarrow> modifier_option list" where
  "available_options g = sort_key (\<lambda>x. (mo_displayOrder x, mo_name x, mo_id x))
     (filter (\<lambda>x. mo_deleteAt x = None \<and> mo_isAvailable x) (mg_options g))"

definition findApplicableGroups :: "ident \<Rightarrow> ident option \<Rightarrow> product_tables \<Rightarrow> modifier_group list" where
  "findApplicableGroups productId variantId pt =
     filter (\<lambda>g. available_options g \<noteq> [])
       (sort_key (\<lambda>g. (scope_rank (mg_scope g), mg_displayOrder g, mg_name g, mg_id g))
         (filter (\<lambda>g. mg_productId g = productId \<and> mg_deleteAt g = None \<and> mg_isActive g \<and>
            (mg_variantId g = None \<or> truthy variantId \<and> mg_variantId g = variantId)) (pt_groups pt)))"

definition resolve_modifier :: "modifier_group list \<Rightarrow> normalized_modifier \<Rightarrow> cart_error + resolved_modifier" where
  "resolve_modifier groups input =
     bindE (option_to_res Modifier_group_unavailable (List.find (\<lambda>g. mg_id g = nm_group input) groups))
       (\<lambda>g. bindE (option_to_res Modifier_option_unavailable
                     (List.find (\<lambda>x. mo_id x = nm_option input) (available_options g)))
       (\<lambda>x. case mo_maxQuantity x of
              Some m \<Rightarrow> if m < nm_quantity input then Inl (Modifier_option_limit m)
                        else Inr \<lparr>rm_group = mg_id g, rm_option = mo_id x, rm_quantity = nm_quantity input, rm_price = mo_price x\<rparr>
            | None \<Rightarrow> Inr \<lparr>rm_group = mg_id g, rm_option = mo_id x, rm_quantity = nm_quantity input, rm_price = mo_price x\<rparr>))"

definition assertGroupSelection :: "modifier_group \<Rightarrow> resolved_modifier list \<Rightarrow> cart_error + unit" where
  "assertGroupSelection g selected =
     (let n = sum_list (map rm_quantity selected);
          minimum = (if mg_isRequired g then max 1 (mg_minSelected g) else 0)
      in if n < minimum then Inl (Modifier_group_minimum minimum)
         else case mg_maxSelected g of
           Some m \<Rightarrow> guardE (n \<le> m) (Modifier_group_maximum m)
         | None \<Rightarrow> Inr ())"

definition modifier_text :: "ident \<Rightarrow> ident \<Rightarrow> int \<Rightarrow> string" where
  "modifier_text g x n = g @ '':'' @ x @ ''x'' @ show_nat (nat n)"

definition modifiers_buildSignature :: "resolved_modifier list \<Rightarrow> string" where
  "modifiers_buildSignature ms =
     join_with ''|'' (sort (map (\<lambda>m. modifier_text (rm_group m) (rm_option m) (rm_quantity m)) ms))"

definition buildCartModifierInputSignature :: "normalized_modifier list \<Rightarrow> string" where
  "buildCartModifierInputSignature ms =
     join_with ''|'' (sort (map (\<lambda>m. modifier_text (nm_group m) (nm_option m) (nm_quantity m)) ms))"

definition resolveModifiers ::
    "ident \<Rightarrow> ident option \<Rightarrow> bool \<Rightarrow> normalized_modifier list \<Rightarrow> product_tables
     \<Rightarrow> cart_error + (string \<times> resolved_modifier list)" where
  "resolveModifiers productId variantId canUse modifiers pt =
     (let groups = findApplicableGroups productId variantId pt in
      if \<not> canUse then (if modifiers = [] then Inr ([], []) else Inl Modifiers_disabled)
      else if groups = [] then (if modifiers = [] then Inr ([], []) else Inl Modifiers_unavailable)
      else bindE (mapE (resolve_modifier groups) modifiers)
        (\<lambda>selected. bindE (mapE (\<lambda>g. assertGroupSelection g (filter (\<lambda>m. rm_group m = mg_id g) selected)) groups)
        (\<lambda>_. let items = sort_key (\<lambda>m. (rm_group m, rm_option m)) selected in
             Inr (modifiers_buildSignature items, items))))"


section \<open>Sale unit and price of a line\<close>

definition resolveSaleUnit ::
    "ident option \<Rightarrow> ident option \<Rightarrow> bool \<Rightarrow> bool \<Rightarrow> product_tables \<Rightarrow> cart_error + sale_unit_row option" where
  "resolveSaleUnit variantId saleUnitId useDefaultWhenMissing rejectWhenMissing pt =
     (if \<not> truthy variantId then (if truthy saleUnitId then Inl Sale_unit_unavailable else Inr None)
      else let units = live_sale_units (the variantId) pt in
        if truthy saleUnitId
        then map_sum id Some (option_to_res Sale_unit_unavailable (List.find (\<lambda>u. Some (sr_id u) = saleUnitId) units))
        else if \<not> useDefaultWhenMissing \<and> \<not> rejectWhenMissing then Inr None
        else case units of
          [] \<Rightarrow> Inr None
        | u # _ \<Rightarrow> if rejectWhenMissing then Inl Sale_unit_required else Inr (Some u))"

definition line_commercialPrice :: "sellable_projection option \<Rightarrow> js_value" where
  "line_commercialPrice pj = (case pj of None \<Rightarrow> Nullish | Some p \<Rightarrow> resolveCommercialPrice p)"

definition pricing_resolveBaseQuantity :: "int \<Rightarrow> js_value \<Rightarrow> int" where
  "pricing_resolveBaseQuantity quantity base =
     (let m = (case toFiniteNumber base of None \<Rightarrow> 0 | Some x \<Rightarrow> x)
      in max 0 \<lceil>fl (of_int quantity * (if m > 0 then m else 1))\<rceil>)"

definition toMoneyNumber :: "js_value \<Rightarrow> rat" where
  "toMoneyNumber v = (case toFiniteNumber v of None \<Rightarrow> 0 | Some x \<Rightarrow> to_fixed2 x)"

definition isSameMoney :: "js_value \<Rightarrow> js_value \<Rightarrow> bool" where
  "isSameMoney l r = (toMoneyNumber l = toMoneyNumber r)"

text \<open>The line whose price is computed; it has no identity, no modifiers and no stored price.\<close>

definition pricing_line ::
    "js_value \<Rightarrow> price_attribute list \<Rightarrow> js_value option \<Rightarrow> sale_unit option \<Rightarrow> int \<Rightarrow> cart_line" where
  "pricing_line productPrice attributes variantPrice saleUnit quantity =
     \<lparr>k_id = [], k_productId = [], k_variantId = None, k_saleUnitId = None, k_modifierSignature = None,
      k_quantity = quantity, k_baseQuantity = Q_undefined, k_unitPriceSnapshot = Nullish, k_priceListId = None,
      k_guestSessionId = None, k_variantPrice = variantPrice, k_saleUnit = saleUnit, k_modifiers = [],
      k_productPrice = productPrice, k_attributes = attributes\<rparr>"

definition resolveLineSnapshot ::
    "time \<Rightarrow> ident option \<Rightarrow> sale_unit option \<Rightarrow> int \<Rightarrow> js_value \<times> price_attribute list \<Rightarrow> js_value option
     \<Rightarrow> sellable_projection option \<Rightarrow> cart_error + (int \<times> js_value)" where
  "resolveLineSnapshot now variantId saleUnit quantity product variant pj =
     (let price = line_commercialPrice pj; (productPrice, attributes) = product;
          pricingProduct = (if truthy variantId then productPrice else withPrice productPrice price);
          pricingVariant = (if truthy variantId then map_option (\<lambda>p. withPrice p price) variant else variant);
          known = toFiniteNumber (nullish_or (price_of (map_option su_price saleUnit))
            (nullish_or price (nullish_or (price_of variant) productPrice))) \<noteq> None;
          pricing = resolveCartItemPricing now (pricing_line pricingProduct attributes pricingVariant saleUnit quantity);
          snapshot = (if known then Finite (unitPrice pricing) else Nullish)
      in case saleUnit of
           Some u \<Rightarrow> Inr (pricing_resolveBaseQuantity quantity (su_baseQuantity u), snapshot)
         | None \<Rightarrow>
             if truthy variantId \<and> variant = None then Inl Product_not_found
             else Inr (pricing_resolveBaseQuantity quantity (Finite 1), snapshot))"


section \<open>Context and product of a call\<close>

record cart_context =
  cx_id :: ident
  cx_catalogId :: ident
  cx_parentCatalogId :: "ident option"
  cx_inventoryMode :: inventory_mode
  cx_status :: cart_status
  cx_tableSessionStatus :: "session_status option"

definition findCartContextOrThrow :: "ident \<Rightarrow> cart_world \<Rightarrow> cart_error + cart_context" where
  "findCartContextOrThrow cartId w =
     bindE (lookup_findByIdOrThrow cartId w)
       (\<lambda>c. Inr \<lparr>cx_id = ca_id c, cx_catalogId = ca_catalogId c,
          cx_parentCatalogId = Option.bind (List.find (\<lambda>g. cg_id g = ca_catalogId c) (cw_catalogs w)) cg_parentId,
          cx_inventoryMode = inventory_mode_of (ca_catalogId c) w, cx_status = ca_status c,
          cx_tableSessionStatus = map_option ts_status (session_of (ca_id c) w)\<rparr>)"

definition line_ensureCartIsOpen :: "cart_status \<Rightarrow> session_status option \<Rightarrow> cart_error + unit" where
  "line_ensureCartIsOpen status session =
     (if status \<in> set TERMINAL_CART_STATUSES then Inl Cart_already_closed
      else case session of
        Some s \<Rightarrow> guardE (s = T_OPEN) Table_session_not_open
      | None \<Rightarrow> Inr ())"

definition ensureProductInCatalog :: "cart_context \<Rightarrow> ident \<Rightarrow> cart_world \<Rightarrow> cart_error + (product \<times> product_info)" where
  "ensureProductInCatalog cx productId w =
     option_to_res Product_not_in_catalog
       (product_row (\<lambda>p. p_catalogId p = cx_catalogId cx \<or>
          truthy (cx_parentCatalogId cx) \<and> Some (p_catalogId p) = cx_parentCatalogId cx)
          productId (sv_inv (cw_svc w)) (cw_products w))"

definition line_commercialProjection ::
    "snapshot_ports \<Rightarrow> ident \<Rightarrow> ident \<Rightarrow> ident \<Rightarrow> ident option \<Rightarrow> int \<Rightarrow> inventory_mode
     \<Rightarrow> cart_error + sellable_projection option" where
  "line_commercialProjection ports productCatalogId buyerCatalogId productId variantId quantity mode =
     (let ro = \<lparr>ro_quantity = quantity, ro_enforceStock = shouldEnforceStock mode, ro_buyerCatalogId = buyerCatalogId\<rparr> in
      if quantity \<le> 0 then Inr None
      else if truthy variantId
      then map_sum id Some (resolveVariantSellable ports productCatalogId productId (the variantId) ro)
      else map_sum id (\<lambda>pj. if pj_requiresVariantSelection pj then None else Some pj)
             (resolveProductSellable ports productCatalogId productId ro))"

definition line_priceListLine ::
    "snapshot_ports \<Rightarrow> ident \<Rightarrow> ident \<Rightarrow> ident \<Rightarrow> ident option \<Rightarrow> ident option \<Rightarrow> sellable_projection option
     \<Rightarrow> cart_error + line_price" where
  "line_priceListLine ports buyerCatalogId productCatalogId productId variantId saleUnitId pj =
     (case pj of
        None \<Rightarrow> Inr no_line_price
      | Some p \<Rightarrow> resolvePriceListLine ports buyerCatalogId productCatalogId productId variantId saleUnitId p)"

definition ensureCommercialProjectionPurchasable :: "sellable_projection option \<Rightarrow> cart_error + unit" where
  "ensureCommercialProjectionPurchasable pj =
     (case pj of
        None \<Rightarrow> Inl Variant_unavailable
      | Some p \<Rightarrow>
          (case pj_availabilityState p of
             AVAILABLE \<Rightarrow> Inr ()
           | OUT_OF_STOCK \<Rightarrow> Inl (Out_of_stock (case pj_stock p of None \<Rightarrow> 0 | Some n \<Rightarrow> n))
           | UNAVAILABLE \<Rightarrow> Inl Variant_unavailable))"


section \<open>Lines that match a request\<close>

definition MAX_ITEM_QUANTITY :: int where
  "MAX_ITEM_QUANTITY = 999"

definition MAX_CART_ITEMS :: nat where
  "MAX_CART_ITEMS = 50"

definition item_live :: "cart_item \<Rightarrow> bool" where
  "item_live x = (it_deleteAt x = None)"

definition sortCartLineMatches :: "cart_item list \<Rightarrow> cart_item list" where
  "sortCartLineMatches xs = sort_key (\<lambda>x. (\<not> item_live x, it_createdAt x, k_id (it_line x))) xs"

definition getActiveCartLineQuantity :: "cart_item list \<Rightarrow> int" where
  "getActiveCartLineQuantity xs = sum_where item_live (k_quantity \<circ> it_line) xs"

definition same_line :: "ident \<Rightarrow> ident \<Rightarrow> string \<Rightarrow> string option \<Rightarrow> cart_item \<Rightarrow> bool" where
  "same_line cartId productId signature guest x =
     (it_cartId x = cartId \<and> k_productId (it_line x) = productId \<and>
      k_modifierSignature (it_line x) = Some signature \<and> k_guestSessionId (it_line x) = guest)"

definition line_key_matches ::
    "ident \<Rightarrow> ident \<Rightarrow> ident option \<Rightarrow> ident option \<Rightarrow> string \<Rightarrow> string option \<Rightarrow> cart_item \<Rightarrow> bool" where
  "line_key_matches cartId productId variantId saleUnitId signature guest x =
     (same_line cartId productId signature guest x \<and> k_variantId (it_line x) = variantId \<and>
      k_saleUnitId (it_line x) = saleUnitId)"

definition findExistingItems ::
    "ident \<Rightarrow> ident \<Rightarrow> ident option \<Rightarrow> ident option \<Rightarrow> string \<Rightarrow> string option \<Rightarrow> cart_item list \<Rightarrow> cart_item list" where
  "findExistingItems cartId productId variantId saleUnitId signature guest items =
     (let same = same_line cartId productId signature guest;
          exact = filter (line_key_matches cartId productId variantId saleUnitId signature guest) items;
          sameProduct = filter (\<lambda>x. same x \<and> item_live x) items;
          sameSaleUnit = filter (\<lambda>x. same x \<and> k_saleUnitId (it_line x) = saleUnitId) items;
          legacy = filter (line_key_matches cartId productId variantId None signature guest) items
      in if exact \<noteq> [] then sortCartLineMatches exact
         else if \<not> truthy variantId \<and> \<not> truthy saleUnitId \<and> sameProduct \<noteq> []
         then [hd (sort_key (\<lambda>x. (it_createdAt x, k_id (it_line x))) sameProduct)]
         else if \<not> truthy saleUnitId then []
         else if \<not> truthy variantId \<and> sameSaleUnit \<noteq> [] then sortCartLineMatches sameSaleUnit
         else (case legacy of [] \<Rightarrow> [] | x # _ \<Rightarrow> [x]))"


section \<open>Writing a line\<close>

text \<open>The columns of a line that an update writes; the variant of an existing row is not among them.\<close>

record resolved_line =
  rl_productId :: ident
  rl_variantId :: "ident option"
  rl_saleUnitId :: "ident option"
  rl_quantity :: int
  rl_baseQuantity :: int
  rl_unitPriceSnapshot :: js_value
  rl_signature :: string
  rl_modifiers :: "resolved_modifier list"
  rl_priceList :: line_price
  rl_guestSessionId :: "string option"
  rl_guestName :: "string option"

definition items_updateMany :: "(cart_item \<Rightarrow> bool) \<Rightarrow> (cart_item \<Rightarrow> cart_item) \<Rightarrow> cart_world \<Rightarrow> cart_world" where
  "items_updateMany P f w =
     w\<lparr>cw_items := update_where P (join_item (sv_inv (cw_svc w)) (cw_products w) \<circ> f) (cw_items w)\<rparr>"

definition archive_items :: "time \<Rightarrow> ident list \<Rightarrow> cart_world \<Rightarrow> cart_world" where
  "archive_items now ids w =
     w\<lparr>cw_items := update_where (\<lambda>x. k_id (it_line x) \<in> set ids) (\<lambda>x. x\<lparr>it_deleteAt := Some now\<rparr>) (cw_items w)\<rparr>"

definition cart_modifier_of :: "resolved_modifier \<Rightarrow> cart_modifier" where
  "cart_modifier_of m = \<lparr>cm_productModifierOptionId = Some (rm_option m), cm_quantity = rm_quantity m,
     cm_unitPriceSnapshot = rm_price m\<rparr>"

definition replaceCartItemModifiers :: "ident \<Rightarrow> resolved_modifier list \<Rightarrow> cart_world \<Rightarrow> cart_world" where
  "replaceCartItemModifiers i ms w =
     w\<lparr>cw_items := update_where (\<lambda>x. k_id (it_line x) = i)
        (\<lambda>x. x\<lparr>it_line := (it_line x)\<lparr>k_modifiers := map cart_modifier_of ms\<rparr>\<rparr>) (cw_items w)\<rparr>"

definition line_data :: "resolved_line \<Rightarrow> cart_item \<Rightarrow> cart_item" where
  "line_data r x =
     x\<lparr>it_line := (it_line x)\<lparr>k_quantity := rl_quantity r, k_baseQuantity := Q_num (rl_baseQuantity r),
          k_unitPriceSnapshot := rl_unitPriceSnapshot r, k_priceListId := ll_priceListId (rl_priceList r),
          k_saleUnitId := rl_saleUnitId r, k_modifierSignature := Some (rl_signature r),
          k_guestSessionId := rl_guestSessionId r\<rparr>,
       it_priceListCode := ll_priceListCode (rl_priceList r), it_priceListName := ll_priceListName (rl_priceList r),
       it_guestName := rl_guestName r, it_deleteAt := None\<rparr>"

definition shouldUpdatePrimary :: "cart_item \<Rightarrow> resolved_line \<Rightarrow> bool" where
  "shouldUpdatePrimary x r =
     (let l = it_line x in
      \<not> item_live x \<or> k_quantity l \<noteq> rl_quantity r \<or> k_saleUnitId l \<noteq> rl_saleUnitId r \<or>
      k_modifierSignature l \<noteq> Some (rl_signature r) \<or> k_baseQuantity l \<noteq> Q_num (rl_baseQuantity r) \<or>
      k_priceListId l \<noteq> ll_priceListId (rl_priceList r) \<or> it_priceListCode x \<noteq> ll_priceListCode (rl_priceList r) \<or>
      it_priceListName x \<noteq> ll_priceListName (rl_priceList r) \<or> k_guestSessionId l \<noteq> rl_guestSessionId r \<or>
      it_guestName x \<noteq> rl_guestName r \<or> \<not> isSameMoney (k_unitPriceSnapshot l) (rl_unitPriceSnapshot r))"

definition new_item :: "ident \<Rightarrow> time \<Rightarrow> ident \<Rightarrow> resolved_line \<Rightarrow> cart_item" where
  "new_item i now cartId r =
     line_data r \<lparr>it_line = \<lparr>k_id = i, k_productId = rl_productId r, k_variantId = rl_variantId r, k_saleUnitId = None,
         k_modifierSignature = None, k_quantity = 0, k_baseQuantity = Q_null, k_unitPriceSnapshot = Nullish,
         k_priceListId = None, k_guestSessionId = None, k_variantPrice = None, k_saleUnit = None, k_modifiers = [],
         k_productPrice = Nullish, k_attributes = []\<rparr>,
       it_cartId = cartId, it_guestName = None, it_priceListCode = None, it_priceListName = None,
       it_productCatalogId = None, it_createdAt = now, it_deleteAt = None\<rparr>"

definition create_item :: "request \<Rightarrow> ident \<Rightarrow> resolved_line \<Rightarrow> cart_world \<Rightarrow> cart_error + cart_world" where
  "create_item rq cartId r w =
     (let i = rq_gen rq (map (k_id \<circ> it_line) (cw_items w)) in
      if i \<in> (k_id \<circ> it_line) ` set (cw_items w) then Inl (Cart_db UniqueViolation)
      else Inr (replaceCartItemModifiers i (rl_modifiers r)
        (w\<lparr>cw_items := cw_items w @
           [join_item (sv_inv (cw_svc w)) (cw_products w) (new_item i (rq_now rq) cartId r)]\<rparr>)))"

definition archiveActiveCartItems :: "time \<Rightarrow> cart_item list \<Rightarrow> cart_world \<Rightarrow> bool \<times> cart_world" where
  "archiveActiveCartItems now existing w =
     (let ids = map (k_id \<circ> it_line) (filter item_live existing) in
      if ids = [] then (False, w) else (True, archive_items now ids w))"

definition applyCartItemChange ::
    "request \<Rightarrow> ident \<Rightarrow> cart_item list \<Rightarrow> resolved_line \<Rightarrow> cart_world \<Rightarrow> cart_error + (bool \<times> cart_world)" where
  "applyCartItemChange rq cartId existing r w =
     (let live = filter item_live existing in
      if rl_quantity r = 0 then Inr (archiveActiveCartItems (rq_now rq) existing w)
      else case live @ existing of
        [] \<Rightarrow> bindE (create_item rq cartId r w) (\<lambda>w1. Inr (True, w1))
      | primary # _ \<Rightarrow>
          let i = k_id (it_line primary);
              duplicates = filter (\<lambda>j. j \<noteq> i) (map (k_id \<circ> it_line) live);
              w1 = (if shouldUpdatePrimary primary r then items_updateMany (\<lambda>x. k_id (it_line x) = i) (line_data r) w else w);
              w2 = archive_items (rq_now rq) duplicates w1
          in Inr (shouldUpdatePrimary primary r \<or> duplicates \<noteq> [] \<or> rl_modifiers r \<noteq> [],
                  replaceCartItemModifiers i (rl_modifiers r) w2))"


section \<open>The calls\<close>

definition finalizeCartLineChange ::
    "request \<Rightarrow> cart_context \<Rightarrow> bool \<Rightarrow> cart_world \<Rightarrow> cart_error + (((ident \<times> bool) \<times> stock_effects) \<times> cart_world)" where
  "finalizeCartLineChange rq cx mutated w =
     (if \<not> mutated then Inr (((cx_id cx, False), [], []), w)
      else bindE (cart_update (rq_now rq) (cx_id cx) (\<lambda>c. c) w)
        (\<lambda>w1. if \<not> shouldReserveCartStock (cx_status cx) (cx_inventoryMode cx)
              then Inr (((cx_id cx, True), [], []), w1)
              else bindE (lookup_findByIdOrThrow (cx_id cx) w1)
        (\<lambda>cart. bindE (reserveCartStockIfNeededTx rq cart None w1)
        (\<lambda>((_, fx), w2). Inr (((cx_id cx, True), fx), w2)))))"

text \<open>
  The line a request with a positive quantity asks for, in two parts: the variant, the sale unit and the
  modifiers, then the price.  \<open>w\<close> is the transaction's state after the repair.
\<close>

record line_choice =
  lc_variantId :: "ident option"
  lc_variantPrice :: "js_value option"
  lc_unit :: "sale_unit_row option"
  lc_signature :: string
  lc_modifiers :: "resolved_modifier list"

definition stock_mode :: "cart_context \<Rightarrow> inventory_mode" where
  "stock_mode cx =
     (if shouldReserveCartStock (cx_status cx) (cx_inventoryMode cx) then MODE_NONE else cx_inventoryMode cx)"

definition choose_line ::
    "request \<Rightarrow> snapshot_ports \<Rightarrow> cart_context \<Rightarrow> ident \<Rightarrow> normalized_item \<Rightarrow> cart_world \<Rightarrow> cart_error + line_choice" where
  "choose_line rq ports cx catalogId input w =
     (let f = current_features rq (cx_catalogId cx) w;
          saleUnitId = (if canUseCatalogSaleUnits f then ni_saleUnitId input else None)
      in bindE (resolveCartVariantId rq ports catalogId (input\<lparr>ni_saleUnitId := saleUnitId\<rparr>) (stock_mode cx)
                  (cx_catalogId cx) w)
       (\<lambda>variantId. bindE (ensureVariantMatchesProduct (ni_productId input) variantId w)
       (\<lambda>variantPrice. let units = truthy variantId \<and> canUseCatalogSaleUnits f in
          bindE (resolveSaleUnit variantId (if units then saleUnitId else None) False units (cw_products w))
       (\<lambda>unit. bindE (resolveModifiers (ni_productId input) variantId (canUseCatalogModifiers f) (ni_modifiers input)
                        (cw_products w))
       (\<lambda>(signature, modifiers). Inr \<lparr>lc_variantId = variantId, lc_variantPrice = variantPrice, lc_unit = unit,
            lc_signature = signature, lc_modifiers = modifiers\<rparr>)))))"

definition line_quantity :: "normalized_item \<Rightarrow> line_choice \<Rightarrow> int" where
  "line_quantity input c = resolveCartItemBaseQuantity (ni_quantity input) Q_undefined (map_option sr_unit (lc_unit c))"

definition price_line_of ::
    "request \<Rightarrow> snapshot_ports \<Rightarrow> cart_context \<Rightarrow> product \<times> product_info \<Rightarrow> normalized_item \<Rightarrow> line_choice
     \<Rightarrow> cart_error + (resolved_line \<times> sellable_projection option)" where
  "price_line_of rq ports cx product input c =
     (let catalogId = p_catalogId (fst product); info = snd product; unit = lc_unit c in
      bindE (line_commercialProjection ports catalogId (cx_catalogId cx) (ni_productId input) (lc_variantId c)
               (line_quantity input c) (stock_mode cx))
       (\<lambda>pj. bindE (line_priceListLine ports (cx_catalogId cx) catalogId (ni_productId input) (lc_variantId c)
                        (map_option sr_id unit) pj)
       (\<lambda>pl. let productPrice = (if ll_target pl = Some TARGET_PRODUCT then ll_price pl else pi_price info);
                 variant = (if ll_target pl = Some TARGET_VARIANT then map_option (\<lambda>_. ll_price pl) (lc_variantPrice c)
                   else lc_variantPrice c);
                 saleUnit = (if ll_target pl = Some TARGET_SALE_UNIT
                   then map_option (\<lambda>u. (sr_unit u)\<lparr>su_price := ll_price pl\<rparr>) unit else map_option sr_unit unit)
             in bindE (resolveLineSnapshot (rq_now rq) (lc_variantId c) saleUnit (ni_quantity input)
                         (productPrice, pi_attributes info) variant pj)
       (\<lambda>(base, snapshot). Inr (\<lparr>rl_productId = ni_productId input, rl_variantId = lc_variantId c,
            rl_saleUnitId = map_option sr_id unit, rl_quantity = ni_quantity input, rl_baseQuantity = base,
            rl_unitPriceSnapshot = snapshot, rl_signature = lc_signature c, rl_modifiers = lc_modifiers c,
            rl_priceList = pl, rl_guestSessionId = ni_guestSessionId input, rl_guestName = ni_guestName input\<rparr>, pj)))))"

definition resolve_line ::
    "request \<Rightarrow> snapshot_ports \<Rightarrow> cart_context \<Rightarrow> product \<times> product_info \<Rightarrow> normalized_item \<Rightarrow> cart_world
     \<Rightarrow> cart_error + (resolved_line \<times> sellable_projection option)" where
  "resolve_line rq ports cx product input w =
     bindE (choose_line rq ports cx (p_catalogId (fst product)) input w) (price_line_of rq ports cx product input)"

definition check_limits ::
    "cart_context \<Rightarrow> cart_item list \<Rightarrow> resolved_line \<Rightarrow> sellable_projection option \<Rightarrow> cart_world \<Rightarrow> cart_error + unit" where
  "check_limits cx existing r pj w =
     (let n = getActiveCartLineQuantity existing in
      if rl_quantity r \<le> 0 then Inr ()
      else if rl_quantity r > MAX_ITEM_QUANTITY \<and> \<not> (n > MAX_ITEM_QUANTITY \<and> rl_quantity r \<le> n) then Inl Quantity_limit
      else bindE (ensureCommercialProjectionPurchasable pj)
        (\<lambda>_. guardE ((\<exists>x\<in>set existing. item_live x) \<or>
               count_where (\<lambda>x. it_cartId x = cx_id cx \<and> item_live x) (cw_items w) < MAX_CART_ITEMS) Items_limit))"

definition line_repair :: "request \<Rightarrow> ident \<Rightarrow> normalized_item \<Rightarrow> cart_world \<Rightarrow> cart_error + (bool option \<times> cart_world)" where
  "line_repair rq catalogId input w =
     (if ni_quantity input > 0 then repairMissingDefaultVariantForProduct rq catalogId (ni_productId input) w
      else Inr (None, w))"

definition upsertItemInTransaction ::
    "request \<Rightarrow> snapshot_ports \<Rightarrow> ident \<Rightarrow> normalized_item \<Rightarrow> cart_world
     \<Rightarrow> cart_error + (((ident \<times> bool) \<times> stock_effects) \<times> cart_world)" where
  "upsertItemInTransaction rq ports cartId input w =
     bindE (findCartContextOrThrow cartId w)
       (\<lambda>cx. bindE (line_ensureCartIsOpen (cx_status cx) (cx_tableSessionStatus cx))
       (\<lambda>_. if ni_quantity input = 0
            then (let (mutated, w1) = archiveActiveCartItems (rq_now rq)
                     (findExistingItems (cx_id cx) (ni_productId input) (ni_variantId input) (ni_saleUnitId input)
                        (buildCartModifierInputSignature (ni_modifiers input)) (ni_guestSessionId input) (cw_items w)) w
                  in finalizeCartLineChange rq cx mutated w1)
            else bindE (ensureProductInCatalog cx (ni_productId input) w)
       (\<lambda>product. bindE (line_repair rq (p_catalogId (fst product)) input w)
       (\<lambda>(_, w1). bindE (resolve_line rq ports cx product input w1)
       (\<lambda>(r, pj). let existing = findExistingItems (cx_id cx) (rl_productId r) (rl_variantId r) (rl_saleUnitId r)
                        (rl_signature r) (rl_guestSessionId r) (cw_items w1)
                  in bindE (check_limits cx existing r pj w1)
       (\<lambda>_. bindE (applyCartItemChange rq (cx_id cx) existing r w1)
       (\<lambda>(mutated, w2). finalizeCartLineChange rq cx mutated w2)))))))"

definition line_upsertItem ::
    "request \<Rightarrow> snapshot_ports \<Rightarrow> (string \<Rightarrow> string \<Rightarrow> int) \<Rightarrow> ident \<Rightarrow> item_input \<Rightarrow> cart_world
     \<Rightarrow> (cart_error + ident \<times> bool) \<times> cart_world" where
  "line_upsertItem rq ports cmp cartId input w =
     (case normalizeCartItemInput cmp input of
        Inl e \<Rightarrow> (Inl (Cart_input_invalid e), w)
      | Inr n \<Rightarrow> commit_tx rq (upsertItemInTransaction rq ports cartId n w) w)"

definition cart_upsertItem ::
    "request \<Rightarrow> (string \<Rightarrow> string \<Rightarrow> int) \<Rightarrow> ident \<Rightarrow> item_input \<Rightarrow> cart_world \<Rightarrow> (cart_error + ident \<times> bool) \<times> cart_world" where
  "cart_upsertItem rq cmp cartId input w = line_upsertItem rq (sellable_ports rq w) cmp cartId input w"

text \<open>\<open>guest\<close> is the session the caller claims the line for: \<open>None\<close> for a caller without such a claim.\<close>

definition removeItem_tx ::
    "request \<Rightarrow> ident \<Rightarrow> ident \<Rightarrow> string option option \<Rightarrow> cart_world
     \<Rightarrow> cart_error + (((ident \<times> bool) \<times> stock_effects) \<times> cart_world)" where
  "removeItem_tx rq cartId itemId guest w =
     bindE (findCartContextOrThrow cartId w)
       (\<lambda>cx. bindE (line_ensureCartIsOpen (cx_status cx) (cx_tableSessionStatus cx))
       (\<lambda>_. bindE (option_to_res Item_not_found
                     (List.find (\<lambda>x. k_id (it_line x) = itemId \<and> it_cartId x = cartId \<and> item_live x) (cw_items w)))
       (\<lambda>item. if guest \<noteq> None \<and> guest \<noteq> Some (k_guestSessionId (it_line item)) then Inl Item_of_other_guest
               else finalizeCartLineChange rq cx True
                 (w\<lparr>cw_items := update_where (\<lambda>x. it_cartId x = cartId \<and> item_live x \<and>
                      k_productId (it_line x) = k_productId (it_line item) \<and>
                      k_variantId (it_line x) = k_variantId (it_line item) \<and>
                      k_saleUnitId (it_line x) = k_saleUnitId (it_line item) \<and>
                      k_modifierSignature (it_line x) = k_modifierSignature (it_line item) \<and>
                      k_guestSessionId (it_line x) = k_guestSessionId (it_line item))
                    (\<lambda>x. x\<lparr>it_deleteAt := Some (rq_now rq)\<rparr>) (cw_items w)\<rparr>))))"

definition line_removeItem ::
    "request \<Rightarrow> ident \<Rightarrow> string \<Rightarrow> string option option \<Rightarrow> cart_world \<Rightarrow> (cart_error + ident \<times> bool) \<times> cart_world" where
  "line_removeItem rq cartId itemId guest w =
     (if trim itemId = [] then (Inl Item_id_required, w)
      else commit_tx rq (removeItem_tx rq cartId (trim itemId) guest w) w)"

end
