(* ===== verification/Cart_Line_Invariant.thy ===== *)
theory Cart_Line_Invariant
  imports Cart_Invariant Cart_Lines
begin

text \<open>
  The calls on cart lines keep the invariant of \<^verbatim>\<open>Cart_Invariant\<close>; the facts about a committed call on
  which the properties of lines rest: what the repair, the resolution and the writes leave of each table.
\<close>


section \<open>Items\<close>

text \<open>A write of items that keeps the identifier and the variant of each row.\<close>

definition keeps_ids :: "(cart_item \<Rightarrow> cart_item) \<Rightarrow> bool" where
  "keeps_ids f \<longleftrightarrow> (\<forall>x. k_id (it_line (f x)) = k_id (it_line x) \<and> k_variantId (it_line (f x)) = k_variantId (it_line x) \<and>
     k_productId (it_line (f x)) = k_productId (it_line x) \<and> it_cartId (f x) = it_cartId x \<and> it_createdAt (f x) = it_createdAt x)"

lemma keeps_idsD:
  assumes "keeps_ids f"
  shows "k_id (it_line (f x)) = k_id (it_line x)" "k_variantId (it_line (f x)) = k_variantId (it_line x)"
    "k_productId (it_line (f x)) = k_productId (it_line x)" "it_cartId (f x) = it_cartId x" "it_createdAt (f x) = it_createdAt x"
  using assms by (simp_all add: keeps_ids_def)

lemma join_item_simps [simp]:
  "k_id (it_line (join_item db pt x)) = k_id (it_line x)" "k_variantId (it_line (join_item db pt x)) = k_variantId (it_line x)"
  "k_productId (it_line (join_item db pt x)) = k_productId (it_line x)" "it_cartId (join_item db pt x) = it_cartId x"
  "it_createdAt (join_item db pt x) = it_createdAt x" "it_deleteAt (join_item db pt x) = it_deleteAt x"
  "k_saleUnitId (it_line (join_item db pt x)) = k_saleUnitId (it_line x)" "k_quantity (it_line (join_item db pt x)) = k_quantity (it_line x)"
  "k_modifierSignature (it_line (join_item db pt x)) = k_modifierSignature (it_line x)"
  "k_guestSessionId (it_line (join_item db pt x)) = k_guestSessionId (it_line x)"
  "k_unitPriceSnapshot (it_line (join_item db pt x)) = k_unitPriceSnapshot (it_line x)"
  "k_baseQuantity (it_line (join_item db pt x)) = k_baseQuantity (it_line x)"
  by (simp_all add: join_item_def Let_def)

lemma keeps_ids_intros [simp, intro]:
  "keeps_ids (join_item db pt)" "keeps_ids (line_data r)" "keeps_ids (\<lambda>x. x\<lparr>it_deleteAt := d\<rparr>)"
  "keeps_ids (\<lambda>x. x\<lparr>it_line := (it_line x)\<lparr>k_modifiers := ms\<rparr>\<rparr>)" "keeps_ids f \<Longrightarrow> keeps_ids g \<Longrightarrow> keeps_ids (f \<circ> g)"
  by (simp_all add: keeps_ids_def line_data_def)

lemma item_ids_ok_map: "item_ids_ok xs \<Longrightarrow> keeps_ids f \<Longrightarrow> item_ids_ok (map f xs)"
  by (simp add: item_ids_ok_def keeps_ids_def list_all_iff comp_def)

lemma item_ids_ok_update: "item_ids_ok xs \<Longrightarrow> keeps_ids f \<Longrightarrow> item_ids_ok (update_where P f xs)"
  unfolding update_where_def by (rule item_ids_ok_map) (auto simp: keeps_ids_def)

lemma ok_items: "cart_ok_but old D w \<Longrightarrow> item_ids_ok xs \<Longrightarrow> cart_ok_but old D (w\<lparr>cw_items := xs\<rparr>)"
  by (simp add: cart_ok_but_def holders_ok_def)

lemma ok_items_update:
  "cart_ok_but old D w \<Longrightarrow> keeps_ids f \<Longrightarrow> cart_ok_but old D (w\<lparr>cw_items := update_where P f (cw_items w)\<rparr>)"
  by (rule ok_items) (simp_all add: item_ids_ok_update cart_ok_but_def)

lemma ok_rejoin: "cart_ok_but old D w \<Longrightarrow> cart_ok_but old D (rejoin w)"
  unfolding rejoin_def by (rule ok_items) (simp_all add: item_ids_ok_map cart_ok_but_def)


section \<open>Writes\<close>

lemma service_ok_variants:
  "service_ok old (s\<lparr>sv_inv := (sv_inv s)\<lparr>variants := vs\<rparr>\<rparr>) = service_ok old s"
  "service_ok old (s\<lparr>sv_inv := (sv_inv s)\<lparr>products := ps, variants := vs\<rparr>\<rparr>) = service_ok old s"
  by (simp_all add: service_ok_def shop_ok_def inv_ok_def structure_ok_def links_ok_def gap_def ledger_gap_def
      reserved_sum_def active_sum_def onhand_sum_def ledger_sum_def)

text \<open>What a write of variants leaves: the rows of the cart tables and all of the stock but the variants.\<close>

definition product_write :: "cart_world \<Rightarrow> cart_world \<Rightarrow> bool" where
  "product_write w w' \<longleftrightarrow> cw_carts w' = cw_carts w \<and> cw_sessions w' = cw_sessions w \<and> cw_orders w' = cw_orders w \<and>
     cw_catalogs w' = cw_catalogs w \<and>
     (\<exists>vs. cw_svc w' = (cw_svc w)\<lparr>sv_inv := (sv_inv (cw_svc w))\<lparr>variants := vs\<rparr>\<rparr>) \<and>
     (cw_items w' = cw_items w \<or> (\<exists>db pt. cw_items w' = map (join_item db pt) (cw_items w)))"

lemma product_write_refl [simp]: "product_write w w"
  by (auto simp: product_write_def intro: exI [of _ "variants (sv_inv (cw_svc w))"])

lemma active_carts_variants [simp]: "active_carts (db\<lparr>variants := vs\<rparr>) = active_carts db"
  "active_carts (db\<lparr>products := ps\<rparr>) = active_carts db"
  by (simp_all add: active_carts_def)

lemma product_write_ok:
  assumes "product_write w w'" "variant_ids_ok (cw_products w')" "cart_ok_but old D w"
  shows "cart_ok_but old D w'"
proof -
  have "item_ids_ok (cw_items w')"
    using assms(1,3) item_ids_ok_map [OF _ keeps_ids_intros(1)] by (auto simp: product_write_def cart_ok_but_def)
  with assms show ?thesis by (auto simp: product_write_def cart_ok_but_def holders_ok_def service_ok_variants)
qed

definition colon_free :: "request \<Rightarrow> bool" where
  "colon_free rq \<longleftrightarrow> (\<forall>xs. CHR '':'' \<notin> set (rq_gen rq xs))"

lemma product_write_rejoin:
  assumes "cw_carts w1 = cw_carts w" "cw_sessions w1 = cw_sessions w" "cw_orders w1 = cw_orders w"
    "cw_catalogs w1 = cw_catalogs w" "cw_items w1 = cw_items w"
    "cw_svc w1 = (cw_svc w)\<lparr>sv_inv := (sv_inv (cw_svc w))\<lparr>variants := vs\<rparr>\<rparr>"
  shows "product_write w (rejoin w1)"
proof -
  have "cw_items (rejoin w1) = map (join_item (sv_inv (cw_svc w1)) (cw_products w1)) (cw_items w)"
    by (simp add: rejoin_def assms(5))
  with assms show ?thesis unfolding product_write_def by (auto simp: rejoin_def simp del: list.map_comp)
qed

lemma restore_write:
  "product_write w (rejoin (restore_variant i a d w))"
  "variant_ids_ok (cw_products w) \<Longrightarrow> variant_ids_ok (cw_products (rejoin (restore_variant i a d w)))"
  by (rule product_write_rejoin, simp_all add: restore_variant_def info_variants_def inv_variants_def rejoin_def)
    (auto simp: variant_ids_ok_def list_all_iff set_update_where)

lemma create_write:
  assumes "createVariant rq p d w = Inr w1"
  shows "product_write w (rejoin w1)"
    "colon_free rq \<Longrightarrow> variant_ids_ok (cw_products w) \<Longrightarrow> variant_ids_ok (cw_products (rejoin w1))"
proof -
  show "product_write w (rejoin w1)"
    using assms by (intro product_write_rejoin)
      (auto simp: createVariant_def Let_def info_variants_def inv_variants_def split: if_splits)
  show "colon_free rq \<Longrightarrow> variant_ids_ok (cw_products w) \<Longrightarrow> variant_ids_ok (cw_products (rejoin w1))"
    using assms by (auto simp: createVariant_def Let_def info_variants_def inv_variants_def rejoin_def
        variant_ids_ok_def list_all_iff colon_free_def split: if_splits)
qed

lemma repair_write:
  assumes "line_repair rq cat input w = Inr (b, w')"
  shows "product_write w w'" "colon_free rq \<Longrightarrow> variant_ids_ok (cw_products w) \<Longrightarrow> variant_ids_ok (cw_products w')"
proof -
  from assms consider "w' = w" | i a d where "w' = rejoin (restore_variant i a d w)"
    | d w1 where "createVariant rq (ni_productId input) d w = Inr w1" "w' = rejoin w1"
    by (auto simp: line_repair_def repairMissingDefaultVariantForProduct_def ensureDefaultVariant_def restoreOrCreateDefaultVariant_def Let_def
        split: option.splits if_splits)
  note cases = this
  from cases show "product_write w w'" by cases (auto intro: restore_write create_write)
  assume "colon_free rq" "variant_ids_ok (cw_products w)"
  with cases show "variant_ids_ok (cw_products w')" by cases (auto intro: restore_write create_write)
qed


section \<open>A resolved line\<close>

lemma map_sum_Inr_iff [simp]: "map_sum f g x = Inr y \<longleftrightarrow> (\<exists>z. x = Inr z \<and> y = g z)"
  by (cases x) auto

lemma truthy_iff: "truthy s \<longleftrightarrow> (\<exists>x. s = Some x \<and> x \<noteq> [])"
  by (auto simp: truthy_def split: option.splits)

lemma find_live_unit:
  assumes "List.find P (live_sale_units v pt) = Some u"
  shows "u \<in> set (pt_saleUnits pt)" "sr_variantId u = v" "sr_isActive u" "sr_deleteAt u = None" "P u"
  using find_Some_iff_mem [OF assms] by (auto simp: live_sale_units_def)

lemma choose_line_Inr:
  assumes "choose_line rq ports cx cat input w = Inr c"
  shows "ensureVariantMatchesProduct (ni_productId input) (lc_variantId c) w = Inr (lc_variantPrice c)"
    "lc_unit c = Some u \<Longrightarrow> u \<in> set (pt_saleUnits (cw_products w)) \<and> Some (sr_variantId u) = lc_variantId c"
proof -
  let ?f = "current_features rq (cx_catalogId cx) w"
  from assms obtain s where
    v: "ensureVariantMatchesProduct (ni_productId input) (lc_variantId c) w = Inr (lc_variantPrice c)"
    and u: "resolveSaleUnit (lc_variantId c) s False (truthy (lc_variantId c) \<and> canUseCatalogSaleUnits ?f) (cw_products w)
        = Inr (lc_unit c)"
    unfolding choose_line_def Let_def by (auto split del: if_split)
  show "ensureVariantMatchesProduct (ni_productId input) (lc_variantId c) w = Inr (lc_variantPrice c)" by (rule v)
  show "u \<in> set (pt_saleUnits (cw_products w)) \<and> Some (sr_variantId u) = lc_variantId c" if "lc_unit c = Some u"
    using u that find_live_unit [of _ "the (lc_variantId c)" "cw_products w" u]
    by (auto simp: resolveSaleUnit_def Let_def truthy_iff split: if_splits list.splits)
qed

lemma price_line_Inr:
  assumes "price_line_of rq ports cx product input c = Inr (r, pj)"
  shows "rl_productId r = ni_productId input" "rl_variantId r = lc_variantId c" "rl_saleUnitId r = map_option sr_id (lc_unit c)"
    "rl_quantity r = ni_quantity input" "rl_guestSessionId r = ni_guestSessionId input" "rl_signature r = lc_signature c"
    "line_commercialProjection ports (p_catalogId (fst product)) (cx_catalogId cx) (ni_productId input) (lc_variantId c)
       (line_quantity input c) (stock_mode cx) = Inr pj"
    "line_priceListLine ports (cx_catalogId cx) (p_catalogId (fst product)) (ni_productId input) (lc_variantId c)
       (map_option sr_id (lc_unit c)) pj = Inr (rl_priceList r)"
  using assms unfolding price_line_of_def Let_def by (auto split del: if_split)

lemma matched_variant:
  assumes "ensureVariantMatchesProduct productId (Some v) w = Inr price" "v \<noteq> []"
  obtains x where "x \<in> set (live_variants productId (sv_inv (cw_svc w)) (cw_products w))" "vv_id x = v"
proof -
  from assms obtain x where "List.find (\<lambda>x. Some (vv_id x) = Some v) (live_variants productId (sv_inv (cw_svc w)) (cw_products w)) = Some x"
    by (cases "List.find (\<lambda>x. Some (vv_id x) = Some v) (live_variants productId (sv_inv (cw_svc w)) (cw_products w))")
      (auto simp: ensureVariantMatchesProduct_def truthy_def)
  from find_Some_iff_mem [OF this] that show thesis by auto
qed

definition line_variant_ok :: "resolved_line \<Rightarrow> bool" where
  "line_variant_ok r = (case rl_variantId r of None \<Rightarrow> True | Some v \<Rightarrow> CHR '':'' \<notin> set v)"

lemma resolve_line_variant_ok:
  assumes "resolve_line rq ports cx product input w = Inr (r, pj)" "variant_ids_ok (cw_products w)"
  shows "line_variant_ok r"
proof (cases "rl_variantId r")
  case (Some v)
  from assms(1) obtain c where c: "choose_line rq ports cx (p_catalogId (fst product)) input w = Inr c"
      "price_line_of rq ports cx product input c = Inr (r, pj)"
    by (auto simp: resolve_line_def)
  show ?thesis
  proof (cases "v = []")
    case False
    have "ensureVariantMatchesProduct (ni_productId input) (Some v) w = Inr (lc_variantPrice c)"
      using choose_line_Inr(1) [OF c(1)] price_line_Inr(2) [OF c(2)] Some by simp
    then obtain x where "x \<in> set (live_variants (ni_productId input) (sv_inv (cw_svc w)) (cw_products w))" "vv_id x = v"
      using matched_variant False by metis
    then have "v \<in> vi_id ` set (pt_variants (cw_products w))" using variant_view_id(2) by (auto simp: live_variants_def)
    with assms(2) Some show ?thesis by (auto simp: line_variant_ok_def variant_ids_ok_def list_all_iff)
  qed (simp add: line_variant_ok_def Some)
qed (simp add: line_variant_ok_def)


section \<open>Calls\<close>

lemma archive_ok: "cart_ok_but old D w \<Longrightarrow> cart_ok_but old D (snd (archiveActiveCartItems now xs w))"
  by (auto simp: archiveActiveCartItems_def archive_items_def Let_def intro: ok_items_update)

lemma modifiers_ok: "cart_ok_but old D w \<Longrightarrow> cart_ok_but old D (replaceCartItemModifiers i ms w)"
  unfolding replaceCartItemModifiers_def by (rule ok_items_update) simp_all

lemma create_item_ok:
  assumes "create_item rq cartId r w = Inr w'" "cart_ok_but old D w" "line_variant_ok r"
  shows "cart_ok_but old D w'"
proof -
  let ?x = "join_item (sv_inv (cw_svc w)) (cw_products w) (new_item (rq_gen rq (map (k_id \<circ> it_line) (cw_items w))) (rq_now rq) cartId r)"
  have new: "rq_gen rq (map (k_id \<circ> it_line) (cw_items w)) \<notin> (k_id \<circ> it_line) ` set (cw_items w)"
    and w': "w' = replaceCartItemModifiers (rq_gen rq (map (k_id \<circ> it_line) (cw_items w))) (rl_modifiers r) (w\<lparr>cw_items := cw_items w @ [?x]\<rparr>)"
    using assms(1) by (auto simp: create_item_def Let_def split: if_splits)
  have "item_ids_ok (cw_items w @ [?x])"
    using assms(2,3) new by (auto simp: item_ids_ok_def cart_ok_but_def new_item_def line_data_def line_variant_ok_def)
  with assms(2) show ?thesis unfolding w' by (intro modifiers_ok ok_items)
qed

lemma apply_change_ok:
  assumes "applyCartItemChange rq cartId xs r w = Inr (b, w')" "cart_ok_but old D w" "line_variant_ok r"
  shows "cart_ok_but old D w'"
proof -
  have upd: "cart_ok_but old D (items_updateMany P (line_data r) w)" for P
    using assms(2) unfolding items_updateMany_def by (rule ok_items_update) simp
  have arch: "cart_ok_but old D (archive_items now ids v)" if "cart_ok_but old D v" for now ids v
    using that unfolding archive_items_def by (rule ok_items_update) simp
  from assms show ?thesis
    using archive_ok [OF assms(2), of "rq_now rq" xs]
    by (auto simp: applyCartItemChange_def Let_def split: if_splits list.splits
        intro: create_item_ok modifiers_ok arch upd)
qed

lemma finalize_ok:
  assumes "finalizeCartLineChange rq cx b w = Inr (r, w')" "cart_ok old w"
  shows "cart_ok old w'"
proof (cases b)
  case True
  with assms(1) obtain w1 where u: "cart_update (rq_now rq) (cx_id cx) (\<lambda>c. c) w = Inr w1"
      and w': "w' = w1 \<or> (\<exists>cart x fx. lookup_findByIdOrThrow (cx_id cx) w1 = Inr cart \<and>
        reserveCartStockIfNeededTx rq cart None w1 = Inr ((x, fx), w'))"
    by (auto simp: finalizeCartLineChange_def split: if_splits)
  have ok: "cart_ok_but old ({} \<union> {}) w1" by (rule update_ok [OF u assms(2)]) simp_all
  with w' reserve_ok show ?thesis by auto
qed (use assms in \<open>simp add: finalizeCartLineChange_def\<close>)

lemma finalize_tables:
  assumes "finalizeCartLineChange rq cx b w = Inr (r, w')"
  shows "cw_items w' = cw_items w" "cw_sessions w' = cw_sessions w" "cw_products w' = cw_products w"
    "cw_carts w' = cw_carts w \<or>
     cw_carts w' = update_where (\<lambda>c. ca_id c = cx_id cx) (\<lambda>c. c\<lparr>ca_updatedAt := rq_now rq\<rparr>) (cw_carts w)"
  using assms reserve_tables
  by (auto simp: finalizeCartLineChange_def cart_update_def cart_updateMany_def same_tables_but_stock_def split: if_splits;
      metis)+

lemma archive_tables:
  "cw_carts (snd (archiveActiveCartItems now xs w)) = cw_carts w" "cw_sessions (snd (archiveActiveCartItems now xs w)) = cw_sessions w"
  by (simp_all add: archiveActiveCartItems_def archive_items_def Let_def)

lemma apply_change_tables:
  assumes "applyCartItemChange rq cartId xs r w = Inr (b, w')"
  shows "cw_carts w' = cw_carts w" "cw_sessions w' = cw_sessions w" "cw_products w' = cw_products w" "cw_svc w' = cw_svc w"
  using assms by (auto simp: applyCartItemChange_def archiveActiveCartItems_def archive_items_def items_updateMany_def
      replaceCartItemModifiers_def create_item_def Let_def split: if_splits list.splits)

text \<open>The two ways in which an upsert commits.\<close>

lemma upsert_cases [consumes 1, case_names removed written]:
  assumes "upsertItemInTransaction rq ports cartId input w = Inr (res, w')"
  obtains cx where "findCartContextOrThrow cartId w = Inr cx" "ni_quantity input = 0"
      "line_ensureCartIsOpen (cx_status cx) (cx_tableSessionStatus cx) = Inr ()"
      "finalizeCartLineChange rq cx (fst (archiveActiveCartItems (rq_now rq)
         (findExistingItems (cx_id cx) (ni_productId input) (ni_variantId input) (ni_saleUnitId input)
            (buildCartModifierInputSignature (ni_modifiers input)) (ni_guestSessionId input) (cw_items w)) w))
         (snd (archiveActiveCartItems (rq_now rq)
         (findExistingItems (cx_id cx) (ni_productId input) (ni_variantId input) (ni_saleUnitId input)
            (buildCartModifierInputSignature (ni_modifiers input)) (ni_guestSessionId input) (cw_items w)) w)) = Inr (res, w')"
  | cx product b w1 r pj mutated w2 where "findCartContextOrThrow cartId w = Inr cx" "ni_quantity input \<noteq> 0"
      "line_ensureCartIsOpen (cx_status cx) (cx_tableSessionStatus cx) = Inr ()"
      "ensureProductInCatalog cx (ni_productId input) w = Inr product"
      "line_repair rq (p_catalogId (fst product)) input w = Inr (b, w1)"
      "resolve_line rq ports cx product input w1 = Inr (r, pj)"
      "check_limits cx (findExistingItems (cx_id cx) (rl_productId r) (rl_variantId r) (rl_saleUnitId r)
         (rl_signature r) (rl_guestSessionId r) (cw_items w1)) r pj w1 = Inr ()"
      "applyCartItemChange rq (cx_id cx) (findExistingItems (cx_id cx) (rl_productId r) (rl_variantId r) (rl_saleUnitId r)
         (rl_signature r) (rl_guestSessionId r) (cw_items w1)) r w1 = Inr (mutated, w2)"
      "finalizeCartLineChange rq cx mutated w2 = Inr (res, w')"
proof (cases "ni_quantity input = 0")
  case True
  with assms that(1) show thesis
    by (auto simp: upsertItemInTransaction_def Let_def case_prod_unfold)
next
  case False
  with assms obtain cx product y where a: "findCartContextOrThrow cartId w = Inr cx"
      "line_ensureCartIsOpen (cx_status cx) (cx_tableSessionStatus cx) = Inr ()"
      "ensureProductInCatalog cx (ni_productId input) w = Inr product"
      "line_repair rq (p_catalogId (fst product)) input w = Inr y"
    by (auto simp: upsertItemInTransaction_def)
  obtain b w1 where y: "y = (b, w1)" by (cases y)
  from False assms a y obtain z where z: "resolve_line rq ports cx product input w1 = Inr z"
    by (auto simp: upsertItemInTransaction_def)
  obtain r pj where z': "z = (r, pj)" by (cases z)
  from False assms a y z z' show thesis
    by (auto simp: upsertItemInTransaction_def Let_def intro: that(2) [of cx product b w1 r pj])
qed

lemma upsert_tx_ok:
  assumes "upsertItemInTransaction rq ports cartId input w = Inr (res, w')" "cart_ok old w" "colon_free rq"
  shows "cart_ok old w'"
  using assms(1)
proof (cases rule: upsert_cases)
  case (removed cx)
  from finalize_ok [OF removed(4) archive_ok [OF assms(2)]] show ?thesis .
next
  case (written cx product b w1 r pj mutated w2)
  have ids: "variant_ids_ok (cw_products w1)"
    using repair_write(2) [OF written(5) assms(3)] assms(2) by (simp add: cart_ok_but_def)
  with product_write_ok [OF repair_write(1) [OF written(5)] _ assms(2)] have "cart_ok old w1" by simp
  with apply_change_ok [OF written(8)] resolve_line_variant_ok [OF written(6) ids] have "cart_ok old w2" by blast
  with finalize_ok [OF written(9)] show ?thesis .
qed

lemma remove_tx_Inr:
  assumes "removeItem_tx rq cartId itemId guest w = Inr (res, w')"
  obtains cx item P where "findCartContextOrThrow cartId w = Inr cx"
    "line_ensureCartIsOpen (cx_status cx) (cx_tableSessionStatus cx) = Inr ()"
    "item \<in> set (cw_items w)" "k_id (it_line item) = itemId" "it_cartId item = cartId" "item_live item"
    "guest = None \<or> guest = Some (k_guestSessionId (it_line item))" "P item" "\<And>x. P x \<Longrightarrow> it_cartId x = cartId \<and> item_live x"
    "finalizeCartLineChange rq cx True
       (w\<lparr>cw_items := update_where P (\<lambda>x. x\<lparr>it_deleteAt := Some (rq_now rq)\<rparr>) (cw_items w)\<rparr>) = Inr (res, w')"
proof -
  from assms obtain cx item where a: "findCartContextOrThrow cartId w = Inr cx"
    "line_ensureCartIsOpen (cx_status cx) (cx_tableSessionStatus cx) = Inr ()"
    "List.find (\<lambda>x. k_id (it_line x) = itemId \<and> it_cartId x = cartId \<and> item_live x) (cw_items w) = Some item"
    by (auto simp: removeItem_tx_def)
  from find_Some_iff_mem [OF a(3)] have m: "item \<in> set (cw_items w)" "k_id (it_line item) = itemId" "it_cartId item = cartId" "item_live item"
    by auto
  from assms a m show thesis
    by (intro that [of cx item]) (auto simp: removeItem_tx_def split: if_splits)
qed

lemma remove_tx_ok:
  assumes "removeItem_tx rq cartId itemId guest w = Inr (res, w')" "cart_ok old w"
  shows "cart_ok old w'"
  using assms(1)
proof (rule remove_tx_Inr)
  fix cx P
  assume "finalizeCartLineChange rq cx True
       (w\<lparr>cw_items := update_where P (\<lambda>x. x\<lparr>it_deleteAt := Some (rq_now rq)\<rparr>) (cw_items w)\<rparr>) = Inr (res, w')"
  from finalize_ok [OF this ok_items_update [OF assms(2)]] show ?thesis by simp
qed

end
