(* ===== verification/Cart_Machine.thy ===== *)
theory Cart_Machine
  imports Cart_Line_Invariant
begin

text \<open>
  The calls on the cart services as operations of one state machine; every call keeps the invariant of
  \<^verbatim>\<open>Cart_Invariant\<close> and moves each cart along an abstract life cycle.
\<close>


section \<open>Calls\<close>

datatype cart_op =
    O_current "nat \<Rightarrow> nat list" ident "string option"
  | O_share "nat \<Rightarrow> nat list" "nat \<Rightarrow> string" ident "string option" "share_input option" "cart_error + checkout_snapshot"
  | O_begin string session_user
  | O_heartbeat string session_user
  | O_release string session_user
  | O_delete ident "string option"
  | O_expire_managers int
  | O_expire_drafts int
  | O_close cart_row "table_session option" session_status "ident option"
  | O_expire_tables int
  | O_complete snapshot_ports ident "ident option"
  | O_upsert snapshot_ports "string \<Rightarrow> string \<Rightarrow> int" ident item_input
  | O_remove ident string "string option option"
  | O_products product_tables "product list" "variant list"
  | O_stock svc_op

text \<open>A change of the product side by other services: any new content of its tables.\<close>

definition product_change :: "product_tables \<Rightarrow> product list \<Rightarrow> variant list \<Rightarrow> cart_world \<Rightarrow> cart_world" where
  "product_change pt ps vs w =
     rejoin (w\<lparr>cw_products := pt,
       cw_svc := (cw_svc w)\<lparr>sv_inv := (sv_inv (cw_svc w))\<lparr>products := ps, variants := vs\<rparr>\<rparr>\<rparr>)"

text \<open>The state a call leaves; a loop that does not end leaves the state it had.\<close>

fun cart_state :: "(string \<Rightarrow> string) \<Rightarrow> request \<Rightarrow> cart_op \<Rightarrow> cart_world \<Rightarrow> cart_world" where
  "cart_state slug rq (O_current bytes cat token) w =
     (case getOrCreate rq bytes cat token w of Some (Inr (_, w')) \<Rightarrow> w' | _ \<Rightarrow> w)"
| "cart_state slug rq (O_share bytes keys cat token input checkout) w =
     (case shareCurrentCart rq bytes keys cat token input checkout w of None \<Rightarrow> w | Some (_, w') \<Rightarrow> w')"
| "cart_state slug rq (O_begin key user) w = snd (session_begin rq key user w)"
| "cart_state slug rq (O_heartbeat key user) w = snd (session_heartbeat rq key user w)"
| "cart_state slug rq (O_release key user) w = snd (session_release rq key user w)"
| "cart_state slug rq (O_delete cat token) w = snd (deleteCurrentCart rq cat token w)"
| "cart_state slug rq (O_expire_managers ms) w = snd (expireInactiveManagerSessions rq ms w)"
| "cart_state slug rq (O_expire_drafts ms) w = snd (expireAbandonedDraftCarts rq ms w)"
| "cart_state slug rq (O_close cart session st actor) w = snd (closeHallTableSession rq cart session st actor w)"
| "cart_state slug rq (O_expire_tables ms) w = snd (expireStaleHallTableSessions rq ms w)"
| "cart_state slug rq (O_complete ports i actor) w = snd (checkout_complete rq ports i actor w)"
| "cart_state slug rq (O_upsert ports cmp i input) w = snd (line_upsertItem rq ports cmp i input w)"
| "cart_state slug rq (O_remove i itemId guest) w = snd (line_removeItem rq i itemId guest w)"
| "cart_state slug rq (O_products pt ps vs) w = product_change pt ps vs w"
| "cart_state slug rq (O_stock op) w =
     (case run_svc slug (rq, op) (cw_svc w) of Inl _ \<Rightarrow> w | Inr s \<Rightarrow> w\<lparr>cw_svc := s\<rparr>)"

definition run_cart :: "(string \<Rightarrow> string) \<Rightarrow> request \<times> cart_op \<Rightarrow> cart_world \<Rightarrow> unit + cart_world" where
  "run_cart slug p w = Inr (cart_state slug (fst p) (snd p) w)"

text \<open>
  Stock of a cart is reserved, released and sold through the cart services only.  Identifiers drawn for
  a variant are free of colons, as those of the database are.
\<close>

fun cart_call_ok :: "request \<times> cart_op \<Rightarrow> bool" where
  "cart_call_ok (_, O_stock (S_port _)) = False"
| "cart_call_ok (rq, O_upsert _ _ _ _) = colon_free rq"
| "cart_call_ok (_, O_products pt _ _) = variant_ids_ok pt"
| "cart_call_ok _ = True"


section \<open>The invariant\<close>

lemma session_tx_ok:
  assumes "session_tx rq user cart w = Inr (r, w')" "cart_ok old w"
  shows "cart_ok old w'"
proof -
  from assms(1) obtain w1 updated b fx where
      u: "cart_update (rq_now rq) (ca_id cart) (session_data (rq_now rq) user cart) w = Inr w1"
      and l: "lookup_findByIdOrThrow (ca_id cart) w1 = Inr updated"
      and res: "reserveCartStockIfNeededTx rq updated (Some (su_id user)) w1 = Inr ((b, fx), w')"
    by (auto simp: session_tx_def)
  have "cart_ok_but old ({} \<union> {}) w1"
    by (rule update_ok [OF u assms(2)]) (simp_all add: session_data_def Let_def cart_dead_def)
  with reserve_ok [OF _ l res] show ?thesis by simp
qed

lemma share_tx_ok:
  assumes "share_tx rq cart key comment snap w = Inr (r, w')" "cart_ok old w"
  shows "cart_ok old w'"
proof -
  from assms(1) obtain w1 updated b fx where
      u: "cart_update (rq_now rq) (ca_id cart) (share_data (rq_now rq) cart key comment snap) w = Inr w1"
      and l: "lookup_findByIdOrThrow (ca_id cart) w1 = Inr updated"
      and res: "reserveCartStockIfNeededTx rq updated None w1 = Inr ((b, fx), w')"
    by (auto simp: share_tx_def)
  have "cart_ok_but old ({} \<union> {}) w1"
    by (rule update_ok [OF u assms(2)]) (auto simp: share_data_def cart_dead_def split: if_splits)
  with reserve_ok [OF _ l res] show ?thesis by simp
qed

lemma delete_tx_ok:
  assumes "delete_tx rq cat cart t w = Inr (r, w')" "cart_ok old w"
  shows "cart_ok old w'"
proof -
  define w1 where "w1 = w\<lparr>cw_items := update_where (\<lambda>x. it_cartId x = ca_id cart \<and> it_deleteAt x = None)
      (\<lambda>x. x\<lparr>it_deleteAt := Some (rq_now rq)\<rparr>) (cw_items w)\<rparr>"
  from assms(1) obtain f w2 fx where u: "cart_update (rq_now rq) (ca_id cart) f w1 = Inr w2" "\<And>c. ca_id (f c) = ca_id c"
      and rel: "cart_releaseReservationsTx rq cat (ca_id cart) ''Cart deleted by customer'' None w2 = Inr (fx, w')"
    by (auto simp: delete_tx_def Let_def w1_def)
  have "item_ids_ok (cw_items w1)"
    using assms(2) by (auto simp: w1_def cart_ok_but_def item_ids_ok_def update_where_def comp_def list_all_iff if_distrib
        cong: if_cong split: if_splits)
  with assms(2) have "cart_ok_but old {} w1" by (simp add: cart_ok_but_def holders_ok_def w1_def)
  then have "cart_ok_but old ({} \<union> {ca_id cart}) w2" by (rule update_ok [OF u(1)]) (use u(2) in simp_all)
  from cart_release_ok(1) [OF rel this] show ?thesis by simp
qed

lemma expire_drafts_tx_ok:
  assumes "expire_drafts_tx rq stale w = Inr (r, w')" "cart_ok old w"
  shows "cart_ok old w'"
proof -
  let ?P = "\<lambda>c. ca_id c \<in> set (map ca_id stale) \<and> ca_status c \<in> {C_DRAFT, C_SHARED}"
  let ?f = "\<lambda>c. c\<lparr>ca_status := C_EXPIRED, ca_statusChangedAt := rq_now rq\<rparr>"
  from assms(1) obtain fx where "foldE (release_step rq ''Cart expired'') (([], []), cart_updateMany (rq_now rq) ?P ?f w)
      (map (\<lambda>c. (ca_catalogId c, ca_id c)) stale) = Inr (fx, w')"
    by (auto simp: expire_drafts_tx_def Let_def)
  note loop = release_loop_all [OF this]
  have "cart_ok_but old ({} \<union> ca_id ` set stale) (cart_updateMany (rq_now rq) ?P ?f w)"
    by (rule updateMany_ok [OF assms(2)]) auto
  then show ?thesis by (intro loop) (simp add: image_image)
qed

lemma close_table_tx_ok:
  assumes "close_table_tx rq cart session st actor w = Inr (r, w')" "cart_ok old w"
  shows "cart_ok old w'"
proof -
  let ?K = "\<lambda>c. ca_id c = ca_id cart \<and> ca_deleteAt c = None \<and> ca_status c \<notin> set TERMINAL_CART_STATUSES"
  define w1 where "w1 = session_updateMany (\<lambda>t. ts_id t = ts_id session \<and>
      ts_status t \<in> set ACTIVE_HALL_TABLE_SESSION_STATUSES \<and> ts_deleteAt t = None) st (rq_now rq) w"
  from assms(1) obtain reason fx where rel: "cart_releaseReservationsTx rq (ca_catalogId cart) (ca_id cart) reason actor
      (cart_updateMany (rq_now rq) ?K (close_data C_CANCELLED (rq_now rq)) w1) = Inr (fx, w')"
    by (auto simp: close_table_tx_def Let_def w1_def split: if_splits)
  have "cart_ok_but old {} w1" using assms(2) by (simp add: w1_def session_updateMany_def cart_ok_but_def holders_ok_def)
  then have "cart_ok_but old ({} \<union> {ca_id cart}) (cart_updateMany (rq_now rq) ?K (close_data C_CANCELLED (rq_now rq)) w1)"
    by (rule updateMany_ok) (simp_all add: close_data_def)
  from cart_release_ok(1) [OF rel this] show ?thesis by simp
qed

lemma expire_tables_tx_ok:
  assumes "expire_tables_tx rq stale w = Inr (r, w')" "cart_ok old w"
  shows "cart_ok old w'"
proof -
  let ?K = "\<lambda>c. ca_id c \<in> set (remdups (map ts_cartId stale)) \<and> ca_deleteAt c = None \<and>
      ca_status c \<in> {C_SHARED, C_IN_PROGRESS, C_PAUSED}"
  define w1 where "w1 = session_updateMany (\<lambda>t. ts_id t \<in> ts_id ` set stale \<and>
      ts_status t \<in> set ACTIVE_HALL_TABLE_SESSION_STATUSES) T_EXPIRED (rq_now rq) w"
  from assms(1) obtain fx where "foldE (release_step rq ''Hall table session expired'')
      (([], []), cart_updateMany (rq_now rq) ?K (close_data C_EXPIRED (rq_now rq)) w1)
      (map (\<lambda>t. (ts_catalogId t, ts_cartId t)) stale) = Inr (fx, w')"
    by (auto simp: expire_tables_tx_def Let_def w1_def)
  note loop = release_loop_all [OF this]
  have "cart_ok_but old {} w1" using assms(2) by (simp add: w1_def session_updateMany_def cart_ok_but_def holders_ok_def)
  then have "cart_ok_but old ({} \<union> ts_cartId ` set stale) (cart_updateMany (rq_now rq) ?K (close_data C_EXPIRED (rq_now rq)) w1)"
    by (rule updateMany_ok) (auto simp: close_data_def)
  then show ?thesis by (intro loop) (simp add: image_image)
qed

lemma complete_tx_Inr:
  assumes "complete_tx rq ports i actor w = Inr ((order, fx), w')"
  obtains cart sn w1 w2 where
    "lookup_findByIdOrThrow i w = Inr cart" "ca_status cart \<notin> set TERMINAL_CART_STATUSES"
    "live_items (ca_id cart) w \<noteq> []"
    "w1 = cart_updateMany (rq_now rq) (\<lambda>c. ca_id c = ca_id cart \<and> (ca_status c \<in> set CURRENT_CART_VISIBLE_STATUSES \<and>
       ca_deleteAt c = None)) (convert_data (rq_now rq) actor) w"
    "buildSnapshotItems ports (current_features rq (ca_catalogId cart) w)
       (shouldEnforceStockOnCheckout (inventory_mode_of (ca_catalogId cart) w)) (rq_now rq) (ca_catalogId cart)
       (live_items (ca_id cart) w) = Inr sn"
    "inventory_mode_of (ca_catalogId cart) w = MODE_INTERNAL \<longrightarrow> (\<forall>x\<in>set sn. truthy (sn_variantId x))"
    "create_order rq cart sn w1 = Inr (order, w2)"
    "consume_if_internal rq cart (inventory_mode_of (ca_catalogId cart) w) (od_id order) sn actor w2 = Inr (fx, w')"
  using assms by (auto simp: complete_tx_def Let_def ensureCartIsOpen_def split: if_splits)

lemma consume_if_ok:
  assumes "consume_if_internal rq cart mode ord sn actor w = Inr (fx, w')"
  shows "cart_ok_but old D w \<Longrightarrow> cart_ok_but old D w'" "same_tables_but_stock w w'"
proof -
  show "same_tables_but_stock w w'" using assms by (auto simp: consume_if_internal_def split: if_splits)
  assume ok: "cart_ok_but old D w"
  show "cart_ok_but old D w'"
  proof (cases "mode = MODE_INTERNAL")
    case True
    with assms obtain e s where c: "consumeCompletedOrderStockTx rq (ca_catalogId cart) (ca_id cart) ord
        (map order_line_of sn) actor (cw_svc w) = Inr (e, s)" "w' = w\<lparr>cw_svc := s\<rparr>"
      by (auto simp: consume_if_internal_def)
    have "service_ok old s"
      using port_service_ok [of old "cw_svc w" rq "P_consume (ca_catalogId cart) (ca_id cart) ord (map order_line_of sn) actor"]
        ok c(1) by (simp add: cart_ok_but_def)
    moreover from c(1) obtain res db' where "consumeCompletedOrderStock (rq_gen rq) (rq_now rq) (ca_catalogId cart) (ca_id cart)
        ord (map order_line_of sn) actor (sv_inv (cw_svc w)) = Inr (res, db')" "sv_inv s = db'"
      by (auto simp: consumeCompletedOrderStockTx_def finish_tx_def)
    then have "active_carts (sv_inv s) \<subseteq> active_carts (sv_inv (cw_svc w))" using consumeOrder_active by blast
    ultimately show ?thesis unfolding c(2) by (intro ok_but_svc [OF ok]) auto
  qed (use assms ok in \<open>simp add: consume_if_internal_def\<close>)
qed

lemma complete_tx_ok:
  assumes "complete_tx rq ports i actor w = Inr ((order, fx), w')" "cart_ok old w"
  shows "cart_ok old w'"
  using assms(1)
proof (cases rule: complete_tx_Inr)
  case (1 cart sn w1 w2)
  have "cart_ok_but old ({} \<union> {}) w1"
    unfolding 1(4) by (rule updateMany_ok [OF assms(2)]) (simp_all add: convert_data_def cart_dead_def)
  moreover have "w2 = w1\<lparr>cw_orders := cw_orders w1 @ [order]\<rparr>"
    using 1(7) by (auto simp: create_order_def Let_def split: if_splits)
  ultimately have "cart_ok old w2" by (simp add: cart_ok_but_def holders_ok_def)
  with consume_if_ok(1) [OF 1(8)] show ?thesis by blast
qed

lemma create_cart_ok:
  assumes "create_cart rq cat t w = Inr (c, w')" "cart_ok old w"
  shows "cart_ok old w'"
  using assms by (auto simp: create_cart_def Let_def new_cart_def cart_ok_but_def holders_ok_def cart_dead_def split: if_splits)

lemma getOrCreate_cases:
  assumes "getOrCreate rq bytes cat token w = Some (Inr ((c, new, t), w'))"
  obtains (found) "\<not> new" "w' = w" "findByToken cat t w = Some c" "trimToNull token = Some t"
  | (created) "new" "create_cart rq cat t w = Inr (c, w')" "generateUniqueToken bytes w = Some t"
  using assms by (auto simp: getOrCreate_def split: option.splits bind_splits)

lemma getOrCreate_ok:
  assumes "getOrCreate rq bytes cat token w = Some (Inr ((c, new, t), w'))" "cart_ok old w"
  shows "cart_ok old w'"
  using assms(1) by (cases rule: getOrCreate_cases) (use assms(2) create_cart_ok in auto)


section \<open>Other stock calls\<close>

lemma createWarehouse_rows:
  "createWarehouse gen now cat owner name code st addr d db = Inr (v, db') \<Longrightarrow> reservations db' = reservations db"
  by (auto simp: createWarehouse_def Let_def split: if_splits)

lemma updateWarehouse_rows: "updateWarehouse cat i d b db = Inr (v, db') \<Longrightarrow> reservations db' = reservations db"
  by (auto simp: updateWarehouse_def Let_def split: if_splits option.splits)

lemma softDelete_rows: "softDeleteWarehouse now cat i db = (v, db') \<Longrightarrow> reservations db' = reservations db"
  by (auto simp: softDeleteWarehouse_def Let_def split: if_splits option.splits)

lemma invalidate_rows [simp]:
  "sv_inv (snd (invalidateProductCachesForCatalogs rq cats es s)) = sv_inv s"
  by (auto simp: invalidateProductCachesForCatalogs_def Let_def split: prod.split sum.split)

lemma invalidate_rows_eq: "invalidateProductCachesForCatalogs rq cats es s = (r, s') \<Longrightarrow> sv_inv s' = sv_inv s"
  using invalidate_rows [of rq cats es s] by simp

lemma resync_rows: "reservations (sv_inv (snd (resync_and_invalidate rq i s))) = reservations (sv_inv s)"
  by (auto simp: resync_and_invalidate_def resync_Inr split: sum.split prod.split)

lemma resync_rows_eq:
  "resync_and_invalidate rq i s = (r, s') \<Longrightarrow> reservations (sv_inv s') = reservations (sv_inv s)"
  using resync_rows [of rq i s] by simp

lemma publish_rows: "publishManualStockChangedEvent rq cat res reason s = (r, s') \<Longrightarrow> sv_inv s' = sv_inv s"
  by (auto simp: publishManualStockChangedEvent_def split: if_splits prod.splits sum.splits)

lemma audit_rows [simp]: "sv_inv (auditManualMovement cat w dto res actor s) = sv_inv s"
  by (simp add: auditManualMovement_def Let_def)

lemma svc_active:
  assumes "run_svc slug (rq, op) s = Inr s'" "cart_call_ok (rq, O_stock op)"
  shows "active_carts (sv_inv s') \<subseteq> active_carts (sv_inv s)"
proof (cases op)
  case (S_create dto)
  with assms(1) have "reservations (sv_inv s') = reservations (sv_inv s)"
    by (auto simp: service_createWarehouse_def Let_def createWarehouse_rows split: sum.splits prod.splits)
  then show ?thesis by (simp add: active_carts_def)
next
  case (S_update i dto)
  with assms(1) have "reservations (sv_inv s') = reservations (sv_inv s)"
    by (auto simp: service_updateWarehouse_def Let_def updateWarehouse_rows resync_rows_eq
        split: sum.splits prod.splits option.splits if_splits)
  then show ?thesis by (simp add: active_carts_def)
next
  case (S_remove i)
  with assms(1) have "reservations (sv_inv s') = reservations (sv_inv s)"
    by (auto simp: service_removeWarehouse_def softDelete_rows resync_rows split: sum.splits prod.splits option.splits)
  then show ?thesis by (simp add: active_carts_def)
next
  case (S_adjust w dto actor)
  have "active_carts (sv_inv (snd (adjustWarehouseStock rq w dto actor s))) = active_carts (sv_inv s)"
    by (auto simp: adjustWarehouseStock_def Let_def publish_rows invalidate_rows_eq adjust_active
        split: sum.split prod.split bool.split)
  with S_adjust assms(1) show ?thesis by auto
next
  case S_expire
  have "active_carts db' \<subseteq> active_carts (sv_inv s)" if "releaseExpiredReservations gen now n (sv_inv s) = (r, db')" for gen now n r db'
    using releaseExpired_active [of gen now n "sv_inv s"] that by simp
  then have "active_carts (sv_inv (snd (service_releaseExpiredReservations rq s))) \<subseteq> active_carts (sv_inv s)"
    by (auto simp: service_releaseExpiredReservations_def invalidate_rows_eq split: sum.split prod.split dest: subsetD)
  with S_expire assms(1) show ?thesis by auto
qed (use assms in simp)


section \<open>Every call keeps the invariant\<close>

lemma share_cases:
  assumes "shareCurrentCart rq bytes keys cat token input checkout w = Some (r, w')"
  obtains (same) "w' = w"
  | (current) c new t w1 where "getOrCreate rq bytes cat token w = Some (Inr ((c, new, t), w1))" "w' = w1"
  | (shared) c new t w1 key comment snap where
      "getOrCreate rq bytes cat token w = Some (Inr ((c, new, t), w1))"
      "w' = snd (commit_tx rq (share_tx rq c key comment snap w1) w1)"
proof (cases "getOrCreate rq bytes cat token w")
  case (Some g)
  show thesis
  proof (cases g)
    case (Inr q)
    obtain c new t w1 where q: "q = ((c, new, t), w1)" by (cases q) auto
    show thesis
    proof (cases checkout)
      case (Inr snap)
      with assms Some \<open>g = Inr q\<close> q obtain key f where
          "apfst f (commit_tx rq (share_tx rq c key (trimToNull (share_comment input)) snap w1) w1) = (r, w')"
        by (auto simp: shareCurrentCart_def)
      then have "w' = snd (commit_tx rq (share_tx rq c key (trimToNull (share_comment input)) snap w1) w1)"
        by (metis snd_apfst snd_conv)
      with shared Some \<open>g = Inr q\<close> q show thesis by blast
    qed (use assms Some \<open>g = Inr q\<close> q current in \<open>simp add: shareCurrentCart_def\<close>)
  qed (use Some assms same in \<open>simp add: shareCurrentCart_def\<close>)
qed (use assms in \<open>simp add: shareCurrentCart_def\<close>)

lemma share_ok:
  assumes "shareCurrentCart rq bytes keys cat token input checkout w = Some (r, w')" "cart_ok old w"
  shows "cart_ok old w'"
  using assms(1)
proof (cases rule: share_cases)
  case (current c new t w1)
  with getOrCreate_ok assms(2) show ?thesis by blast
next
  case (shared c new t w1 key comment snap)
  have ok: "cart_ok old w1" by (rule getOrCreate_ok [OF shared(1) assms(2)])
  then show ?thesis unfolding shared(2) by (rule commit_ok) (auto intro: share_tx_ok [OF _ ok])
qed (use assms(2) in simp)

lemma session_ok:
  assumes "cart_ok old w"
  shows "cart_ok old (snd (session_begin rq key user w))" "cart_ok old (snd (session_heartbeat rq key user w))"
    "cart_ok old (snd (session_release rq key user w))"
proof -
  have "cart_ok old (snd (commit_tx rq (session_tx rq user cart w) w))" for cart
    using assms by (rule commit_ok) (auto intro: session_tx_ok [OF _ assms])
  then show "cart_ok old (snd (session_begin rq key user w))" "cart_ok old (snd (session_heartbeat rq key user w))"
    using assms by (auto simp: session_begin_def session_heartbeat_def split: sum.split)
  have "cart_ok_but old ({} \<union> {}) w1" if "cart_update (rq_now rq) (ca_id cart) (pause_data (rq_now rq) user cart) w = Inr w1" for cart w1
    by (rule update_ok [OF that assms]) (simp_all add: pause_data_def cart_dead_def)
  then show "cart_ok old (snd (session_release rq key user w))"
    using assms by (auto simp: session_release_def split: sum.split)
qed

lemma delete_cart_ok:
  assumes "cart_ok old w"
  shows "cart_ok old (snd (deleteCurrentCart rq cat token w))"
proof -
  have "cart_ok_but old ({} \<union> {}) w1" if "cart_update (rq_now rq) i (\<lambda>c. c\<lparr>ca_token := None, ca_userId := None\<rparr>) w = Inr w1" for i w1
    by (rule update_ok [OF that assms]) (simp_all add: cart_dead_def)
  moreover have "cart_ok old (snd (commit_tx rq (delete_tx rq cat cart t w) w))" for cart t
    using assms by (rule commit_ok) (auto intro: delete_tx_ok [OF _ assms])
  ultimately show ?thesis using assms by (auto simp: deleteCurrentCart_def split: sum.split)
qed

lemma expiry_ok:
  assumes "cart_ok old w"
  shows "cart_ok old (snd (expireInactiveManagerSessions rq ms w))" "cart_ok old (snd (expireAbandonedDraftCarts rq ms w))"
    "cart_ok old (snd (expireStaleHallTableSessions rq ms w))"
    "cart_ok old (snd (closeHallTableSession rq cart session st actor w))"
proof -
  have "cart_ok_but old ({} \<union> {}) (cart_updateMany (rq_now rq) P (\<lambda>c. c\<lparr>ca_status := C_PAUSED, ca_statusChangedAt := t\<rparr>) w)" for P t
    by (rule updateMany_ok [OF assms]) (simp_all add: cart_dead_def)
  then show "cart_ok old (snd (expireInactiveManagerSessions rq ms w))"
    using assms by (simp add: expireInactiveManagerSessions_def Let_def)
  have "cart_ok old (snd (commit_tx rq (expire_drafts_tx rq stale w) w))" for stale
    using assms by (rule commit_ok) (auto intro: expire_drafts_tx_ok [OF _ assms])
  then show "cart_ok old (snd (expireAbandonedDraftCarts rq ms w))"
    using assms by (simp add: expireAbandonedDraftCarts_def Let_def)
  have "cart_ok old (snd (commit_tx rq (expire_tables_tx rq stale w) w))" for stale
    using assms by (rule commit_ok) (auto intro: expire_tables_tx_ok [OF _ assms])
  then have "cart_ok old w'" if "commit_tx rq (expire_tables_tx rq stale w) w = (r, w')" for stale r w'
    using that by (metis snd_conv)
  then show "cart_ok old (snd (expireStaleHallTableSessions rq ms w))"
    using assms by (auto simp: expireStaleHallTableSessions_def Let_def split: prod.split sum.split)
  have "cart_ok old (snd (commit_tx rq (close_table_tx rq cart t st actor w) w))" for t
    using assms by (rule commit_ok) (auto intro: close_table_tx_ok [OF _ assms])
  then show "cart_ok old (snd (closeHallTableSession rq cart session st actor w))"
    using assms by (auto simp: closeHallTableSession_def split: option.split)
qed

lemma upsert_ok:
  assumes "cart_ok old w" "colon_free rq"
  shows "cart_ok old (snd (line_upsertItem rq ports cmp i input w))"
  using assms upsert_tx_ok by (auto simp: line_upsertItem_def intro!: commit_ok split: sum.split)

lemma remove_ok: "cart_ok old w \<Longrightarrow> cart_ok old (snd (line_removeItem rq i itemId guest w))"
  using remove_tx_ok by (auto simp: line_removeItem_def intro!: commit_ok)

lemma product_change_ok: "cart_ok_but old D w \<Longrightarrow> variant_ids_ok pt \<Longrightarrow> cart_ok_but old D (product_change pt ps vs w)"
  unfolding product_change_def by (rule ok_rejoin) (simp add: cart_ok_but_def holders_ok_def service_ok_variants)

lemma run_cart_ok:
  assumes "cart_ok old w" "cart_call_ok p" "run_cart slug p w = Inr w'"
  shows "cart_ok old w'"
proof -
  obtain rq op where p: "p = (rq, op)" by (cases p)
  have w': "w' = cart_state slug rq op w" using assms(3) p by (simp add: run_cart_def)
  show ?thesis
  proof (cases op)
    case (O_current bytes cat token)
    with w' assms(1) show ?thesis by (auto split: option.splits sum.splits intro: getOrCreate_ok)
  next
    case (O_share bytes keys cat token input checkout)
    with w' assms(1) show ?thesis by (auto split: option.splits intro: share_ok)
  next
    case (O_complete ports i actor)
    have "cart_ok old (snd (commit_tx rq (complete_tx rq ports i actor w) w))"
      using assms(1) by (rule commit_ok) (auto intro: complete_tx_ok [OF _ assms(1)])
    with O_complete w' show ?thesis by (simp add: checkout_complete_def)
  next
    case (O_stock q)
    show ?thesis
    proof (cases "run_svc slug (rq, q) (cw_svc w)")
      case (Inr s)
      have "valid_svc (rq, q)" using assms(2) p O_stock by (cases q) simp_all
      with Inr run_svc_ok assms(1) have "service_ok old s" by (auto simp: cart_ok_but_def)
      with svc_active [OF Inr] assms(1,2) p O_stock have "cart_ok old (w\<lparr>cw_svc := s\<rparr>)"
        by (intro ok_but_svc) auto
      with w' O_stock Inr show ?thesis by simp
    qed (use w' O_stock assms(1) in simp)
  qed (use w' p assms(1,2) session_ok delete_cart_ok expiry_ok upsert_ok remove_ok product_change_ok in auto)
qed

interpretation carts: transactional "cart_ok old" "run_cart slug" cart_call_ok for old slug
  by unfold_locales (rule run_cart_ok)

end
