(* ===== verification/Cart_Life.thy ===== *)
theory Cart_Life
  imports Cart_Machine
begin

text \<open>
  The abstract life cycle of a cart and the proof that the calls of the cart services refine it.  The
  abstraction of a row is its status, or \<open>None\<close> once the row is deleted.
\<close>


section \<open>Abstract machine\<close>

definition life :: "cart_row \<Rightarrow> cart_status option" where
  "life c = (if ca_deleteAt c \<noteq> None then None else Some (ca_status c))"

definition open_status :: "cart_status \<Rightarrow> bool" where
  "open_status s = (s \<in> {C_DRAFT, C_SHARED, C_IN_PROGRESS, C_PAUSED})"

inductive life_step :: "cart_status option \<Rightarrow> cart_status option \<Rightarrow> bool" where
  stay: "life_step s s"
| share: "life_step (Some C_DRAFT) (Some C_SHARED)"
| work: "open_status s \<Longrightarrow> life_step (Some s) (Some C_IN_PROGRESS)"
| pause: "open_status s \<Longrightarrow> life_step (Some s) (Some C_PAUSED)"
| convert: "open_status s \<Longrightarrow> life_step (Some s) (Some C_CONVERTED)"
| cancel: "open_status s \<Longrightarrow> life_step (Some s) (Some C_CANCELLED)"
| expire: "open_status s \<Longrightarrow> life_step (Some s) (Some C_EXPIRED)"
| remove: "open_status s \<Longrightarrow> s \<noteq> C_IN_PROGRESS \<Longrightarrow> life_step (Some s) None"

inductive_cases life_step_None: "life_step None t"
inductive_cases life_step_Some: "life_step (Some s) t"

lemma terminal_not_open: "s \<in> set TERMINAL_CART_STATUSES \<longleftrightarrow> \<not> open_status s"
  by (cases s) (simp_all add: TERMINAL_CART_STATUSES_def open_status_def)

lemma visible_open: "s \<in> set CURRENT_CART_VISIBLE_STATUSES \<longleftrightarrow> open_status s"
  by (auto simp: CURRENT_CART_VISIBLE_STATUSES_def open_status_def)

lemma life_final: "life_step (Some s) t \<Longrightarrow> \<not> open_status s \<Longrightarrow> t = Some s"
  by (erule life_step_Some) (auto simp: open_status_def)

lemma life_deleted: "life_step None t \<Longrightarrow> t = None"
  by (erule life_step_None)

text \<open>
  One call takes every row one abstract step and keeps its identifier and catalog; rows it adds are
  new drafts, or drafts shared at once.
\<close>

definition row_step :: "cart_row \<Rightarrow> cart_row \<Rightarrow> bool" where
  "row_step c c' \<longleftrightarrow> ca_id c' = ca_id c \<and> ca_catalogId c' = ca_catalogId c \<and> life_step (life c) (life c')"

definition carts_step :: "cart_row list \<Rightarrow> cart_row list \<Rightarrow> bool" where
  "carts_step cs cs' \<longleftrightarrow> (\<exists>us news. cs' = us @ news \<and> list_all2 row_step cs us \<and>
     (\<forall>c\<in>set news. ca_id c \<notin> ca_id ` set cs \<and> life c \<in> {Some C_DRAFT, Some C_SHARED}))"

lemma carts_stepI:
  "cs' = us @ news \<Longrightarrow> list_all2 row_step cs us \<Longrightarrow>
   (\<And>c. c \<in> set news \<Longrightarrow> ca_id c \<notin> ca_id ` set cs \<and> life c \<in> {Some C_DRAFT, Some C_SHARED}) \<Longrightarrow> carts_step cs cs'"
  unfolding carts_step_def by blast

lemma row_step_refl [simp]: "row_step c c"
  by (simp add: row_step_def stay)

lemma carts_step_refl [simp]: "carts_step cs cs"
  by (rule carts_stepI [of _ cs "[]"]) (simp_all add: list_all2_refl)

lemma list_all2_update:
  "(\<And>c. c \<in> set cs \<Longrightarrow> P c \<Longrightarrow> row_step c (f c)) \<Longrightarrow> list_all2 row_step cs (update_where P f cs)"
  by (induction cs) (simp_all add: table_simps)

lemma carts_step_update:
  "(\<And>c. c \<in> set cs \<Longrightarrow> P c \<Longrightarrow> row_step c (f c)) \<Longrightarrow> carts_step cs (update_where P f cs)"
  by (rule carts_stepI [of _ "update_where P f cs" "[]"]) (simp_all add: list_all2_update)

lemma carts_step_new:
  "ca_id c \<notin> ca_id ` set cs \<Longrightarrow> life c \<in> {Some C_DRAFT, Some C_SHARED} \<Longrightarrow> carts_step cs (cs @ [c])"
  by (rule carts_stepI [of _ cs "[c]"]) (simp_all add: list_all2_refl)

lemma carts_step_find:
  assumes "carts_step cs cs'" "c \<in> set cs"
  shows "\<exists>c'\<in>set cs'. row_step c c'"
proof -
  from assms(1) obtain us news where u: "cs' = us @ news" "list_all2 row_step cs us" by (auto simp: carts_step_def)
  from assms(2) obtain i where i: "i < length cs" "c = cs ! i" by (auto simp: in_set_conv_nth)
  from list_all2_nthD [OF u(2) i(1)] list_all2_lengthD [OF u(2)] i u(1) show ?thesis
    by (intro bexI [of _ "us ! i"]) auto
qed


section \<open>Rows a call writes\<close>

lemma same_row:
  "distinct (map ca_id cs) \<Longrightarrow> c \<in> set cs \<Longrightarrow> c' \<in> set cs \<Longrightarrow> ca_id c' = ca_id c \<Longrightarrow> c' = c"
  by (auto simp: distinct_map dest: inj_onD)

lemma touch_life [simp]: "row_step c (f\<lparr>ca_updatedAt := t\<rparr>) = row_step c f"
  by (simp add: row_step_def life_def)

lemma updateMany_step:
  "(\<And>c. c \<in> set (cw_carts w) \<Longrightarrow> P c \<Longrightarrow> row_step c (f c)) \<Longrightarrow> carts_step (cw_carts w) (cw_carts (cart_updateMany now P f w))"
  by (auto simp: cart_updateMany_def intro: carts_step_update)

lemma update_step:
  assumes "cart_update now (ca_id cart) f w = Inr w'" "distinct (map ca_id (cw_carts w))" "cart \<in> set (cw_carts w)"
    and "row_step cart (f cart)"
  shows "carts_step (cw_carts w) (cw_carts w')"
proof -
  have "w' = cart_updateMany now (\<lambda>c. ca_id c = ca_id cart) f w" using assms(1) by (simp add: cart_update_def split: if_splits)
  then show ?thesis using updateMany_step [of w "\<lambda>c. ca_id c = ca_id cart" f now] same_row [OF assms(2,3)] assms(4) by auto
qed

lemma commit_step:
  assumes "\<And>r fx w'. tx = Inr ((r, fx), w') \<Longrightarrow> carts_step cs (cw_carts w')" "carts_step cs (cw_carts w)"
  shows "carts_step cs (cw_carts (snd (commit_tx rq tx w)))"
proof (cases tx)
  case (Inr p)
  obtain r fx w' where p: "p = ((r, fx), w')" by (cases p) auto
  have "cw_carts (snd (cart_invalidateCaches rq fx r w')) = cw_carts w'"
    using invalidate_caches_tables [of w' rq fx r] by (simp add: same_tables_but_stock_def)
  with Inr p assms(1) show ?thesis by (simp add: commit_tx_def)
qed (use assms(2) in \<open>simp add: commit_tx_def\<close>)

lemma session_tx_step:
  assumes "session_tx rq user cart w = Inr (r, w')" "distinct (map ca_id (cw_carts w))" "cart \<in> set (cw_carts w)"
    and "ca_deleteAt cart = None" "open_status (ca_status cart)"
  shows "carts_step (cw_carts w) (cw_carts w')"
proof -
  from assms(1) obtain w1 updated b fx where
      u: "cart_update (rq_now rq) (ca_id cart) (session_data (rq_now rq) user cart) w = Inr w1"
      and res: "reserveCartStockIfNeededTx rq updated (Some (su_id user)) w1 = Inr ((b, fx), w')"
    by (auto simp: session_tx_def)
  have "row_step cart (session_data (rq_now rq) user cart cart)"
    using assms(4,5) by (simp add: row_step_def session_data_def Let_def life_def work)
  from update_step [OF u assms(2,3) this] reserve_tables [OF res] show ?thesis by (simp add: same_tables_but_stock_def)
qed

lemma share_row:
  assumes "ca_deleteAt cart = None"
  shows "row_step cart (share_data now cart key comment snap cart)"
  using assms by (simp add: row_step_def share_data_def life_def stay share)

lemma share_tx_carts:
  assumes "share_tx rq cart key comment snap w = Inr (r, w')"
  shows "cw_carts w' = update_where (\<lambda>c. ca_id c = ca_id cart)
      (\<lambda>c. (share_data (rq_now rq) cart key comment snap c)\<lparr>ca_updatedAt := rq_now rq\<rparr>) (cw_carts w)"
proof -
  from assms obtain w1 updated b fx where
      u: "cart_update (rq_now rq) (ca_id cart) (share_data (rq_now rq) cart key comment snap) w = Inr w1"
      and res: "reserveCartStockIfNeededTx rq updated None w1 = Inr ((b, fx), w')"
    by (auto simp: share_tx_def)
  from u reserve_tables [OF res] show ?thesis
    by (auto simp: cart_update_def cart_updateMany_def same_tables_but_stock_def split: if_splits)
qed

lemma manageable_found:
  assumes "findManageableCartByPublicKeyOrThrow key user w = Inr cart"
  shows "cart \<in> set (cw_carts w)" "ca_deleteAt cart = None" "ca_publicKey cart = Some (trim key)"
  using assms find_Some_iff_mem [of _ "cw_carts w" cart]
  by (auto simp: findManageableCartByPublicKeyOrThrow_def lookup_findByPublicKeyOrThrow_def Let_def split: if_splits)

lemma session_step:
  assumes "distinct (map ca_id (cw_carts w))"
  shows "carts_step (cw_carts w) (cw_carts (snd (session_begin rq key user w)))"
    and "carts_step (cw_carts w) (cw_carts (snd (session_heartbeat rq key user w)))"
    and "carts_step (cw_carts w) (cw_carts (snd (session_release rq key user w)))"
proof -
  have tx: "carts_step (cw_carts w) (cw_carts (snd (commit_tx rq (session_tx rq user cart w) w)))"
    if "findManageableCartByPublicKeyOrThrow key user w = Inr cart" "ca_status cart \<notin> set TERMINAL_CART_STATUSES" for cart
    by (rule commit_step) (use that manageable_found [OF that(1)] session_tx_step [OF _ assms] in \<open>auto simp: terminal_not_open\<close>)
  show "carts_step (cw_carts w) (cw_carts (snd (session_begin rq key user w)))"
    using tx by (auto simp: session_begin_def ensureCartIsOpen_def split: sum.split)
  show "carts_step (cw_carts w) (cw_carts (snd (session_heartbeat rq key user w)))"
    using tx by (auto simp: session_heartbeat_def ensureCartIsOpen_def split: sum.split)
  have "carts_step (cw_carts w) (cw_carts w1)"
    if "findManageableCartByPublicKeyOrThrow key user w = Inr cart" "ca_status cart \<notin> set TERMINAL_CART_STATUSES"
      "cart_update (rq_now rq) (ca_id cart) (pause_data (rq_now rq) user cart) w = Inr w1" for cart w1
    by (rule update_step [OF that(3) assms manageable_found(1) [OF that(1)]])
      (use that(2) manageable_found(2) [OF that(1)] in \<open>simp add: row_step_def pause_data_def life_def pause terminal_not_open\<close>)
  then show "carts_step (cw_carts w) (cw_carts (snd (session_release rq key user w)))"
    by (auto simp: session_release_def ensureCartIsOpen_def split: sum.split)
qed

lemma delete_step:
  assumes "distinct (map ca_id (cw_carts w))"
  shows "carts_step (cw_carts w) (cw_carts (snd (deleteCurrentCart rq cat token w)))"
proof (cases "findCurrentCartOrThrow cat token w")
  case (Inr p)
  obtain cart t where p: "p = (cart, t)" by (cases p)
  have c: "cart \<in> set (cw_carts w)" "open_status (ca_status cart)" "ca_deleteAt cart = None"
    using Inr p find_Some_iff_mem [of _ "cw_carts w" cart]
    by (auto simp: findCurrentCartOrThrow_def open_status_def split: option.splits)
  have detach: "carts_step (cw_carts w) (cw_carts w')"
    if "cart_update (rq_now rq) (ca_id cart) (\<lambda>c. c\<lparr>ca_token := None, ca_userId := None\<rparr>) w = Inr w'" for w'
    by (rule update_step [OF that assms c(1)]) (simp add: row_step_def life_def stay)
  have "carts_step (cw_carts w) (cw_carts (snd (commit_tx rq (delete_tx rq cat cart t w) w)))" if "ca_status cart \<noteq> C_IN_PROGRESS"
  proof (rule commit_step)
    fix r fx w'
    assume "delete_tx rq cat cart t w = Inr ((r, fx), w')"
    then obtain f w1 w2 fx' where u: "cart_update (rq_now rq) (ca_id cart) f w1 = Inr w2" "cw_carts w1 = cw_carts w"
        "ca_id (f cart) = ca_id cart" "ca_catalogId (f cart) = ca_catalogId cart" "ca_deleteAt (f cart) \<noteq> None"
        and rel: "cart_releaseReservationsTx rq cat (ca_id cart) ''Cart deleted by customer'' None w2 = Inr (fx', w')"
      by (auto simp: delete_tx_def Let_def)
    have "row_step cart (f cart)" using u(3-5) c(2,3) that by (simp add: row_step_def life_def remove)
    with update_step [OF u(1)] u(2) assms c(1) have "carts_step (cw_carts w) (cw_carts w2)" by simp
    with cart_release_ok(2) [OF rel] show "carts_step (cw_carts w) (cw_carts w')" by (simp add: same_tables_but_stock_def)
  qed simp
  with Inr p detach show ?thesis by (auto simp: deleteCurrentCart_def split: sum.split)
qed (simp add: deleteCurrentCart_def)


lemma expiry_step:
  shows "carts_step (cw_carts w) (cw_carts (snd (expireInactiveManagerSessions rq ms w)))"
    and "carts_step (cw_carts w) (cw_carts (snd (expireAbandonedDraftCarts rq ms w)))"
    and "carts_step (cw_carts w) (cw_carts (snd (expireStaleHallTableSessions rq ms w)))"
    and "carts_step (cw_carts w) (cw_carts (snd (closeHallTableSession rq cart session st actor w)))"
proof -
  have "row_step c (c\<lparr>ca_status := C_PAUSED, ca_statusChangedAt := t\<rparr>)" if "ca_status c = C_IN_PROGRESS" for c t
    using that by (simp add: row_step_def life_def stay pause open_status_def)
  then show "carts_step (cw_carts w) (cw_carts (snd (expireInactiveManagerSessions rq ms w)))"
    by (auto simp: expireInactiveManagerSessions_def Let_def intro: updateMany_step)
  have draft: "row_step c (c\<lparr>ca_status := C_EXPIRED, ca_statusChangedAt := t\<rparr>)" if "ca_status c \<in> {C_DRAFT, C_SHARED}" for c t
    using that by (auto simp: row_step_def life_def stay open_status_def intro: expire)
  have "carts_step (cw_carts w) (cw_carts (snd (commit_tx rq (expire_drafts_tx rq stale w) w)))" for stale
  proof (rule commit_step)
    fix r fx w'
    assume "expire_drafts_tx rq stale w = Inr ((r, fx), w')"
    then have "same_tables_but_stock (cart_updateMany (rq_now rq) (\<lambda>c. ca_id c \<in> ca_id ` set stale \<and> ca_status c \<in> {C_DRAFT, C_SHARED})
        (\<lambda>c. c\<lparr>ca_status := C_EXPIRED, ca_statusChangedAt := rq_now rq\<rparr>) w) w'"
      by (auto simp: expire_drafts_tx_def Let_def dest: release_loop_tables)
    moreover have "carts_step (cw_carts w) (cw_carts (cart_updateMany (rq_now rq) (\<lambda>c. ca_id c \<in> ca_id ` set stale \<and>
        ca_status c \<in> {C_DRAFT, C_SHARED}) (\<lambda>c. c\<lparr>ca_status := C_EXPIRED, ca_statusChangedAt := rq_now rq\<rparr>) w))"
      by (rule updateMany_step) (use draft in blast)
    ultimately show "carts_step (cw_carts w) (cw_carts w')" by (simp add: same_tables_but_stock_def)
  qed simp
  then show "carts_step (cw_carts w) (cw_carts (snd (expireAbandonedDraftCarts rq ms w)))"
    by (simp add: expireAbandonedDraftCarts_def Let_def)
  have closed: "row_step c (close_data st' t c)" if "ca_deleteAt c = None" "open_status (ca_status c)" "st' \<in> {C_CANCELLED, C_EXPIRED}" for c st' t
    using that by (auto simp: row_step_def life_def close_data_def intro: cancel expire)
  have "carts_step (cw_carts w) (cw_carts (snd (commit_tx rq (expire_tables_tx rq stale w) w)))" for stale
  proof (rule commit_step)
    let ?K = "\<lambda>c. ca_id c \<in> ts_cartId ` set stale \<and> ca_deleteAt c = None \<and> ca_status c \<in> {C_SHARED, C_IN_PROGRESS, C_PAUSED}"
    fix r fx w'
    assume tx: "expire_tables_tx rq stale w = Inr ((r, fx), w')"
    define w1 where "w1 = session_updateMany (\<lambda>t. ts_id t \<in> ts_id ` set stale \<and>
        ts_status t \<in> set ACTIVE_HALL_TABLE_SESSION_STATUSES) T_EXPIRED (rq_now rq) w"
    have w1: "cw_carts w1 = cw_carts w"
        "same_tables_but_stock (cart_updateMany (rq_now rq) ?K (close_data C_EXPIRED (rq_now rq)) w1) w'"
      using tx by (auto simp: expire_tables_tx_def Let_def w1_def session_updateMany_def dest!: release_loop_tables)
    have "carts_step (cw_carts w1) (cw_carts (cart_updateMany (rq_now rq) ?K (close_data C_EXPIRED (rq_now rq)) w1))"
      by (rule updateMany_step) (use closed in \<open>auto simp: open_status_def\<close>)
    with w1 show "carts_step (cw_carts w) (cw_carts w')" by (simp add: same_tables_but_stock_def)
  qed simp
  then have "carts_step (cw_carts w) (cw_carts w')" if "commit_tx rq (expire_tables_tx rq stale w) w = (r, w')" for stale r w'
    using that by (metis snd_conv)
  then show "carts_step (cw_carts w) (cw_carts (snd (expireStaleHallTableSessions rq ms w)))"
    by (auto simp: expireStaleHallTableSessions_def Let_def split: prod.split sum.split)
  have "carts_step (cw_carts w) (cw_carts (snd (commit_tx rq (close_table_tx rq cart t st actor w) w)))" for t
  proof (rule commit_step)
    let ?K = "\<lambda>c. ca_id c = ca_id cart \<and> ca_deleteAt c = None \<and> ca_status c \<notin> set TERMINAL_CART_STATUSES"
    fix r fx w'
    assume tx: "close_table_tx rq cart t st actor w = Inr ((r, fx), w')"
    define w1 where "w1 = session_updateMany (\<lambda>x. ts_id x = ts_id t \<and>
        ts_status x \<in> set ACTIVE_HALL_TABLE_SESSION_STATUSES \<and> ts_deleteAt x = None) st (rq_now rq) w"
    have w1: "cw_carts w1 = cw_carts w"
        "same_tables_but_stock (cart_updateMany (rq_now rq) ?K (close_data C_CANCELLED (rq_now rq)) w1) w'"
      using tx by (auto simp: close_table_tx_def Let_def w1_def session_updateMany_def split: if_splits dest!: cart_release_ok(2))
    have "carts_step (cw_carts w1) (cw_carts (cart_updateMany (rq_now rq) ?K (close_data C_CANCELLED (rq_now rq)) w1))"
      by (rule updateMany_step) (use closed in \<open>auto simp: terminal_not_open\<close>)
    with w1 show "carts_step (cw_carts w) (cw_carts w')" by (simp add: same_tables_but_stock_def)
  qed simp
  then show "carts_step (cw_carts w) (cw_carts (snd (closeHallTableSession rq cart session st actor w)))"
    by (auto simp: closeHallTableSession_def split: option.split)
qed

lemma complete_tx_carts:
  assumes "complete_tx rq ports i actor w = Inr ((order, fx), w')"
  shows "\<exists>cart. lookup_findByIdOrThrow i w = Inr cart \<and> open_status (ca_status cart) \<and>
    cw_orders w' = cw_orders w @ [order] \<and>
    cw_carts w' = update_where (\<lambda>c. ca_id c = ca_id cart \<and> (ca_status c \<in> set CURRENT_CART_VISIBLE_STATUSES \<and>
       ca_deleteAt c = None)) (\<lambda>c. (convert_data (rq_now rq) actor c)\<lparr>ca_updatedAt := rq_now rq\<rparr>) (cw_carts w)"
  using assms
proof (cases rule: complete_tx_Inr)
  case (1 cart sn w1 w2)
  have "cw_carts w2 = cw_carts w1" "cw_orders w2 = cw_orders w1 @ [order]"
    using 1(7) by (auto simp: create_order_def Let_def split: if_splits)
  with consume_if_ok(2) [OF 1(8)] 1(1,2,4) show ?thesis
    by (auto simp: same_tables_but_stock_def cart_updateMany_def terminal_not_open)
qed

lemma complete_step: "carts_step (cw_carts w) (cw_carts (snd (checkout_complete rq ports i actor w)))"
  unfolding checkout_complete_def
proof (rule commit_step)
  fix order fx w'
  assume "complete_tx rq ports i actor w = Inr ((order, fx), w')"
  from complete_tx_carts [OF this] obtain cart :: cart_row where
    carts: "cw_carts w' = update_where (\<lambda>c. ca_id c = ca_id cart \<and> (ca_status c \<in> set CURRENT_CART_VISIBLE_STATUSES \<and>
       ca_deleteAt c = None)) (\<lambda>c. (convert_data (rq_now rq) actor c)\<lparr>ca_updatedAt := rq_now rq\<rparr>) (cw_carts w)" by auto
  show "carts_step (cw_carts w) (cw_carts w')"
    unfolding carts
    by (rule carts_step_update) (auto simp: visible_open row_step_def life_def convert_data_def intro: convert)
qed simp

lemma getOrCreate_step:
  assumes "getOrCreate rq bytes cat token w = Some (Inr ((c, new, t), w'))"
  shows "carts_step (cw_carts w) (cw_carts w')"
  using assms
proof (cases rule: getOrCreate_cases)
  case created
  then have "cw_carts w' = cw_carts w @ [c]" "ca_id c \<notin> ca_id ` set (cw_carts w)" "life c = Some C_DRAFT"
    by (auto simp: create_cart_def Let_def new_cart_def life_def split: if_splits)
  then show ?thesis by (simp add: carts_step_new)
qed simp

lemma share_step:
  assumes "shareCurrentCart rq bytes keys cat token input checkout w = Some (r, w')" "distinct (map ca_id (cw_carts w))"
  shows "carts_step (cw_carts w) (cw_carts w')"
  using assms(1)
proof (cases rule: share_cases)
  case (current c new t w1)
  then show ?thesis using getOrCreate_step by blast
next
  case (shared c new t w1 key comment snap)
  let ?upd = "update_where (\<lambda>x. ca_id x = ca_id c)
      (\<lambda>x. (share_data (rq_now rq) c key comment snap x)\<lparr>ca_updatedAt := rq_now rq\<rparr>)"
  have "carts_step (cw_carts w) (?upd (cw_carts w1))"
    using shared(1)
  proof (cases rule: getOrCreate_cases)
    case found
    have c: "c \<in> set (cw_carts w)" "ca_deleteAt c = None"
      using found(3) find_Some_iff_mem [of _ "cw_carts w" c] by (auto simp: findByToken_def)
    show ?thesis unfolding found(2)
    proof (rule carts_step_update)
      fix x
      assume "x \<in> set (cw_carts w)" "ca_id x = ca_id c"
      from same_row [OF assms(2) c(1) this] share_row [OF c(2)]
      show "row_step x ((share_data (rq_now rq) c key comment snap x)\<lparr>ca_updatedAt := rq_now rq\<rparr>)" by (simp only: touch_life)
    qed
  next
    case created
    then have c: "cw_carts w1 = cw_carts w @ [c]" "ca_id c \<notin> ca_id ` set (cw_carts w)" "ca_deleteAt c = None" "ca_status c = C_DRAFT"
      by (auto simp: create_cart_def Let_def new_cart_def split: if_splits)
    have "?upd (cw_carts w) = cw_carts w" by (rule update_where_none) (use c(2) in \<open>metis imageI\<close>)
    then have "?upd (cw_carts w1) = cw_carts w @ [(share_data (rq_now rq) c key comment snap c)\<lparr>ca_updatedAt := rq_now rq\<rparr>]"
      by (simp add: c(1) table_simps)
    with c show ?thesis by (auto simp: share_data_def life_def intro!: carts_step_new)
  qed
  then show ?thesis
    unfolding shared(2)
    by (intro commit_step) (use share_tx_carts getOrCreate_step [OF shared(1)] in auto)
qed simp

lemma finalize_step:
  assumes "finalizeCartLineChange rq cx b w1 = Inr (r, w')" "cw_carts w1 = cw_carts w"
  shows "carts_step (cw_carts w) (cw_carts w')"
proof -
  have "carts_step (cw_carts w) (update_where (\<lambda>c. ca_id c = cx_id cx) (\<lambda>c. c\<lparr>ca_updatedAt := rq_now rq\<rparr>) (cw_carts w))"
    by (rule carts_step_update) simp
  with finalize_tables(4) [OF assms(1)] show ?thesis by (auto simp: assms(2))
qed

lemma lines_step:
  shows "carts_step (cw_carts w) (cw_carts (snd (line_upsertItem rq ports cmp i input w)))"
    and "carts_step (cw_carts w) (cw_carts (snd (line_removeItem rq i itemId guest w)))"
proof -
  have "carts_step (cw_carts w) (cw_carts w')" if "upsertItemInTransaction rq ports i n w = Inr (res, w')" for n res w'
    using that
  proof (cases rule: upsert_cases)
    case (removed cx)
    then show ?thesis by (intro finalize_step [OF removed(4)] archive_tables)
  next
    case (written cx product b w1 r pj mutated w2)
    have "cw_carts w2 = cw_carts w"
      using repair_write(1) [OF written(5)] apply_change_tables(1) [OF written(8)] by (simp add: product_write_def)
    with written(9) show ?thesis by (rule finalize_step)
  qed
  then show "carts_step (cw_carts w) (cw_carts (snd (line_upsertItem rq ports cmp i input w)))"
    by (auto simp: line_upsertItem_def split: sum.split intro!: commit_step)
  have "carts_step (cw_carts w) (cw_carts w')" if "removeItem_tx rq i j guest w = Inr (res, w')" for j res w'
    using that by (rule remove_tx_Inr) (erule finalize_step, simp)
  then show "carts_step (cw_carts w) (cw_carts (snd (line_removeItem rq i itemId guest w)))"
    by (auto simp: line_removeItem_def intro!: commit_step)
qed

lemma product_change_carts: "cw_carts (product_change pt ps vs w) = cw_carts w"
  by (simp add: product_change_def rejoin_def)

lemma cart_state_step:
  assumes "cart_ok old w"
  shows "carts_step (cw_carts w) (cw_carts (cart_state slug rq op w))"
proof -
  have d: "distinct (map ca_id (cw_carts w))" using assms by (simp add: cart_ok_but_def)
  show ?thesis
  proof (cases op)
    case (O_current bytes cat token)
    then show ?thesis by (auto split: option.split sum.split intro: getOrCreate_step)
  next
    case (O_share bytes keys cat token input checkout)
    then show ?thesis using share_step [OF _ d] by (auto split: option.split)
  next
    case (O_stock q)
    then show ?thesis by (simp split: sum.split)
  qed (use session_step [OF d] delete_step [OF d] expiry_step complete_step lines_step product_change_carts in auto)
qed

end
