(* ===== verification/Cart_Demo.thy ===== *)
theory Cart_Demo
  imports Cart_Life
begin

text \<open>
  An example for the cart services: a catalog with internal stock of ten pieces, owned by the user
  \<^verbatim>\<open>u\<close>, and a draft cart with three pieces of one variant.
\<close>

definition demo_item :: cart_item where
  "demo_item = \<lparr>it_line = \<lparr>k_id = ''i'', k_productId = ''p'', k_variantId = Some ''v'', k_saleUnitId = Some ''s'',
       k_modifierSignature = Some [], k_quantity = 3, k_baseQuantity = Q_num 3, k_unitPriceSnapshot = Nullish,
       k_priceListId = None, k_guestSessionId = None, k_variantPrice = Some Nullish,
       k_saleUnit = Some \<lparr>su_baseQuantity = Finite 1, su_price = Nullish\<rparr>, k_modifiers = [],
       k_productPrice = Nullish, k_attributes = []\<rparr>,
     it_cartId = ''k'', it_guestName = None, it_priceListCode = None, it_priceListName = None, it_productCatalogId = Some ''c'', it_createdAt = 0, it_deleteAt = None\<rparr>"

definition demo_ports :: snapshot_ports where
  "demo_ports = (let pj = \<lparr>pj_mode = MATRIX, pj_variantId = Some ''v'', pj_defaultVariantId = None, pj_requiresVariantSelection = False,
       pj_priceState = KNOWN, pj_displayPrice = Nullish, pj_maxPrice = Nullish, pj_availabilityState = AVAILABLE, pj_stock = None,
       pj_usesPriceList = False\<rparr>
     in \<lparr>resolveVariantSellable = (\<lambda>_ _ _ _. Inr pj), resolveProductSellable = (\<lambda>_ _ _. Inr pj), resolveLinePrice = None\<rparr>)"

definition demo_products :: product_tables where
  "demo_products = \<lparr>pt_products = [\<lparr>pi_id = ''p'', pi_sku = ''P'', pi_price = Nullish, pi_status = P_ACTIVE, pi_attributes = []\<rparr>],
     pt_variants = [\<lparr>vi_id = ''v'', vi_sku = ''P'', vi_variantKey = ''default'', vi_kind = K_DEFAULT, vi_price = Nullish,
       vi_status = V_ACTIVE, vi_isAvailable = True, vi_attributes = [], vi_createdAt = 0\<rparr>],
     pt_saleUnits = [\<lparr>sr_id = ''s'', sr_variantId = ''v'', sr_catalogSaleUnitId = None, sr_code = ''pc'', sr_name = ''piece'', sr_unit = \<lparr>su_baseQuantity = Finite 1, su_price = Nullish\<rparr>,
       sr_isDefault = True, sr_isActive = True, sr_displayOrder = 0, sr_createdAt = 0, sr_deleteAt = None\<rparr>],
     pt_groups = [], pt_priceLists = [], pt_prices = []\<rparr>"

definition demo_world :: cart_world where
  "demo_world = \<lparr>cw_carts = [new_cart ''k'' 0 ''c'' ''t''], cw_items = [demo_item], cw_sessions = [], cw_orders = [],
     cw_catalogs = [\<lparr>cg_id = ''c'', cg_userId = Some ''u'', cg_parentId = None, cg_activePriceListId = None, cg_deleteAt = None\<rparr>],
     cw_products = demo_products,
     cw_svc = demo_service\<lparr>sv_entitlements := sv_entitlements demo_service @
       [\<lparr>en_catalogId = ''c'', en_feature = ''catalog.sale_units'', en_enabled = True, en_expiresAt = None\<rparr>]\<rparr>\<rparr>"

definition demo_at :: "time \<Rightarrow> request" where
  "demo_at t = demo_request\<lparr>rq_now := t, rq_uuid := (\<lambda>k. replicate (Suc k) (if even t then CHR ''e'' else CHR ''f''))\<rparr>"

definition demo_share :: "request \<times> cart_op" where
  "demo_share = (demo_at 50, O_share (\<lambda>k. [k]) (\<lambda>k. ''key'') ''c'' (Some ''t'') None (Inr (Some PICKUP, J_null, J_null)))"

definition demo_expire :: "request \<times> cart_op" where
  "demo_expire = (demo_at 1001, O_expire_drafts 500)"

definition demo_carts :: "(request \<times> cart_op) list \<Rightarrow> cart_world" where
  "demo_carts ops = foldl (committed (run_cart id)) demo_world ops"

text \<open>The same shop without stock keeping.\<close>

definition demo_untracked :: cart_world where
  "demo_untracked = demo_world\<lparr>cw_svc := (cw_svc demo_world)\<lparr>sv_modes := []\<rparr>\<rparr>"

definition demo_manager :: session_user where
  "demo_manager = \<lparr>su_id = ''u'', su_role = ROLE_CATALOG\<rparr>"

definition demo_admin :: session_user where
  "demo_admin = \<lparr>su_id = ''a'', su_role = ROLE_ADMIN\<rparr>"

lemma demo_world_ok: "cart_ok [] demo_world"
proof -
  have "shop_ok (sv_inv (cw_svc demo_world))" "outbox_ok [] (sv_ev (cw_svc demo_world))"
    "distinct (map ca_id (cw_carts demo_world))" "item_ids_ok (cw_items demo_world)" "variant_ids_ok (cw_products demo_world)"
    "list_all (\<lambda>c. \<not> cart_dead c) (cw_carts demo_world)" by code_simp+
  then show ?thesis by (auto simp: cart_ok_but_def service_ok_def holders_ok_def list_all_iff)
qed

lemma demo_untracked_ok: "cart_ok [] demo_untracked"
  using demo_world_ok by (simp add: demo_untracked_def cart_ok_but_def service_ok_def holders_ok_def)

end
