(* ===== verification/Cart_Properties.thy ===== *)
theory Cart_Properties
  imports Cart_Demo
begin

text \<open>The properties of the cart services, each with an instance on the example of \<^verbatim>\<open>Cart_Demo\<close>.\<close>


section \<open>Supporting facts\<close>

lemma life_closure:
  assumes "history (run_cart slug) cart_call_ok w t" "cart_ok old w" "c \<in> set (cw_carts w)"
  shows "\<exists>c'\<in>set (cw_carts t). ca_id c' = ca_id c \<and> life_step\<^sup>*\<^sup>* (life c) (life c')"
  using assms(1)
proof (induction rule: history.induct)
  case start
  show ?case using assms(3) by blast
next
  case (step t p)
  then obtain c1 where c1: "c1 \<in> set (cw_carts t)" "ca_id c1 = ca_id c" "life_step\<^sup>*\<^sup>* (life c) (life c1)" by blast
  have ok: "cart_ok old t" using carts.history_invar [OF step.hyps(1) assms(2)] .
  obtain rq op where p: "p = (rq, op)" by (cases p)
  from carts_step_find [OF cart_state_step [OF ok, of slug rq op] c1(1)] obtain c2 where
    c2: "c2 \<in> set (cw_carts (cart_state slug rq op t))" "row_step c1 c2" by blast
  then have "ca_id c2 = ca_id c" "life_step\<^sup>*\<^sup>* (life c) (life c2)"
    using c1(2,3) by (auto simp: row_step_def)
  with c2(1) p show ?case by (auto simp: committed_def run_cart_def)
qed

lemma final_life: "life_step\<^sup>*\<^sup>* (Some s) l \<Longrightarrow> \<not> open_status s \<Longrightarrow> l = Some s"
  by (induction rule: rtranclp_induct) (auto dest: life_final)

lemma lookup_by_id:
  assumes "distinct (map ca_id cs)" "c \<in> set cs" "ca_deleteAt c = None" "ca_id c = i"
  shows "List.find (\<lambda>c. ca_deleteAt c = None \<and> ca_id c = i) cs = Some c"
proof (cases "List.find (\<lambda>c. ca_deleteAt c = None \<and> ca_id c = i) cs")
  case None
  with assms show ?thesis by (auto simp: find_None_all)
next
  case (Some d)
  with find_Some_iff_mem [OF Some] same_row [OF assms(1,2), of d] assms(4) show ?thesis by simp
qed

lemma converted_row:
  assumes "complete_tx rq ports i actor w = Inr ((order, fx), w')" "cart_ok old w"
  obtains c where "c \<in> set (cw_carts w')" "ca_id c = i" "life c = Some C_CONVERTED"
proof -
  from complete_tx_carts [OF assms(1)] obtain cart :: cart_row where
    l: "lookup_findByIdOrThrow i w = Inr cart" "open_status (ca_status cart)"
    and carts: "cw_carts w' = update_where (\<lambda>c. ca_id c = ca_id cart \<and> (ca_status c \<in> set CURRENT_CART_VISIBLE_STATUSES \<and>
       ca_deleteAt c = None)) (\<lambda>c. (convert_data (rq_now rq) actor c)\<lparr>ca_updatedAt := rq_now rq\<rparr>) (cw_carts w)" by blast
  have c: "cart \<in> set (cw_carts w)" "ca_deleteAt cart = None" "ca_id cart = i"
    using l(1) find_Some_iff_mem [of _ "cw_carts w" cart] by (auto simp: lookup_findByIdOrThrow_def)
  let ?c = "(convert_data (rq_now rq) actor cart)\<lparr>ca_updatedAt := rq_now rq\<rparr>"
  have "?c \<in> set (cw_carts w')"
    unfolding carts set_update_where using c l(2) by (auto simp: visible_open intro!: image_eqI [of _ _ cart])
  moreover have "ca_id ?c = i" "life ?c = Some C_CONVERTED" using c by (simp_all add: convert_data_def life_def)
  ultimately show thesis by (rule that)
qed

lemma commit_history:
  "history (run_cart slug) cart_call_ok w t \<Longrightarrow> cart_call_ok (rq, op) \<Longrightarrow> history (run_cart slug) cart_call_ok w (cart_state slug rq op t)"
  using history.step [of "run_cart slug" cart_call_ok w t "(rq, op)"] by (simp add: committed_def run_cart_def)

lemma closed_complete:
  assumes "distinct (map ca_id (cw_carts t))" "c \<in> set (cw_carts t)" "ca_id c = i" "life c = Some s" "\<not> open_status s"
  shows "checkout_complete rq ports i actor t = (Inl Cart_already_closed, t)"
proof -
  have "ca_deleteAt c = None" "ca_status c = s" using assms(4) by (simp_all add: life_def split: if_splits)
  with lookup_by_id [OF assms(1,2) _ assms(3)] assms(5) show ?thesis
    by (simp add: checkout_complete_def complete_tx_def lookup_findByIdOrThrow_def ensureCartIsOpen_def guardE_def
        terminal_not_open commit_tx_def)
qed

lemma find_update_where:
  "(\<And>x. Q x \<Longrightarrow> P (f x) = P x) \<Longrightarrow>
   List.find P (update_where Q f xs) = map_option (\<lambda>x. if Q x then f x else x) (List.find P xs)"
  by (induction xs) (auto simp: table_simps)

lemma begin_row:
  assumes "session_begin rq key m w = (Inr (c, b), w')" "cart_ok old w"
  shows "\<exists>cart. c = (session_data (rq_now rq) m cart cart)\<lparr>ca_updatedAt := rq_now rq\<rparr> \<and>
    lookup_findByPublicKeyOrThrow key w' = Inr c"
proof -
  from assms(1) obtain cart :: cart_row where f: "findManageableCartByPublicKeyOrThrow key m w = Inr cart"
      and t: "commit_tx rq (session_tx rq m cart w) w = (Inr c, w')"
    by (auto simp: session_begin_def apfst_def map_prod_def map_sum_def split: sum.splits prod.splits)
  let ?f = "\<lambda>x. (session_data (rq_now rq) m cart x)\<lparr>ca_updatedAt := rq_now rq\<rparr>"
  from t obtain fx w2 where tx: "session_tx rq m cart w = Inr ((c, fx), w2)"
      and inval: "cart_invalidateCaches rq fx c w2 = (Inr c, w')"
    by (auto simp: commit_tx_def cart_invalidateCaches_def split: sum.splits prod.splits)
  have carts': "cw_carts w' = cw_carts w2"
    using invalidate_caches_tables [of w2 rq fx c] inval by (simp add: same_tables_but_stock_def)
  from tx obtain w1 updated r fx0 where
      u: "cart_update (rq_now rq) (ca_id cart) (session_data (rq_now rq) m cart) w = Inr w1"
      and l: "lookup_findByIdOrThrow (ca_id cart) w1 = Inr updated"
      and res: "reserveCartStockIfNeededTx rq updated (Some (su_id m)) w1 = Inr ((r, fx0), w2)"
      and c: "(if r then lookup_findByIdOrThrow (ca_id cart) w2 else Inr updated) = Inr c"
    by (auto simp: session_tx_def)
  have carts1: "cw_carts w1 = update_where (\<lambda>x. ca_id x = ca_id cart) ?f (cw_carts w)"
    using u by (auto simp: cart_update_def cart_updateMany_def split: if_splits)
  have carts2: "cw_carts w2 = cw_carts w1" using reserve_tables [OF res] by (simp add: same_tables_but_stock_def)
  then have cu: "c = updated" using c l by (auto simp: lookup_findByIdOrThrow_def split: if_splits)
  have cart: "cart \<in> set (cw_carts w)" "ca_deleteAt cart = None" by (rule manageable_found [OF f])+
  have d: "distinct (map ca_id (cw_carts w))" using assms(2) by (simp add: cart_ok_but_def)
  have keep: "ca_id (?f x) = ca_id x" "ca_deleteAt (?f x) = ca_deleteAt x" "ca_publicKey (?f x) = ca_publicKey x" for x
    by (simp_all add: session_data_def Let_def)
  have "List.find (\<lambda>x. ca_deleteAt x = None \<and> ca_id x = ca_id cart) (cw_carts w1) = Some (?f cart)"
    unfolding carts1 using lookup_by_id [OF d cart refl] by (subst find_update_where) (simp_all add: keep)
  with l cu have cf: "c = ?f cart" by (simp add: lookup_findByIdOrThrow_def)
  have key: "List.find (\<lambda>x. ca_deleteAt x = None \<and> ca_publicKey x = Some (trim key)) (cw_carts w) = Some cart" "trim key \<noteq> []"
    using f by (auto simp: findManageableCartByPublicKeyOrThrow_def lookup_findByPublicKeyOrThrow_def Let_def split: if_splits)
  have "List.find (\<lambda>x. ca_deleteAt x = None \<and> ca_publicKey x = Some (trim key)) (cw_carts w1) = Some (?f cart)"
    unfolding carts1 by (subst find_update_where) (simp_all add: keep key(1))
  with cf key(2) carts' carts2 show ?thesis by (auto simp: lookup_findByPublicKeyOrThrow_def Let_def)
qed

lemma base_quantity_nonneg: "0 \<le> resolveCartItemBaseQuantity q b u"
  by (simp add: resolveCartItemBaseQuantity_def Let_def split: js_qty.split)

lemma base_quantity_unit:
  "map_option su_baseQuantity u = map_option su_baseQuantity u' \<Longrightarrow>
   resolveCartItemBaseQuantity q b u = resolveCartItemBaseQuantity q b u'"
  by (auto simp: resolveCartItemBaseQuantity_def Let_def split: js_qty.split option.splits)

lemma snapshot_lines:
  assumes "buildSnapshotItems ports opts enforce now cat items = Inr sn"
  shows "map sn_id sn = map (k_id \<circ> it_line) items"
    and "list_all (\<lambda>p. 0 \<le> sn_baseQuantity p) sn"
    and "canUseCatalogSaleUnits opts \<Longrightarrow>
      list_all (\<lambda>x. k_saleUnit (it_line x) \<noteq> None \<or> k_baseQuantity (it_line x) = Q_null) items \<Longrightarrow>
      map sn_baseQuantity sn = map (l_quantity \<circ> reservation_line) items"
proof -
  from assms obtain srcs where m: "mapE (snapshot_source_of ports opts enforce cat) items = Inr srcs"
      and sn: "sn = map (snapshot_item_of now) srcs" by (auto simp: buildSnapshotItems_def)
  have "map (k_id \<circ> ss_line) srcs = map (k_id \<circ> it_line) items"
    by (rule mapE_map [OF m]) (simp add: snapshot_source_line)
  then show "map sn_id sn = map (k_id \<circ> it_line) items" by (simp add: sn snapshot_item_of_def Let_def comp_def)
  show "list_all (\<lambda>p. 0 \<le> sn_baseQuantity p) sn"
    by (simp add: sn list_all_iff snapshot_item_of_def Let_def resolveSnapshotBaseQuantity_def base_quantity_nonneg)
  assume units: "canUseCatalogSaleUnits opts"
    and ok: "list_all (\<lambda>x. k_saleUnit (it_line x) \<noteq> None \<or> k_baseQuantity (it_line x) = Q_null) items"
  have q: "resolveSnapshotBaseQuantity (ss_line src) = l_quantity (reservation_line x)"
    if "snapshot_source_of ports opts enforce cat x = Inr src" "x \<in> set items" for x src
  proof -
    note l = snapshot_source_line [OF that(1)]
    have u: "map_option su_baseQuantity (k_saleUnit (ss_line src)) = map_option su_baseQuantity (k_saleUnit (it_line x))"
      using l(6) units by simp
    then have n: "k_saleUnit (ss_line src) = None \<longleftrightarrow> k_saleUnit (it_line x) = None" by (metis option.map_disc_iff)
    have "k_saleUnit (it_line x) = None \<Longrightarrow> k_baseQuantity (it_line x) = Q_null" using ok that(2) by (auto simp: list_all_iff)
    with l(3,4) n base_quantity_unit [OF u] show ?thesis
      by (simp add: resolveSnapshotBaseQuantity_def reservation_line_def Let_def)
  qed
  have "list_all2 (\<lambda>x src. snapshot_source_of ports opts enforce cat x = Inr src) items srcs"
    using mapE_Inr [OF m] by (simp add: list_all2_conv_all_nth)
  then have "map (\<lambda>src. resolveSnapshotBaseQuantity (ss_line src)) srcs = map (l_quantity \<circ> reservation_line) items"
    using q by (induction rule: list_all2_induct) auto
  then show "map sn_baseQuantity sn = map (l_quantity \<circ> reservation_line) items"
    by (simp add: sn snapshot_item_of_def Let_def comp_def)
qed

lemma ordered_lines:
  assumes "list_all (\<lambda>p. 0 \<le> sn_baseQuantity p) sn" "\<forall>p\<in>set sn. truthy (sn_variantId p)"
  shows "ordered (filter (\<lambda>l. has_variant l \<and> l_quantity l > 0) (map order_line_of sn)) v =
    sum_where (\<lambda>p. sn_variantId p = Some v) sn_baseQuantity sn"
  using assms
proof (induction sn)
  case (Cons p sn)
  have "has_variant (order_line_of p)" using Cons.prems(2) by (simp add: has_variant_def order_line_of_def truthy_def)
  moreover have "0 \<le> sn_baseQuantity p" using Cons.prems(1) by simp
  ultimately show ?case using Cons by (auto simp: ordered_def table_simps order_line_of_def)
qed (simp add: ordered_def table_simps)

lemma consume_amount:
  assumes "consume_if_internal rq cart MODE_INTERNAL ord sn actor w = Inr (fx, w')" "inv_ok (sv_inv (cw_svc w))"
    and "list_all (\<lambda>p. 0 \<le> sn_baseQuantity p) sn" "\<forall>p\<in>set sn. truthy (sn_variantId p)" "distinct (map sn_id sn)"
    and "\<forall>p\<in>set sn. CHR '':'' \<notin> set (sn_id p)"
    and "\<forall>p\<in>set sn. Some (buildSaleIdempotencyKey ord (sn_id p)) \<notin> sold_keys (sv_inv (cw_svc w))"
  shows "variant_onhand (sv_inv (cw_svc w')) v = variant_onhand (sv_inv (cw_svc w)) v
      - sum_where (\<lambda>p. sn_variantId p = Some v) sn_baseQuantity sn"
proof -
  let ?ls = "filter (\<lambda>l. has_variant l \<and> l_quantity l > 0) (map order_line_of sn)"
  from assms(1) obtain acc where f: "foldE (consume_line (rq_gen rq) (rq_now rq) (ca_catalogId cart) (ca_id cart) ord actor)
      ((None, [], []), sv_inv (cw_svc w)) ?ls = Inr (acc, sv_inv (cw_svc w'))"
    by (auto simp: consume_if_internal_def consumeCompletedOrderStockTx_def finish_tx_def consumeCompletedOrderStock_def Let_def)
  have "l_cartItemId \<circ> order_line_of = sn_id" by (simp add: order_line_of_def fun_eq_iff)
  with assms(5) have "distinct (map l_cartItemId (map order_line_of sn))" by simp
  then have "variant_onhand (sv_inv (cw_svc w')) v = variant_onhand (sv_inv (cw_svc w)) v - ordered ?ls v"
    by (intro consume_lines_amount [OF f assms(2) order_lines_filter])
      (use assms(6,7) in \<open>auto simp: sale_key_def order_line_of_def intro: distinct_map_filter\<close>)
  with ordered_lines [OF assms(3,4)] show ?thesis by simp
qed

text \<open>A write of a cart row that keeps its identity, seen by a lookup.\<close>

lemma lookup_iff:
  assumes "distinct (map ca_id (cw_carts w))"
  shows "lookup_findByIdOrThrow i w = Inr c \<longleftrightarrow> c \<in> set (cw_carts w) \<and> ca_deleteAt c = None \<and> ca_id c = i"
  using lookup_by_id [OF assms, of c i] find_Some_iff_mem [of "\<lambda>c. ca_deleteAt c = None \<and> ca_id c = i" "cw_carts w" c]
  by (auto simp: lookup_findByIdOrThrow_def)

lemma updateMany_lookup:
  assumes "distinct (map ca_id (cw_carts w))" "lookup_findByIdOrThrow i w = Inr c" "P c"
    and "\<And>x. ca_id (f x) = ca_id x" "\<And>x. ca_deleteAt (f x) = ca_deleteAt x"
  shows "lookup_findByIdOrThrow i (cart_updateMany now P f w) = Inr ((f c)\<lparr>ca_updatedAt := now\<rparr>)"
    "distinct (map ca_id (cw_carts (cart_updateMany now P f w)))"
proof -
  show d: "distinct (map ca_id (cw_carts (cart_updateMany now P f w)))"
    using assms(1,4) by (simp add: cart_updateMany_def map_update_where)
  have "(f c)\<lparr>ca_updatedAt := now\<rparr> \<in> set (cw_carts (cart_updateMany now P f w))"
    using assms(2,3) by (auto simp: lookup_iff [OF assms(1)] cart_updateMany_def set_update_where intro!: image_eqI [of _ _ c])
  moreover have "ca_deleteAt c = None" "ca_id c = i" using assms(2) by (simp_all add: lookup_iff [OF assms(1)])
  ultimately show "lookup_findByIdOrThrow i (cart_updateMany now P f w) = Inr ((f c)\<lparr>ca_updatedAt := now\<rparr>)"
    using assms(4,5) by (simp add: lookup_iff [OF d])
qed

lemma session_tx_untracked:
  assumes "distinct (map ca_id (cw_carts w))" "lookup_findByIdOrThrow (ca_id cart) w = Inr c"
    and "inventory_mode_of (ca_catalogId c) w \<noteq> MODE_INTERNAL"
  shows "session_tx rq user cart w =
    Inr (((session_data (rq_now rq) user cart c)\<lparr>ca_updatedAt := rq_now rq\<rparr>, [], []),
      cart_updateMany (rq_now rq) (\<lambda>x. ca_id x = ca_id cart) (session_data (rq_now rq) user cart) w)"
proof -
  let ?w = "cart_updateMany (rq_now rq) (\<lambda>x. ca_id x = ca_id cart) (session_data (rq_now rq) user cart) w"
  let ?c = "(session_data (rq_now rq) user cart c)\<lparr>ca_updatedAt := rq_now rq\<rparr>"
  have c: "c \<in> set (cw_carts w)" "ca_id c = ca_id cart" using assms(2) by (simp_all add: lookup_iff [OF assms(1)])
  then have "cart_update (rq_now rq) (ca_id cart) (session_data (rq_now rq) user cart) w = Inr ?w" by (auto simp: cart_update_def)
  moreover have "lookup_findByIdOrThrow (ca_id cart) ?w = Inr ?c"
    using c(2) by (intro updateMany_lookup [OF assms(1,2)]) (simp_all add: session_data_def Let_def)
  moreover have "inventory_mode_of (ca_catalogId ?c) ?w \<noteq> MODE_INTERNAL"
    using assms(3) by (simp add: session_data_def Let_def inventory_mode_of_def cart_updateMany_def)
  then have "reserveCartStockIfNeededTx rq ?c (Some (su_id user)) ?w = Inr ((False, [], []), ?w)"
    by (simp add: reserveCartStockIfNeededTx_def shouldReserveCartStock_def)
  ultimately show ?thesis by (simp add: session_tx_def)
qed

text \<open>A checkout of a catalog without internal stock: what it needs, and what it leaves.\<close>

lemma complete_tx_untracked:
  assumes "distinct (map ca_id (cw_carts w))" "lookup_findByIdOrThrow i w = Inr c" "open_status (ca_status c)"
    and "inventory_mode_of (ca_catalogId c) w \<noteq> MODE_INTERNAL" "live_items i w \<noteq> []"
    and "buildSnapshotItems ports (current_features rq (ca_catalogId c) w)
       (shouldEnforceStockOnCheckout (inventory_mode_of (ca_catalogId c) w)) (rq_now rq) (ca_catalogId c) (live_items i w) = Inr sn"
    and "rq_gen rq (map od_id (cw_orders w)) \<notin> od_id ` set (cw_orders w)"
  obtains order where "complete_tx rq ports i actor w = Inr ((order, [], []),
      (cart_updateMany (rq_now rq) (\<lambda>x. ca_id x = i \<and> ca_status x \<in> set CURRENT_CART_VISIBLE_STATUSES \<and> ca_deleteAt x = None)
        (convert_data (rq_now rq) actor) w)\<lparr>cw_orders := cw_orders w @ [order]\<rparr>)" "od_products order = sn"
proof -
  have c: "c \<in> set (cw_carts w)" "ca_deleteAt c = None" "ca_id c = i" using assms(2) by (simp_all add: lookup_iff [OF assms(1)])
  have one: "count_where (\<lambda>x. ca_id x = i \<and> ca_status x \<in> set CURRENT_CART_VISIBLE_STATUSES \<and> ca_deleteAt x = None) (cw_carts w) = 1"
    using c assms(1,3) by (intro count_where_unique) (auto simp: visible_open)
  have "ensureCartIsOpen (ca_status c) = Inr ()" using assms(3) by (auto simp: ensureCartIsOpen_def guardE_def open_status_def TERMINAL_CART_STATUSES_def)
  let ?w = "cart_updateMany (rq_now rq) (\<lambda>x. ca_id x = i \<and> ca_status x \<in> set CURRENT_CART_VISIBLE_STATUSES \<and> ca_deleteAt x = None)
        (convert_data (rq_now rq) actor) w"
  obtain order where "create_order rq c sn ?w = Inr (order, ?w\<lparr>cw_orders := cw_orders w @ [order]\<rparr>)" "od_products order = sn"
    using assms(7) by (auto simp: create_order_def Let_def cart_updateMany_def)
  with assms(2,4-6) one c(3) \<open>ensureCartIsOpen (ca_status c) = Inr ()\<close> show thesis
    by (intro that [of order]) (simp_all add: complete_tx_def Let_def consume_if_internal_def)
qed

lemma sources_now: "buildSnapshotItems ports opts b now cat items = Inr sn \<Longrightarrow>
    \<exists>sn'. buildSnapshotItems ports opts b now' cat items = Inr sn' \<and> map sn_id sn' = map sn_id sn \<and> map sn_quantity sn' = map sn_quantity sn"
  by (auto simp: buildSnapshotItems_def snapshot_item_of_def Let_def)


section \<open>Properties\<close>

text \<open>
  C35. Stock is not lost in dead carts: whatever calls run, once a cart is deleted, cancelled or
  expired none of its reservations is active.
\<close>

theorem closed_cart_holds_no_stock:
  assumes "history (run_cart slug) cart_call_ok w t" "cart_ok old w"
    and "c \<in> set (cw_carts t)" "cart_dead c" "r \<in> set (reservations (sv_inv (cw_svc t)))" "r_cartId r = Some (ca_id c)"
  shows "r_status r \<noteq> R_ACTIVE"
  using carts.history_invar [OF assms(1,2)] assms(3-6) by (auto simp: cart_ok_but_def holders_ok_def active_carts_def)

theorem closed_cart_holds_no_stock_witness:
  "map ca_status (cw_carts (demo_carts [demo_share])) = [C_SHARED] \<and>
   map r_status (reservations (sv_inv (cw_svc (demo_carts [demo_share])))) = [R_ACTIVE] \<and>
   map ca_status (cw_carts (demo_carts [demo_share, demo_expire])) = [C_EXPIRED] \<and>
   r_status (hd (reservations (sv_inv (cw_svc (demo_carts [demo_share, demo_expire]))))) \<noteq> R_ACTIVE"
proof -
  let ?t = "demo_carts [demo_share, demo_expire]"
  have h: "history (run_cart id) cart_call_ok demo_world ?t"
    unfolding demo_carts_def by (rule history_sequence) (simp add: demo_share_def demo_expire_def)
  have ne: "cw_carts ?t \<noteq> []" "reservations (sv_inv (cw_svc ?t)) \<noteq> []" by code_simp+
  have "cart_dead (hd (cw_carts ?t))"
    "r_cartId (hd (reservations (sv_inv (cw_svc ?t)))) = Some (ca_id (hd (cw_carts ?t)))" by code_simp+
  with closed_cart_holds_no_stock [OF h demo_world_ok hd_in_set [OF ne(1)] _ hd_in_set [OF ne(2)]]
  have "r_status (hd (reservations (sv_inv (cw_svc ?t)))) \<noteq> R_ACTIVE" by simp
  moreover have "map ca_status (cw_carts (demo_carts [demo_share])) = [C_SHARED]"
    "map r_status (reservations (sv_inv (cw_svc (demo_carts [demo_share])))) = [R_ACTIVE]"
    "map ca_status (cw_carts ?t) = [C_EXPIRED]" by code_simp+
  ultimately show ?thesis by simp
qed

text \<open>
  C36. The cart services refine the abstract life cycle: every call takes each cart at most one allowed
  step, keeps its identifier and catalog, removes no row, and adds only new drafts or drafts shared at
  once.  The steps allow nothing out of a converted, cancelled, expired or deleted cart.
\<close>

theorem cart_life_refines:
  assumes "cart_ok old w" "cart_call_ok (rq, op)"
  shows "carts_step (cw_carts w) (cw_carts (cart_state slug rq op w)) \<and> cart_ok old (cart_state slug rq op w)"
  using cart_state_step [OF assms(1)] run_cart_ok [OF assms] by (simp add: run_cart_def)

theorem cart_life_refines_witness:
  "carts_step (cw_carts demo_world) (cw_carts (demo_carts [demo_share])) \<and>
   map life (cw_carts demo_world) = [Some C_DRAFT] \<and> map life (cw_carts (demo_carts [demo_share])) = [Some C_SHARED]"
proof -
  have "cart_call_ok (fst demo_share, snd demo_share)" by (simp add: demo_share_def)
  from cart_life_refines [OF demo_world_ok this, of id]
  have "carts_step (cw_carts demo_world) (cw_carts (demo_carts [demo_share]))"
    by (simp add: demo_carts_def committed_def run_cart_def)
  moreover have "map life (cw_carts demo_world) = [Some C_DRAFT]"
    "map life (cw_carts (demo_carts [demo_share])) = [Some C_SHARED]" by code_simp+
  ultimately show ?thesis by simp
qed

text \<open>
  C37. A cart is sold once: after a checkout that committed, whatever calls run, every further checkout
  of the cart is answered that it is closed and changes nothing.
\<close>

theorem cart_completed_once:
  assumes "complete_tx rq ports i actor w = Inr ((order, fx), w')" "cart_ok old w"
    and "history (run_cart slug) cart_call_ok (snd (checkout_complete rq ports i actor w)) t"
  shows "checkout_complete rq' ports' i actor' t = (Inl Cart_already_closed, t)"
proof -
  let ?w1 = "snd (checkout_complete rq ports i actor w)"
  have carts: "cw_carts ?w1 = cw_carts w'"
    using invalidate_caches_tables [of w' rq fx order] assms(1)
    by (simp add: checkout_complete_def commit_tx_def same_tables_but_stock_def)
  have ok: "cart_ok old ?w1"
    using run_cart_ok [of old w "(rq, O_complete ports i actor)" id] assms(2) by (simp add: run_cart_def)
  obtain c where c: "c \<in> set (cw_carts w')" "ca_id c = i" "life c = Some C_CONVERTED"
    by (rule converted_row [OF assms(1,2)])
  with life_closure [OF assms(3) ok] carts obtain c' where
    c': "c' \<in> set (cw_carts t)" "ca_id c' = i" "life_step\<^sup>*\<^sup>* (Some C_CONVERTED) (life c')" by metis
  have "distinct (map ca_id (cw_carts t))" using carts.history_invar [OF assms(3) ok] by (simp add: cart_ok_but_def)
  with c' final_life [OF c'(3)] show ?thesis by (intro closed_complete) (auto simp: open_status_def)
qed

lemma demo_completes:
  obtains order fx w' where "complete_tx (demo_at 60) demo_ports ''k'' None demo_untracked = Inr ((order, fx), w')"
proof -
  have "(case complete_tx (demo_at 60) demo_ports ''k'' None demo_untracked of Inl _ \<Rightarrow> False | Inr _ \<Rightarrow> True)" by code_simp
  then show thesis using that by (auto split: sum.splits)
qed

theorem cart_completed_once_witness:
  "checkout_complete (demo_at 70) demo_ports ''k'' None (snd (checkout_complete (demo_at 60) demo_ports ''k'' None demo_untracked)) =
     (Inl Cart_already_closed, snd (checkout_complete (demo_at 60) demo_ports ''k'' None demo_untracked))"
proof -
  let ?w1 = "snd (checkout_complete (demo_at 60) demo_ports ''k'' None demo_untracked)"
  have h: "history (run_cart id) cart_call_ok ?w1 ?w1" by (rule history.start)
  obtain order fx w' where "complete_tx (demo_at 60) demo_ports ''k'' None demo_untracked = Inr ((order, fx), w')"
    by (rule demo_completes)
  from cart_completed_once [OF this demo_untracked_ok h] show ?thesis .
qed

text \<open>What a checkout that commits without stock has read and left.\<close>

lemma untracked_sale:
  assumes "distinct (map ca_id (cw_carts w))" "lookup_findByIdOrThrow (ca_id cart) w = Inr cart"
    and "complete_tx rq ports (ca_id cart) actor w = Inr ((order, fx), w')" "inventory_mode_of (ca_catalogId cart) w \<noteq> MODE_INTERNAL"
  defines "w1 \<equiv> cart_updateMany (rq_now rq) (\<lambda>c. ca_id c = ca_id cart \<and> (ca_status c \<in> set CURRENT_CART_VISIBLE_STATUSES \<and>
      ca_deleteAt c = None)) (convert_data (rq_now rq) actor) w"
  shows "w' = w1\<lparr>cw_orders := cw_orders w @ [order]\<rparr>" "live_items (ca_id cart) w \<noteq> []"
    "buildSnapshotItems ports (current_features rq (ca_catalogId cart) w) (shouldEnforceStockOnCheckout (inventory_mode_of (ca_catalogId cart) w))
       (rq_now rq) (ca_catalogId cart) (live_items (ca_id cart) w) = Inr (od_products order)"
    "lookup_findByIdOrThrow (ca_id cart) w' = Inr ((convert_data (rq_now rq) actor cart)\<lparr>ca_updatedAt := rq_now rq\<rparr>)"
    "distinct (map ca_id (cw_carts w'))"
proof -
  let ?i = "ca_id cart" and ?cat = "ca_catalogId cart"
  from assms(3) obtain sn w2 where free: "ca_status cart \<notin> set TERMINAL_CART_STATUSES" and items: "live_items ?i w \<noteq> []"
    and sn: "buildSnapshotItems ports (current_features rq ?cat w) (shouldEnforceStockOnCheckout (inventory_mode_of ?cat w))
       (rq_now rq) ?cat (live_items ?i w) = Inr sn"
    and order: "create_order rq cart sn w1 = Inr (order, w2)"
    and w': "consume_if_internal rq cart (inventory_mode_of ?cat w) (od_id order) sn actor w2 = Inr (fx, w')"
    by (rule complete_tx_Inr) (use assms(2) in \<open>auto simp: w1_def\<close>)
  have "open_status (ca_status cart)" using free by (cases "ca_status cart") (auto simp: TERMINAL_CART_STATUSES_def open_status_def)
  then have vis: "ca_status cart \<in> set CURRENT_CART_VISIBLE_STATUSES" by (simp add: visible_open)
  have s1: "lookup_findByIdOrThrow ?i w1 = Inr ((convert_data (rq_now rq) actor cart)\<lparr>ca_updatedAt := rq_now rq\<rparr>)"
      "distinct (map ca_id (cw_carts w1))"
    unfolding w1_def using vis assms(2)
    by (intro updateMany_lookup [OF assms(1,2)]; simp add: convert_data_def lookup_iff [OF assms(1)])+
  show o: "w' = w1\<lparr>cw_orders := cw_orders w @ [order]\<rparr>"
    using order w' assms(4) by (auto simp: w1_def create_order_def consume_if_internal_def Let_def cart_updateMany_def split: if_splits)
  have "od_products order = sn" using order by (auto simp: create_order_def Let_def split: if_splits)
  with sn show "buildSnapshotItems ports (current_features rq ?cat w) (shouldEnforceStockOnCheckout (inventory_mode_of ?cat w))
       (rq_now rq) ?cat (live_items ?i w) = Inr (od_products order)" by simp
  show "live_items ?i w \<noteq> []" by (rule items)
  show "lookup_findByIdOrThrow ?i w' = Inr ((convert_data (rq_now rq) actor cart)\<lparr>ca_updatedAt := rq_now rq\<rparr>)"
    "distinct (map ca_id (cw_carts w'))" using s1 by (simp_all add: o lookup_findByIdOrThrow_def)
qed

text \<open>
  C38. The guards of a manager's session call look at the row read before its transaction, and the
  transaction writes by identifier only.  So in a catalog without internal stock a cart can be sold twice:
  when a manager has begun to take an open cart and the cart is sold before the manager's transaction
  runs, this transaction commits on the sold row and the next checkout commits too, whatever the time and
  the manager; there are then two orders for the lines of the one cart.
\<close>

theorem stale_session_sells_twice:
  assumes "cart_ok old w"
    and "findManageableCartByPublicKeyOrThrow key user w = Inr cart" "ensureManagerCanTakeCart cart user = Inr ()"
    and "complete_tx rq ports (ca_id cart) actor w = Inr ((order, fx), w')"
    and "inventory_mode_of (ca_catalogId cart) w \<noteq> MODE_INTERNAL"
    and "rq_gen rq'' (map od_id (cw_orders w')) \<notin> od_id ` set (cw_orders w')"
    and "current_features rq'' (ca_catalogId cart) w = current_features rq (ca_catalogId cart) w"
  shows "\<exists>sold c w1 order' w2.
    lookup_findByIdOrThrow (ca_id cart) w' = Inr sold \<and> ca_status sold = C_CONVERTED \<and> cw_orders w' = cw_orders w @ [order] \<and>
    session_tx rq' user cart w' = Inr ((c, [], []), w1) \<and> ca_status c = C_IN_PROGRESS \<and>
    complete_tx rq'' ports (ca_id cart) actor'' w1 = Inr ((order', [], []), w2) \<and>
    cw_orders w2 = cw_orders w @ [order, order'] \<and>
    map sn_id (od_products order') = map sn_id (od_products order) \<and>
    map sn_quantity (od_products order') = map sn_quantity (od_products order)"
proof -
  let ?i = "ca_id cart" and ?cat = "ca_catalogId cart"
  have d: "distinct (map ca_id (cw_carts w))" using assms(1) by (simp add: cart_ok_but_def)
  have "cart \<in> set (cw_carts w)" "ca_deleteAt cart = None"
    using assms(2) by (auto simp: findManageableCartByPublicKeyOrThrow_def lookup_findByPublicKeyOrThrow_def Let_def
        dest!: find_Some_iff_mem split: if_splits)
  then have l: "lookup_findByIdOrThrow ?i w = Inr cart" by (simp add: lookup_iff [OF d])
  note sale = untracked_sale [OF d l assms(4,5)]
  let ?sold = "(convert_data (rq_now rq) actor cart)\<lparr>ca_updatedAt := rq_now rq\<rparr>"
  note o = sale(1) and items = sale(2) and sn = sale(3) and s = sale(4,5)
  have same: "cw_svc w' = cw_svc w" "cw_items w' = cw_items w" by (simp_all add: o cart_updateMany_def)
  then have mode: "inventory_mode_of (ca_catalogId ?sold) w' \<noteq> MODE_INTERNAL"
    using assms(5) by (simp add: inventory_mode_of_def convert_data_def)
  let ?again = "(session_data (rq_now rq') user cart ?sold)\<lparr>ca_updatedAt := rq_now rq'\<rparr>"
  let ?v = "cart_updateMany (rq_now rq') (\<lambda>x. ca_id x = ?i) (session_data (rq_now rq') user cart) w'"
  have session: "session_tx rq' user cart w' = Inr ((?again, [], []), ?v)" by (rule session_tx_untracked [OF s(2,1) mode])
  have v: "lookup_findByIdOrThrow ?i ?v = Inr ?again" "distinct (map ca_id (cw_carts ?v))"
    by (intro updateMany_lookup [OF s(2,1)]; simp add: session_data_def convert_data_def Let_def)+
  have reopened: "ca_status ?again = C_IN_PROGRESS" "ca_catalogId ?again = ?cat" by (simp_all add: session_data_def convert_data_def Let_def)
  have vsame: "cw_svc ?v = cw_svc w" "cw_items ?v = cw_items w" "cw_orders ?v = cw_orders w @ [order]" "cw_orders ?v = cw_orders w'"
    using same by (simp_all add: cart_updateMany_def o)
  then have keep: "inventory_mode_of ?cat ?v = inventory_mode_of ?cat w" "live_items ?i ?v = live_items ?i w"
    "current_features rq'' ?cat ?v = current_features rq ?cat w"
    using assms(7) by (simp_all add: inventory_mode_of_def live_items_def current_features_def)
  obtain sn' where sn': "buildSnapshotItems ports (current_features rq'' ?cat ?v) (shouldEnforceStockOnCheckout (inventory_mode_of ?cat ?v))
      (rq_now rq'') ?cat (live_items ?i ?v) = Inr sn'" "map sn_id sn' = map sn_id (od_products order)" "map sn_quantity sn' = map sn_quantity (od_products order)"
    unfolding keep using sources_now [OF sn] by blast
  obtain order' where "complete_tx rq'' ports ?i actor'' ?v = Inr ((order', [], []),
      (cart_updateMany (rq_now rq'') (\<lambda>x. ca_id x = ?i \<and> ca_status x \<in> set CURRENT_CART_VISIBLE_STATUSES \<and> ca_deleteAt x = None)
        (convert_data (rq_now rq'') actor'') ?v)\<lparr>cw_orders := cw_orders ?v @ [order']\<rparr>)" "od_products order' = sn'"
    by (rule complete_tx_untracked [OF v(2,1), of ports rq'' sn' actor''])
      (use reopened keep items assms(5,6) sn'(1) vsame(4) in \<open>simp_all add: open_status_def\<close>)
  then show ?thesis
    using s(1) session reopened(1) o vsame(3) sn'(2,3)
    by (intro exI [of _ ?sold] exI [of _ ?again] exI [of _ ?v] exI [of _ order'] exI conjI) (assumption | simp add: convert_data_def)+
qed

definition demo_keyed :: cart_world where
  "demo_keyed = demo_untracked\<lparr>cw_carts := [(new_cart ''k'' 0 ''c'' ''t'')\<lparr>ca_status := C_SHARED, ca_publicKey := Some ''key''\<rparr>]\<rparr>"

theorem stale_session_sells_twice_witness:
  "\<exists>cart order fx w' c w1 order' w2. findManageableCartByPublicKeyOrThrow ''key'' demo_manager demo_keyed = Inr cart \<and>
    complete_tx (demo_at 60) demo_ports ''k'' None demo_keyed = Inr ((order, fx), w') \<and>
    session_tx (demo_at 61) demo_manager cart w' = Inr ((c, [], []), w1) \<and>
    complete_tx (demo_at 62) demo_ports ''k'' None w1 = Inr ((order', [], []), w2) \<and> cw_orders w2 = [order, order']"
proof -
  have "list_all (\<lambda>c. \<not> cart_dead c) (cw_carts demo_keyed)" "distinct (map ca_id (cw_carts demo_keyed))" by code_simp+
  with demo_untracked_ok have ok: "cart_ok [] demo_keyed"
    by (simp add: demo_keyed_def cart_ok_but_def holders_ok_def list_all_iff)
  have "(case findManageableCartByPublicKeyOrThrow ''key'' demo_manager demo_keyed of Inl _ \<Rightarrow> False
      | Inr c \<Rightarrow> ca_id c = ''k'' \<and> ca_catalogId c = ''c'' \<and> ensureManagerCanTakeCart c demo_manager = Inr ())" by code_simp
  then obtain cart where cart: "findManageableCartByPublicKeyOrThrow ''key'' demo_manager demo_keyed = Inr cart" "ca_id cart = ''k''"
      "ca_catalogId cart = ''c''" "ensureManagerCanTakeCart cart demo_manager = Inr ()" by (auto split: sum.splits)
  have "(case complete_tx (demo_at 60) demo_ports ''k'' None demo_keyed of Inl _ \<Rightarrow> False
      | Inr (_, w') \<Rightarrow> rq_gen (demo_at 62) (map od_id (cw_orders w')) \<notin> od_id ` set (cw_orders w'))" by code_simp
  then obtain order fx w' where sale: "complete_tx (demo_at 60) demo_ports ''k'' None demo_keyed = Inr ((order, fx), w')"
    and fresh: "rq_gen (demo_at 62) (map od_id (cw_orders w')) \<notin> od_id ` set (cw_orders w')"
    by (auto split: sum.splits)
  have env: "inventory_mode_of ''c'' demo_keyed \<noteq> MODE_INTERNAL" "cw_orders demo_keyed = []"
    "current_features (demo_at 62) ''c'' demo_keyed = current_features (demo_at 60) ''c'' demo_keyed" by code_simp+
  from stale_session_sells_twice [OF ok cart(1,4) sale [folded cart(2)] env(1) [folded cart(3)] fresh env(3) [folded cart(3)],
      of "demo_at 61" None] cart sale env(2)
  show ?thesis by fastforce
qed

text \<open>
  C39. A cart a manager works on is locked: after a successful \<^verbatim>\<open>begin\<close> the cart is in progress and
  assigned to the manager, and every session call of another user who is not an administrator, with
  the same key, is rejected and changes nothing.
\<close>

theorem manager_lock:
  assumes "session_begin rq key m w = (Inr (c, b), w')" "cart_ok old w" "su_id m \<noteq> []"
    and "su_id u \<noteq> su_id m" "su_role u \<noteq> ROLE_ADMIN"
  shows "ca_status c = C_IN_PROGRESS \<and> ca_assignedManagerId c = Some (su_id m) \<and>
    (\<exists>e1 e2 e3. session_begin rq' key u w' = (Inl e1, w') \<and> session_heartbeat rq' key u w' = (Inl e2, w') \<and>
       session_release rq' key u w' = (Inl e3, w'))"
proof -
  from begin_row [OF assms(1,2)] obtain cart where
    c: "c = (session_data (rq_now rq) m cart cart)\<lparr>ca_updatedAt := rq_now rq\<rparr>"
    and f: "lookup_findByPublicKeyOrThrow key w' = Inr c" by blast
  have held: "held_by_other c u" "ca_status c = C_IN_PROGRESS" "ca_assignedManagerId c = Some (su_id m)"
    using assms(3-5) by (auto simp: c session_data_def Let_def held_by_other_def truthy_def)
  then have "findManageableCartByPublicKeyOrThrow key u w' = Inr d \<Longrightarrow> held_by_other d u \<and> ca_status d = C_IN_PROGRESS" for d
    using f by (auto simp: findManageableCartByPublicKeyOrThrow_def)
  then have "\<exists>e. session_begin rq' key u w' = (Inl e, w')" "\<exists>e. session_heartbeat rq' key u w' = (Inl e, w')"
    "\<exists>e. session_release rq' key u w' = (Inl e, w')"
    by (cases "findManageableCartByPublicKeyOrThrow key u w'"; simp add: session_begin_def session_heartbeat_def
        session_release_def ensureCartIsOpen_def guardE_def ensureManagerCanTakeCart_def ensureManagerCanRefreshPresence_def)+
  with held show ?thesis by blast
qed

theorem manager_lock_witness:
  "\<exists>c b w' e. session_begin (demo_at 60) ''key'' demo_admin (demo_carts [demo_share]) = (Inr (c, b), w') \<and>
     ca_assignedManagerId c = Some ''a'' \<and> session_heartbeat (demo_at 70) ''key'' demo_manager w' = (Inl e, w')"
proof -
  let ?w = "demo_carts [demo_share]"
  have "(case session_begin (demo_at 60) ''key'' demo_admin ?w of (Inl _, _) \<Rightarrow> False | (Inr _, _) \<Rightarrow> True)" by code_simp
  then obtain c b w' where r: "session_begin (demo_at 60) ''key'' demo_admin ?w = (Inr (c, b), w')"
    by (auto split: sum.splits prod.splits)
  have "cart_ok [] ?w"
    using run_cart_ok [OF demo_world_ok, of demo_share id ?w]
    by (simp add: demo_carts_def committed_def run_cart_def demo_share_def)
  from manager_lock [OF r this, of demo_manager "demo_at 70"] r show ?thesis
    by (auto simp: demo_admin_def demo_manager_def)
qed

text \<open>
  C40. What a committed checkout does where stock is kept: it adds one order whose lines are the live
  lines of the cart in their order, and the stock of every variant falls by exactly the base quantity
  of the order's lines for it.  While sale units are enabled these are the quantities the cart had
  reserved, unless a line lost its sale unit.
\<close>

theorem checkout_sells_cart:
  assumes "complete_tx rq ports i actor w = Inr ((order, fx), w')" "cart_ok old w"
    and "lookup_findByIdOrThrow i w = Inr cart" "inventory_mode_of (ca_catalogId cart) w = MODE_INTERNAL"
    and "\<forall>x\<in>set (live_items i w). CHR '':'' \<notin> set (k_id (it_line x))"
    and "\<forall>p\<in>set (od_products order). Some (buildSaleIdempotencyKey (od_id order) (sn_id p)) \<notin> sold_keys (sv_inv (cw_svc w))"
  shows "cw_orders w' = cw_orders w @ [order] \<and>
    map sn_id (od_products order) = map (k_id \<circ> it_line) (live_items i w) \<and>
    od_totalAmount order = resolveTotalAmount (od_products order) \<and>
    variant_onhand (sv_inv (cw_svc w')) v = variant_onhand (sv_inv (cw_svc w)) v
      - sum_where (\<lambda>p. sn_variantId p = Some v) sn_baseQuantity (od_products order) \<and>
    (canUseCatalogSaleUnits (current_features rq (ca_catalogId cart) w) \<and>
     list_all (\<lambda>x. k_saleUnit (it_line x) \<noteq> None \<or> k_baseQuantity (it_line x) = Q_null) (live_items i w) \<longrightarrow>
       map sn_baseQuantity (od_products order) = map (l_quantity \<circ> reservation_line) (live_items i w))"
  using assms(1)
proof (cases rule: complete_tx_Inr)
  case (1 cart' sn w1 w2)
  have cart: "cart' = cart" using 1(1) assms(3) by simp
  have i: "ca_id cart = i" using assms(3) find_Some_iff_mem [of _ "cw_carts w" cart] by (auto simp: lookup_findByIdOrThrow_def)
  have order: "od_products order = sn" "od_totalAmount order = resolveTotalAmount sn" "cw_svc w2 = cw_svc w"
      "cw_orders w2 = cw_orders w @ [order]"
    using 1(4,7) by (auto simp: create_order_def Let_def cart_updateMany_def split: if_splits)
  note sn = snapshot_lines [OF 1(5)]
  have ids: "map sn_id sn = map (k_id \<circ> it_line) (live_items i w)" using sn(1) cart i by simp
  have "distinct (map (k_id \<circ> it_line) (live_items i w))"
    using assms(2) by (simp add: cart_ok_but_def item_ids_ok_def live_items_def distinct_map inj_on_def)
  with ids have d: "distinct (map sn_id sn)" by simp
  have "set (map sn_id sn) = set (map (k_id \<circ> it_line) (live_items i w))" using ids by simp
  then have "sn_id ` set sn = (\<lambda>x. k_id (it_line x)) ` set (live_items i w)" by (simp add: comp_def)
  with assms(5) have colon: "\<forall>p\<in>set sn. CHR '':'' \<notin> set (sn_id p)" by (metis (no_types, lifting) image_iff)
  have "variant_onhand (sv_inv (cw_svc w')) v = variant_onhand (sv_inv (cw_svc w2)) v
      - sum_where (\<lambda>p. sn_variantId p = Some v) sn_baseQuantity sn"
    by (rule consume_amount) (use 1(6,8) assms(2,4,6) cart order sn(2) d colon in
        \<open>auto simp: cart_ok_but_def service_ok_def shop_ok_def\<close>)
  moreover have "cw_orders w' = cw_orders w @ [order]"
    using consume_if_ok(2) [OF 1(8)] order(4) by (simp add: same_tables_but_stock_def)
  ultimately show ?thesis using order ids sn(3) cart i by simp
qed

lemma demo_sells:
  obtains order fx w' where "complete_tx (demo_at 60) demo_ports ''k'' None demo_world = Inr ((order, fx), w')"
    "map sn_variantId (od_products order) = [Some ''v'']"
proof -
  let ?w = demo_world and ?c = "new_cart ''k'' 0 ''c'' ''t''"
  let ?K = "\<lambda>c. ca_id c = ca_id ?c \<and> ca_status c \<in> set CURRENT_CART_VISIBLE_STATUSES \<and> ca_deleteAt c = None"
  let ?l = "\<lparr>l_cartItemId = ''i'', l_productId = ''p'', l_variantId = Some ''v'', l_quantity = 3\<rparr>"
  have pre: "lookup_findByIdOrThrow ''k'' ?w = Inr ?c" "ensureCartIsOpen (ca_status ?c) = Inr ()"
    "live_items (ca_id ?c) ?w = [demo_item]" "inventory_mode_of (ca_catalogId ?c) ?w = MODE_INTERNAL"
    "count_where ?K (cw_carts ?w) = 1" "cw_orders ?w = []" "rq_now (demo_at 60) = 60" "ca_catalogId ?c = ''c''" "ca_id ?c = ''k''"
    "shouldEnforceStockOnCheckout MODE_INTERNAL = False"
    "current_features (demo_at 60) ''c'' ?w =
       \<lparr>canUseProductVariants = False, canUseCatalogSaleUnits = True, canUseCatalogModifiers = False\<rparr>"
    "rq_gen (demo_at 60) [] = ''x''"
    by code_simp+
  have "(case buildSnapshotItems demo_ports \<lparr>canUseProductVariants = False, canUseCatalogSaleUnits = True,
      canUseCatalogModifiers = False\<rparr> False 60 ''c'' [demo_item] of Inl _ \<Rightarrow> False
      | Inr sn \<Rightarrow> map order_line_of sn = [?l])" by code_simp
  then obtain sn where sn: "buildSnapshotItems demo_ports \<lparr>canUseProductVariants = False, canUseCatalogSaleUnits = True,
      canUseCatalogModifiers = False\<rparr> False 60 ''c'' [demo_item] = Inr sn" "map order_line_of sn = [?l]"
    by (auto split: sum.splits)
  then have v: "map sn_variantId sn = [Some ''v'']" by (auto simp: order_line_of_def)
  then have t: "\<forall>p\<in>set sn. truthy (sn_variantId p)" by (auto simp: truthy_def)
  have "(case consumeCompletedOrderStockTx (demo_at 60) ''c'' ''k'' ''x'' [?l] None (cw_svc ?w) of Inl _ \<Rightarrow> False | Inr _ \<Rightarrow> True)"
    by code_simp
  then obtain e s where e: "consumeCompletedOrderStockTx (demo_at 60) ''c'' ''k'' ''x'' [?l] None (cw_svc ?w) = Inr (e, s)"
    by (auto split: sum.splits)
  define w1 where "w1 = cart_updateMany 60 ?K (convert_data 60 None) ?w"
  have w1: "cw_svc w1 = cw_svc ?w" "cw_orders w1 = []" by (simp_all add: w1_def cart_updateMany_def pre)
  obtain order where o: "create_order (demo_at 60) ?c sn w1 = Inr (order, w1\<lparr>cw_orders := [order]\<rparr>)" "od_id order = ''x''"
      "od_products order = sn"
    by (simp add: create_order_def Let_def w1 pre)
  have "consume_if_internal (demo_at 60) ?c MODE_INTERNAL ''x'' sn None (w1\<lparr>cw_orders := [order]\<rparr>) =
      Inr ((fx_catalogIds e, fx_events e), w1\<lparr>cw_orders := [order], cw_svc := s\<rparr>)"
    by (simp add: consume_if_internal_def w1 pre(8,9) sn(2) e map_error_def)
  with o t have "complete_tx (demo_at 60) demo_ports ''k'' None ?w =
      Inr ((order, (fx_catalogIds e, fx_events e)), w1\<lparr>cw_orders := [order], cw_svc := s\<rparr>)"
    using pre sn(1) by (simp add: complete_tx_def w1_def)
  moreover have "map sn_variantId (od_products order) = [Some ''v'']" unfolding o(3) by (rule v)
  ultimately show thesis by (rule that)
qed

theorem checkout_sells_cart_witness:
  "\<exists>order (w' :: cart_world). cw_orders w' = [order] \<and> variant_onhand (sv_inv (cw_svc w')) ''v'' = 7 \<and>
     map sn_baseQuantity (od_products order) = [3]"
proof -
  let ?w = demo_world
  obtain order fx w' where c: "complete_tx (demo_at 60) demo_ports ''k'' None ?w = Inr ((order, fx), w')"
      and v: "map sn_variantId (od_products order) = [Some ''v'']" by (rule demo_sells)
  have l: "lookup_findByIdOrThrow ''k'' ?w = Inr (new_cart ''k'' 0 ''c'' ''t'')" by code_simp
  have m: "inventory_mode_of (ca_catalogId (new_cart ''k'' 0 ''c'' ''t'')) ?w = MODE_INTERNAL" by code_simp
  have items: "live_items ''k'' ?w = [demo_item]" by code_simp
  have "\<forall>x\<in>set (live_items ''k'' ?w). CHR '':'' \<notin> set (k_id (it_line x))" by (simp add: items demo_item_def)
  moreover have "Some (buildSaleIdempotencyKey o' i) \<notin> sold_keys (sv_inv (cw_svc ?w))" for o' i
  proof -
    have "map m_key (movements (sv_inv (cw_svc ?w))) = [None]" by code_simp
    then show ?thesis by (simp add: sold_keys_def)
  qed
  then have "\<forall>p\<in>set (od_products order). Some (buildSaleIdempotencyKey (od_id order) (sn_id p)) \<notin> sold_keys (sv_inv (cw_svc ?w))"
    by blast
  ultimately have e: "cw_orders w' = cw_orders ?w @ [order]"
    "variant_onhand (sv_inv (cw_svc w')) ''v'' = variant_onhand (sv_inv (cw_svc ?w)) ''v''
      - sum_where (\<lambda>p. sn_variantId p = Some ''v'') sn_baseQuantity (od_products order)"
    "canUseCatalogSaleUnits (current_features (demo_at 60) (ca_catalogId (new_cart ''k'' 0 ''c'' ''t'')) ?w) \<and>
     list_all (\<lambda>x. k_saleUnit (it_line x) \<noteq> None \<or> k_baseQuantity (it_line x) = Q_null) (live_items ''k'' ?w) \<longrightarrow>
       map sn_baseQuantity (od_products order) = map (l_quantity \<circ> reservation_line) (live_items ''k'' ?w)"
    using checkout_sells_cart [OF c demo_world_ok l m, where v = "''v''"] by blast+
  have "canUseCatalogSaleUnits (current_features (demo_at 60) (ca_catalogId (new_cart ''k'' 0 ''c'' ''t'')) ?w)"
    "l_quantity (reservation_line demo_item) = 3" "variant_onhand (sv_inv (cw_svc ?w)) ''v'' = 10" "cw_orders ?w = []" by code_simp+
  with e items have q: "map sn_baseQuantity (od_products order) = [3]" "cw_orders w' = [order]"
    "variant_onhand (sv_inv (cw_svc w')) ''v'' = 10 - sum_where (\<lambda>p. sn_variantId p = Some ''v'') sn_baseQuantity (od_products order)"
    by (simp_all add: demo_item_def)
  from q(1) v obtain p where "od_products order = [p]" "sn_variantId p = Some ''v''" "sn_baseQuantity p = 3" by auto
  with q(3) have "variant_onhand (sv_inv (cw_svc w')) ''v'' = 7" by (simp add: table_simps)
  with q(1,2) show ?thesis by (intro exI conjI)
qed

text \<open>
  The last clause of C40 needs its condition: a line whose sale unit is hidden is sold by the piece
  although the cart reserved its base quantity.
\<close>

lemma hidden_unit_sells_less:
  fixes x :: cart_item
  assumes "k_baseQuantity (it_line x) = Q_num 12" "k_quantity (it_line x) = 1"
    and "snapshot_source_of ports (opts\<lparr>canUseCatalogSaleUnits := False\<rparr>) enforce cat x = Inr src"
  shows "l_quantity (reservation_line x) = 12" "resolveSnapshotBaseQuantity (ss_line src) = 1"
proof -
  have "k_saleUnit (ss_line src) = None" using snapshot_source_line(6) [OF assms(3)] by simp
  then show "resolveSnapshotBaseQuantity (ss_line src) = 1"
    using snapshot_source_line(3) [OF assms(3)] assms(2) fl_int [of 1]
    by (simp add: resolveSnapshotBaseQuantity_def resolveCartItemBaseQuantity_def)
qed (use assms(1) in \<open>simp add: reservation_line_def Let_def resolveCartItemBaseQuantity_def\<close>)

end
