(* ===== verification/Product_Contract.thy ===== *)
theory Product_Contract
  imports Product_Sellable
begin

text \<open>
  What the readers of the product side promise to the cart: an available variant is in stock when stock is
  enforced (the interface \<open>stock_reader\<close>, kept by \<^verbatim>\<open>product-sellable.service.ts\<close>), and under a price
  list the price that is shown is the price that \<^verbatim>\<open>catalog-price-list-resolver.service.ts\<close> charges.
\<close>


section \<open>Stock\<close>

definition in_stock :: "cart_world \<Rightarrow> ident \<Rightarrow> ident \<Rightarrow> int \<Rightarrow> bool" where
  "in_stock w productId variantId quantity =
     (\<exists>v\<in>set (live_variants productId (sv_inv (cw_svc w)) (cw_products w)).
        vv_id v = variantId \<and> vv_status v = V_ACTIVE \<and> vv_isAvailable v \<and>
        (case vv_stock v of None \<Rightarrow> True | Some n \<Rightarrow> max 1 quantity \<le> n))"

locale stock_reader =
  fixes ports :: snapshot_ports and stocked :: "ident \<Rightarrow> ident \<Rightarrow> int \<Rightarrow> bool"
  assumes variant_stocked: "\<lbrakk>resolveVariantSellable ports cat p v ro = Inr pj; v \<noteq> []; ro_enforceStock ro;
      pj_availabilityState pj = AVAILABLE\<rbrakk> \<Longrightarrow> stocked p v (ro_quantity ro)"
    and product_stocked: "\<lbrakk>resolveProductSellable ports cat p ro = Inr pj; ro_enforceStock ro;
      \<not> pj_requiresVariantSelection pj; pj_availabilityState pj = AVAILABLE\<rbrakk>
      \<Longrightarrow> \<exists>v. pj_variantId pj = Some v \<and> stocked p v (ro_quantity ro)"
begin

text \<open>Whichever reader a caller uses for a line, an available product has a variant in stock.\<close>

lemma line_stocked:
  assumes "(if truthy variantId then resolveVariantSellable ports cat p (the variantId) ro else resolveProductSellable ports cat p ro) = Inr pj"
    and "ro_enforceStock ro" "pj_availabilityState pj = AVAILABLE" "truthy variantId \<or> \<not> pj_requiresVariantSelection pj"
  shows "\<exists>v. stocked p v (ro_quantity ro) \<and> (truthy variantId \<longrightarrow> variantId = Some v)"
  using assms variant_stocked product_stocked by (fastforce simp: truthy_def split: if_splits option.splits)

end

lemma available_stock:
  assumes "resolveAvailabilityState status vs quantity True ign = AVAILABLE" "\<not> ign"
  shows "\<exists>v\<in>set vs. vv_status v = V_ACTIVE \<and> vv_isAvailable v \<and> (case vv_stock v of None \<Rightarrow> True | Some n \<Rightarrow> max 1 quantity \<le> n)"
  using assms by (auto simp: resolveAvailabilityState_def Let_def split: if_splits)

lemma selected_mem:
  assumes "selected_variant vs mode variantId = Some v"
  shows "v \<in> set vs"
  using assms find_Some_iff_mem [of _ vs v]
  by (auto simp: selected_variant_def resolveImplicitVariant_def findDefaultVariant_def split: if_splits option.splits list.splits)

lemma selected_none:
  assumes "selected_variant vs mode variantId = None" "\<not> truthy variantId"
  shows "mode = MATRIX \<or> vs = []"
  using assms by (auto simp: selected_variant_def resolveImplicitVariant_def split: if_splits option.splits list.splits)

text \<open>The columns of a projection, one by one.\<close>

definition price_candidates :: "product_info \<Rightarrow> variant_view list \<Rightarrow> ident option \<Rightarrow> price_context \<Rightarrow> buyer_features \<Rightarrow> variant_view list" where
  "price_candidates info vs variantId c f =
     (let mode = sellable_mode_of f vs;
          candidates = (case selected_variant vs mode variantId of
             Some v \<Rightarrow> [v] | None \<Rightarrow> resolveAvailabilityCandidates vs mode (findDefaultVariant vs))
      in if px_priceList c = None then candidates
         else filter (\<lambda>v. resolvePriceListDisplayPrice (pi_id info) v mode c f \<noteq> None) candidates)"

lemma projection_fields:
  assumes "buildProjection info vs variantId quantity enforce c f = Inr pj"
  shows "pj_mode pj = sellable_mode_of f vs"
    and "pj_variantId pj = map_option vv_id (selected_variant vs (sellable_mode_of f vs) variantId)"
    and "pj_requiresVariantSelection pj \<longleftrightarrow> sellable_mode_of f vs = MATRIX \<and> selected_variant vs (sellable_mode_of f vs) variantId = None"
    and "pj_availabilityState pj = resolveAvailabilityState (pi_status info) (price_candidates info vs variantId c f) quantity enforce
      (shouldIgnoreTechnicalVariantAvailability f enforce variantId (selected_variant vs (sellable_mode_of f vs) variantId))"
    and "pj_usesPriceList pj \<longleftrightarrow> px_priceList c \<noteq> None"
    and "\<not> (truthy variantId \<and> selected_variant vs (sellable_mode_of f vs) variantId = None)"
    and "px_priceList c \<noteq> None \<Longrightarrow> selected_variant vs (sellable_mode_of f vs) variantId = Some x \<Longrightarrow>
      (let price = resolveDisplayPrice (pi_id info) x (sellable_mode_of f vs) c f in
       pj_priceState pj = resolvePriceState price price \<and> pj_displayPrice pj = formatPrice price \<and> pj_maxPrice pj = formatPrice price)"
proof -
  show n: "\<not> (truthy variantId \<and> selected_variant vs (sellable_mode_of f vs) variantId = None)"
  proof
    assume "truthy variantId \<and> selected_variant vs (sellable_mode_of f vs) variantId = None"
    with assms show False by (simp add: buildProjection_def Let_def)
  qed
  note b = assms [unfolded buildProjection_def Let_def if_not_P [OF n] sum.inject, symmetric]
  show "pj_mode pj = sellable_mode_of f vs"
    "pj_variantId pj = map_option vv_id (selected_variant vs (sellable_mode_of f vs) variantId)"
    "pj_requiresVariantSelection pj \<longleftrightarrow> sellable_mode_of f vs = MATRIX \<and> selected_variant vs (sellable_mode_of f vs) variantId = None"
    "pj_availabilityState pj = resolveAvailabilityState (pi_status info) (price_candidates info vs variantId c f) quantity enforce
      (shouldIgnoreTechnicalVariantAvailability f enforce variantId (selected_variant vs (sellable_mode_of f vs) variantId))"
    "pj_usesPriceList pj \<longleftrightarrow> px_priceList c \<noteq> None"
    by (simp_all add: b price_candidates_def Let_def)
  show "px_priceList c \<noteq> None \<Longrightarrow> selected_variant vs (sellable_mode_of f vs) variantId = Some x \<Longrightarrow>
      (let price = resolveDisplayPrice (pi_id info) x (sellable_mode_of f vs) c f in
       pj_priceState pj = resolvePriceState price price \<and> pj_displayPrice pj = formatPrice price \<and> pj_maxPrice pj = formatPrice price)"
    by (cases "resolveDisplayPrice (pi_id info) x (sellable_mode_of f vs) c f")
      (auto simp: b resolvePriceCandidates_def List.map_filter_simps list_min_def list_max_def Let_def split: option.splits)
qed

text \<open>A projection that is available under enforcement was made for a variant that is in stock.\<close>

lemma projection_stock:
  assumes "buildProjection info vs variantId quantity True c f = Inr pj" "pj_availabilityState pj = AVAILABLE"
    and "\<not> pj_requiresVariantSelection pj"
  obtains v where "selected_variant vs (sellable_mode_of f vs) variantId = Some v" "v \<in> set vs" "pj_variantId pj = Some (vv_id v)"
    "vv_status v = V_ACTIVE" "vv_isAvailable v" "case vv_stock v of None \<Rightarrow> True | Some n \<Rightarrow> max 1 quantity \<le> n"
proof -
  let ?sel = "selected_variant vs (sellable_mode_of f vs) variantId" and ?priced = "price_candidates info vs variantId c f"
  note fields = projection_fields [OF assms(1)]
  have "resolveAvailabilityState (pi_status info) ?priced quantity True False = AVAILABLE"
    using fields(4) assms(2) by (simp add: shouldIgnoreTechnicalVariantAvailability_def)
  from available_stock [OF this] obtain v where v: "v \<in> set ?priced"
      "vv_status v = V_ACTIVE" "vv_isAvailable v" "case vv_stock v of None \<Rightarrow> True | Some n \<Rightarrow> max 1 quantity \<le> n" by auto
  show thesis
  proof (cases ?sel)
    case None
    with fields(3,6) assms(3) selected_none [OF None] have "vs = []" by auto
    with v(1) None show thesis
      by (auto simp: price_candidates_def Let_def resolveAvailabilityCandidates_def findDefaultVariant_def split: if_splits)
  next
    case (Some s)
    with v(1) have "v = s" by (auto simp: price_candidates_def Let_def split: if_splits)
    with Some v fields(2) selected_mem [OF Some] show thesis by (intro that [of v]) auto
  qed
qed

lemma sellable_Inr:
  assumes "service_resolveSellable rq w cat p variantId ro = Inr pj"
  obtains info where "pi_id info = p"
    "buildProjection info (live_variants p (sv_inv (cw_svc w)) (cw_products w)) variantId (ro_quantity ro) (ro_enforceStock ro)
       (resolveProductPriceContext rq w (ro_buyerCatalogId ro) cat [p]) (resolveBuyerFeatures rq w (ro_buyerCatalogId ro)) = Inr pj"
proof -
  from assms obtain q info where r: "product_row (\<lambda>q. p_catalogId q = cat) p (sv_inv (cw_svc w)) (cw_products w) = Some (q, info)"
    by (cases "product_row (\<lambda>q. p_catalogId q = cat) p (sv_inv (cw_svc w)) (cw_products w)") (auto simp: service_resolveSellable_def)
  with assms product_row_Some [OF r] show thesis by (intro that [of info]) (auto simp: service_resolveSellable_def)
qed

lemma sellable_in_stock:
  assumes "service_resolveSellable rq w cat p variantId ro = Inr pj" "ro_enforceStock ro" "pj_availabilityState pj = AVAILABLE"
    and "truthy variantId \<or> \<not> pj_requiresVariantSelection pj"
  shows "\<exists>v. pj_variantId pj = Some v \<and> in_stock w p v (ro_quantity ro) \<and> (truthy variantId \<longrightarrow> variantId = Some v)"
proof -
  let ?vs = "live_variants p (sv_inv (cw_svc w)) (cw_products w)"
  obtain info c f where b: "buildProjection info ?vs variantId (ro_quantity ro) True c f = Inr pj"
    using sellable_Inr [OF assms(1)] assms(2) by metis
  from projection_fields(3,6) [OF b] assms(4) have "\<not> pj_requiresVariantSelection pj" by auto
  from projection_stock [OF b assms(3) this] obtain v where v: "selected_variant ?vs (sellable_mode_of f ?vs) variantId = Some v"
      "v \<in> set ?vs" "pj_variantId pj = Some (vv_id v)" "vv_status v = V_ACTIVE" "vv_isAvailable v"
      "case vv_stock v of None \<Rightarrow> True | Some n \<Rightarrow> max 1 (ro_quantity ro) \<le> n" .
  have "truthy variantId \<longrightarrow> variantId = Some (vv_id v)"
    using v(1) find_Some_iff_mem [of "\<lambda>v. Some (vv_id v) = variantId" ?vs v] by (auto simp: selected_variant_def)
  with v(2-) show ?thesis by (auto simp: in_stock_def)
qed

interpretation reader: stock_reader "sellable_ports rq w" "in_stock w" for rq w
proof
  show "in_stock w p v (ro_quantity ro)" if "resolveVariantSellable (sellable_ports rq w) cat p v ro = Inr pj" "v \<noteq> []"
      "ro_enforceStock ro" "pj_availabilityState pj = AVAILABLE" for cat p v ro pj
    using sellable_in_stock [of rq w cat p "Some v" ro pj] that by (auto simp: sellable_ports_def truthy_def)
  show "\<exists>v. pj_variantId pj = Some v \<and> in_stock w p v (ro_quantity ro)" if "resolveProductSellable (sellable_ports rq w) cat p ro = Inr pj"
      "ro_enforceStock ro" "\<not> pj_requiresVariantSelection pj" "pj_availabilityState pj = AVAILABLE" for cat p ro pj
    using sellable_in_stock [of rq w cat p None ro pj] that by (auto simp: sellable_ports_def)
qed


section \<open>Prices of a price list\<close>

text \<open>
  The rows of \<^verbatim>\<open>catalog_price_list_prices\<close>: one per list and target, whose target is one of the columns for
  product, variant and sale unit.
\<close>

definition price_row_ok :: "price_list_price \<Rightarrow> bool" where
  "price_row_ok r =
     (case pp_target r of
        TARGET_PRODUCT \<Rightarrow> pp_targetId r = pp_productId r
      | TARGET_VARIANT \<Rightarrow> pp_variantId r = Some (pp_targetId r)
      | TARGET_SALE_UNIT \<Rightarrow> pp_saleUnitId r = Some (pp_targetId r))"

definition prices_ok :: "product_tables \<Rightarrow> bool" where
  "prices_ok pt = (distinct (map (\<lambda>r. (pp_priceListId r, pp_target r, pp_targetId r)) (pt_prices pt)) \<and>
     list_all price_row_ok (pt_prices pt))"

definition price_of_target :: "price_list_price list \<Rightarrow> price_target \<Rightarrow> ident \<Rightarrow> js_value option" where
  "price_of_target rows target i =
     map_option (toDecimalString \<circ> pp_price) (List.find (\<lambda>r. pp_target r = target \<and> pp_targetId r = i) rows)"

lemma to_fixed2_cents: "to_fixed2 (of_int n / 100) = of_int n / 100"
proof -
  have "\<lfloor>rat_of_int n + 1 / 2\<rfloor> = n" "\<lfloor>1 / 2 - rat_of_int n\<rfloor> = - n" by (rule floor_unique; simp)+
  then show ?thesis by (simp add: to_fixed2_def)
qed

lemma to_fixed2_zero [simp]: "to_fixed2 0 = 0"
  using to_fixed2_cents [of 0] by simp

lemma to_fixed2_idem [simp]: "to_fixed2 (to_fixed2 x) = to_fixed2 x"
proof -
  have "to_fixed2 x = of_int (if x < 0 then - \<lfloor>1 / 2 - 100 * x\<rfloor> else \<lfloor>100 * x + 1 / 2\<rfloor>) / 100"
    by (simp add: to_fixed2_def)
  then show ?thesis by (simp only: to_fixed2_cents)
qed

text \<open>The maps built from the rows give each target the price of its row.\<close>

lemma find_unique_snoc:
  assumes "distinct (map key (xs @ [x]))" "P x" "\<And>y. y \<in> set xs \<Longrightarrow> P y \<Longrightarrow> key y = key x"
  shows "List.find P (xs @ [x]) = Some x"
proof -
  have "key x \<notin> key ` set xs" using assms(1) by simp
  with assms(3) have "\<forall>y\<in>set xs. \<not> P y" by (metis image_eqI)
  then have "List.find P xs = None" by (simp add: find_None_all)
  then show ?thesis using assms(2) by (induction xs) (auto split: if_splits)
qed

lemma find_snoc: "\<not> P x \<Longrightarrow> List.find P (xs @ [x]) = List.find P xs"
  by (induction xs) auto

lemma context_prices:
  assumes "distinct (map (\<lambda>r. (pp_target r, pp_targetId r)) rows)" "list_all price_row_ok rows"
    and "px_productPrices c = []" "px_variantPrices c = []"
  shows "map_get (px_productPrices (foldl context_step c rows)) i = price_of_target rows TARGET_PRODUCT i"
    "i \<noteq> [] \<Longrightarrow> map_get (px_variantPrices (foldl context_step c rows)) i = price_of_target rows TARGET_VARIANT i"
  using assms(1,2)
proof (induction rows rule: rev_induct)
  case Nil
  { case 1 then show ?case using assms(3) by (simp add: price_of_target_def map_get_def) }
  { case 2 then show ?case using assms(4) by (simp add: price_of_target_def map_get_def) }
next
  case (snoc r rows)
  let ?P = "\<lambda>target s. pp_target s = target \<and> pp_targetId s = i"
  have new: "List.find (?P target) (rows @ [r]) = (if ?P target r then Some r else List.find (?P target) rows)"
    if "distinct (map (\<lambda>r. (pp_target r, pp_targetId r)) (rows @ [r]))" for target
    using find_unique_snoc [OF that, of "?P target"] find_snoc [of "?P target" r rows] by auto
  { case 1
    with snoc.IH(1) new [of TARGET_PRODUCT] show ?case
      by (cases "pp_target r") (auto simp: price_of_target_def context_step_def Let_def map_get_set price_row_ok_def split: option.splits) }
  { case 2
    with snoc.IH(2) new [of TARGET_VARIANT] show ?case
      by (cases "pp_target r") (auto simp: price_of_target_def context_step_def Let_def map_get_set price_row_ok_def split: option.splits) }
qed

lemma price_rows_ok:
  assumes "prices_ok pt"
  shows "distinct (map (\<lambda>r. (pp_target r, pp_targetId r)) (price_rows l P pt))" "list_all price_row_ok (price_rows l P pt)"
  using assms unfolding prices_ok_def price_rows_def
  by (induction "pt_prices pt" arbitrary: pt) (auto simp: list_all_iff distinct_map inj_on_def)

lemma price_context_rows:
  assumes "resolveActivePriceList rq w buyer (Some cat) = Some l" "p \<noteq> []"
  shows "resolveProductPriceContext rq w buyer cat [p] =
    foldl context_step (emptyPriceContext\<lparr>px_priceList := Some l\<rparr>) (price_rows l (\<lambda>i. i = p) (cw_products w))"
  using assms by (simp add: resolveProductPriceContext_def Let_def)

lemma context_list: "px_priceList (foldl context_step c rows) = px_priceList c"
  by (induction rows arbitrary: c) (auto simp: context_step_def Let_def split: price_target.splits option.splits)

lemma line_price_of_target:
  assumes "resolveActivePriceList rq w buyer (Some cat) = Some l" "resolveLineTarget p variantId u mode = (target, i)"
    and "price_of_target (price_rows l (\<lambda>j. j = p) (cw_products w)) target i = Some price"
  shows "ll_price (service_resolveLinePrice rq w buyer cat p variantId u mode) = price"
    "ll_priceListId (service_resolveLinePrice rq w buyer cat p variantId u mode) = Some (pr_id l)"
  using assms by (auto simp: service_resolveLinePrice_def price_of_target_def)

text \<open>
  C28. The price that is shown is the price that is charged.  When a buyer with an active price list is shown
  a price for a variant without sale units, the lookup of the price of a line with this variant finds a
  price, and it is the shown one.  In a product with a matrix of variants this is said of the matrix
  variants: the technical default variant is shown with the price of the product, and charged with a
  price of its own.
\<close>

theorem shown_price_is_charged:
  assumes "service_resolveSellable rq w cat p variantId ro = Inr pj" "pj_usesPriceList pj" "pj_priceState pj \<noteq> UNKNOWN"
    and "prices_ok (cw_products w)"
    and "selected_variant (live_variants p (sv_inv (cw_svc w)) (cw_products w)) (pj_mode pj) variantId = Some x" "vv_id x \<noteq> []"
    and "pj_mode pj = MATRIX \<longrightarrow> isMatrixVariant x"
    and "vv_saleUnits x = [] \<or> \<not> can_buy rq w (ro_buyerCatalogId ro) CATALOG_SALE_UNITS"
  shows "\<exists>pl. resolvePriceListLine (sellable_ports rq w) (ro_buyerCatalogId ro) cat p (pj_variantId pj) None pj = Inr pl \<and>
    ll_price pl = pj_displayPrice pj \<and> pj_maxPrice pj = pj_displayPrice pj"
proof -
  let ?b = "ro_buyerCatalogId ro" and ?vs = "live_variants p (sv_inv (cw_svc w)) (cw_products w)"
  let ?c = "resolveProductPriceContext rq w ?b cat [p]" and ?f = "resolveBuyerFeatures rq w ?b"
  obtain info where b: "buildProjection info ?vs variantId (ro_quantity ro) (ro_enforceStock ro) ?c ?f = Inr pj" "pi_id info = p"
    by (rule sellable_Inr [OF assms(1)])
  note fields = projection_fields [OF b(1)]
  let ?m = "pj_mode pj" and ?rows = "\<lambda>l. price_rows l (\<lambda>i. i = p) (cw_products w)"
  have list: "px_priceList ?c \<noteq> None" using fields(5) assms(2) by simp
  then obtain l where l: "resolveActivePriceList rq w ?b (Some cat) = Some l"
    by (auto simp: resolveProductPriceContext_def emptyPriceContext_def split: option.splits)
  define price where "price = resolveDisplayPrice p x ?m ?c ?f"
  have shown: "pj_priceState pj = resolvePriceState price price" "pj_displayPrice pj = formatPrice price" "pj_maxPrice pj = formatPrice price"
    using fields(1) fields(7) [OF list, of x] assms(5) b(2) by (simp_all add: price_def Let_def)
  obtain a where a: "price = Some a" using shown(1) assms(3) by (cases price) (auto simp: resolvePriceState_def)
  have "p \<noteq> []"
  proof
    assume "p = []"
    with a l assms(8) show False
      by (auto simp: resolveBuyerFeatures_def price_def resolveDisplayPrice_def resolvePriceListDisplayPrice_def resolveProductPriceContext_def emptyPriceContext_def
          map_get_def Let_def split: if_splits option.splits)
  qed
  note ctx = price_context_rows [OF l this]
  obtain target i where t: "resolveLineTarget p (pj_variantId pj) None ?m = (target, i)" by fastforce
  have v: "pj_variantId pj = Some (vv_id x)" using fields(1,2) assms(5) by simp
  have "Option.bind (price_of_target (?rows l) target i) toFiniteNumber = Some a"
    using a t v assms(6-8) context_prices [OF price_rows_ok [OF assms(4)], of "emptyPriceContext\<lparr>px_priceList := Some l\<rparr>"] list
    by (auto simp: price_def resolveDisplayPrice_def resolvePriceListDisplayPrice_def ctx context_list resolveLineTarget_def truthy_def
        resolveBuyerFeatures_def emptyPriceContext_def split: if_splits)
  then obtain y where y: "price_of_target (?rows l) target i = Some (toDecimalString y)" "toDecimalString y = Finite a"
    by (auto simp: price_of_target_def bind_eq_Some_conv elim: toFiniteNumber.elims)
  then have "to_fixed2 a = a" by (cases y) (auto simp: toDecimalString_def)
  with a shown(2,3) have "pj_displayPrice pj = Finite a" "pj_maxPrice pj = Finite a" by (simp_all add: formatPrice_def)
  with line_price_of_target [OF l t y(1)] y(2) assms(2) show ?thesis
    by (simp add: resolvePriceListLine_def sellable_ports_def Let_def)
qed

definition demo_priced :: cart_world where
  "demo_priced = \<lparr>cw_carts = [], cw_items = [], cw_sessions = [], cw_orders = [],
     cw_catalogs = [\<lparr>cg_id = ''c'', cg_userId = Some ''u'', cg_parentId = None, cg_activePriceListId = Some ''l'', cg_deleteAt = None\<rparr>],
     cw_products = \<lparr>pt_products = [\<lparr>pi_id = ''p'', pi_sku = ''P'', pi_price = Finite 20, pi_status = P_ACTIVE, pi_attributes = []\<rparr>],
       pt_variants = [\<lparr>vi_id = ''v'', vi_sku = ''P'', vi_variantKey = ''default'', vi_kind = K_DEFAULT, vi_price = Finite 20,
         vi_status = V_ACTIVE, vi_isAvailable = True, vi_attributes = [], vi_createdAt = 0\<rparr>],
       pt_saleUnits = [], pt_groups = [],
       pt_priceLists = [\<lparr>pr_id = ''l'', pr_catalogId = ''c'', pr_code = ''VIP'', pr_name = ''VIP'', pr_isActive = True, pr_displayOrder = 0, pr_deleteAt = None\<rparr>],
       pt_prices = [\<lparr>pp_priceListId = ''l'', pp_target = TARGET_PRODUCT, pp_targetId = ''p'', pp_productId = ''p'', pp_variantId = None,
         pp_saleUnitId = None, pp_price = Finite 15, pp_deleteAt = None\<rparr>]\<rparr>,
     cw_svc = demo_service\<lparr>sv_entitlements := [\<lparr>en_catalogId = ''c'', en_feature = ''catalog.price_lists'', en_enabled = True, en_expiresAt = None\<rparr>]\<rparr>\<rparr>"

theorem shown_price_is_charged_witness:
  "\<exists>pj pl. service_resolveSellable demo_request demo_priced ''c'' ''p'' (Some ''v'') \<lparr>ro_quantity = 1, ro_enforceStock = False, ro_buyerCatalogId = ''c''\<rparr> = Inr pj \<and>
     resolvePriceListLine (sellable_ports demo_request demo_priced) ''c'' ''c'' ''p'' (pj_variantId pj) None pj = Inr pl \<and>
     ll_price pl = Finite 15"
proof -
  let ?ro = "\<lparr>ro_quantity = 1, ro_enforceStock = False, ro_buyerCatalogId = ''c''\<rparr>"
  let ?vs = "live_variants ''p'' (sv_inv (cw_svc demo_priced)) (cw_products demo_priced)"
  have "(case service_resolveSellable demo_request demo_priced ''c'' ''p'' (Some ''v'') ?ro of Inl _ \<Rightarrow> False
      | Inr pj \<Rightarrow> pj_usesPriceList pj \<and> pj_priceState pj = KNOWN \<and> pj_mode pj = SIMPLE \<and> pj_displayPrice pj = Finite 15)" by code_simp
  then obtain pj where pj: "service_resolveSellable demo_request demo_priced ''c'' ''p'' (Some ''v'') ?ro = Inr pj"
      "pj_usesPriceList pj" "pj_priceState pj = KNOWN" "pj_mode pj = SIMPLE" "pj_displayPrice pj = Finite 15" by (auto split: sum.splits)
  have ok: "prices_ok (cw_products demo_priced)" by code_simp
  have "(case selected_variant ?vs SIMPLE (Some ''v'') of None \<Rightarrow> False | Some x \<Rightarrow> vv_id x \<noteq> [] \<and> vv_saleUnits x = [])" by code_simp
  then obtain x where x: "selected_variant ?vs SIMPLE (Some ''v'') = Some x" "vv_id x \<noteq> []" "vv_saleUnits x = []" by (auto split: option.splits)
  from shown_price_is_charged [OF pj(1,2) _ ok, of x] pj x show ?thesis by auto
qed

end
