(* ===== verification/Price_Lists.thy ===== *)
theory Price_Lists
  imports Product_Contract
begin

text \<open>
  The management of price lists (\<^verbatim>\<open>catalog-price-list.service.ts\<close> over
  \<^verbatim>\<open>catalog-price-list.repository.ts\<close>): the lists of an owner catalog, the prices of a list, and the choice
  of the list by which a catalog buys.  The lists and prices are the tables the resolver reads.
  \<^verbatim>\<open>slugify\<close> is a parameter.
\<close>


section \<open>Requests and results\<close>

datatype list_error =
    Scope_not_found
  | Only_parent_catalog
  | List_feature forbidden_message
  | Name_required
  | Code_required
  | Code_used
  | No_update_fields
  | List_not_found
  | Target_id_missing
  | Target_duplicated
  | Target_not_in_catalog price_target
  | Price_invalid
  | List_unavailable
  | List_db db_error

record catalog_scope =
  cs_catalogId :: ident
  cs_ownerCatalogId :: ident
  cs_isChild :: bool

record list_create =
  dt_name :: "string option"
  dt_code :: "string option"
  dt_isActive :: "bool option"
  dt_displayOrder :: "int option"

type_synonym list_update = list_create

record price_input =
  in_target :: price_target
  in_targetId :: string
  in_price :: js_value

record normalized_price =
  np_target :: price_target
  np_targetId :: ident
  np_productId :: ident
  np_variantId :: "ident option"
  np_saleUnitId :: "ident option"
  np_price :: "rat option"


definition given :: "'a \<Rightarrow> 'a option \<Rightarrow> 'a" where
  "given d x = (case x of None \<Rightarrow> d | Some y \<Rightarrow> y)"


section \<open>Tables\<close>

definition lists_update :: "(price_list list \<Rightarrow> price_list list) \<Rightarrow> cart_world \<Rightarrow> cart_world" where
  "lists_update f w = w\<lparr>cw_products := (cw_products w)\<lparr>pt_priceLists := f (pt_priceLists (cw_products w))\<rparr>\<rparr>"

definition prices_update :: "(price_list_price list \<Rightarrow> price_list_price list) \<Rightarrow> cart_world \<Rightarrow> cart_world" where
  "prices_update f w = w\<lparr>cw_products := (cw_products w)\<lparr>pt_prices := f (pt_prices (cw_products w))\<rparr>\<rparr>"

definition list_findById :: "ident \<Rightarrow> ident \<Rightarrow> bool \<Rightarrow> cart_world \<Rightarrow> price_list option" where
  "list_findById i catalogId includeArchived w =
     List.find (\<lambda>l. pr_id l = i \<and> pr_catalogId l = catalogId \<and> (includeArchived \<or> pr_deleteAt l = None)) (pt_priceLists (cw_products w))"

definition findByCode :: "ident \<Rightarrow> string \<Rightarrow> cart_world \<Rightarrow> price_list option" where
  "findByCode catalogId code w =
     List.find (\<lambda>l. pr_catalogId l = catalogId \<and> pr_code l = code) (pt_priceLists (cw_products w))"

definition existsCode :: "ident \<Rightarrow> string \<Rightarrow> ident \<Rightarrow> cart_world \<Rightarrow> bool" where
  "existsCode catalogId code excludeId w =
     (case findByCode catalogId code w of None \<Rightarrow> False | Some l \<Rightarrow> pr_id l \<noteq> excludeId)"

text \<open>\<^verbatim>\<open>updateManyAndReturn\<close> by identifier and catalog, with the first row it returns.\<close>

definition list_updateRow ::
    "ident \<Rightarrow> ident \<Rightarrow> (price_list \<Rightarrow> price_list) \<Rightarrow> cart_world \<Rightarrow> list_error + (price_list \<times> cart_world)" where
  "list_updateRow i catalogId f w =
     bindE (option_to_res List_not_found (list_findById i catalogId True w))
       (\<lambda>l. Inr (f l, lists_update (update_where (\<lambda>l. pr_id l = i \<and> pr_catalogId l = catalogId) f) w))"

definition list_createRow :: "request \<Rightarrow> price_list \<Rightarrow> cart_world \<Rightarrow> list_error + (price_list \<times> cart_world)" where
  "list_createRow rq row w =
     (let ls = pt_priceLists (cw_products w); i = rq_gen rq (map pr_id ls) in
      if i \<in> pr_id ` set ls \<or> (\<exists>l\<in>set ls. pr_catalogId l = pr_catalogId row \<and> pr_code l = pr_code row)
      then Inl (List_db UniqueViolation)
      else Inr (row\<lparr>pr_id := i\<rparr>, lists_update (\<lambda>ls. ls @ [row\<lparr>pr_id := i\<rparr>]) w))"


section \<open>Guards and caches\<close>

definition resolveScope :: "request \<Rightarrow> cart_world \<Rightarrow> list_error + catalog_scope" where
  "resolveScope rq w =
     (case List.find (\<lambda>g. cg_id g = rq_catalogId rq \<and> cg_deleteAt g = None) (cw_catalogs w) of
        None \<Rightarrow> Inl Scope_not_found
      | Some g \<Rightarrow> Inr \<lparr>cs_catalogId = cg_id g, cs_ownerCatalogId = (case cg_parentId g of None \<Rightarrow> cg_id g | Some p \<Rightarrow> p),
          cs_isChild = truthy (cg_parentId g)\<rparr>)"

definition assertMainCatalog :: "catalog_scope \<Rightarrow> list_error + unit" where
  "assertMainCatalog sc = guardE (\<not> cs_isChild sc) Only_parent_catalog"

definition assert_feature :: "request \<Rightarrow> cart_world \<Rightarrow> capability \<Rightarrow> ident \<Rightarrow> list_error + unit" where
  "assert_feature rq w c catalogId =
     map_sum List_feature id (assertCanUseFeature (rq_tz rq) (sv_entitlements (cw_svc w)) (rq_now rq) c catalogId)"

definition manager_scope :: "request \<Rightarrow> cart_world \<Rightarrow> list_error + catalog_scope" where
  "manager_scope rq w =
     bindE (resolveScope rq w)
       (\<lambda>sc. bindE (assertMainCatalog sc)
       (\<lambda>_. bindE (assert_feature rq w CATALOG_PRICE_LISTS (cs_catalogId sc)) (\<lambda>_. Inr sc)))"

definition bump_all :: "string list \<Rightarrow> ident \<Rightarrow> cart_world \<Rightarrow> cart_world" where
  "bump_all scopes catalogId w =
     w\<lparr>cw_svc := (cw_svc w)\<lparr>sv_ev := (sv_ev (cw_svc w))\<lparr>ev_world :=
        foldl (\<lambda>c s. snd (bumpVersion s (Some catalogId) c)) (ev_world (sv_ev (cw_svc w))) scopes\<rparr>\<rparr>\<rparr>"

definition invalidateProductReadCaches :: "ident \<Rightarrow> cart_world \<Rightarrow> cart_world" where
  "invalidateProductReadCaches = bump_all [PRODUCTS_CACHE_VERSION, CATEGORY_PRODUCTS_CACHE_VERSION]"

definition invalidateCurrentCatalogAndProductReadCaches :: "ident \<Rightarrow> cart_world \<Rightarrow> cart_world" where
  "invalidateCurrentCatalogAndProductReadCaches =
     bump_all [CATALOG_CACHE_VERSION, PRODUCTS_CACHE_VERSION, CATEGORY_PRODUCTS_CACHE_VERSION]"


section \<open>Lists\<close>

definition is_edge :: "char \<Rightarrow> bool" where
  "is_edge c = (c = CHR ''-'' \<or> c = CHR ''_'')"

definition buildCodeBase :: "(string \<Rightarrow> string) \<Rightarrow> string \<Rightarrow> string" where
  "buildCodeBase slug value =
     (let stripped = rev (dropWhile is_edge (rev (dropWhile is_edge (collapse_dashes (slug value)))));
          code = take 100 stripped
      in if code = [] then ''price-list'' else code)"

definition normalizeName :: "list_error \<Rightarrow> string option \<Rightarrow> list_error + string" where
  "normalizeName e value = option_to_res e (trimToNull value)"

text \<open>A list with the code of an archived one is that list, brought back with its prices.\<close>

definition save_list ::
    "(string \<Rightarrow> string) \<Rightarrow> request \<Rightarrow> ident \<Rightarrow> string \<Rightarrow> list_create \<Rightarrow> cart_world \<Rightarrow> list_error + (price_list \<times> cart_world)" where
  "save_list slug rq owner name dto w =
     (let code = buildCodeBase slug (case trimToNull (dt_code dto) of Some c \<Rightarrow> c | None \<Rightarrow> name)
      in case findByCode owner code w of
           Some l \<Rightarrow>
             if pr_deleteAt l = None then Inl Code_used
             else list_updateRow (pr_id l) owner
               (\<lambda>x. x\<lparr>pr_name := name, pr_isActive := given True (dt_isActive dto),
                  pr_displayOrder := given (pr_displayOrder l) (dt_displayOrder dto), pr_deleteAt := None\<rparr>) w
         | None \<Rightarrow> list_createRow rq \<lparr>pr_id = [], pr_catalogId = owner, pr_code = code, pr_name = name,
             pr_isActive = given True (dt_isActive dto), pr_displayOrder = given 0 (dt_displayOrder dto),
             pr_deleteAt = None\<rparr> w)"

definition create_list :: "(string \<Rightarrow> string) \<Rightarrow> request \<Rightarrow> list_create \<Rightarrow> cart_world \<Rightarrow> list_error + (price_list \<times> cart_world)" where
  "create_list slug rq dto w =
     bindE (manager_scope rq w)
       (\<lambda>sc. bindE (normalizeName Name_required (dt_name dto))
       (\<lambda>name. save_list slug rq (cs_ownerCatalogId sc) name dto w))"

definition update_list ::
    "(string \<Rightarrow> string) \<Rightarrow> request \<Rightarrow> ident \<Rightarrow> list_update \<Rightarrow> cart_world \<Rightarrow> list_error + (price_list \<times> cart_world)" where
  "update_list slug rq i dto w =
     bindE (manager_scope rq w)
       (\<lambda>sc. bindE (option_to_res List_not_found (list_findById i (cs_ownerCatalogId sc) True w))
       (\<lambda>_. bindE (case dt_name dto of None \<Rightarrow> Inr None | Some n \<Rightarrow> map_sum id Some (normalizeName Name_required (Some n)))
       (\<lambda>name. bindE (case dt_code dto of None \<Rightarrow> Inr None
                  | Some c \<Rightarrow> bindE (normalizeName Code_required (Some c))
                      (\<lambda>c. if existsCode (cs_ownerCatalogId sc) (buildCodeBase slug c) i w then Inl Code_used
                            else Inr (Some (buildCodeBase slug c))))
       (\<lambda>code. if name = None \<and> code = None \<and> dt_isActive dto = None \<and> dt_displayOrder dto = None
               then Inl No_update_fields
               else bindE (list_updateRow i (cs_ownerCatalogId sc)
                       (\<lambda>x. x\<lparr>pr_name := given (pr_name x) name, pr_code := given (pr_code x) code,
                          pr_isActive := given (pr_isActive x) (dt_isActive dto),
                          pr_displayOrder := given (pr_displayOrder x) (dt_displayOrder dto),
                          pr_deleteAt := (if dt_isActive dto = Some True then None else pr_deleteAt x)\<rparr>) w)
                 (\<lambda>(l, w'). Inr (l, invalidateProductReadCaches (cs_ownerCatalogId sc) w'))))))"

definition archive_list :: "request \<Rightarrow> ident \<Rightarrow> cart_world \<Rightarrow> list_error + (bool \<times> cart_world)" where
  "archive_list rq i w =
     bindE (manager_scope rq w)
       (\<lambda>sc. bindE (list_updateRow i (cs_ownerCatalogId sc)
                (\<lambda>x. x\<lparr>pr_deleteAt := Some (rq_now rq), pr_isActive := False\<rparr>) w)
       (\<lambda>(_, w'). Inr (True, invalidateProductReadCaches (cs_ownerCatalogId sc) w')))"

definition setActivePriceList :: "request \<Rightarrow> string option \<Rightarrow> cart_world \<Rightarrow> list_error + (ident option \<times> cart_world)" where
  "setActivePriceList rq requested w =
     bindE (resolveScope rq w)
       (\<lambda>sc. bindE (assert_feature rq w CATALOG_PRICE_LISTS (cs_catalogId sc))
       (\<lambda>_. let active = trimToNull requested in
            bindE (case active of None \<Rightarrow> Inr ()
                   | Some i \<Rightarrow> guardE (case list_findById i (cs_ownerCatalogId sc) False w of
                        None \<Rightarrow> False | Some l \<Rightarrow> pr_isActive l \<and> pr_deleteAt l = None) List_unavailable)
       (\<lambda>_. Inr (active, invalidateCurrentCatalogAndProductReadCaches (cs_catalogId sc)
              (w\<lparr>cw_catalogs := update_where (\<lambda>g. cg_id g = cs_catalogId sc) (\<lambda>g. g\<lparr>cg_activePriceListId := active\<rparr>) (cw_catalogs w)\<rparr>)))))"


section \<open>Sale units by identity\<close>

text \<open>
  A sale unit with the product and the key of its variant, as \<^verbatim>\<open>saleUnitIdentitySelect\<close> reads it.  Letters
  are lowered in the ASCII range.
\<close>

record unit_identity =
  ui_unit :: sale_unit_row
  ui_productId :: ident
  ui_variantKey :: "string option"

definition catalog_product :: "ident \<Rightarrow> inv_db \<Rightarrow> ident \<Rightarrow> bool" where
  "catalog_product catalogId db productId =
     (\<exists>p\<in>set (products db). p_id p = productId \<and> p_catalogId p = catalogId \<and> p_deleteAt p = None)"

definition unit_identities :: "(sale_unit_row \<Rightarrow> variant \<Rightarrow> bool) \<Rightarrow> cart_world \<Rightarrow> unit_identity list" where
  "unit_identities P w =
     List.map_filter (\<lambda>u.
        case variant_by_id (sv_inv (cw_svc w)) (sr_variantId u) of
          None \<Rightarrow> None
        | Some v \<Rightarrow> if P u v
            then Some \<lparr>ui_unit = u, ui_productId = v_productId v,
              ui_variantKey = map_option vi_variantKey (List.find (\<lambda>i. vi_id i = v_id v) (pt_variants (cw_products w)))\<rparr>
            else None)
       (pt_saleUnits (cw_products w))"

definition normalizeIdentityValue :: "string option \<Rightarrow> string" where
  "normalizeIdentityValue value = map to_lower (trim (given [] value))"

definition show_fixed4 :: "rat \<Rightarrow> string" where
  "show_fixed4 x =
     (let n = nat \<lfloor>10000 * \<bar>x\<bar> + 1 / 2\<rfloor>; digits = show_nat (n mod 10000)
      in (if x < 0 then ''-'' else []) @ show_nat (n div 10000) @ ''.'' @ replicate (4 - length digits) CHR ''0'' @ digits)"

definition normalizeQuantityKey :: "js_value \<Rightarrow> string" where
  "normalizeQuantityKey value = (case value of Finite x \<Rightarrow> show_fixed4 x | Nullish \<Rightarrow> show_fixed4 0 | Unreadable \<Rightarrow> [])"

definition buildSaleUnitIdentityKeys :: "unit_identity \<Rightarrow> string list" where
  "buildSaleUnitIdentityKeys x =
     (let u = ui_unit x; v = sr_variantId u; p = ui_productId x; variantKey = normalizeIdentityValue (ui_variantKey x);
          code = normalizeIdentityValue (Some (sr_code u)); name = normalizeIdentityValue (Some (sr_name u));
          quantity = normalizeQuantityKey (su_baseQuantity (sr_unit u));
          keyed = (\<lambda>tag parts. if variantKey = [] then [] else [join_colon ([tag, p, variantKey] @ parts)])
      in [join_colon [''id'', sr_id u]] @
         (if truthy (sr_catalogSaleUnitId u)
          then join_colon [''catalog'', v, the (sr_catalogSaleUnitId u)] # keyed ''catalog-key'' [the (sr_catalogSaleUnitId u)] else []) @
         (if code \<noteq> [] then join_colon [''code'', v, code] # keyed ''code-key'' [code] else []) @
         (if name \<noteq> [] \<and> quantity \<noteq> []
          then join_colon [''name'', v, name, quantity] # keyed ''name-key'' [name, quantity] else []))"

definition buildSaleUnitIdentityMap :: "unit_identity list \<Rightarrow> (string \<times> unit_identity) list" where
  "buildSaleUnitIdentityMap xs =
     foldl (\<lambda>m x. foldl (\<lambda>m k. if map_get m k = None then map_set k x m else m) m (buildSaleUnitIdentityKeys x)) [] xs"

definition live_unit_of :: "ident \<Rightarrow> cart_world \<Rightarrow> ident list \<Rightarrow> unit_identity list" where
  "live_unit_of catalogId w ids =
     unit_identities (\<lambda>u v. sr_id u \<in> set ids \<and> sr_deleteAt u = None \<and> catalog_product catalogId (sv_inv (cw_svc w)) (v_productId v)) w"

definition mapDetachedSaleUnitTargetsToCurrentUnits ::
    "ident \<Rightarrow> ident list \<Rightarrow> (ident \<times> unit_identity) list \<Rightarrow> cart_world \<Rightarrow> (ident \<times> unit_identity) list" where
  "mapDetachedSaleUnitTargetsToCurrentUnits catalogId targetIds byId w =
     (let missing = filter (\<lambda>i. map_get byId i = None) (remdups targetIds); db = sv_inv (cw_svc w);
          detached = unit_identities (\<lambda>u v. sr_id u \<in> set missing \<and> catalog_product catalogId db (v_productId v)) w;
          currents = unit_identities (\<lambda>u v. sr_deleteAt u = None \<and> v_productId v \<in> ui_productId ` set detached \<and>
            v_deleteAt v = None \<and> catalog_product catalogId db (v_productId v)) w;
          byIdentity = buildSaleUnitIdentityMap currents
      in foldl (\<lambda>m x.
            case List.find (\<lambda>k. map_get byIdentity k \<noteq> None) (buildSaleUnitIdentityKeys x) of
              None \<Rightarrow> m
            | Some k \<Rightarrow> map_set (sr_id (ui_unit x)) (the (map_get byIdentity k)) m)
           byId detached)"


section \<open>Prices\<close>

definition normalizePrice :: "js_value \<Rightarrow> list_error + rat option" where
  "normalizePrice value =
     (case value of
        Nullish \<Rightarrow> Inr None
      | Finite x \<Rightarrow> if x < 0 then Inl Price_invalid else Inr (Some (to_fixed2 x))
      | Unreadable \<Rightarrow> Inl Price_invalid)"

definition collect_step :: "(price_target \<times> ident) list \<Rightarrow> price_input \<Rightarrow> list_error + (price_target \<times> ident) list" where
  "collect_step seen i =
     (let t = trim (in_targetId i) in
      if t = [] then Inl Target_id_missing
      else if (in_target i, t) \<in> set seen then Inl Target_duplicated
      else Inr (seen @ [(in_target i, t)]))"

definition normalize_price ::
    "ident \<Rightarrow> (ident \<times> unit_identity) list \<Rightarrow> cart_world \<Rightarrow> price_input \<Rightarrow> list_error + normalized_price" where
  "normalize_price catalogId unitsById w i =
     (let t = trim (in_targetId i); target = in_target i; db = sv_inv (cw_svc w) in
      bindE (normalizePrice (in_price i))
       (\<lambda>price. case target of
          TARGET_PRODUCT \<Rightarrow>
            if catalog_product catalogId db t
            then Inr \<lparr>np_target = target, np_targetId = t, np_productId = t, np_variantId = None, np_saleUnitId = None, np_price = price\<rparr>
            else Inl (Target_not_in_catalog target)
        | TARGET_VARIANT \<Rightarrow>
            (case List.find (\<lambda>v. v_id v = t \<and> v_deleteAt v = None \<and> catalog_product catalogId db (v_productId v)) (variants db) of
               None \<Rightarrow> Inl (Target_not_in_catalog target)
             | Some v \<Rightarrow> Inr \<lparr>np_target = target, np_targetId = t, np_productId = v_productId v, np_variantId = Some (v_id v),
                 np_saleUnitId = None, np_price = price\<rparr>)
        | TARGET_SALE_UNIT \<Rightarrow>
            (case map_get unitsById t of
               None \<Rightarrow> Inl (Target_not_in_catalog target)
             | Some x \<Rightarrow> Inr \<lparr>np_target = target, np_targetId = sr_id (ui_unit x), np_productId = ui_productId x,
                 np_variantId = Some (sr_variantId (ui_unit x)), np_saleUnitId = Some (sr_id (ui_unit x)), np_price = price\<rparr>)))"

definition normalizePrices :: "ident \<Rightarrow> price_input list \<Rightarrow> cart_world \<Rightarrow> list_error + normalized_price list" where
  "normalizePrices catalogId input w =
     bindE (foldE collect_step [] input)
       (\<lambda>seen. let ids = map snd (filter (\<lambda>k. fst k = TARGET_SALE_UNIT) seen);
                   byId = foldl (\<lambda>m x. map_set (sr_id (ui_unit x)) x m) [] (live_unit_of catalogId w ids)
               in mapE (normalize_price catalogId (mapDetachedSaleUnitTargetsToCurrentUnits catalogId ids byId w) w) input)"

definition assertCanUsePriceTargets :: "request \<Rightarrow> cart_world \<Rightarrow> ident \<Rightarrow> price_input list \<Rightarrow> list_error + unit" where
  "assertCanUsePriceTargets rq w catalogId prices =
     bindE (if \<exists>p\<in>set prices. in_target p = TARGET_VARIANT then assert_feature rq w PRODUCT_VARIANTS catalogId else Inr ())
       (\<lambda>_. if \<exists>p\<in>set prices. in_target p = TARGET_SALE_UNIT then assert_feature rq w CATALOG_SALE_UNITS catalogId else Inr ())"

definition archiveConflictingVariantTargetPrices ::
    "time \<Rightarrow> ident \<Rightarrow> normalized_price \<Rightarrow> price_list_price list \<Rightarrow> price_list_price list" where
  "archiveConflictingVariantTargetPrices now listId p rows =
     (let archive = (\<lambda>target. update_where (\<lambda>r. pp_priceListId r = listId \<and> pp_variantId r = np_variantId p \<and>
            pp_target r = target \<and> pp_deleteAt r = None) (\<lambda>r. r\<lparr>pp_deleteAt := Some now\<rparr>) rows)
      in if \<not> truthy (np_variantId p) then rows
         else case np_target p of
           TARGET_VARIANT \<Rightarrow> archive TARGET_SALE_UNIT
         | TARGET_SALE_UNIT \<Rightarrow> archive TARGET_VARIANT
         | TARGET_PRODUCT \<Rightarrow> rows)"

definition price_key :: "price_list_price \<Rightarrow> ident \<times> price_target \<times> ident" where
  "price_key r = (pp_priceListId r, pp_target r, pp_targetId r)"

definition upsert_price :: "ident \<Rightarrow> normalized_price \<Rightarrow> rat \<Rightarrow> price_list_price list \<Rightarrow> price_list_price list" where
  "upsert_price listId p price rows =
     (let key = (listId, np_target p, np_targetId p) in
      if \<exists>r\<in>set rows. price_key r = key
      then update_where (\<lambda>r. price_key r = key)
        (\<lambda>r. r\<lparr>pp_productId := np_productId p, pp_variantId := np_variantId p, pp_saleUnitId := np_saleUnitId p,
           pp_price := Finite price, pp_deleteAt := None\<rparr>) rows
      else rows @ [\<lparr>pp_priceListId = listId, pp_target = np_target p, pp_targetId = np_targetId p, pp_productId = np_productId p,
        pp_variantId = np_variantId p, pp_saleUnitId = np_saleUnitId p, pp_price = Finite price, pp_deleteAt = None\<rparr>])"

definition price_step :: "time \<Rightarrow> ident \<Rightarrow> price_list_price list \<Rightarrow> normalized_price \<Rightarrow> price_list_price list" where
  "price_step now listId rows p =
     (case np_price p of
        None \<Rightarrow> update_where (\<lambda>r. price_key r = (listId, np_target p, np_targetId p)) (\<lambda>r. r\<lparr>pp_deleteAt := Some now\<rparr>) rows
      | Some price \<Rightarrow> upsert_price listId p price (archiveConflictingVariantTargetPrices now listId p rows))"

fun target_rank :: "price_target \<Rightarrow> nat" where
  "target_rank TARGET_PRODUCT = 0"
| "target_rank TARGET_VARIANT = 1"
| "target_rank TARGET_SALE_UNIT = 2"

definition getPrices :: "request \<Rightarrow> ident \<Rightarrow> bool \<Rightarrow> cart_world \<Rightarrow> list_error + price_list_price list" where
  "getPrices rq i includeArchived w =
     bindE (resolveScope rq w)
       (\<lambda>sc. bindE (assert_feature rq w CATALOG_PRICE_LISTS (cs_catalogId sc))
       (\<lambda>_. bindE (option_to_res List_not_found (list_findById i (cs_ownerCatalogId sc) includeArchived w))
       (\<lambda>_. Inr (sort_key (\<lambda>r. (pp_productId r, target_rank (pp_target r)))
             (filter (\<lambda>r. pp_priceListId r = i \<and> (includeArchived \<or> pp_deleteAt r = None)) (pt_prices (cw_products w)))))))"

definition bulkUpsertPrices ::
    "request \<Rightarrow> ident \<Rightarrow> price_input list \<Rightarrow> cart_world \<Rightarrow> list_error + (price_list_price list \<times> cart_world)" where
  "bulkUpsertPrices rq i input w =
     bindE (manager_scope rq w)
       (\<lambda>sc. bindE (assertCanUsePriceTargets rq w (cs_catalogId sc) input)
       (\<lambda>_. bindE (option_to_res List_not_found (list_findById i (cs_ownerCatalogId sc) False w))
       (\<lambda>_. bindE (normalizePrices (cs_ownerCatalogId sc) input w)
       (\<lambda>prices. let w' = invalidateProductReadCaches (cs_ownerCatalogId sc)
                       (prices_update (\<lambda>rows. foldl (price_step (rq_now rq) i) rows prices) w)
                  in bindE (getPrices rq i False w') (\<lambda>rows. Inr (rows, w'))))))"

end
