(* ===== verification/Cart_Limits.thy ===== *)
theory Cart_Limits
  imports Cart_Life
begin

text \<open>
  How many lines a cart can have.  Only an upsert adds a live line, after it has counted them; every
  other call keeps the lines or archives some.
\<close>


section \<open>Counting live lines\<close>

definition live_count :: "ident \<Rightarrow> cart_item list \<Rightarrow> nat" where
  "live_count i xs = count_where (\<lambda>x. it_cartId x = i \<and> item_live x) xs"

definition lines_bounded :: "cart_world \<Rightarrow> bool" where
  "lines_bounded w = list_all (\<lambda>y. live_count (it_cartId y) (cw_items w) \<le> MAX_CART_ITEMS) (cw_items w)"

definition shrinks :: "cart_item list \<Rightarrow> cart_item list \<Rightarrow> bool" where
  "shrinks xs ys \<longleftrightarrow> (\<forall>i. live_count i ys \<le> live_count i xs)"

lemma live_count_simps [simp]:
  "live_count i [] = 0"
  "live_count i (x # xs) = (if it_cartId x = i \<and> item_live x then 1 else 0) + live_count i xs"
  "live_count i (xs @ ys) = live_count i xs + live_count i ys"
  by (simp_all add: live_count_def count_where_def)

lemma live_count_None: "i \<notin> it_cartId ` set xs \<Longrightarrow> live_count i xs = 0"
  by (induction xs) auto

lemma lines_bounded_iff: "lines_bounded w \<longleftrightarrow> (\<forall>i. live_count i (cw_items w) \<le> MAX_CART_ITEMS)"
  using live_count_None [of _ "cw_items w"] by (auto simp: lines_bounded_def list_all_iff) (metis imageE le0)

lemma shrinks_refl [simp]: "shrinks xs xs"
  by (simp add: shrinks_def)

lemma shrinks_trans: "shrinks xs ys \<Longrightarrow> shrinks ys zs \<Longrightarrow> shrinks xs zs"
  unfolding shrinks_def using le_trans by blast

lemma bounded_shrinks: "lines_bounded w \<Longrightarrow> shrinks (cw_items w) (cw_items w') \<Longrightarrow> lines_bounded w'"
  unfolding lines_bounded_iff shrinks_def using le_trans by blast

lemma shrinks_update:
  "(\<And>x. x \<in> set xs \<Longrightarrow> P x \<Longrightarrow> it_cartId (f x) = it_cartId x \<and> (item_live (f x) \<longrightarrow> item_live x)) \<Longrightarrow> shrinks xs (update_where P f xs)"
proof (induction xs)
  case (Cons x xs)
  then have "shrinks xs (update_where P f xs)" by simp
  with Cons.prems [of x] show ?case by (auto simp: shrinks_def table_simps intro: le_SucI)
qed (simp add: table_simps)

lemma shrinks_join: "shrinks xs (map (join_item db pt) xs)"
  by (induction xs) (auto simp: shrinks_def item_live_def)

lemma update_one_count:
  "distinct (map (k_id \<circ> it_line) xs) \<Longrightarrow> (\<And>x. x \<in> set xs \<Longrightarrow> k_id (it_line x) = i \<Longrightarrow> it_cartId (f x) = c) \<Longrightarrow>
   live_count j (update_where (\<lambda>x. k_id (it_line x) = i) f xs) \<le> live_count j xs + (if j = c then 1 else 0)"
proof (induction xs)
  case (Cons x xs)
  show ?case
  proof (cases "k_id (it_line x) = i")
    case True
    with Cons.prems(1) have "update_where (\<lambda>x. k_id (it_line x) = i) f xs = xs"
      by (intro update_where_none) (auto simp: comp_def image_iff)
    with True Cons.prems(2) [of x] show ?thesis by (auto simp: table_simps)
  qed (use Cons in \<open>auto simp: table_simps\<close>)
qed (simp add: table_simps)


section \<open>Calls that add no line\<close>

lemma commit_items:
  assumes "\<And>r fx w'. tx = Inr ((r, fx), w') \<Longrightarrow> shrinks xs (cw_items w')" "shrinks xs (cw_items w)"
  shows "shrinks xs (cw_items (snd (commit_tx rq tx w)))"
proof (cases tx)
  case (Inr p)
  obtain r fx w' where p: "p = ((r, fx), w')" by (cases p) auto
  have "cw_items (snd (cart_invalidateCaches rq fx r w')) = cw_items w'"
    using invalidate_caches_tables [of w' rq fx r] by (simp add: same_tables_but_stock_def)
  with Inr p assms(1) show ?thesis by (simp add: commit_tx_def)
qed (use assms(2) in \<open>simp add: commit_tx_def\<close>)

lemma updateMany_items [simp]: "cw_items (cart_updateMany now P f w) = cw_items w" "cw_items (session_updateMany S st now w) = cw_items w"
  by (simp_all add: cart_updateMany_def session_updateMany_def)

lemma update_items: "cart_update now i f w = Inr w' \<Longrightarrow> cw_items w' = cw_items w"
  by (auto simp: cart_update_def split: if_splits)

lemmas items_frame = update_items reserve_tables cart_release_ok(2) release_loop_tables consume_if_ok(2)

lemma tx_items:
  "session_tx rq user cart w = Inr (r, w') \<Longrightarrow> cw_items w' = cw_items w"
  "share_tx rq cart key comment snap w = Inr (r, w') \<Longrightarrow> cw_items w' = cw_items w"
  "expire_drafts_tx rq stale w = Inr (n, w') \<Longrightarrow> cw_items w' = cw_items w"
  "close_table_tx rq cart t st actor w = Inr (r, w') \<Longrightarrow> cw_items w' = cw_items w"
  "expire_tables_tx rq tables w = Inr (n, w') \<Longrightarrow> cw_items w' = cw_items w"
  by (auto simp: session_tx_def share_tx_def expire_drafts_tx_def close_table_tx_def expire_tables_tx_def Let_def
      same_tables_but_stock_def split: if_splits dest!: items_frame)

lemma delete_items:
  assumes "delete_tx rq cat cart t w = Inr (r, w')"
  shows "shrinks (cw_items w) (cw_items w')"
proof -
  have "shrinks (cw_items w) (update_where (\<lambda>x. it_cartId x = ca_id cart \<and> it_deleteAt x = None)
      (\<lambda>x. x\<lparr>it_deleteAt := Some (rq_now rq)\<rparr>) (cw_items w))"
    by (rule shrinks_update) (simp add: item_live_def)
  with assms show ?thesis
    by (auto simp: delete_tx_def Let_def same_tables_but_stock_def dest!: items_frame)
qed

lemma complete_items: "complete_tx rq ports i actor w = Inr ((order, fx), w') \<Longrightarrow> cw_items w' = cw_items w"
  by (erule complete_tx_Inr) (auto simp: create_order_def Let_def same_tables_but_stock_def split: if_splits dest!: items_frame)

lemma getOrCreate_items: "getOrCreate rq bytes cat token w = Some (Inr ((c, new, t), w')) \<Longrightarrow> cw_items w' = cw_items w"
  by (erule getOrCreate_cases) (auto simp: create_cart_def Let_def split: if_splits)

lemma other_calls_items:
  "shrinks (cw_items w) (cw_items (snd (session_begin rq key user w)))"
  "shrinks (cw_items w) (cw_items (snd (session_heartbeat rq key user w)))"
  "shrinks (cw_items w) (cw_items (snd (session_release rq key user w)))"
  "shrinks (cw_items w) (cw_items (snd (deleteCurrentCart rq cat token w)))"
  "shrinks (cw_items w) (cw_items (snd (expireInactiveManagerSessions rq ms w)))"
  "shrinks (cw_items w) (cw_items (snd (expireAbandonedDraftCarts rq ms w)))"
  "shrinks (cw_items w) (cw_items (snd (closeHallTableSession rq cart session st actor w)))"
  "shrinks (cw_items w) (cw_items (snd (checkout_complete rq ports i actor w)))"
  "shrinks (cw_items w) (cw_items (product_change pt ps vs w))"
proof -
  have tx: "shrinks (cw_items w) (cw_items (snd (commit_tx rq (session_tx rq user c w) w)))" for c
    by (rule commit_items) (simp_all add: tx_items(1))
  show "shrinks (cw_items w) (cw_items (snd (session_begin rq key user w)))"
    "shrinks (cw_items w) (cw_items (snd (session_heartbeat rq key user w)))"
    using tx by (auto simp: session_begin_def session_heartbeat_def split: sum.split)
  show "shrinks (cw_items w) (cw_items (snd (session_release rq key user w)))"
    by (auto simp: session_release_def update_items split: sum.split)
  have "shrinks (cw_items w) (cw_items (snd (commit_tx rq (delete_tx rq cat c t w) w)))" for c t
    by (rule commit_items) (simp_all add: delete_items)
  then show "shrinks (cw_items w) (cw_items (snd (deleteCurrentCart rq cat token w)))"
    by (auto simp: deleteCurrentCart_def update_items split: sum.split)
  show "shrinks (cw_items w) (cw_items (snd (expireInactiveManagerSessions rq ms w)))"
    by (simp add: expireInactiveManagerSessions_def Let_def)
  have "shrinks (cw_items w) (cw_items (snd (commit_tx rq (expire_drafts_tx rq stale w) w)))" for stale
    by (rule commit_items) (simp_all add: tx_items(3))
  then show "shrinks (cw_items w) (cw_items (snd (expireAbandonedDraftCarts rq ms w)))"
    by (simp add: expireAbandonedDraftCarts_def Let_def)
  have "shrinks (cw_items w) (cw_items (snd (commit_tx rq (close_table_tx rq cart t st actor w) w)))" for t
    by (rule commit_items) (simp_all add: tx_items(4))
  then show "shrinks (cw_items w) (cw_items (snd (closeHallTableSession rq cart session st actor w)))"
    by (auto simp: closeHallTableSession_def split: option.split)
  show "shrinks (cw_items w) (cw_items (snd (checkout_complete rq ports i actor w)))"
    unfolding checkout_complete_def by (rule commit_items) (simp_all add: complete_items)
  show "shrinks (cw_items w) (cw_items (product_change pt ps vs w))"
    by (simp add: product_change_def rejoin_def shrinks_join)
qed

lemma expire_tables_items: "shrinks (cw_items w) (cw_items (snd (expireStaleHallTableSessions rq ms w)))"
proof -
  have "shrinks (cw_items w) (cw_items (snd (commit_tx rq (expire_tables_tx rq stale w) w)))" for stale
    by (rule commit_items) (simp_all add: tx_items(5))
  then have "shrinks (cw_items w) (cw_items w')" if "commit_tx rq (expire_tables_tx rq stale w) w = (r, w')" for stale r w'
    using that by (metis snd_conv)
  then show ?thesis by (auto simp: expireStaleHallTableSessions_def Let_def split: prod.split sum.split)
qed

lemma share_items:
  assumes "shareCurrentCart rq bytes keys cat token input checkout w = Some (r, w')"
  shows "shrinks (cw_items w) (cw_items w')"
  using assms
proof (cases rule: share_cases)
  case (shared c new t w1 key comment snap)
  have "shrinks (cw_items w1) (cw_items (snd (commit_tx rq (share_tx rq c key comment snap w1) w1)))"
    by (rule commit_items) (simp_all add: tx_items(2))
  with shared show ?thesis by (simp add: getOrCreate_items)
qed (simp_all add: getOrCreate_items)


section \<open>Calls on lines\<close>

lemma existing_cases:
  assumes "x \<in> set (findExistingItems c p v u s g xs)"
  shows "x \<in> set (filter (line_key_matches c p v u s g) xs) \<or>
    \<not> truthy v \<and> \<not> truthy u \<and> x \<in> set (filter (\<lambda>x. same_line c p s g x \<and> item_live x) xs) \<or>
    \<not> truthy v \<and> x \<in> set (filter (\<lambda>x. same_line c p s g x \<and> k_saleUnitId (it_line x) = u) xs) \<or>
    x \<in> set (filter (line_key_matches c p v None s g) xs)"
proof -
  define A B C D where "A = filter (line_key_matches c p v u s g) xs"
    and "B = filter (\<lambda>x. same_line c p s g x \<and> item_live x) xs"
    and "C = filter (\<lambda>x. same_line c p s g x \<and> k_saleUnitId (it_line x) = u) xs"
    and "D = filter (line_key_matches c p v None s g) xs"
  have hd: "hd (sort_key k ys) \<in> set ys" if "ys \<noteq> []" for k :: "cart_item \<Rightarrow> time \<times> string" and ys
    using that by (metis hd_in_set length_0_conv length_sort set_sort)
  have "x \<in> set A \<or> \<not> truthy v \<and> \<not> truthy u \<and> x \<in> set B \<or> \<not> truthy v \<and> x \<in> set C \<or> x \<in> set D"
    using assms hd unfolding findExistingItems_def Let_def A_def [symmetric] B_def [symmetric] C_def [symmetric] D_def [symmetric]
    by (cases D) (auto simp: sortCartLineMatches_def split: if_splits)
  then show ?thesis by (simp only: A_def B_def C_def D_def)
qed

lemma existing_mem:
  assumes "x \<in> set (findExistingItems c p v u s g xs)"
  shows "x \<in> set xs" "same_line c p s g x"
  using existing_cases [OF assms] by (auto simp: line_key_matches_def)

lemma archive_shrinks: "shrinks (cw_items w) (cw_items (archive_items now ids w))"
  unfolding archive_items_def by (simp, rule shrinks_update) (simp add: item_live_def)

lemma modifiers_shrinks: "shrinks (cw_items w) (cw_items (replaceCartItemModifiers i ms w))"
  unfolding replaceCartItemModifiers_def by (simp, rule shrinks_update) (simp add: item_live_def)

lemma archiveActive_shrinks: "shrinks (cw_items w) (cw_items (snd (archiveActiveCartItems now xs w)))"
  by (auto simp: archiveActiveCartItems_def Let_def archive_shrinks)

text \<open>The first live match, else the first match, is the row that a change writes.\<close>

lemma primary_live:
  assumes "filter item_live xs @ xs = x # ys"
  shows "x \<in> set xs" "item_live x \<longleftrightarrow> (\<exists>y\<in>set xs. item_live y)"
proof -
  have "x \<in> set (filter item_live xs @ xs)" by (simp add: assms)
  then show "x \<in> set xs" by auto
  show "item_live x \<longleftrightarrow> (\<exists>y\<in>set xs. item_live y)"
  proof
    assume "\<exists>y\<in>set xs. item_live y"
    then have "filter item_live xs \<noteq> []" by (auto simp: filter_empty_conv)
    then have "x \<in> set (filter item_live xs)" using assms by (cases "filter item_live xs") auto
    then show "item_live x" by simp
  qed (use \<open>x \<in> set xs\<close> in blast)
qed

lemma apply_cases [consumes 1, case_names gone new change]:
  assumes "applyCartItemChange rq c xs r w = Inr (b, w')"
  obtains "rl_quantity r = 0" "w' = snd (archiveActiveCartItems (rq_now rq) xs w)"
  | "rl_quantity r \<noteq> 0" "xs = []" "create_item rq c r w = Inr w'"
  | x ys where "rl_quantity r \<noteq> 0" "filter item_live xs @ xs = x # ys"
      "w' = replaceCartItemModifiers (k_id (it_line x)) (rl_modifiers r)
         (archive_items (rq_now rq) (filter (\<lambda>j. j \<noteq> k_id (it_line x)) (map (k_id \<circ> it_line) (filter item_live xs)))
           (if shouldUpdatePrimary x r
            then items_updateMany (\<lambda>y. k_id (it_line y) = k_id (it_line x)) (line_data r) w else w))"
proof (cases "rl_quantity r = 0")
  case True
  with assms that(1) show thesis by (simp add: applyCartItemChange_def Let_def)
next
  case False
  show thesis
  proof (cases "filter item_live xs @ xs")
    case Nil
    with assms False that(2) show thesis by (simp add: applyCartItemChange_def Let_def)
  next
    case (Cons x ys)
    with assms False show thesis by (intro that(3) [of x ys]) (simp_all add: applyCartItemChange_def Let_def)
  qed
qed

lemma apply_count:
  assumes "applyCartItemChange rq c xs r w = Inr (b, w')" "item_ids_ok (cw_items w)"
    and "\<And>x. x \<in> set xs \<Longrightarrow> x \<in> set (cw_items w) \<and> it_cartId x = c"
    and "(\<exists>x\<in>set xs. item_live x) \<or> live_count c (cw_items w) < MAX_CART_ITEMS" "lines_bounded w"
  shows "lines_bounded w'"
proof -
  have d: "distinct (map (k_id \<circ> it_line) (cw_items w))" using assms(2) by (simp add: item_ids_ok_def)
  have b: "live_count j (cw_items w) \<le> MAX_CART_ITEMS" for j using assms(5) by (simp add: lines_bounded_iff)
  from assms(1) show ?thesis
  proof (cases rule: apply_cases)
    case gone
    with assms(5) archiveActive_shrinks bounded_shrinks show ?thesis by blast
  next
    case new
    let ?x = "join_item (sv_inv (cw_svc w)) (cw_products w) (new_item (rq_gen rq (map (k_id \<circ> it_line) (cw_items w))) (rq_now rq) c r)"
    have "w' = replaceCartItemModifiers (rq_gen rq (map (k_id \<circ> it_line) (cw_items w))) (rl_modifiers r) (w\<lparr>cw_items := cw_items w @ [?x]\<rparr>)"
      using new(3) by (auto simp: create_item_def Let_def split: if_splits)
    moreover have "lines_bounded (w\<lparr>cw_items := cw_items w @ [?x]\<rparr>)"
      using b assms(4) new(2) by (auto simp: lines_bounded_iff new_item_def line_data_def)
    ultimately show ?thesis using bounded_shrinks modifiers_shrinks by blast
  next
    case (change x ys)
    have x: "x \<in> set (cw_items w)" "it_cartId x = c" using primary_live(1) [OF change(2)] assms(3) by auto
    have same: "y = x" if "y \<in> set (cw_items w)" "k_id (it_line y) = k_id (it_line x)" for y
      using d x(1) that by (auto simp: distinct_map inj_on_def)
    have "lines_bounded (items_updateMany (\<lambda>y. k_id (it_line y) = k_id (it_line x)) (line_data r) w)"
    proof (cases "item_live x")
      case True
      have "shrinks (cw_items w) (cw_items (items_updateMany (\<lambda>y. k_id (it_line y) = k_id (it_line x)) (line_data r) w))"
        unfolding items_updateMany_def by (simp, rule shrinks_update) (use same True in \<open>auto simp: line_data_def\<close>)
      with assms(5) show ?thesis by (rule bounded_shrinks)
    next
      case False
      with assms(4) primary_live(2) [OF change(2)] have lt: "live_count c (cw_items w) < MAX_CART_ITEMS" by blast
      have le: "live_count j (cw_items (items_updateMany (\<lambda>y. k_id (it_line y) = k_id (it_line x)) (line_data r) w))
          \<le> live_count j (cw_items w) + (if j = c then 1 else 0)" for j
      proof -
        let ?f = "join_item (sv_inv (cw_svc w)) (cw_products w) \<circ> line_data r"
        have f: "it_cartId (?f y) = c"
          if "y \<in> set (cw_items w)" "k_id (it_line y) = k_id (it_line x)" for y
          using same [OF that] x(2) by (simp add: line_data_def)
        have "live_count j (update_where (\<lambda>y. k_id (it_line y) = k_id (it_line x)) ?f (cw_items w))
            \<le> live_count j (cw_items w) + (if j = c then 1 else 0)" by (rule update_one_count [OF d f])
        then show ?thesis by (simp add: items_updateMany_def)
      qed
      show ?thesis unfolding lines_bounded_iff
      proof
        fix j
        show "live_count j (cw_items (items_updateMany (\<lambda>y. k_id (it_line y) = k_id (it_line x)) (line_data r) w)) \<le> MAX_CART_ITEMS"
          using le [of j] lt b [of j] by (cases "j = c") auto
      qed
    qed
    with assms(5) have "lines_bounded (if shouldUpdatePrimary x r
        then items_updateMany (\<lambda>y. k_id (it_line y) = k_id (it_line x)) (line_data r) w else w)" by simp
    then show ?thesis unfolding change(3)
      by (intro bounded_shrinks [OF _ modifiers_shrinks] bounded_shrinks [OF _ archive_shrinks])
  qed
qed

lemma normalized_quantity: "normalizeCartItemInput cmp input = Inr n \<Longrightarrow> 0 \<le> ni_quantity n"
  by (auto simp: normalizeCartItemInput_def split: if_splits js_num.splits)

lemma upsert_count:
  assumes "upsertItemInTransaction rq ports i n w = Inr (res, w')" "cart_ok old w" "lines_bounded w" "0 \<le> ni_quantity n"
  shows "lines_bounded w'"
  using assms(1)
proof (cases rule: upsert_cases)
  case (removed cx)
  from finalize_tables(1) [OF removed(4)] assms(3) archiveActive_shrinks bounded_shrinks show ?thesis by metis
next
  case (written cx product b w1 r pj mutated w2)
  let ?xs = "findExistingItems (cx_id cx) (rl_productId r) (rl_variantId r) (rl_saleUnitId r) (rl_signature r)
      (rl_guestSessionId r) (cw_items w1)"
  have pw: "product_write w w1" by (rule repair_write(1) [OF written(5)])
  have "lines_bounded w1" using assms(3) pw shrinks_join by (auto simp: product_write_def intro: bounded_shrinks)
  moreover have "item_ids_ok (cw_items w1)"
    using assms(2) pw item_ids_ok_map [OF _ keeps_ids_intros(1)] by (auto simp: product_write_def cart_ok_but_def)
  moreover have "0 < rl_quantity r"
    using written(2,6) assms(4) price_line_Inr(4) by (fastforce simp: resolve_line_def)
  with written(7) have "(\<exists>x\<in>set ?xs. item_live x) \<or> live_count (cx_id cx) (cw_items w1) < MAX_CART_ITEMS"
    by (auto simp: check_limits_def Let_def live_count_def split: if_splits)
  ultimately have "lines_bounded w2"
    by (intro apply_count [OF written(8)]) (auto simp: same_line_def dest: existing_mem)
  then show ?thesis using finalize_tables(1) [OF written(9)] by (simp add: lines_bounded_def)
qed

lemma remove_count:
  assumes "removeItem_tx rq i j guest w = Inr (res, w')" "lines_bounded w"
  shows "lines_bounded w'"
  using assms(1)
proof (rule remove_tx_Inr)
  fix cx P
  assume "finalizeCartLineChange rq cx True
      (w\<lparr>cw_items := update_where P (\<lambda>x. x\<lparr>it_deleteAt := Some (rq_now rq)\<rparr>) (cw_items w)\<rparr>) = Inr (res, w')"
  then have "cw_items w' = update_where P (\<lambda>x. x\<lparr>it_deleteAt := Some (rq_now rq)\<rparr>) (cw_items w)"
    using finalize_tables(1) by fastforce
  moreover have "shrinks (cw_items w) (update_where P (\<lambda>x. x\<lparr>it_deleteAt := Some (rq_now rq)\<rparr>) (cw_items w))"
    by (rule shrinks_update) (simp add: item_live_def)
  ultimately show ?thesis using assms(2) bounded_shrinks by metis
qed

lemma commit_bounded:
  assumes "lines_bounded w" "\<And>r w'. tx = Inr (r, w') \<Longrightarrow> lines_bounded w'"
  shows "lines_bounded (snd (commit_tx rq tx w))"
proof (cases tx)
  case (Inr p)
  obtain r fx w' where p: "p = ((r, fx), w')" by (cases p) auto
  have "cw_items (snd (cart_invalidateCaches rq fx r w')) = cw_items w'"
    using invalidate_caches_tables [of w' rq fx r] by (simp add: same_tables_but_stock_def)
  with assms(2) [of "(r, fx)" w'] Inr p show ?thesis by (simp add: commit_tx_def lines_bounded_def)
qed (use assms(1) in \<open>simp add: commit_tx_def\<close>)

lemma run_cart_bounded:
  assumes "cart_ok old w \<and> lines_bounded w" "cart_call_ok p" "run_cart slug p w = Inr w'"
  shows "cart_ok old w' \<and> lines_bounded w'"
proof
  show "cart_ok old w'" using run_cart_ok assms by blast
  obtain rq op where p: "p = (rq, op)" by (cases p)
  have w': "w' = cart_state slug rq op w" using assms(3) p by (simp add: run_cart_def)
  have b: "lines_bounded w" "cart_ok old w" using assms(1) by simp_all
  note keep = bounded_shrinks [OF b(1)]
  show "lines_bounded w'"
  proof (cases op)
    case (O_current bytes cat token)
    then show ?thesis unfolding w' by (intro keep) (auto simp: getOrCreate_items split: option.split sum.split)
  next
    case (O_share bytes keys cat token input checkout)
    then show ?thesis unfolding w' by (intro keep) (auto split: option.split intro: share_items)
  next
    case (O_upsert ports cmp i input)
    then show ?thesis
      using b upsert_count normalized_quantity by (auto simp: w' line_upsertItem_def split: sum.split intro!: commit_bounded)
  next
    case (O_remove i j guest)
    then show ?thesis using b remove_count by (auto simp: w' line_removeItem_def intro!: commit_bounded)
  next
    case (O_stock q)
    then show ?thesis unfolding w' by (intro keep) (simp split: sum.split)
  qed (auto simp: w' other_calls_items expire_tables_items intro!: keep)
qed

interpretation bounded_carts: transactional "\<lambda>w. cart_ok old w \<and> lines_bounded w" "run_cart slug" cart_call_ok for old slug
  by unfold_locales (rule run_cart_bounded)

end
