(* ===== verification/Cart_Line_Facts.thy ===== *)
theory Cart_Line_Facts
  imports Cart_Limits
begin

text \<open>
  What a committed upsert leaves of the lines: one live line with the key of the request, and the lines of
  other carts as they were.
\<close>


section \<open>The rows a change leaves\<close>

lemma filter_single:
  "distinct xs \<Longrightarrow> x \<in> set xs \<Longrightarrow> (\<And>y. y \<in> set xs \<Longrightarrow> Q y \<longleftrightarrow> y = x) \<Longrightarrow> filter Q xs = [x]"
proof (induction xs)
  case (Cons a xs)
  show ?case
  proof (cases "a = x")
    case True
    with Cons.prems have "filter Q xs = []" by (auto simp: filter_empty_conv)
    with True Cons.prems(3) [of a] show ?thesis by simp
  next
    case False
    with Cons.prems(3) [of a] have "\<not> Q a" by simp
    moreover have "filter Q xs = [x]" by (rule Cons.IH) (use Cons.prems False in auto)
    ultimately show ?thesis by simp
  qed
qed simp

text \<open>The line a request stands for, the projection it was priced with, and the state after the repair.\<close>

definition requested_line ::
    "request \<Rightarrow> snapshot_ports \<Rightarrow> ident \<Rightarrow> normalized_item \<Rightarrow> cart_world
     \<Rightarrow> cart_error + (resolved_line \<times> sellable_projection option \<times> cart_world)" where
  "requested_line rq ports i input w =
     bindE (findCartContextOrThrow i w)
       (\<lambda>cx. bindE (ensureProductInCatalog cx (ni_productId input) w)
       (\<lambda>product. bindE (line_repair rq (p_catalogId (fst product)) input w)
       (\<lambda>(_, w1). bindE (resolve_line rq ports cx product input w1) (\<lambda>(r, pj). Inr (r, pj, w1)))))"

text \<open>The columns by which a request finds its line.\<close>

definition line_key_of :: "cart_item \<Rightarrow> ident \<times> ident \<times> ident option \<times> ident option \<times> string option \<times> string option" where
  "line_key_of x = (it_cartId x, k_productId (it_line x), k_variantId (it_line x), k_saleUnitId (it_line x),
     k_modifierSignature (it_line x), k_guestSessionId (it_line x))"

definition resolved_key :: "ident \<Rightarrow> resolved_line \<Rightarrow> ident \<times> ident \<times> ident option \<times> ident option \<times> string option \<times> string option" where
  "resolved_key c r = (c, rl_productId r, rl_variantId r, rl_saleUnitId r, Some (rl_signature r), rl_guestSessionId r)"

lemma line_key_matches_iff:
  "line_key_matches c p v u s g x \<longleftrightarrow> line_key_of x = (c, p, v, u, Some s, g)"
  by (auto simp: line_key_matches_def same_line_def line_key_of_def)

text \<open>The line as the request asks for it.\<close>

definition shows_line :: "resolved_line \<Rightarrow> cart_item \<Rightarrow> bool" where
  "shows_line r x \<longleftrightarrow> item_live x \<and> k_quantity (it_line x) = rl_quantity r \<and>
     k_baseQuantity (it_line x) = Q_num (rl_baseQuantity r) \<and>
     isSameMoney (k_unitPriceSnapshot (it_line x)) (rl_unitPriceSnapshot r) \<and>
     k_priceListId (it_line x) = ll_priceListId (rl_priceList r)"

abbreviation existing_of :: "ident \<Rightarrow> resolved_line \<Rightarrow> cart_world \<Rightarrow> cart_item list" where
  "existing_of c r w \<equiv> findExistingItems c (rl_productId r) (rl_variantId r) (rl_saleUnitId r) (rl_signature r)
     (rl_guestSessionId r) (cw_items w)"

lemma existing_exact:
  assumes "\<exists>x\<in>set (cw_items w). line_key_of x = resolved_key c r"
  shows "set (existing_of c r w) = {x \<in> set (cw_items w). line_key_of x = resolved_key c r}"
proof -
  have "filter (line_key_matches c (rl_productId r) (rl_variantId r) (rl_saleUnitId r) (rl_signature r) (rl_guestSessionId r))
      (cw_items w) \<noteq> []"
    using assms by (auto simp: filter_empty_conv line_key_matches_iff resolved_key_def)
  then show ?thesis
    by (auto simp: findExistingItems_def Let_def sortCartLineMatches_def line_key_matches_iff resolved_key_def)
qed

lemma existing_other:
  assumes "\<not> (\<exists>x\<in>set (cw_items w). line_key_of x = resolved_key c r)" "truthy (rl_variantId r)" "x \<in> set (existing_of c r w)"
  shows "line_key_of x = resolved_key c (r\<lparr>rl_saleUnitId := None\<rparr>)"
  using existing_cases [OF assms(3)] assms(1,2) by (auto simp: line_key_matches_iff resolved_key_def)

text \<open>One row of the table after a change of the row \<open>x\<close>.\<close>

definition changed_row :: "inv_db \<Rightarrow> product_tables \<Rightarrow> resolved_line \<Rightarrow> time \<Rightarrow> cart_item \<Rightarrow> ident list \<Rightarrow> cart_item \<Rightarrow> cart_item" where
  "changed_row db pt r now x ids y =
     (let y1 = (if k_id (it_line y) = k_id (it_line x) \<and> shouldUpdatePrimary x r then join_item db pt (line_data r y) else y);
          y2 = (if k_id (it_line y1) \<in> set ids then y1\<lparr>it_deleteAt := Some now\<rparr> else y1)
      in if k_id (it_line y2) = k_id (it_line x)
         then y2\<lparr>it_line := (it_line y2)\<lparr>k_modifiers := map cart_modifier_of (rl_modifiers r)\<rparr>\<rparr> else y2)"

lemma change_items:
  "cw_items (replaceCartItemModifiers (k_id (it_line x)) (rl_modifiers r) (archive_items now ids
     (if shouldUpdatePrimary x r then items_updateMany (\<lambda>y. k_id (it_line y) = k_id (it_line x)) (line_data r) w else w))) =
   map (changed_row (sv_inv (cw_svc w)) (cw_products w) r now x ids) (cw_items w)"
  by (auto simp: replaceCartItemModifiers_def archive_items_def items_updateMany_def update_where_def changed_row_def Let_def comp_def)

lemma changed_row_other:
  assumes "k_id (it_line y) \<noteq> k_id (it_line x)"
  shows "changed_row db pt r now x ids y = (if k_id (it_line y) \<in> set ids then y\<lparr>it_deleteAt := Some now\<rparr> else y)"
  using assms by (simp add: changed_row_def Let_def)

lemma changed_row_self:
  assumes "k_id (it_line x) \<notin> set ids" "it_cartId x = c" "k_productId (it_line x) = rl_productId r" "k_variantId (it_line x) = rl_variantId r"
  shows "shows_line r (changed_row db pt r now x ids x)" "line_key_of (changed_row db pt r now x ids x) = resolved_key c r"
  using assms
  by (auto simp: changed_row_def Let_def shows_line_def line_data_def item_live_def shouldUpdatePrimary_def isSameMoney_def
      line_key_of_def resolved_key_def join_item_def)

lemma change_single:
  assumes ids: "item_ids_ok (cw_items w)" and v: "truthy (rl_variantId r)"
    and first: "filter item_live (existing_of c r w) @ existing_of c r w = x # ys"
    and E: "E = filter (\<lambda>j. j \<noteq> k_id (it_line x)) (map (k_id \<circ> it_line) (filter item_live (existing_of c r w)))"
  shows "\<exists>z. filter (\<lambda>y. item_live y \<and> line_key_of y = resolved_key c r) (map (changed_row db pt r now x E) (cw_items w)) = [z] \<and>
    shows_line r z"
proof -
  let ?F = "changed_row db pt r now x E"
  have d: "distinct (cw_items w)" and inj: "inj_on (k_id \<circ> it_line) (set (cw_items w))"
    using ids by (simp_all add: item_ids_ok_def distinct_map)
  have x: "x \<in> set (existing_of c r w)" by (rule primary_live(1) [OF first])
  then have mem: "x \<in> set (cw_items w)" "same_line c (rl_productId r) (rl_signature r) (rl_guestSessionId r) x"
    using existing_mem by blast+
  have var: "k_variantId (it_line x) = rl_variantId r"
    using existing_exact [of w c r] existing_other [of w c r x] v x
    by (cases "\<exists>x\<in>set (cw_items w). line_key_of x = resolved_key c r") (auto simp: line_key_of_def resolved_key_def)
  note self = changed_row_self [of x E c r db pt now]
  have sx: "shows_line r (?F x)" "line_key_of (?F x) = resolved_key c r"
    using self mem(2) var by (auto simp: E same_line_def)
  have "filter (\<lambda>y. item_live (?F y) \<and> line_key_of (?F y) = resolved_key c r) (cw_items w) = [x]"
  proof (rule filter_single [OF d mem(1)])
    fix y
    assume y: "y \<in> set (cw_items w)"
    show "item_live (?F y) \<and> line_key_of (?F y) = resolved_key c r \<longleftrightarrow> y = x"
    proof
      assume "y = x"
      with sx show "item_live (?F y) \<and> line_key_of (?F y) = resolved_key c r" by (simp add: shows_line_def)
    next
      assume l: "item_live (?F y) \<and> line_key_of (?F y) = resolved_key c r"
      show "y = x"
      proof (rule ccontr)
        assume ne: "y \<noteq> x"
        then have id: "k_id (it_line y) \<noteq> k_id (it_line x)" using inj y mem(1) by (auto simp: inj_on_def)
        have yl: "item_live y" "line_key_of y = resolved_key c r" "k_id (it_line y) \<notin> set E"
          using l changed_row_other [OF id, of db pt r now E] by (auto simp: item_live_def line_key_of_def split: if_splits)
        have "y \<in> set (existing_of c r w)" using existing_exact [of w c r] y yl(2) by blast
        with yl(1,3) id show False by (auto simp: E)
      qed
    qed
  qed
  then have "filter (\<lambda>y. item_live y \<and> line_key_of y = resolved_key c r) (map ?F (cw_items w)) = [?F x]"
    by (simp add: filter_map comp_def)
  with sx(1) show ?thesis by blast
qed

lemma create_items:
  assumes "create_item rq c r w = Inr w'"
  obtains z where "cw_items w' = cw_items w @ [z]" "shows_line r z" "line_key_of z = resolved_key c r" "it_cartId z = c"
proof -
  let ?i = "rq_gen rq (map (k_id \<circ> it_line) (cw_items w))"
  let ?x = "join_item (sv_inv (cw_svc w)) (cw_products w) (new_item ?i (rq_now rq) c r)"
  let ?f = "\<lambda>x. x\<lparr>it_line := (it_line x)\<lparr>k_modifiers := map cart_modifier_of (rl_modifiers r)\<rparr>\<rparr>"
  have new: "?i \<notin> (k_id \<circ> it_line) ` set (cw_items w)"
    and w': "w' = replaceCartItemModifiers ?i (rl_modifiers r) (w\<lparr>cw_items := cw_items w @ [?x]\<rparr>)"
    using assms by (auto simp: create_item_def Let_def split: if_splits)
  have "update_where (\<lambda>x. k_id (it_line x) = ?i) ?f (cw_items w) = cw_items w"
    by (rule update_where_none) (use new in \<open>auto simp: image_iff\<close>)
  moreover have "k_id (it_line ?x) = ?i" by (simp add: new_item_def line_data_def)
  ultimately have "cw_items w' = cw_items w @ [?f ?x]"
    unfolding w' by (simp add: replaceCartItemModifiers_def table_simps)
  then show thesis
    by (rule that) (simp_all add: shows_line_def new_item_def line_data_def item_live_def isSameMoney_def line_key_of_def
        resolved_key_def join_item_def Let_def)
qed

lemma apply_line:
  assumes "applyCartItemChange rq c (existing_of c r w) r w = Inr (b, w')" "item_ids_ok (cw_items w)"
    and "rl_quantity r \<noteq> 0" "truthy (rl_variantId r)"
  shows "\<exists>z. filter (\<lambda>y. item_live y \<and> line_key_of y = resolved_key c r) (cw_items w') = [z] \<and> shows_line r z"
  using assms(1)
proof (cases rule: apply_cases)
  case new
  from new(3) obtain z where z: "cw_items w' = cw_items w @ [z]" "shows_line r z" "line_key_of z = resolved_key c r"
    by (rule create_items)
  have "filter (\<lambda>y. item_live y \<and> line_key_of y = resolved_key c r) (cw_items w) = []"
    using existing_exact [of w c r] new(2) by (auto simp: filter_empty_conv)
  with z show ?thesis by (simp add: shows_line_def)
next
  case (change x ys)
  show ?thesis unfolding change(3) change_items by (rule change_single [OF assms(2,4) change(2) refl])
qed (use assms(3) in simp)

text \<open>The lines of other carts, with the columns of the products they refer to.\<close>

lemma join_join [simp]: "join_item db pt (join_item db' pt' x) = join_item db pt x"
  by (simp add: join_item_def Let_def)

lemma filter_map_same:
  "(\<And>x. x \<in> set xs \<Longrightarrow> P (f x) = P x) \<Longrightarrow> (\<And>x. x \<in> set xs \<Longrightarrow> P x \<Longrightarrow> f x = x) \<Longrightarrow> filter P (map f xs) = filter P xs"
  by (induction xs) auto

lemma apply_others:
  assumes "applyCartItemChange rq c (existing_of c r w) r w = Inr (b, w')" "item_ids_ok (cw_items w)"
  shows "filter (\<lambda>y. it_cartId y \<noteq> c) (cw_items w') = filter (\<lambda>y. it_cartId y \<noteq> c) (cw_items w)"
proof -
  have c: "it_cartId x = c" if "x \<in> set (existing_of c r w)" for x using existing_mem [OF that] by (simp add: same_line_def)
  have inj: "inj_on (k_id \<circ> it_line) (set (cw_items w))" using assms(2) by (simp add: item_ids_ok_def distinct_map)
  have own: "it_cartId y = c" if "y \<in> set (cw_items w)" "k_id (it_line y) = k_id (it_line x)" "x \<in> set (existing_of c r w)" for x y
    using inj that existing_mem(1) [OF that(3)] c [OF that(3)] by (auto simp: inj_on_def)
  from assms(1) show ?thesis
  proof (cases rule: apply_cases)
    case gone
    have "filter (\<lambda>y. it_cartId y \<noteq> c) (map (\<lambda>x. if k_id (it_line x) \<in> set (map (k_id \<circ> it_line) (filter item_live (existing_of c r w)))
        then x\<lparr>it_deleteAt := Some (rq_now rq)\<rparr> else x) (cw_items w)) = filter (\<lambda>y. it_cartId y \<noteq> c) (cw_items w)"
      by (rule filter_map_same) (use own in auto)
    with gone(2) show ?thesis
      by (auto simp: archiveActiveCartItems_def archive_items_def update_where_def Let_def split: if_splits)
  next
    case new
    from new(3) show ?thesis by (rule create_items) simp
  next
    case (change x ys)
    have x: "x \<in> set (existing_of c r w)" by (rule primary_live(1) [OF change(2)])
    show ?thesis unfolding change(3) change_items
    proof (rule filter_map_same)
      fix y
      assume y: "y \<in> set (cw_items w)"
      let ?E = "filter (\<lambda>j. j \<noteq> k_id (it_line x)) (map (k_id \<circ> it_line) (filter item_live (existing_of c r w)))"
      let ?F = "changed_row (sv_inv (cw_svc w)) (cw_products w) r (rq_now rq) x ?E"
      show "(it_cartId (?F y) \<noteq> c) = (it_cartId y \<noteq> c)" by (simp add: changed_row_def Let_def line_data_def)
      assume "it_cartId y \<noteq> c"
      then have "k_id (it_line y) \<noteq> k_id (it_line x)" "k_id (it_line y) \<notin> set ?E" using own [OF y] x by auto
      then show "?F y = y" by (simp add: changed_row_other)
    qed
  qed
qed

lemma write_others:
  assumes "product_write w w1"
  shows "map (join_item db pt) (filter (\<lambda>y. it_cartId y \<noteq> c) (cw_items w1)) =
    map (join_item db pt) (filter (\<lambda>y. it_cartId y \<noteq> c) (cw_items w))"
  using assms by (auto simp: product_write_def filter_map comp_def)

end
