(* ===== verification/Cart_Line_Properties.thy ===== *)
theory Cart_Line_Properties
  imports Cart_Line_Facts Cart_Demo
begin

text \<open>The properties of cart lines, of the projection of products and of price lists.\<close>


section \<open>Example\<close>

definition demo_normal :: "ident \<Rightarrow> int \<Rightarrow> normalized_item" where
  "demo_normal p n = \<lparr>ni_productId = p, ni_variantId = None, ni_saleUnitId = Some ''s'', ni_quantity = n,
     ni_guestSessionId = None, ni_guestName = None, ni_modifiers = []\<rparr>"

abbreviation demo_sellable :: snapshot_ports where
  "demo_sellable \<equiv> sellable_ports (demo_at 60) demo_world"

definition demo_context :: cart_context where
  "demo_context = \<lparr>cx_id = ''k'', cx_catalogId = ''c'', cx_parentCatalogId = None, cx_inventoryMode = MODE_INTERNAL,
     cx_status = C_DRAFT, cx_tableSessionStatus = None\<rparr>"

definition demo_product :: "product \<times> product_info" where
  "demo_product = (\<lparr>p_id = ''p'', p_catalogId = ''c'', p_deleteAt = None\<rparr>,
     \<lparr>pi_id = ''p'', pi_sku = ''P'', pi_price = Nullish, pi_status = P_ACTIVE, pi_attributes = []\<rparr>)"

definition demo_choice :: line_choice where
  "demo_choice = \<lparr>lc_variantId = Some ''v'', lc_variantPrice = Some Nullish,
     lc_unit = Some \<lparr>sr_id = ''s'', sr_variantId = ''v'', sr_catalogSaleUnitId = None, sr_code = ''pc'', sr_name = ''piece'', sr_unit = \<lparr>su_baseQuantity = Finite 1, su_price = Nullish\<rparr>,
       sr_isDefault = True, sr_isActive = True, sr_displayOrder = 0, sr_createdAt = 0, sr_deleteAt = None\<rparr>,
     lc_signature = [], lc_modifiers = []\<rparr>"

definition demo_resolved :: resolved_line where
  "demo_resolved = \<lparr>rl_productId = ''p'', rl_variantId = Some ''v'', rl_saleUnitId = Some ''s'', rl_quantity = 5,
     rl_baseQuantity = 5, rl_unitPriceSnapshot = Nullish, rl_signature = [], rl_modifiers = [], rl_priceList = no_line_price,
     rl_guestSessionId = None, rl_guestName = None\<rparr>"

lemma repair_noop:
  assumes "product_row (\<lambda>p. p_catalogId p = cat) i (sv_inv (cw_svc w)) (cw_products w) = Some (p, info)"
    and "buildDefaultVariantData info (cw_products w) = Inr d"
    and "\<exists>v\<in>set (live_variants i (sv_inv (cw_svc w)) (cw_products w)). isDefaultVariant v \<and> vv_status v \<noteq> V_DISABLED"
  shows "repairMissingDefaultVariantForProduct rq cat i w = Inr (Some False, w)"
  using assms by (simp add: repairMissingDefaultVariantForProduct_def ensureDefaultVariant_def Let_def)

lemma demo_repair: "repairMissingDefaultVariantForProduct (demo_at 60) ''c'' ''p'' demo_world = Inr (Some False, demo_world)"
proof -
  have row: "product_row (\<lambda>p. p_catalogId p = ''c'') ''p'' (sv_inv (cw_svc demo_world)) (cw_products demo_world) = Some demo_product"
    by code_simp
  have "(case buildDefaultVariantData (snd demo_product) (cw_products demo_world) of Inl _ \<Rightarrow> False | Inr _ \<Rightarrow> True)" by code_simp
  then obtain d where "buildDefaultVariantData (snd demo_product) (cw_products demo_world) = Inr d" by (auto split: sum.splits)
  moreover have "\<exists>v\<in>set (live_variants ''p'' (sv_inv (cw_svc demo_world)) (cw_products demo_world)). isDefaultVariant v \<and> vv_status v \<noteq> V_DISABLED"
    by code_simp
  ultimately show ?thesis using repair_noop row by (metis prod.collapse)
qed

lemma demo_resolve: "\<exists>pj. resolve_line (demo_at 60) demo_sellable demo_context demo_product (demo_normal ''p'' 5) demo_world =
    Inr (demo_resolved, Some pj) \<and> pj_availabilityState pj = AVAILABLE"
proof -
  have c: "choose_line (demo_at 60) demo_sellable demo_context ''c'' (demo_normal ''p'' 5) demo_world = Inr demo_choice" by code_simp
  have q: "line_quantity (demo_normal ''p'' 5) demo_choice = 5" "stock_mode demo_context = MODE_INTERNAL" by code_simp+
  let ?ro = "\<lparr>ro_quantity = 5, ro_enforceStock = True, ro_buyerCatalogId = ''c''\<rparr>"
  have "(case service_resolveSellable (demo_at 60) demo_world ''c'' ''p'' (Some ''v'') ?ro of Inl _ \<Rightarrow> False
      | Inr pj \<Rightarrow> pj_availabilityState pj = AVAILABLE \<and> \<not> pj_usesPriceList pj \<and> pj_priceState pj = UNKNOWN)" by code_simp
  then obtain pj where pj: "service_resolveSellable (demo_at 60) demo_world ''c'' ''p'' (Some ''v'') ?ro = Inr pj"
      "pj_availabilityState pj = AVAILABLE" "\<not> pj_usesPriceList pj" "pj_priceState pj = UNKNOWN" by (auto split: sum.splits)
  have s: "resolveLineSnapshot 60 (Some ''v'') (Some \<lparr>su_baseQuantity = Finite 1, su_price = Nullish\<rparr>) 5 (Nullish, []) (Some Nullish) None =
      Inr (5, Nullish)" by code_simp
  have s': "resolveLineSnapshot t v u n pr va (Some pj) = resolveLineSnapshot t v u n pr va None" for t v u n pr va
    using pj(4) by (simp add: resolveLineSnapshot_def line_commercialPrice_def resolveCommercialPrice_def)
  have "price_line_of (demo_at 60) demo_sellable demo_context demo_product (demo_normal ''p'' 5) demo_choice = Inr (demo_resolved, Some pj)"
    using pj q s
    by (simp add: price_line_of_def line_commercialProjection_def sellable_ports_def shouldEnforceStock_def truthy_def
        line_priceListLine_def resolvePriceListLine_def no_line_price_def demo_context_def demo_product_def demo_normal_def
        demo_choice_def demo_resolved_def demo_at_def s')
  with c pj(2) show ?thesis by (simp add: resolve_line_def demo_product_def)
qed

lemma demo_context_ok:
  "findCartContextOrThrow ''k'' demo_world = Inr demo_context" "ensureProductInCatalog demo_context ''p'' demo_world = Inr demo_product"
  by code_simp+

lemma demo_requested:
  obtains pj where "requested_line (demo_at 60) demo_sellable ''k'' (demo_normal ''p'' 5) demo_world = Inr (demo_resolved, Some pj, demo_world)"
    "pj_availabilityState pj = AVAILABLE"
proof -
  obtain pj where "resolve_line (demo_at 60) demo_sellable demo_context demo_product (demo_normal ''p'' 5) demo_world =
      Inr (demo_resolved, Some pj)" "pj_availabilityState pj = AVAILABLE" using demo_resolve by blast
  with demo_context_ok demo_repair show thesis
    by (intro that [of pj]) (simp_all add: requested_line_def line_repair_def demo_normal_def demo_product_def)
qed

lemma demo_upsert:
  obtains j b fx w' where "upsertItemInTransaction (demo_at 60) demo_sellable ''k'' (demo_normal ''p'' 5) demo_world =
    Inr (((j, b), fx), w')"
proof -
  let ?w = demo_world and ?E = "existing_of ''k'' demo_resolved demo_world"
  have pre: "line_ensureCartIsOpen (cx_status demo_context) (cx_tableSessionStatus demo_context) = Inr ()"
    "shouldReserveCartStock (cx_status demo_context) (cx_inventoryMode demo_context) = False"
    "map ca_id (cw_carts ?w) = [''k'']" by code_simp+
  note pre = demo_context_ok pre
  obtain pj where r: "resolve_line (demo_at 60) demo_sellable demo_context demo_product (demo_normal ''p'' 5) ?w =
      Inr (demo_resolved, Some pj)" and a: "pj_availabilityState pj = AVAILABLE" using demo_resolve by blast
  have E: "(\<exists>x\<in>set ?E. item_live x)" "?E \<noteq> []" by code_simp+
  have lim: "check_limits demo_context ?E demo_resolved (Some pj) ?w = Inr ()"
    using a E(1) by (simp add: check_limits_def Let_def demo_resolved_def MAX_ITEM_QUANTITY_def ensureCommercialProjectionPurchasable_def
        guardE_def)
  obtain m w2 where app: "applyCartItemChange (demo_at 60) ''k'' ?E demo_resolved ?w = Inr (m, w2)"
    using E(2) by (cases "filter item_live ?E @ ?E") (auto simp: applyCartItemChange_def Let_def demo_resolved_def)
  have "map ca_id (cw_carts w2) = [''k'']" using apply_change_tables(1) [OF app] pre(5) by simp
  then have ex: "\<exists>c\<in>set (cw_carts w2). ca_id c = cx_id demo_context" by (auto simp: demo_context_def map_eq_Cons_conv)
  have "\<exists>res w'. finalizeCartLineChange (demo_at 60) demo_context m w2 = Inr (res, w')"
    using ex pre(4) by (auto simp: finalizeCartLineChange_def cart_update_def)
  then obtain j b fx w' where "finalizeCartLineChange (demo_at 60) demo_context m w2 = Inr (((j, b), fx), w')" by auto
  with pre r lim app demo_repair
  have "upsertItemInTransaction (demo_at 60) demo_sellable ''k'' (demo_normal ''p'' 5) ?w = Inr (((j, b), fx), w')"
    by (simp add: upsertItemInTransaction_def line_repair_def demo_normal_def demo_product_def demo_context_def)
  then show thesis by (rule that)
qed


section \<open>Lines\<close>

text \<open>
  C33. A cart never has more than fifty live lines: whatever calls run on the cart services, and whatever
  the product side changes in between, the limit holds if it held at the start.
\<close>

theorem cart_lines_bounded:
  assumes "history (run_cart slug) cart_call_ok w t" "cart_ok old w" "lines_bounded w"
  shows "count_where (\<lambda>x. it_cartId x = i \<and> item_live x) (cw_items t) \<le> MAX_CART_ITEMS"
  using bounded_carts.history_invar [OF assms(1), of old] assms(2,3) by (simp add: lines_bounded_iff live_count_def)

theorem cart_lines_bounded_witness:
  "count_where (\<lambda>x. it_cartId x = ''k'' \<and> item_live x) (cw_items (demo_carts [demo_share, demo_expire])) \<le> 50"
proof -
  have h: "history (run_cart id) cart_call_ok demo_world (demo_carts [demo_share, demo_expire])"
    unfolding demo_carts_def by (rule history_sequence) (simp add: demo_share_def demo_expire_def)
  have "lines_bounded demo_world" by code_simp
  from cart_lines_bounded [OF h demo_world_ok this] show ?thesis by (simp add: MAX_CART_ITEMS_def)
qed

text \<open>
  C31. What a committed upsert with a positive quantity does.  It resolves the request to a line \<open>r\<close>; when
  \<open>r\<close> has a variant, the cart then has exactly one live line with its product, variant, sale unit,
  modifiers and guest, and this line has the quantity, the base quantity, the price and the price list of
  \<open>r\<close>.  The quantity is at most 999, or not more than the matching lines had before.  The lines of
  other carts are as before.
\<close>

theorem upsert_sets_line:
  assumes "upsertItemInTransaction rq ports i input w = Inr (((j, b), fx), w')" "cart_ok old w" "0 < ni_quantity input"
    and "colon_free rq"
  shows "\<exists>r pj w1. requested_line rq ports i input w = Inr (r, pj, w1) \<and> rl_quantity r = ni_quantity input \<and>
    (truthy (rl_variantId r) \<longrightarrow>
      (\<exists>x. filter (\<lambda>y. item_live y \<and> line_key_of y = resolved_key i r) (cw_items w') = [x] \<and> shows_line r x)) \<and>
    (ni_quantity input \<le> MAX_ITEM_QUANTITY \<or> ni_quantity input \<le> getActiveCartLineQuantity (existing_of i r w1)) \<and>
    map (join_item (sv_inv (cw_svc w')) (cw_products w')) (filter (\<lambda>y. it_cartId y \<noteq> i) (cw_items w')) =
      map (join_item (sv_inv (cw_svc w')) (cw_products w')) (filter (\<lambda>y. it_cartId y \<noteq> i) (cw_items w))"
  using assms(1)
proof (cases rule: upsert_cases)
  case (written cx product b' w1 r pj mutated w2)
  have i: "cx_id cx = i"
    using written(1) find_Some_iff_mem [of _ "cw_carts w"] by (fastforce simp: findCartContextOrThrow_def lookup_findByIdOrThrow_def)
  have pw: "product_write w w1" by (rule repair_write(1) [OF written(5)])
  have "cart_ok old w1"
    using product_write_ok [OF pw _ assms(2)] repair_write(2) [OF written(5) assms(4)] assms(2) by (simp add: cart_ok_but_def)
  then have ids: "item_ids_ok (cw_items w1)" by (simp add: cart_ok_but_def)
  have r: "rl_quantity r = ni_quantity input"
    using written(6) price_line_Inr(4) by (fastforce simp: resolve_line_def)
  note app = written(8) [unfolded i]
  have items: "cw_items w' = cw_items w2" by (rule finalize_tables(1) [OF written(9)])
  have line: "truthy (rl_variantId r) \<longrightarrow>
      (\<exists>x. filter (\<lambda>y. item_live y \<and> line_key_of y = resolved_key i r) (cw_items w') = [x] \<and> shows_line r x)"
    using apply_line [OF app ids] r assms(3) items by simp
  have q: "ni_quantity input \<le> MAX_ITEM_QUANTITY \<or> ni_quantity input \<le> getActiveCartLineQuantity (existing_of i r w1)"
    using written(7) r assms(3) i by (auto simp: check_limits_def Let_def split: if_splits)
  have others: "map (join_item db pt) (filter (\<lambda>y. it_cartId y \<noteq> i) (cw_items w')) =
      map (join_item db pt) (filter (\<lambda>y. it_cartId y \<noteq> i) (cw_items w))" for db pt
    using write_others [OF pw, of db pt i] apply_others [OF app ids] items by simp
  have "requested_line rq ports i input w = Inr (r, pj, w1)" using written(1,4-6) by (simp add: requested_line_def)
  with r line q others show ?thesis by blast
qed (use assms(3) in simp)

theorem upsert_sets_line_witness:
  "\<exists>x (w' :: cart_world). filter (\<lambda>y. item_live y \<and> line_key_of y = resolved_key ''k'' demo_resolved) (cw_items w') = [x] \<and>
     k_quantity (it_line x) = 5"
proof -
  obtain j b fx w' where u: "upsertItemInTransaction (demo_at 60) demo_sellable ''k'' (demo_normal ''p'' 5) demo_world =
      Inr (((j, b), fx), w')" by (rule demo_upsert)
  have gen: "colon_free (demo_at 60)" by (auto simp: colon_free_def demo_at_def demo_request_def demo_gen_def)
  have "0 < ni_quantity (demo_normal ''p'' 5)" by (simp add: demo_normal_def)
  note sets = upsert_sets_line [OF u demo_world_ok this gen]
  obtain pj where "requested_line (demo_at 60) demo_sellable ''k'' (demo_normal ''p'' 5) demo_world = Inr (demo_resolved, pj, demo_world)"
    by (rule demo_requested)
  with sets have "truthy (rl_variantId demo_resolved) \<longrightarrow>
      (\<exists>x. filter (\<lambda>y. item_live y \<and> line_key_of y = resolved_key ''k'' demo_resolved) (cw_items w') = [x] \<and> shows_line demo_resolved x)"
    by auto
  then show ?thesis by (auto simp: demo_resolved_def truthy_def shows_line_def)
qed

end
