(* ===== verification/Cart_Line_Stock.thy ===== *)
theory Cart_Line_Stock
  imports Cart_Line_Properties Product_Contract "HOL-Library.Multiset"
begin

text \<open>
  What a committed line rests on: the stock of its variant where the catalog enforces stock (C14, over the
  interface \<open>stock_reader\<close>), the tables of the product for its variant, sale unit and modifiers (C21), and
  the product that the readers see, which is not the one the transaction has repaired (C18).
\<close>


section \<open>Stock of a line\<close>

lemma snapshot_base:
  assumes "resolveLineSnapshot now variantId saleUnit quantity product variant pj = Inr (base, price)"
  shows "base = pricing_resolveBaseQuantity quantity (case saleUnit of None \<Rightarrow> Finite 1 | Some u \<Rightarrow> su_baseQuantity u)"
  using assms by (auto simp: resolveLineSnapshot_def Let_def case_prod_unfold split: option.splits if_splits)

text \<open>The two computations of the base quantity, in the cart utilities and in the pricing service, agree.\<close>

lemma base_quantity_eq:
  "pricing_resolveBaseQuantity quantity (case saleUnit of None \<Rightarrow> Finite 1 | Some u \<Rightarrow> su_baseQuantity u) =
   resolveCartItemBaseQuantity quantity Q_undefined saleUnit"
  by (cases saleUnit) (auto simp: pricing_resolveBaseQuantity_def resolveCartItemBaseQuantity_def toNumber_def Let_def)

lemma base_quantity_price [simp]:
  "resolveCartItemBaseQuantity quantity Q_undefined (if b then map_option (\<lambda>u. (sr_unit u)\<lparr>su_price := x\<rparr>) unit else map_option sr_unit unit) =
   resolveCartItemBaseQuantity quantity Q_undefined (map_option sr_unit unit)"
  by (cases unit) (simp_all add: resolveCartItemBaseQuantity_def)

lemma price_line_base:
  assumes "price_line_of rq ports cx product input c = Inr (r, pj)"
  shows "rl_baseQuantity r = line_quantity input c"
  using assms unfolding price_line_of_def Let_def line_quantity_def
  by (auto dest!: snapshot_base simp: base_quantity_eq simp del: map_option_case split del: if_split)

lemma projection_of_line:
  assumes "line_commercialProjection ports cat buyer p variantId quantity mode = Inr (Some pj)"
  defines "ro \<equiv> \<lparr>ro_quantity = quantity, ro_enforceStock = shouldEnforceStock mode, ro_buyerCatalogId = buyer\<rparr>"
  shows "(if truthy variantId then resolveVariantSellable ports cat p (the variantId) ro
      else resolveProductSellable ports cat p ro) = Inr pj"
    "truthy variantId \<or> \<not> pj_requiresVariantSelection pj"
  using assms by (auto simp: line_commercialProjection_def Let_def split: if_splits)

lemma limits_available:
  assumes "check_limits cx existing r pj w = Inr ()" "0 < rl_quantity r"
  obtains p where "pj = Some p" "pj_availabilityState p = AVAILABLE"
  using assms by (auto simp: check_limits_def Let_def ensureCommercialProjectionPurchasable_def
      split: if_splits option.splits availability_state.splits)

context stock_reader
begin

lemma upsert_stocked:
  assumes "upsertItemInTransaction rq ports i input w = Inr (res, w')" "findCartContextOrThrow i w = Inr cx"
    and "shouldEnforceStock (stock_mode cx)" "0 < ni_quantity input"
  shows "\<exists>r pj w1 v. requested_line rq ports i input w = Inr (r, pj, w1) \<and>
    (truthy (rl_variantId r) \<longrightarrow> rl_variantId r = Some v) \<and> stocked (ni_productId input) v (rl_baseQuantity r)"
  using assms(1)
proof (cases rule: upsert_cases)
  case (written cx' product b w1 r pj mutated w2)
  from written(1) assms(2) have cx: "cx' = cx" by simp
  from written(6) obtain c where c: "price_line_of rq ports cx product input c = Inr (r, pj)" by (auto simp: resolve_line_def cx)
  note line = price_line_Inr [OF c] price_line_base [OF c]
  obtain p where p: "pj = Some p" "pj_availabilityState p = AVAILABLE"
    using limits_available [OF written(7)] line(4) assms(4) by auto
  note read = projection_of_line [OF line(7) [unfolded p(1)]]
  have "\<exists>v. stocked (ni_productId input) v (line_quantity input c) \<and> (truthy (lc_variantId c) \<longrightarrow> lc_variantId c = Some v)"
    using line_stocked [OF read(1) _ p(2) read(2)] assms(3) by simp
  moreover have "requested_line rq ports i input w = Inr (r, pj, w1)" using written(1,4-6) by (simp add: requested_line_def)
  ultimately show ?thesis using line(2,9) by auto
qed (use assms(4) in simp)

end

text \<open>The stock of a variant that is shown is what its balances have available.\<close>

lemma in_stock_available:
  assumes "in_stock w p v quantity" "read_model_ok (sv_inv (cw_svc w))"
    and "b \<in> set (balances (sv_inv (cw_svc w)))" "b_variantId b = v"
  shows "quantity \<le> available_total (sv_inv (cw_svc w)) v"
proof -
  let ?db = "sv_inv (cw_svc w)"
  from assms(1) obtain x where x: "x \<in> set (all_variants p ?db (cw_products w))" "vv_id x = v"
      "case vv_stock x of None \<Rightarrow> True | Some n \<Rightarrow> max 1 quantity \<le> n" by (auto simp: in_stock_def live_variants_def)
  obtain y where y: "y \<in> set (variants ?db)" "v_id y = v" "v_stock y = vv_stock x"
  proof (rule all_variants_mem [OF x(1)])
    fix y i
    assume "y \<in> set (variants ?db)" "x = variant_view_of (cw_products w) y i"
    with x(2) show thesis by (intro that [of y]) (simp_all add: variant_view_of_def)
  qed
  have "read_model_at ?db v" using assms(2) by (simp add: read_model_ok_iff)
  with assms(3,4) y have "vv_stock x = Some (max 0 (available_total ?db v))" by (auto simp: read_model_at_def)
  with x(3) show ?thesis by (simp add: max_def split: if_splits)
qed

text \<open>
  C14. A draft cart never takes a line that the stock does not cover: when a catalog enforces stock and the
  cart does not reserve it, a committed upsert has found a live, active variant, the one of the line, whose
  shown stock is not limited or at least the base quantity of the line; and for a variant with balances the
  base quantity is at most what the active warehouses have available.
\<close>

theorem committed_line_in_stock:
  assumes "upsertItemInTransaction rq (sellable_ports rq w) i input w = Inr (res, w')" "findCartContextOrThrow i w = Inr cx"
    and "shouldEnforceStock (stock_mode cx)" "0 < ni_quantity input" "read_model_ok (sv_inv (cw_svc w))"
  shows "\<exists>r pj w1 v. requested_line rq (sellable_ports rq w) i input w = Inr (r, pj, w1) \<and>
    (truthy (rl_variantId r) \<longrightarrow> rl_variantId r = Some v) \<and> in_stock w (ni_productId input) v (rl_baseQuantity r) \<and>
    ((\<exists>b\<in>set (balances (sv_inv (cw_svc w))). b_variantId b = v) \<longrightarrow>
       rl_baseQuantity r \<le> available_total (sv_inv (cw_svc w)) v)"
  using reader.upsert_stocked [OF assms(1-4)] in_stock_available [OF _ assms(5)] by blast

theorem committed_line_in_stock_witness:
  "in_stock demo_world ''p'' ''v'' 5 \<and> 5 \<le> available_total (sv_inv (cw_svc demo_world)) ''v''"
proof -
  obtain j b fx w' where u: "upsertItemInTransaction (demo_at 60) demo_sellable ''k'' (demo_normal ''p'' 5) demo_world =
      Inr (((j, b), fx), w')" by (rule demo_upsert)
  have e: "shouldEnforceStock (stock_mode demo_context)" "0 < ni_quantity (demo_normal ''p'' 5)"
    "read_model_ok (sv_inv (cw_svc demo_world))" "list_ex (\<lambda>b. b_variantId b = ''v'') (balances (sv_inv (cw_svc demo_world)))"
    by code_simp+
  obtain pj where r: "requested_line (demo_at 60) demo_sellable ''k'' (demo_normal ''p'' 5) demo_world = Inr (demo_resolved, pj, demo_world)"
    by (rule demo_requested)
  from committed_line_in_stock [OF u demo_context_ok(1) e(1-3)] r e(4) show ?thesis
    by (auto simp: demo_resolved_def demo_normal_def truthy_def list_ex_iff)
qed


section \<open>Well-typed lines\<close>

definition modifier_typed :: "modifier_group list \<Rightarrow> resolved_modifier \<Rightarrow> bool" where
  "modifier_typed gs m = (\<exists>g\<in>set gs. \<exists>x\<in>set (available_options g). rm_group m = mg_id g \<and> rm_option m = mo_id x \<and>
     rm_price m = mo_price x \<and> (case mo_maxQuantity x of None \<Rightarrow> True | Some k \<Rightarrow> rm_quantity m \<le> k))"

definition group_typed :: "resolved_modifier list \<Rightarrow> modifier_group \<Rightarrow> bool" where
  "group_typed ms g =
     (let n = sum_list (map rm_quantity (filter (\<lambda>m. rm_group m = mg_id g) ms)) in
      (mg_isRequired g \<longrightarrow> max 1 (mg_minSelected g) \<le> n) \<and> (case mg_maxSelected g of None \<Rightarrow> True | Some k \<Rightarrow> n \<le> k))"

definition line_typed :: "cart_world \<Rightarrow> bool \<Rightarrow> resolved_line \<Rightarrow> bool" where
  "line_typed w modifiersOn r =
     (let pt = cw_products w; productId = rl_productId r; variantId = rl_variantId r;
          gs = (if modifiersOn then findApplicableGroups productId variantId pt else [])
      in (truthy variantId \<longrightarrow> (\<exists>x\<in>set (live_variants productId (sv_inv (cw_svc w)) pt). variantId = Some (vv_id x))) \<and>
         (case rl_saleUnitId r of None \<Rightarrow> True
          | Some u \<Rightarrow> \<exists>s\<in>set (pt_saleUnits pt). sr_id s = u \<and> sr_isActive s \<and> sr_deleteAt s = None \<and> variantId = Some (sr_variantId s)) \<and>
         list_all (modifier_typed gs) (rl_modifiers r) \<and> list_all (group_typed (rl_modifiers r)) gs \<and>
         rl_signature r = modifiers_buildSignature (rl_modifiers r))"

lemma resolve_modifier_typed:
  assumes "resolve_modifier gs i = Inr m"
  shows "modifier_typed gs m"
proof -
  from assms obtain g x where f: "List.find (\<lambda>g. mg_id g = nm_group i) gs = Some g"
      "List.find (\<lambda>x. mo_id x = nm_option i) (available_options g) = Some x"
    by (auto simp: resolve_modifier_def)
  note m = find_Some_iff_mem [OF f(1)] find_Some_iff_mem [OF f(2)]
  from assms f have "rm_group m = mg_id g \<and> rm_option m = mo_id x \<and> rm_price m = mo_price x \<and>
      (case mo_maxQuantity x of None \<Rightarrow> True | Some k \<Rightarrow> rm_quantity m \<le> k)"
    by (cases "mo_maxQuantity x") (auto simp: resolve_modifier_def split: if_splits)
  with m show ?thesis unfolding modifier_typed_def by blast
qed

lemma mapE_all:
  assumes "mapE f xs = Inr ys" "\<And>x y. x \<in> set xs \<Longrightarrow> f x = Inr y \<Longrightarrow> P x y"
  shows "\<forall>y\<in>set ys. \<exists>x\<in>set xs. P x y" "\<forall>x\<in>set xs. \<exists>y\<in>set ys. P x y"
  using assms by (induction xs arbitrary: ys) (auto, blast+)

lemma resolveModifiers_typed:
  assumes "resolveModifiers p v on ms pt = Inr (signature, items)"
  defines "gs \<equiv> (if on then findApplicableGroups p v pt else [])"
  shows "list_all (modifier_typed gs) items" "list_all (group_typed items) gs" "signature = modifiers_buildSignature items"
proof -
  have "list_all (modifier_typed gs) items \<and> list_all (group_typed items) gs \<and> signature = modifiers_buildSignature items"
  proof (cases "on \<and> gs \<noteq> []")
    case False
    with assms show ?thesis by (auto simp: resolveModifiers_def modifiers_buildSignature_def split: if_splits)
  next
    case True
    with assms obtain xs us where xs: "mapE (resolve_modifier gs) ms = Inr xs"
        "mapE (\<lambda>g. assertGroupSelection g (filter (\<lambda>m. rm_group m = mg_id g) xs)) gs = Inr us"
        "items = sort_key (\<lambda>m. (rm_group m, rm_option m)) xs" "signature = modifiers_buildSignature items"
      by (auto simp: resolveModifiers_def Let_def)
    have "\<forall>m\<in>set xs. modifier_typed gs m" using mapE_all(1) [OF xs(1), of "\<lambda>_. modifier_typed gs"] resolve_modifier_typed by blast
    moreover have "group_typed items g" if "g \<in> set gs" for g
    proof -
      have "assertGroupSelection g (filter (\<lambda>m. rm_group m = mg_id g) xs) = Inr ()"
        using mapE_all(2) [OF xs(2), of "\<lambda>g _. assertGroupSelection g (filter (\<lambda>m. rm_group m = mg_id g) xs) = Inr ()"] that by auto
      moreover have "sum_list (map rm_quantity (filter (\<lambda>m. rm_group m = mg_id g) items)) =
          sum_list (map rm_quantity (filter (\<lambda>m. rm_group m = mg_id g) xs))"
      proof -
        have "mset (map rm_quantity (filter (\<lambda>m. rm_group m = mg_id g) items)) = mset (map rm_quantity (filter (\<lambda>m. rm_group m = mg_id g) xs))"
          by (simp add: xs(3))
        then show ?thesis by (metis sum_mset_sum_list)
      qed
      ultimately show ?thesis by (auto simp: group_typed_def assertGroupSelection_def Let_def split: if_splits option.splits)
    qed
    ultimately show ?thesis using xs(3,4) by (simp add: list_all_iff)
  qed
  then show "list_all (modifier_typed gs) items" "list_all (group_typed items) gs" "signature = modifiers_buildSignature items" by auto
qed

lemma choose_line_typed:
  assumes "choose_line rq ports cx cat input w = Inr c"
  defines "on \<equiv> canUseCatalogModifiers (current_features rq (cx_catalogId cx) w)"
  shows "resolveModifiers (ni_productId input) (lc_variantId c) on (ni_modifiers input) (cw_products w) = Inr (lc_signature c, lc_modifiers c)"
    "lc_unit c = Some u \<Longrightarrow> u \<in> set (pt_saleUnits (cw_products w)) \<and> sr_isActive u \<and> sr_deleteAt u = None \<and>
       lc_variantId c = Some (sr_variantId u)"
proof -
  let ?f = "current_features rq (cx_catalogId cx) w"
  show "resolveModifiers (ni_productId input) (lc_variantId c) on (ni_modifiers input) (cw_products w) = Inr (lc_signature c, lc_modifiers c)"
    using assms(1) unfolding choose_line_def Let_def on_def by (auto split del: if_split)
  from assms(1) obtain s where
    u: "resolveSaleUnit (lc_variantId c) s False (truthy (lc_variantId c) \<and> canUseCatalogSaleUnits ?f) (cw_products w) = Inr (lc_unit c)"
    unfolding choose_line_def Let_def by (auto split del: if_split)
  show "u \<in> set (pt_saleUnits (cw_products w)) \<and> sr_isActive u \<and> sr_deleteAt u = None \<and> lc_variantId c = Some (sr_variantId u)"
    if "lc_unit c = Some u"
    using u that find_live_unit [of _ "the (lc_variantId c)" "cw_products w" u]
    by (auto simp: resolveSaleUnit_def Let_def truthy_iff split: if_splits list.splits)
qed

lemma price_line_modifiers:
  assumes "price_line_of rq ports cx product input c = Inr (r, pj)"
  shows "rl_modifiers r = lc_modifiers c"
  using assms unfolding price_line_of_def Let_def by (auto split del: if_split)

lemma resolve_line_typed:
  assumes "resolve_line rq ports cx product input w = Inr (r, pj)"
  shows "line_typed w (canUseCatalogModifiers (current_features rq (cx_catalogId cx) w)) r"
proof -
  from assms obtain c where c: "choose_line rq ports cx (p_catalogId (fst product)) input w = Inr c"
      "price_line_of rq ports cx product input c = Inr (r, pj)" by (auto simp: resolve_line_def)
  note r = price_line_Inr [OF c(2)] price_line_modifiers [OF c(2)]
  have v: "\<exists>x\<in>set (live_variants (ni_productId input) (sv_inv (cw_svc w)) (cw_products w)). lc_variantId c = Some (vv_id x)"
    if t: "truthy (lc_variantId c)"
  proof -
    from t obtain v where v: "lc_variantId c = Some v" "v \<noteq> []" by (auto simp: truthy_iff)
    with choose_line_Inr(1) [OF c(1)] have "ensureVariantMatchesProduct (ni_productId input) (Some v) w = Inr (lc_variantPrice c)" by simp
    from matched_variant [OF this v(2)] v(1) show ?thesis by metis
  qed
  have u: "case rl_saleUnitId r of None \<Rightarrow> True | Some u \<Rightarrow> \<exists>s\<in>set (pt_saleUnits (cw_products w)). sr_id s = u \<and> sr_isActive s \<and>
      sr_deleteAt s = None \<and> lc_variantId c = Some (sr_variantId s)"
    using choose_line_typed(2) [OF c(1)] r(3) by (cases "lc_unit c") auto
  note m = resolveModifiers_typed [OF choose_line_typed(1) [OF c(1)]]
  from v u m r show ?thesis by (simp add: line_typed_def Let_def)
qed

text \<open>
  C21. A committed line is well typed over the tables of its product: its variant is a live variant of the
  product, its sale unit an active unit of this variant, each modifier an available option of a group of the
  product or the variant within the limit of the option and at its price, each such group has as many
  choices as it requires and allows, and the signature of the line is that of its modifiers.
\<close>

theorem committed_line_typed:
  assumes "upsertItemInTransaction rq ports i input w = Inr (res, w')" "0 < ni_quantity input"
  shows "\<exists>cx r pj w1. findCartContextOrThrow i w = Inr cx \<and> requested_line rq ports i input w = Inr (r, pj, w1) \<and>
    line_typed w1 (canUseCatalogModifiers (current_features rq (cx_catalogId cx) w1)) r"
  using assms(1)
proof (cases rule: upsert_cases)
  case (written cx product b w1 r pj mutated w2)
  have "requested_line rq ports i input w = Inr (r, pj, w1)" using written(1,4-6) by (simp add: requested_line_def)
  with written(1) resolve_line_typed [OF written(6)] show ?thesis by blast
qed (use assms(2) in simp)

theorem committed_line_typed_witness:
  "line_typed demo_world (canUseCatalogModifiers (current_features (demo_at 60) ''c'' demo_world)) demo_resolved"
proof -
  obtain j b fx w' where u: "upsertItemInTransaction (demo_at 60) demo_sellable ''k'' (demo_normal ''p'' 5) demo_world =
      Inr (((j, b), fx), w')" by (rule demo_upsert)
  obtain pj where r: "requested_line (demo_at 60) demo_sellable ''k'' (demo_normal ''p'' 5) demo_world = Inr (demo_resolved, pj, demo_world)"
    by (rule demo_requested)
  have "0 < ni_quantity (demo_normal ''p'' 5)" "cx_catalogId demo_context = ''c''" by (simp_all add: demo_normal_def demo_context_def)
  with committed_line_typed [OF u] r demo_context_ok(1) show ?thesis by auto
qed


section \<open>The repair of a product\<close>

lemma no_variants_unavailable:
  assumes "service_resolveSellable rq w cat p variantId ro = Inr pj" "live_variants p (sv_inv (cw_svc w)) (cw_products w) = []"
    and "can_buy rq w (ro_buyerCatalogId ro) PRODUCT_VARIANTS \<or> ro_enforceStock ro"
  shows "pj_availabilityState pj \<noteq> AVAILABLE"
proof -
  obtain info where b: "buildProjection info [] variantId (ro_quantity ro) (ro_enforceStock ro)
      (resolveProductPriceContext rq w (ro_buyerCatalogId ro) cat [p]) (resolveBuyerFeatures rq w (ro_buyerCatalogId ro)) = Inr pj"
    using sellable_Inr [OF assms(1)] assms(2) by metis
  show ?thesis
    using projection_fields(4) [OF b] assms(3)
    by (auto simp: resolveAvailabilityState_def shouldIgnoreTechnicalVariantAvailability_def resolveBuyerFeatures_def price_candidates_def
        selected_variant_def resolveImplicitVariant_def findDefaultVariant_def resolveAvailabilityCandidates_def Let_def)
qed

text \<open>
  C18. The repair of a product without variants does not help the request that runs it.  The repair writes
  the default variant in the transaction of the line, but the reader of the product reads with a connection of
  its own and still sees no variant; so when the buyer has the variants feature or the catalog enforces
  stock, every request for the product fails, and the repair is rolled back with it.
\<close>

theorem repair_is_not_seen:
  assumes "findCartContextOrThrow i w = Inr cx" "normalizeCartItemInput cmp input = Inr n" "0 < ni_quantity n"
    and "live_variants (ni_productId n) (sv_inv (cw_svc w)) (cw_products w) = []"
    and "can_buy rq w (cx_catalogId cx) PRODUCT_VARIANTS \<or> shouldEnforceStock (stock_mode cx)"
  shows "\<exists>e. cart_upsertItem rq cmp i input w = (Inl e, w)"
proof (cases "upsertItemInTransaction rq (sellable_ports rq w) i n w")
  case (Inl e)
  with assms(2) show ?thesis by (simp add: cart_upsertItem_def line_upsertItem_def commit_tx_def)
next
  case (Inr y)
  obtain res w' where "y = (res, w')" by (cases y)
  with Inr have "upsertItemInTransaction rq (sellable_ports rq w) i n w = Inr (res, w')" by simp
  then show ?thesis
  proof (cases rule: upsert_cases)
    case (written cx' product b w1 r pj mutated w2)
    from written(1) assms(1) have cx: "cx' = cx" by simp
    from written(6) obtain c where c: "price_line_of rq (sellable_ports rq w) cx product n c = Inr (r, pj)"
      by (auto simp: resolve_line_def cx)
    note line = price_line_Inr [OF c]
    obtain p where p: "pj = Some p" "pj_availabilityState p = AVAILABLE"
      using limits_available [OF written(7)] line(4) assms(3) by auto
    let ?ro = "\<lparr>ro_quantity = line_quantity n c, ro_enforceStock = shouldEnforceStock (stock_mode cx), ro_buyerCatalogId = cx_catalogId cx\<rparr>"
    have "\<exists>variantId. service_resolveSellable rq w (p_catalogId (fst product)) (ni_productId n) variantId ?ro = Inr p"
      using projection_of_line(1) [OF line(7) [unfolded p(1)]] by (auto simp: sellable_ports_def split: if_splits)
    then obtain variantId where "service_resolveSellable rq w (p_catalogId (fst product)) (ni_productId n) variantId ?ro = Inr p" ..
    from no_variants_unavailable [OF this assms(4)] assms(5) p(2) show ?thesis by simp
  qed (use assms(3) in simp)
qed

text \<open>The shop without any variant.\<close>

definition demo_bare :: cart_world where
  "demo_bare = demo_world\<lparr>cw_products := demo_products\<lparr>pt_variants := [], pt_saleUnits := []\<rparr>,
     cw_svc := (cw_svc demo_world)\<lparr>sv_inv := (sv_inv (cw_svc demo_world))\<lparr>variants := []\<rparr>\<rparr>\<rparr>"

definition demo_wish :: item_input where
  "demo_wish = \<lparr>ii_productId = ''p'', ii_variantId = None, ii_saleUnitId = None, ii_quantity = Int_num 1, ii_guestSessionId = None,
     ii_guestName = None, ii_modifiers = []\<rparr>"

theorem repair_is_not_seen_witness:
  "(case repairMissingDefaultVariantForProduct (demo_at 60) ''c'' ''p'' demo_bare of
      Inr (Some True, w1) \<Rightarrow> live_variants ''p'' (sv_inv (cw_svc w1)) (cw_products w1) \<noteq> [] | _ \<Rightarrow> False) \<and>
   (\<exists>e. cart_upsertItem (demo_at 60) (\<lambda>_ _. 0) ''k'' demo_wish demo_bare = (Inl e, demo_bare))"
proof
  show "case repairMissingDefaultVariantForProduct (demo_at 60) ''c'' ''p'' demo_bare of
      Inr (Some True, w1) \<Rightarrow> live_variants ''p'' (sv_inv (cw_svc w1)) (cw_products w1) \<noteq> [] | _ \<Rightarrow> False" by code_simp
  have "findCartContextOrThrow ''k'' demo_bare = Inr demo_context"
    "normalizeCartItemInput (\<lambda>_ _. 0) demo_wish = Inr ((demo_normal ''p'' 1)\<lparr>ni_saleUnitId := None\<rparr>)"
    "0 < ni_quantity ((demo_normal ''p'' 1)\<lparr>ni_saleUnitId := None\<rparr>)"
    "live_variants (ni_productId ((demo_normal ''p'' 1)\<lparr>ni_saleUnitId := None\<rparr>)) (sv_inv (cw_svc demo_bare)) (cw_products demo_bare) = []"
    "shouldEnforceStock (stock_mode demo_context)" by code_simp+
  from repair_is_not_seen [OF this(1-4)] this(5) show "\<exists>e. cart_upsertItem (demo_at 60) (\<lambda>_ _. 0) ''k'' demo_wish demo_bare = (Inl e, demo_bare)"
    by blast
qed

end
