(* ===== verification/Price_List_Properties.thy ===== *)
theory Price_List_Properties
  imports Price_Lists Cart_Line_Stock
begin

text \<open>
  What the management of price lists keeps: well-formed lists and prices, on which the price of a line rests
  (C17), and that a price that is set is the price that is charged (C20).
\<close>


section \<open>The tables of price lists\<close>

definition price_value_ok :: "price_list_price \<Rightarrow> bool" where
  "price_value_ok r = (case pp_price r of Finite x \<Rightarrow> 0 \<le> x \<and> to_fixed2 x = x | _ \<Rightarrow> False)"

text \<open>A variant has a live price of its own or live prices of its sale units, never both in a list.\<close>

definition clash :: "price_list_price \<Rightarrow> price_list_price \<Rightarrow> bool" where
  "clash r s = (pp_priceListId r = pp_priceListId s \<and> truthy (pp_variantId r) \<and> pp_variantId r = pp_variantId s \<and>
     pp_target r = TARGET_VARIANT \<and> pp_target s = TARGET_SALE_UNIT \<and> pp_deleteAt r = None \<and> pp_deleteAt s = None)"

definition price_rows_good :: "price_list_price list \<Rightarrow> bool" where
  "price_rows_good rows = (distinct (map price_key rows) \<and> list_all price_row_ok rows \<and> list_all price_value_ok rows \<and>
     list_all (\<lambda>r. list_all (\<lambda>s. \<not> clash r s) rows) rows)"

definition lists_good :: "price_list list \<Rightarrow> bool" where
  "lists_good ls = (distinct (map pr_id ls) \<and> distinct (map (\<lambda>l. (pr_catalogId l, pr_code l)) ls))"

definition price_tables_ok :: "cart_world \<Rightarrow> bool" where
  "price_tables_ok w = (price_rows_good (pt_prices (cw_products w)) \<and> lists_good (pt_priceLists (cw_products w)))"

lemma price_tables_prices_ok: "price_tables_ok w \<Longrightarrow> prices_ok (cw_products w)"
  by (simp add: price_tables_ok_def price_rows_good_def prices_ok_def price_key_def [abs_def])

definition normalized_ok :: "normalized_price \<Rightarrow> bool" where
  "normalized_ok p =
     ((case np_target p of
         TARGET_PRODUCT \<Rightarrow> np_targetId p = np_productId p
       | TARGET_VARIANT \<Rightarrow> np_variantId p = Some (np_targetId p)
       | TARGET_SALE_UNIT \<Rightarrow> np_saleUnitId p = Some (np_targetId p)) \<and>
      (case np_price p of None \<Rightarrow> True | Some x \<Rightarrow> 0 \<le> x \<and> to_fixed2 x = x))"

lemma to_fixed2_nonneg: "0 \<le> x \<Longrightarrow> 0 \<le> to_fixed2 x"
  by (simp add: to_fixed2_def)

lemma normalize_price_ok:
  assumes "normalize_price cat m w i = Inr p"
  shows "normalized_ok p" "np_target p = in_target i"
    "in_target i = TARGET_PRODUCT \<Longrightarrow> np_targetId p = trim (in_targetId i)"
    "Inr (np_price p) = normalizePrice (in_price i)"
proof -
  obtain price where price: "normalizePrice (in_price i) = Inr price" "case price of None \<Rightarrow> True | Some x \<Rightarrow> 0 \<le> x \<and> to_fixed2 x = x"
    using assms to_fixed2_nonneg
    by (auto simp: normalize_price_def Let_def normalizePrice_def split: js_value.splits if_splits)
  have "normalized_ok p \<and> np_target p = in_target i \<and> (in_target i = TARGET_PRODUCT \<longrightarrow> np_targetId p = trim (in_targetId i)) \<and>
      np_price p = price"
    using assms price
    by (cases "in_target i") (auto simp: normalize_price_def Let_def normalized_ok_def dest!: find_Some_iff_mem split: if_splits option.splits)
  with price(1) show "normalized_ok p" "np_target p = in_target i"
    "in_target i = TARGET_PRODUCT \<Longrightarrow> np_targetId p = trim (in_targetId i)" "Inr (np_price p) = normalizePrice (in_price i)" by auto
qed


section \<open>One price\<close>

lemma deleted_row [simp]:
  "price_row_ok (r\<lparr>pp_deleteAt := d\<rparr>) = price_row_ok r" "price_value_ok (r\<lparr>pp_deleteAt := d\<rparr>) = price_value_ok r"
  by (cases "pp_target r"; simp add: price_row_ok_def price_value_ok_def)+

text \<open>Rows are only deleted, or written as the row of the given price.\<close>

lemma good_delete:
  assumes "price_rows_good rows"
  shows "price_rows_good (update_where P (\<lambda>r. r\<lparr>pp_deleteAt := Some now\<rparr>) rows)"
proof -
  have keys: "map price_key (update_where P (\<lambda>r. r\<lparr>pp_deleteAt := Some now\<rparr>) rows) = map price_key rows"
    by (simp add: update_where_def price_key_def)
  have ok: "list_all price_row_ok (update_where P (\<lambda>r. r\<lparr>pp_deleteAt := Some now\<rparr>) rows)"
      "list_all price_value_ok (update_where P (\<lambda>r. r\<lparr>pp_deleteAt := Some now\<rparr>) rows)"
    using assms by (auto simp: price_rows_good_def update_where_def list_all_iff)
  have "clash r s \<longrightarrow> (\<exists>r'\<in>set rows. \<exists>s'\<in>set rows. clash r' s')"
    if "r \<in> set (update_where P (\<lambda>r. r\<lparr>pp_deleteAt := Some now\<rparr>) rows)"
      "s \<in> set (update_where P (\<lambda>r. r\<lparr>pp_deleteAt := Some now\<rparr>) rows)" for r s
    using that by (auto simp: update_where_def clash_def split: if_splits)
  with keys ok assms show ?thesis by (auto simp: price_rows_good_def list_all_iff)
qed

lemma archive_conflicting:
  fixes now :: time and i :: ident and p :: normalized_price
  assumes "price_rows_good rows"
  defines "rows' \<equiv> archiveConflictingVariantTargetPrices now i p rows"
  shows "price_rows_good rows'"
    "s \<in> set rows' \<Longrightarrow> pp_priceListId s = i \<Longrightarrow> truthy (np_variantId p) \<Longrightarrow> pp_variantId s = np_variantId p \<Longrightarrow> pp_deleteAt s = None \<Longrightarrow>
      \<not> (np_target p = TARGET_VARIANT \<and> pp_target s = TARGET_SALE_UNIT \<or> np_target p = TARGET_SALE_UNIT \<and> pp_target s = TARGET_VARIANT)"
    "map price_key rows' = map price_key rows"
proof -
  let ?A = "\<lambda>target. update_where (\<lambda>r. pp_priceListId r = i \<and> pp_variantId r = np_variantId p \<and> pp_target r = target \<and>
      pp_deleteAt r = None) (\<lambda>r. r\<lparr>pp_deleteAt := Some now\<rparr>) rows"
  have cases: "rows' = rows \<and> (truthy (np_variantId p) \<longrightarrow> np_target p = TARGET_PRODUCT) \<or>
      rows' = ?A TARGET_SALE_UNIT \<and> np_target p = TARGET_VARIANT \<or> rows' = ?A TARGET_VARIANT \<and> np_target p = TARGET_SALE_UNIT"
    by (cases "np_target p") (simp_all add: rows'_def archiveConflictingVariantTargetPrices_def Let_def)
  show "price_rows_good rows'" using cases
    by (elim disjE conjE) (simp_all add: assms(1) good_delete)
  have "map price_key (?A target) = map price_key rows" for target by (rule map_update_where) (simp add: price_key_def)
  with cases show "map price_key rows' = map price_key rows" by (elim disjE conjE) simp_all
  assume s: "s \<in> set rows'" "pp_priceListId s = i" "pp_variantId s = np_variantId p" "pp_deleteAt s = None" and t: "truthy (np_variantId p)"
  have left: "pp_target s \<noteq> target" if "s \<in> set (?A target)" for target
  proof -
    from that obtain r where "s = (if pp_priceListId r = i \<and> pp_variantId r = np_variantId p \<and> pp_target r = target \<and> pp_deleteAt r = None
        then r\<lparr>pp_deleteAt := Some now\<rparr> else r)" unfolding set_update_where by (elim imageE)
    with s(2-4) show ?thesis by (cases "pp_deleteAt r") (simp_all split: if_splits)
  qed
  from cases s(1) t left [of TARGET_SALE_UNIT] left [of TARGET_VARIANT]
  show "\<not> (np_target p = TARGET_VARIANT \<and> pp_target s = TARGET_SALE_UNIT \<or> np_target p = TARGET_SALE_UNIT \<and> pp_target s = TARGET_VARIANT)"
    by (elim disjE conjE) simp_all
qed

definition price_row :: "ident \<Rightarrow> normalized_price \<Rightarrow> rat \<Rightarrow> price_list_price" where
  "price_row i p x = \<lparr>pp_priceListId = i, pp_target = np_target p, pp_targetId = np_targetId p, pp_productId = np_productId p,
     pp_variantId = np_variantId p, pp_saleUnitId = np_saleUnitId p, pp_price = Finite x, pp_deleteAt = None\<rparr>"

lemma upsert_price_row:
  "upsert_price i p x rows =
     (if price_key (price_row i p x) \<in> price_key ` set rows
      then map (\<lambda>r. if price_key r = price_key (price_row i p x) then price_row i p x else r) rows else rows @ [price_row i p x])"
proof -
  let ?k = "(i, np_target p, np_targetId p)"
  have k: "price_key (price_row i p x) = ?k" by (simp add: price_row_def price_key_def)
  have row: "r\<lparr>pp_productId := np_productId p, pp_variantId := np_variantId p, pp_saleUnitId := np_saleUnitId p,
      pp_price := Finite x, pp_deleteAt := None\<rparr> = price_row i p x" if "price_key r = ?k" for r
    using that by (auto simp: price_row_def price_key_def)
  have ex: "(\<exists>r\<in>set rows. price_key r = ?k) = (?k \<in> price_key ` set rows)" by (metis imageE image_eqI)
  show ?thesis unfolding k upsert_price_def Let_def ex update_where_def
    by (simp add: row price_row_def cong: if_cong)
qed

lemma price_row_good:
  assumes "normalized_ok p" "np_price p = Some x"
  shows "price_row_ok (price_row i p x)" "price_value_ok (price_row i p x)"
  using assms by (cases "np_target p"; simp add: normalized_ok_def price_row_def price_row_ok_def price_value_ok_def)+

lemma good_step:
  assumes "price_rows_good rows" "normalized_ok p"
  shows "price_rows_good (price_step now i rows p)"
proof (cases "np_price p")
  case None
  with good_delete [OF assms(1)] show ?thesis by (simp add: price_step_def)
next
  case (Some x)
  let ?rows = "archiveConflictingVariantTargetPrices now i p rows" and ?n = "price_row i p x"
  note ar = archive_conflicting [OF assms(1), where now = now and i = i and p = p]
  have keys: "distinct (map price_key (upsert_price i p x ?rows))"
  proof (cases "price_key ?n \<in> price_key ` set ?rows")
    case True
    have "map price_key (map (\<lambda>r. if price_key r = price_key ?n then ?n else r) ?rows) = map price_key ?rows" by simp
    with True ar(1) show ?thesis by (simp only: upsert_price_row if_P price_rows_good_def)
  qed (use ar(1) in \<open>simp add: upsert_price_row price_rows_good_def\<close>)
  have mem: "r \<in> set (upsert_price i p x ?rows) \<Longrightarrow> r = ?n \<or> r \<in> set ?rows" for r
    by (auto simp: upsert_price_row split: if_splits)
  have "price_row_ok r \<and> price_value_ok r" if "r \<in> set (upsert_price i p x ?rows)" for r
    using mem [OF that] ar(1) price_row_good [OF assms(2) Some] by (auto simp: list_all_iff price_rows_good_def)
  then have "list_all price_row_ok (upsert_price i p x ?rows)" "list_all price_value_ok (upsert_price i p x ?rows)"
    by (simp_all add: list_all_iff)
  moreover have "\<not> clash r s" if rs: "r \<in> set (upsert_price i p x ?rows)" "s \<in> set (upsert_price i p x ?rows)" for r s
  proof
    assume c: "clash r s"
    from mem [OF rs(1)] mem [OF rs(2)] consider "r \<in> set ?rows" "s \<in> set ?rows" | "r = ?n" "s \<in> set ?rows" | "r \<in> set ?rows" "s = ?n"
      | "r = ?n" "s = ?n" by blast
    then show False
    proof cases
      case 1
      with ar(1) c show ?thesis by (auto simp: price_rows_good_def list_all_iff)
    next
      case 2
      have t: "pp_priceListId s = i" "truthy (np_variantId p)" "pp_variantId s = np_variantId p" "pp_deleteAt s = None"
          "np_target p = TARGET_VARIANT" "pp_target s = TARGET_SALE_UNIT"
        using c 2(1) by (auto simp: clash_def price_row_def)
      from ar(2) [OF 2(2) t(1-4)] t(5,6) show ?thesis by simp
    next
      case 3
      have t: "pp_priceListId r = i" "truthy (np_variantId p)" "pp_variantId r = np_variantId p" "pp_deleteAt r = None"
          "np_target p = TARGET_SALE_UNIT" "pp_target r = TARGET_VARIANT"
        using c 3(2) by (auto simp: clash_def price_row_def)
      from ar(2) [OF 3(1) t(1-4)] t(5,6) show ?thesis by simp
    next
      case 4
      with c show ?thesis by (auto simp: clash_def)
    qed
  qed
  ultimately show ?thesis using keys Some by (simp add: price_step_def price_rows_good_def list_all_iff)
qed

lemma good_steps:
  "price_rows_good rows \<Longrightarrow> list_all normalized_ok ps \<Longrightarrow> price_rows_good (foldl (price_step now i) rows ps)"
  by (induction ps arbitrary: rows) (auto intro: good_step)


section \<open>Lists\<close>

lemma list_key_unique:
  assumes "lists_good ls" "l \<in> set ls" "m \<in> set ls"
  shows "pr_id l = pr_id m \<Longrightarrow> l = m" "pr_catalogId l = pr_catalogId m \<Longrightarrow> pr_code l = pr_code m \<Longrightarrow> l = m"
  using assms by (auto simp: lists_good_def distinct_map inj_on_def)

lemma lists_good_update:
  assumes "lists_good ls"
    and f: "\<And>l. pr_id (f l) = pr_id l" "\<And>l. pr_catalogId (f l) = pr_catalogId l" "\<And>l. pr_code (f l) = given (pr_code l) code"
    and free: "\<And>k l. code = Some k \<Longrightarrow> l \<in> set ls \<Longrightarrow> pr_catalogId l = c \<Longrightarrow> pr_code l = k \<Longrightarrow> pr_id l = i"
  shows "lists_good (update_where (\<lambda>l. pr_id l = i \<and> pr_catalogId l = c) f ls)"
proof -
  let ?g = "\<lambda>l. if pr_id l = i \<and> pr_catalogId l = c then f l else l"
  have "inj_on (\<lambda>l. (pr_catalogId (?g l), pr_code (?g l))) (set ls)"
  proof (rule inj_onI)
    fix l m
    assume m: "l \<in> set ls" "m \<in> set ls" and e: "(pr_catalogId (?g l), pr_code (?g l)) = (pr_catalogId (?g m), pr_code (?g m))"
    note u = list_key_unique [OF assms(1) m]
    let ?P = "\<lambda>l. pr_id l = i \<and> pr_catalogId l = c"
    have cat: "pr_catalogId (?g x) = pr_catalogId x" and kept: "\<not> ?P x \<Longrightarrow> pr_code (?g x) = pr_code x"
      and new: "?P x \<Longrightarrow> pr_code (?g x) = given (pr_code x) code" for x by (auto simp: f)
    from e cat have c: "pr_catalogId l = pr_catalogId m" and k: "pr_code (?g l) = pr_code (?g m)" by (metis prod.inject)+
    consider "?P l" "?P m" | "?P l" "\<not> ?P m" | "\<not> ?P l" "?P m" | "\<not> ?P l" "\<not> ?P m" by blast
    then show "l = m"
    proof cases
      case 1
      with u(1) show ?thesis by simp
    next
      case 2
      with k new kept have m': "given (pr_code l) code = pr_code m" by metis
      show ?thesis
      proof (cases code)
        case None
        with m' c u(2) show ?thesis by (simp add: given_def)
      next
        case (Some x)
        with free [OF Some m(2)] m' 2 c show ?thesis by (simp add: given_def)
      qed
    next
      case 3
      with k new kept have m': "given (pr_code m) code = pr_code l" by metis
      show ?thesis
      proof (cases code)
        case None
        with m' c u(2) show ?thesis by (simp add: given_def)
      next
        case (Some x)
        with free [OF Some m(1)] m' 3 c show ?thesis by (simp add: given_def)
      qed
    next
      case 4
      with k kept c u(2) show ?thesis by metis
    qed
  qed
  moreover have "distinct ls" using assms(1) by (simp add: lists_good_def distinct_map)
  ultimately have "distinct (map (\<lambda>l. (pr_catalogId (?g l), pr_code (?g l))) ls)" by (simp add: distinct_map)
  then have codes: "distinct (map (\<lambda>l. (pr_catalogId l, pr_code l)) (update_where (\<lambda>l. pr_id l = i \<and> pr_catalogId l = c) f ls))"
    by (simp add: update_where_def comp_def)
  have "map pr_id (update_where (\<lambda>l. pr_id l = i \<and> pr_catalogId l = c) f ls) = map pr_id ls"
    by (rule map_update_where) (rule f(1))
  with codes assms(1) show ?thesis by (simp add: lists_good_def)
qed

lemma bump_all_tables [simp]: "cw_products (bump_all ss c w) = cw_products w" "cw_catalogs (bump_all ss c w) = cw_catalogs w"
  "sv_entitlements (cw_svc (bump_all ss c w)) = sv_entitlements (cw_svc w)"
  by (simp_all add: bump_all_def)

lemma tables_of_updates [simp]:
  "pt_prices (cw_products (lists_update f w)) = pt_prices (cw_products w)"
  "pt_priceLists (cw_products (lists_update f w)) = f (pt_priceLists (cw_products w))"
  "pt_prices (cw_products (prices_update g w)) = g (pt_prices (cw_products w))"
  "pt_priceLists (cw_products (prices_update g w)) = pt_priceLists (cw_products w)"
  by (simp_all add: lists_update_def prices_update_def)

lemma updateRow_tables:
  assumes "list_updateRow i c f w = Inr (l, w')"
  shows "pt_prices (cw_products w') = pt_prices (cw_products w)"
    "pt_priceLists (cw_products w') = update_where (\<lambda>l. pr_id l = i \<and> pr_catalogId l = c) f (pt_priceLists (cw_products w))"
  using assms by (auto simp: list_updateRow_def)

lemma existsCode_free:
  assumes "\<not> existsCode c k i w" "lists_good (pt_priceLists (cw_products w))"
    and "l \<in> set (pt_priceLists (cw_products w))" "pr_catalogId l = c" "pr_code l = k"
  shows "pr_id l = i"
proof (cases "findByCode c k w")
  case None
  with assms(3-5) show ?thesis by (auto simp: findByCode_def find_None_all)
next
  case (Some m)
  from find_Some_iff_mem [OF this [unfolded findByCode_def]] list_key_unique(2) [OF assms(2), of m l] assms(3-5) have "m = l" by auto
  with Some assms(1) show ?thesis by (simp add: existsCode_def)
qed

lemma save_list_ok:
  assumes "save_list slug rq owner name dto w = Inr (l, w')" "price_tables_ok w"
  shows "price_tables_ok w'"
proof (cases "findByCode owner (buildCodeBase slug (case trimToNull (dt_code dto) of Some c \<Rightarrow> c | None \<Rightarrow> name)) w")
  case None
  with assms(1) obtain n where "list_createRow rq n w = Inr (l, w')" by (simp add: save_list_def Let_def)
  with assms(2) show ?thesis by (fastforce simp: list_createRow_def Let_def price_tables_ok_def lists_good_def split: if_splits)
next
  case (Some m)
  let ?f = "\<lambda>x. x\<lparr>pr_name := name, pr_isActive := given True (dt_isActive dto),
    pr_displayOrder := given (pr_displayOrder m) (dt_displayOrder dto), pr_deleteAt := None\<rparr>"
  from assms(1) Some have u: "list_updateRow (pr_id m) owner ?f w = Inr (l, w')" by (simp add: save_list_def Let_def split: if_splits)
  have "lists_good (update_where (\<lambda>l. pr_id l = pr_id m \<and> pr_catalogId l = owner) ?f (pt_priceLists (cw_products w)))"
    using assms(2) by (intro lists_good_update [where code = None]) (auto simp: price_tables_ok_def given_def)
  with updateRow_tables [OF u] assms(2) show ?thesis by (simp add: price_tables_ok_def)
qed

lemma create_list_ok:
  assumes "create_list slug rq dto w = Inr (l, w')" "price_tables_ok w"
  shows "price_tables_ok w'"
  using assms save_list_ok by (auto simp: create_list_def)

lemma update_list_ok:
  assumes "update_list slug rq i dto w = Inr (l, w')" "price_tables_ok w"
  shows "price_tables_ok w'"
proof -
  from assms(1) obtain owner code f w1 where u: "list_updateRow i owner f w = Inr (l, w1)" "w' = invalidateProductReadCaches owner w1"
    and f: "\<And>x. pr_id (f x) = pr_id x" "\<And>x. pr_catalogId (f x) = pr_catalogId x" "\<And>x. pr_code (f x) = given (pr_code x) code"
    and free: "\<And>k. code = Some k \<Longrightarrow> \<not> existsCode owner k i w"
    unfolding update_list_def by (fastforce split: option.splits if_splits)
  have "lists_good (update_where (\<lambda>l. pr_id l = i \<and> pr_catalogId l = owner) f (pt_priceLists (cw_products w)))"
    using assms(2) existsCode_free [OF free] by (intro lists_good_update [where code = code]) (simp_all add: f price_tables_ok_def)
  with updateRow_tables [OF u(1)] u(2) assms(2) show ?thesis by (simp add: price_tables_ok_def invalidateProductReadCaches_def)
qed

lemma archive_list_ok:
  assumes "archive_list rq i w = Inr (b, w')" "price_tables_ok w"
  shows "price_tables_ok w'"
proof -
  from assms(1) obtain owner l w1 where u: "list_updateRow i owner (\<lambda>x. x\<lparr>pr_deleteAt := Some (rq_now rq), pr_isActive := False\<rparr>) w = Inr (l, w1)"
      "w' = invalidateProductReadCaches owner w1"
    by (auto simp: archive_list_def)
  have "lists_good (update_where (\<lambda>l. pr_id l = i \<and> pr_catalogId l = owner) (\<lambda>x. x\<lparr>pr_deleteAt := Some (rq_now rq), pr_isActive := False\<rparr>)
      (pt_priceLists (cw_products w)))"
    using assms(2) by (intro lists_good_update [where code = None]) (auto simp: price_tables_ok_def given_def)
  with updateRow_tables [OF u(1)] u(2) assms(2) show ?thesis by (simp add: price_tables_ok_def invalidateProductReadCaches_def)
qed


section \<open>Prices\<close>

lemma collect_Inr:
  assumes "foldE collect_step seen input = Inr out" "distinct seen"
  shows "out = seen @ map (\<lambda>i. (in_target i, trim (in_targetId i))) input \<and> distinct out"
  using assms
proof (induction input arbitrary: seen)
  case (Cons i input)
  then obtain s where s: "collect_step seen i = Inr s" "foldE collect_step s input = Inr out" by auto
  then have n: "s = seen @ [(in_target i, trim (in_targetId i))]" "distinct s"
    using Cons.prems(2) by (auto simp: collect_step_def Let_def split: if_splits)
  note ih = Cons.IH [OF s(2) n(2)]
  show ?case
  proof
    show "out = seen @ map (\<lambda>i. (in_target i, trim (in_targetId i))) (i # input)" using conjunct1 [OF ih] n(1) by simp
    show "distinct out" by (rule conjunct2 [OF ih])
  qed
qed simp

lemma normalizePrices_Inr:
  assumes "normalizePrices cat input w = Inr ps"
  obtains m where "mapE (normalize_price cat m w) input = Inr ps" "distinct (map (\<lambda>i. (in_target i, trim (in_targetId i))) input)"
  using assms collect_Inr [of "[]" input] by (auto simp: normalizePrices_def Let_def)

lemma bulk_Inr:
  assumes "bulkUpsertPrices rq i input w = Inr (rows, w')"
  obtains cat ps where "normalizePrices cat input w = Inr ps"
    "pt_prices (cw_products w') = foldl (price_step (rq_now rq) i) (pt_prices (cw_products w)) ps"
    "pt_priceLists (cw_products w') = pt_priceLists (cw_products w)" "cw_catalogs w' = cw_catalogs w"
    "sv_entitlements (cw_svc w') = sv_entitlements (cw_svc w)"
proof -
  from assms obtain sc :: catalog_scope and ps where "normalizePrices (cs_ownerCatalogId sc) input w = Inr ps"
      "w' = invalidateProductReadCaches (cs_ownerCatalogId sc) (prices_update (\<lambda>rows. foldl (price_step (rq_now rq) i) rows ps) w)"
    by (auto simp: bulkUpsertPrices_def Let_def)
  then show thesis by (intro that [of "cs_ownerCatalogId sc" ps]) (simp_all add: invalidateProductReadCaches_def prices_update_def)
qed

lemma active_list_cong:
  assumes "cw_catalogs w' = cw_catalogs w" "sv_entitlements (cw_svc w') = sv_entitlements (cw_svc w)"
    and "pt_priceLists (cw_products w') = pt_priceLists (cw_products w)"
  shows "resolveActivePriceList rq w' buyer owner = resolveActivePriceList rq w buyer owner"
  by (simp only: resolveActivePriceList_def can_buy_def assms)

lemma bulk_ok:
  assumes "bulkUpsertPrices rq i input w = Inr (rows, w')" "price_tables_ok w"
  shows "price_tables_ok w'"
proof (rule bulk_Inr [OF assms(1)])
  fix cat ps
  assume n: "normalizePrices cat input w = Inr ps"
    and t: "pt_prices (cw_products w') = foldl (price_step (rq_now rq) i) (pt_prices (cw_products w)) ps"
      "pt_priceLists (cw_products w') = pt_priceLists (cw_products w)"
  obtain m where m: "mapE (normalize_price cat m w) input = Inr ps" by (rule normalizePrices_Inr [OF n])
  have "list_all normalized_ok ps"
    using mapE_all(1) [OF m, of "\<lambda>_. normalized_ok"] normalize_price_ok(1) by (fastforce simp: list_all_iff)
  with good_steps t assms(2) show "price_tables_ok w'" by (simp add: price_tables_ok_def)
qed

lemma set_active_ok:
  assumes "setActivePriceList rq a w = Inr (b, w')" "price_tables_ok w"
  shows "price_tables_ok w'"
proof -
  from assms(1) have "cw_products w' = cw_products w"
    by (auto simp: setActivePriceList_def Let_def invalidateCurrentCatalogAndProductReadCaches_def)
  with assms(2) show ?thesis by (simp add: price_tables_ok_def)
qed


section \<open>The desk\<close>

datatype list_op =
    L_create list_create
  | L_update ident list_update
  | L_archive ident
  | L_prices ident "price_input list"
  | L_active "string option"

fun run_list :: "(string \<Rightarrow> string) \<Rightarrow> request \<times> list_op \<Rightarrow> cart_world \<Rightarrow> list_error + cart_world" where
  "run_list slug (rq, L_create dto) w = map_sum id snd (create_list slug rq dto w)"
| "run_list slug (rq, L_update i dto) w = map_sum id snd (update_list slug rq i dto w)"
| "run_list slug (rq, L_archive i) w = map_sum id snd (archive_list rq i w)"
| "run_list slug (rq, L_prices i input) w = map_sum id snd (bulkUpsertPrices rq i input w)"
| "run_list slug (rq, L_active i) w = map_sum id snd (setActivePriceList rq i w)"

interpretation price_desk: transactional price_tables_ok "run_list slug" "\<lambda>_. True" for slug
proof
  fix w op w'
  assume "price_tables_ok w" "run_list slug op w = Inr w'"
  moreover obtain rq o' where "op = (rq, o')" by (cases op)
  ultimately show "price_tables_ok w'"
    by (cases o') (auto intro: create_list_ok update_list_ok archive_list_ok bulk_ok set_active_ok)
qed

text \<open>
  C17. The price desk keeps the price tables well formed, whatever calls it gets: at most one price per list
  and target, each filed under the product, variant or sale unit it is for, not negative and in whole
  cents; a variant has in a list a live price of its own or live prices of its sale units but never
  both; the codes of the lists of a catalog differ.
\<close>

theorem price_desk_invariant:
  assumes "history (run_list slug) (\<lambda>_. True) w t" "price_tables_ok w"
  shows "distinct (map price_key (pt_prices (cw_products t))) \<and> list_all price_row_ok (pt_prices (cw_products t)) \<and>
    list_all price_value_ok (pt_prices (cw_products t)) \<and>
    list_all (\<lambda>r. list_all (\<lambda>s. \<not> clash r s) (pt_prices (cw_products t))) (pt_prices (cw_products t)) \<and>
    distinct (map (\<lambda>l. (pr_catalogId l, pr_code l)) (pt_priceLists (cw_products t)))"
  using price_desk.history_invar [OF assms] by (simp add: price_tables_ok_def price_rows_good_def lists_good_def)

definition demo_prices :: "request \<times> list_op" where
  "demo_prices = (demo_request, L_prices ''l'' [\<lparr>in_target = TARGET_PRODUCT, in_targetId = ''p'', in_price = Finite 12\<rparr>])"

theorem price_desk_invariant_witness:
  "(case run_list id demo_prices demo_priced of Inl _ \<Rightarrow> False
    | Inr t \<Rightarrow> map pp_price (pt_prices (cw_products t)) = [Finite 12] \<and> distinct (map price_key (pt_prices (cw_products t))))"
proof -
  have "(case run_list id demo_prices demo_priced of Inl _ \<Rightarrow> False | Inr t \<Rightarrow> map pp_price (pt_prices (cw_products t)) = [Finite 12])"
    by code_simp
  then obtain t where t: "run_list id demo_prices demo_priced = Inr t" "map pp_price (pt_prices (cw_products t)) = [Finite 12]"
    by (auto split: sum.splits)
  have "history (run_list id) (\<lambda>_. True) demo_priced (committed (run_list id) demo_priced demo_prices)"
    by (rule history.step [OF history.start]) simp
  then have h: "history (run_list id) (\<lambda>_. True) demo_priced t" by (simp add: committed_def t(1))
  have "price_tables_ok demo_priced" by code_simp
  from price_desk_invariant [OF h this] t show ?thesis by simp
qed


section \<open>From the desk to the cart\<close>

text \<open>The live row of a list and target, as the last entry of a call leaves it.\<close>

definition live_row :: "price_list_price list \<Rightarrow> ident \<times> price_target \<times> ident \<Rightarrow> price_list_price option" where
  "live_row rows k = List.find (\<lambda>r. price_key r = k \<and> pp_deleteAt r = None) rows"

text \<open>Pricing a variant archives the prices of its sale units, and the other way round.\<close>

definition opposed :: "price_target \<Rightarrow> price_target \<Rightarrow> bool" where
  "opposed s t = (s = TARGET_VARIANT \<and> t = TARGET_SALE_UNIT \<or> s = TARGET_SALE_UNIT \<and> t = TARGET_VARIANT)"

definition displaces :: "normalized_price \<Rightarrow> normalized_price \<Rightarrow> bool" where
  "displaces q p = (np_price q \<noteq> None \<and> truthy (np_variantId q) \<and> np_variantId q = np_variantId p \<and> opposed (np_target q) (np_target p))"

definition entry_key :: "normalized_price \<Rightarrow> price_target \<times> ident" where
  "entry_key p = (np_target p, np_targetId p)"

lemma find_update_keep:
  "List.find P xs = Some r \<Longrightarrow> \<not> Q r \<Longrightarrow> (\<And>x. \<not> P (f x)) \<Longrightarrow> List.find P (update_where Q f xs) = Some r"
  by (induction xs) (auto simp: table_simps split: if_splits)

lemma find_update_None: "List.find P xs = None \<Longrightarrow> (\<And>x. \<not> P (f x)) \<Longrightarrow> List.find P (update_where Q f xs) = None"
  by (induction xs) (auto simp: table_simps split: if_splits)

lemma find_narrow:
  assumes "\<And>x. Q x \<Longrightarrow> P x" "\<And>r. List.find P xs = Some r \<Longrightarrow> Q r"
  shows "List.find Q xs = List.find P xs"
  using assms(2)
proof (induction xs)
  case (Cons x xs)
  show ?case
  proof (cases "P x")
    case True
    with Cons.prems [of x] show ?thesis by simp
  next
    case False
    then have "\<not> Q x" using assms(1) by blast
    moreover have "List.find Q xs = List.find P xs" by (rule Cons.IH) (use Cons.prems False in simp)
    ultimately show ?thesis using False by simp
  qed
qed simp

lemma upsert_other:
  assumes "price_key (price_row i p x) \<noteq> k"
  shows "live_row (upsert_price i p x rows) k = live_row rows k"
proof -
  let ?P = "\<lambda>r. price_key r = k \<and> pp_deleteAt r = None"
  have "List.find ?P (rs @ [price_row i p x]) = List.find ?P rs" for rs using assms by (induction rs) simp_all
  moreover have "List.find ?P (map (\<lambda>r. if price_key r = price_key (price_row i p x) then price_row i p x else r) rs) = List.find ?P rs" for rs
    using assms by (induction rs) simp_all
  ultimately show ?thesis by (simp add: upsert_price_row live_row_def)
qed

lemma step_other:
  assumes "(i, entry_key q) \<noteq> k"
    and "\<And>r. live_row rows k = Some r \<Longrightarrow>
      \<not> (np_price q \<noteq> None \<and> truthy (np_variantId q) \<and> np_variantId q = pp_variantId r \<and> opposed (np_target q) (pp_target r))"
  shows "live_row (price_step now i rows q) k = live_row rows k"
proof (cases "np_price q")
  case None
  let ?P = "\<lambda>r. price_key r = k \<and> pp_deleteAt r = None"
  let ?f = "update_where (\<lambda>r. price_key r = (i, np_target q, np_targetId q)) (\<lambda>r. r\<lparr>pp_deleteAt := Some now\<rparr>) rows"
  have "List.find ?P ?f = List.find ?P rows"
  proof (cases "List.find ?P rows")
    case None
    then show ?thesis by (simp add: find_update_None)
  next
    case (Some r)
    with find_Some_iff_mem [OF Some] assms(1) show ?thesis
      by (auto simp: entry_key_def intro!: find_update_keep)
  qed
  with None show ?thesis by (simp add: price_step_def live_row_def)
next
  case (Some x)
  have k: "price_key (price_row i q x) \<noteq> k" using assms(1) by (simp add: price_row_def price_key_def entry_key_def)
  have "live_row (archiveConflictingVariantTargetPrices now i q rows) k = live_row rows k"
  proof (cases "live_row rows k")
    case None
    then show ?thesis
      by (cases "np_target q") (auto simp: archiveConflictingVariantTargetPrices_def Let_def live_row_def intro!: find_update_None)
  next
    case (Some r)
    with assms(2) [OF Some] \<open>np_price q = Some x\<close> show ?thesis
      by (cases "np_target q")
        (auto simp: archiveConflictingVariantTargetPrices_def Let_def live_row_def opposed_def intro!: find_update_keep)
  qed
  with Some upsert_other [OF k] show ?thesis by (simp add: price_step_def)
qed

lemma step_same: "live_row (price_step now i rows p) (i, entry_key p) = map_option (price_row i p) (np_price p)"
proof (cases "np_price p")
  case None
  let ?P = "\<lambda>r. price_key r = (i, np_target p, np_targetId p)"
  have "List.find (\<lambda>r. ?P r \<and> pp_deleteAt r = None) (update_where ?P (\<lambda>r. r\<lparr>pp_deleteAt := Some now\<rparr>) rows) = None"
    by (auto simp: find_None_all set_update_where)
  with None show ?thesis by (simp add: live_row_def price_step_def entry_key_def)
next
  case (Some x)
  let ?P = "\<lambda>r. price_key r = price_key (price_row i p x) \<and> pp_deleteAt r = None"
  have "List.find ?P (rs @ [price_row i p x]) = Some (price_row i p x)" if "price_key (price_row i p x) \<notin> price_key ` set rs" for rs
    using that by (induction rs) (auto simp: price_row_def)
  moreover have "List.find ?P (map (\<lambda>r. if price_key r = price_key (price_row i p x) then price_row i p x else r) rs) = Some (price_row i p x)"
    if "price_key (price_row i p x) \<in> price_key ` set rs" for rs
    using that by (induction rs) (auto simp: price_row_def)
  ultimately have "List.find ?P (upsert_price i p x rs) = Some (price_row i p x)" for rs
    by (simp add: upsert_price_row)
  moreover have "price_key (price_row i p x) = (i, entry_key p)" by (simp add: price_row_def price_key_def entry_key_def)
  ultimately show ?thesis using Some by (simp add: live_row_def price_step_def)
qed

lemma steps_other:
  assumes "\<And>q. q \<in> set ps \<Longrightarrow> (i, entry_key q) \<noteq> k"
    and "\<And>q r. q \<in> set ps \<Longrightarrow> live_row rows k = Some r \<Longrightarrow>
      \<not> (np_price q \<noteq> None \<and> truthy (np_variantId q) \<and> np_variantId q = pp_variantId r \<and> opposed (np_target q) (pp_target r))"
  shows "live_row (foldl (price_step now i) rows ps) k = live_row rows k"
  using assms
proof (induction ps arbitrary: rows)
  case (Cons q ps)
  have same: "live_row (price_step now i rows q) k = live_row rows k" by (rule step_other) (use Cons.prems in auto)
  have "live_row (foldl (price_step now i) (price_step now i rows q) ps) k = live_row (price_step now i rows q) k"
    by (rule Cons.IH) (use Cons.prems in \<open>auto simp: same\<close>)
  with same show ?case by simp
qed simp

lemma steps_set:
  assumes "p \<in> set ps" "\<And>q. q \<in> set ps \<Longrightarrow> entry_key q = entry_key p \<Longrightarrow> q = p" "\<And>q. q \<in> set ps \<Longrightarrow> \<not> displaces q p"
  shows "live_row (foldl (price_step now i) rows ps) (i, entry_key p) = map_option (price_row i p) (np_price p)"
proof -
  from split_list_last [OF assms(1)] obtain ys zs where ps: "ps = ys @ p # zs" and zs: "p \<notin> set zs" by blast
  let ?r = "price_step now i (foldl (price_step now i) rows ys) p"
  have "live_row (foldl (price_step now i) ?r zs) (i, entry_key p) = live_row ?r (i, entry_key p)"
  proof (rule steps_other)
    show "(i, entry_key q) \<noteq> (i, entry_key p)" if "q \<in> set zs" for q using assms(2) [of q] that ps zs by auto
    show "\<not> (np_price q \<noteq> None \<and> truthy (np_variantId q) \<and> np_variantId q = pp_variantId r \<and> opposed (np_target q) (pp_target r))"
      if "q \<in> set zs" "live_row ?r (i, entry_key p) = Some r" for q r
      using assms(3) [of q] that ps step_same [of now i "foldl (price_step now i) rows ys" p]
      by (auto simp: displaces_def price_row_def)
  qed
  then show ?thesis by (simp add: ps step_same)
qed

text \<open>The lookup of a line reads the live row of its target.\<close>

lemma find_filter: "List.find P (filter Q xs) = List.find (\<lambda>x. Q x \<and> P x) xs"
  by (induction xs) auto

lemma line_price_live:
  assumes "resolveActivePriceList rq w buyer (Some cat) = Some l" "resolveLineTarget productId v u mode = (target, t)"
    and "\<And>r. live_row (pt_prices (cw_products w)) (pr_id l, target, t) = Some r \<Longrightarrow> pp_productId r = productId"
  shows "service_resolveLinePrice rq w buyer cat productId v u mode =
    \<lparr>ll_priceListId = Some (pr_id l), ll_priceListCode = Some (pr_code l), ll_priceListName = Some (pr_name l),
     ll_price = (case live_row (pt_prices (cw_products w)) (pr_id l, target, t) of None \<Rightarrow> Nullish | Some r \<Rightarrow> toDecimalString (pp_price r)),
     ll_target = Some target\<rparr>"
proof -
  have "List.find (\<lambda>r. pp_target r = target \<and> pp_targetId r = t) (price_rows l (\<lambda>i. i = productId) (cw_products w)) =
      live_row (pt_prices (cw_products w)) (pr_id l, target, t)"
    unfolding price_rows_def find_filter live_row_def
    by (rule find_narrow) (use assms(3) in \<open>auto simp: price_key_def live_row_def find_Some_iff\<close>)
  with assms(1,2) show ?thesis by (simp add: service_resolveLinePrice_def)
qed

lemma bulk_rows:
  assumes "bulkUpsertPrices rq i input w = Inr (rows, w')" "manager_scope rq w = Inr sc"
    and "normalizePrices (cs_ownerCatalogId sc) input w = Inr ps"
  shows "pt_prices (cw_products w') = foldl (price_step (rq_now rq) i) (pt_prices (cw_products w)) ps"
  using assms by (auto simp: bulkUpsertPrices_def Let_def invalidateProductReadCaches_def)

lemma normalized_rounded:
  assumes "normalizePrices cat input w = Inr ps" "p \<in> set ps" "np_price p = Some y"
  shows "to_fixed2 y = y"
proof -
  obtain m where "mapE (normalize_price cat m w) input = Inr ps" by (rule normalizePrices_Inr [OF assms(1)])
  then obtain x where "normalize_price cat m w x = Inr p"
    using mapE_all(1) [of "normalize_price cat m w" input ps "\<lambda>x p. normalize_price cat m w x = Inr p"] assms(2) by blast
  from normalize_price_ok(1) [OF this] assms(3) show ?thesis by (simp add: normalized_ok_def)
qed

text \<open>
  The unit price of a line is made of the price of its sale unit, or else of its variant or product at the
  price that is shown, less the discount of the product.
\<close>

lemma snapshot_of_unit:
  assumes "resolveLineSnapshot now v (Some u) n (price, as) variant pj = Inr (base, stored)" "su_price u = Finite y"
  shows "stored = Finite (fromCents (applyProductDiscountCents (toCents (Finite y)) as False now))"
  using assms by (auto simp: resolveLineSnapshot_def Let_def resolveCartItemPricing_def pricing_simps pricing_line_def price_of_def
      resolveModifierUnitTotalCents_def split: if_splits)

lemma snapshot_of_shown:
  assumes "resolveLineSnapshot now v None n (price, as) variant pj = Inr (base, stored)" "line_commercialPrice pj = Finite y"
    and "truthy v = (variant \<noteq> None)"
  shows "stored = Finite (fromCents (applyProductDiscountCents (toCents (Finite y)) as (\<not> truthy v) now))"
  using assms by (cases variant) (auto simp: resolveLineSnapshot_def Let_def resolveCartItemPricing_def pricing_simps pricing_line_def
      price_of_def withPrice_def resolveModifierUnitTotalCents_def split: if_splits)

lemma price_line_snapshot:
  assumes "price_line_of rq ports cx product input c = Inr (r, pj)" "truthy (lc_variantId c) = (lc_variantPrice c \<noteq> None)"
    and "ll_price (rl_priceList r) = Finite y"
    and "ll_target (rl_priceList r) = Some TARGET_SALE_UNIT \<and> lc_unit c = Some u \<or> lc_unit c = None \<and> line_commercialPrice pj = Finite y"
  shows "rl_unitPriceSnapshot r = Finite (fromCents (applyProductDiscountCents (toCents (Finite y)) (pi_attributes (snd product))
    (lc_unit c = None \<and> \<not> truthy (lc_variantId c)) (rq_now rq)))"
proof -
  let ?variant = "\<lambda>pl. if ll_target pl = Some TARGET_VARIANT then map_option (\<lambda>_. ll_price pl) (lc_variantPrice c) else lc_variantPrice c"
  let ?unit = "\<lambda>pl. if ll_target pl = Some TARGET_SALE_UNIT then map_option (\<lambda>u. (sr_unit u)\<lparr>su_price := ll_price pl\<rparr>) (lc_unit c)
    else map_option sr_unit (lc_unit c)"
  let ?pl = "rl_priceList r"
  from assms(1) obtain pl base price stored where "resolveLineSnapshot (rq_now rq) (lc_variantId c) (?unit pl) (ni_quantity input)
      (price, pi_attributes (snd product)) (?variant pl) pj = Inr (base, stored)" "?pl = pl" "rl_unitPriceSnapshot r = stored"
    unfolding price_line_of_def Let_def by (auto split del: if_split)
  then have s: "resolveLineSnapshot (rq_now rq) (lc_variantId c) (?unit ?pl) (ni_quantity input)
      (price, pi_attributes (snd product)) (?variant ?pl) pj = Inr (base, rl_unitPriceSnapshot r)" by (simp only:)
  have v: "truthy (lc_variantId c) = (?variant ?pl \<noteq> None)" using assms(2) by simp
  from assms(4) show ?thesis
  proof
    assume "ll_target ?pl = Some TARGET_SALE_UNIT \<and> lc_unit c = Some u"
    with s snapshot_of_unit [of "rq_now rq" _ "(sr_unit u)\<lparr>su_price := ll_price ?pl\<rparr>"] assms(3) show ?thesis by simp
  next
    assume no_unit: "lc_unit c = None \<and> line_commercialPrice pj = Finite y"
    then have "?unit ?pl = None" by simp
    from snapshot_of_shown [OF s [unfolded this] _ v, of y] no_unit show ?thesis by simp
  qed
qed

text \<open>
  C20. A price that is set is the price that is charged.  After a committed call that sets the price of a target
  in a list, take any line that resolves under this list to this target, be it the product, a variant or a
  sale unit.  The call has given the target a price, for a line whose price is removed is refused; this is
  the list price of the line; and the unit price that the cart stores is this price less the discount of
  the product, when the line has the sale unit or, without a sale unit, is shown at this price (which
  C28 shows of variants without sale units).  No other entry of the call may name the target again, or
  price its variant by sale units where it is priced as a variant, or as a variant where it is priced by
  sale units, since that archives the price.
\<close>

theorem set_price_is_charged:
  assumes "bulkUpsertPrices rq i input w = Inr (rows, w')" "manager_scope rq w = Inr sc"
    and "normalizePrices (cs_ownerCatalogId sc) input w = Inr ps" "p \<in> set ps"
    and "\<And>q. q \<in> set ps \<Longrightarrow> entry_key q = entry_key p \<Longrightarrow> q = p" "\<And>q. q \<in> set ps \<Longrightarrow> \<not> displaces q p"
    and "resolve_line rq' (sellable_ports rq' w') cx product item w' = Inr (r, Some pj)" "pj_usesPriceList pj"
    and "resolveActivePriceList rq' w' (cx_catalogId cx) (Some (p_catalogId (fst product))) = Some l" "pr_id l = i"
    and "ni_productId item = np_productId p"
    and "resolveLineTarget (ni_productId item) (rl_variantId r) (rl_saleUnitId r) (pj_mode pj) = entry_key p"
  shows "\<exists>y. np_price p = Some y \<and> ll_priceListId (rl_priceList r) = Some i \<and> ll_price (rl_priceList r) = Finite y \<and>
    ll_target (rl_priceList r) = Some (np_target p) \<and>
    (np_target p = TARGET_SALE_UNIT \<or> rl_saleUnitId r = None \<and> resolveCommercialPrice pj = Finite y \<longrightarrow>
      rl_unitPriceSnapshot r = Finite (fromCents (applyProductDiscountCents (toCents (Finite y)) (pi_attributes (snd product))
        (rl_saleUnitId r = None \<and> \<not> truthy (rl_variantId r)) (rq_now rq'))))"
proof -
  from assms(7) obtain c where c: "choose_line rq' (sellable_ports rq' w') cx (p_catalogId (fst product)) item w' = Inr c"
      "price_line_of rq' (sellable_ports rq' w') cx product item c = Inr (r, Some pj)" by (auto simp: resolve_line_def)
  note line = price_line_Inr [OF c(2)]
  let ?pl = "service_resolveLinePrice rq' w' (cx_catalogId cx) (p_catalogId (fst product)) (ni_productId item) (rl_variantId r)
    (rl_saleUnitId r) (pj_mode pj)"
  have live: "live_row (pt_prices (cw_products w')) (i, entry_key p) = map_option (price_row i p) (np_price p)"
    unfolding bulk_rows [OF assms(1-3)] by (rule steps_set [OF assms(4-6)])
  note lookup = line_price_live [OF assms(9) assms(12) [unfolded entry_key_def], unfolded assms(10), folded entry_key_def, unfolded live]
  have pl: "?pl = \<lparr>ll_priceListId = Some i, ll_priceListCode = Some (pr_code l), ll_priceListName = Some (pr_name l),
      ll_price = (case map_option (price_row i p) (np_price p) of None \<Rightarrow> Nullish | Some r \<Rightarrow> toDecimalString (pp_price r)),
      ll_target = Some (np_target p)\<rparr>"
    by (rule lookup) (use assms(11) in \<open>auto simp: price_row_def\<close>)
  have charged: "rl_priceList r = ?pl" "ll_price ?pl \<noteq> Nullish"
    using line(8) assms(8) line(2,3) pl
    by (auto simp: line_priceListLine_def resolvePriceListLine_def sellable_ports_def Let_def split: if_splits)
  obtain y where y: "np_price p = Some y" using charged(2) pl by (cases "np_price p") auto
  with pl normalized_rounded [OF assms(3,4) y] charged(1)
  have lp: "rl_priceList r = \<lparr>ll_priceListId = Some i, ll_priceListCode = Some (pr_code l), ll_priceListName = Some (pr_name l),
      ll_price = Finite y, ll_target = Some (np_target p)\<rparr>" by (simp add: price_row_def toDecimalString_def)
  have v: "truthy (lc_variantId c) = (lc_variantPrice c \<noteq> None)"
    using choose_line_Inr(1) [OF c(1)] by (auto simp: ensureVariantMatchesProduct_def split: if_splits)
  have "rl_unitPriceSnapshot r = Finite (fromCents (applyProductDiscountCents (toCents (Finite y)) (pi_attributes (snd product))
        (rl_saleUnitId r = None \<and> \<not> truthy (rl_variantId r)) (rq_now rq')))"
    if how: "np_target p = TARGET_SALE_UNIT \<or> rl_saleUnitId r = None \<and> resolveCommercialPrice pj = Finite y"
  proof -
    have "lc_unit c \<noteq> None" if "np_target p = TARGET_SALE_UNIT"
      using assms(12) that line(3) by (cases "lc_unit c") (auto simp: resolveLineTarget_def entry_key_def truthy_def split: if_splits)
    with how line(3) lp obtain u where "ll_target (rl_priceList r) = Some TARGET_SALE_UNIT \<and> lc_unit c = Some u \<or>
        lc_unit c = None \<and> line_commercialPrice (Some pj) = Finite y" by (auto simp: line_commercialPrice_def)
    from price_line_snapshot [OF c(2) v _ this] lp line(2,3) show ?thesis by simp
  qed
  with y lp show ?thesis by simp
qed

definition demo_buyer :: cart_context where
  "demo_buyer = \<lparr>cx_id = ''k'', cx_catalogId = ''c'', cx_parentCatalogId = None, cx_inventoryMode = MODE_NONE,
     cx_status = C_DRAFT, cx_tableSessionStatus = None\<rparr>"

definition demo_wanted :: normalized_item where
  "demo_wanted = \<lparr>ni_productId = ''p'', ni_variantId = None, ni_saleUnitId = None, ni_quantity = 2,
     ni_guestSessionId = None, ni_guestName = None, ni_modifiers = []\<rparr>"

text \<open>The world after the price of the product is set, and a line with this product.\<close>

definition demo_entry :: price_input where
  "demo_entry = \<lparr>in_target = TARGET_PRODUCT, in_targetId = ''p'', in_price = Finite 12\<rparr>"

definition demo_repriced :: cart_world where
  "demo_repriced = (case bulkUpsertPrices demo_request ''l'' [demo_entry] demo_priced of Inl _ \<Rightarrow> demo_priced | Inr (_, t) \<Rightarrow> t)"

lemma demo_bulk:
  obtains rows where "bulkUpsertPrices demo_request ''l'' [demo_entry] demo_priced = Inr (rows, demo_repriced)"
proof -
  have "(case bulkUpsertPrices demo_request ''l'' [demo_entry] demo_priced of Inl _ \<Rightarrow> False | Inr _ \<Rightarrow> True)" by code_simp
  then obtain rows t where "bulkUpsertPrices demo_request ''l'' [demo_entry] demo_priced = Inr (rows, t)" by (auto split: sum.splits)
  then show thesis by (intro that) (simp add: demo_repriced_def)
qed

definition demo_priced_choice :: line_choice where
  "demo_priced_choice = \<lparr>lc_variantId = Some ''v'', lc_variantPrice = Some (Finite 20), lc_unit = None, lc_signature = [], lc_modifiers = []\<rparr>"

lemma demo_priced_choose:
  "choose_line demo_request (sellable_ports demo_request demo_repriced) demo_buyer ''c'' demo_wanted demo_repriced = Inr demo_priced_choice"
proof -
  let ?ro = "\<lparr>ro_quantity = 2, ro_enforceStock = False, ro_buyerCatalogId = ''c''\<rparr>"
  obtain rows where "bulkUpsertPrices demo_request ''l'' [demo_entry] demo_priced = Inr (rows, demo_repriced)" by (rule demo_bulk)
  then have same: "sv_entitlements (cw_svc demo_repriced) = sv_entitlements (cw_svc demo_priced)" by (rule bulk_Inr)
  have no: "can_use (rq_tz demo_request) (sv_entitlements (cw_svc demo_priced)) ''c'' CATALOG_SALE_UNITS (rq_now demo_request) = False"
      "can_use (rq_tz demo_request) (sv_entitlements (cw_svc demo_priced)) ''c'' CATALOG_MODIFIERS (rq_now demo_request) = False"
      "can_use (rq_tz demo_request) (sv_entitlements (cw_svc demo_priced)) ''c'' PRODUCT_VARIANTS (rq_now demo_request) = False"
    by code_simp+
  have v: "ensureVariantMatchesProduct ''p'' (Some ''v'') demo_repriced = Inr (Some (Finite 20))" by code_simp
  have m: "stock_mode demo_buyer = MODE_NONE" by code_simp
  note f = no [folded same] v m
  have "(case service_resolveSellable demo_request demo_repriced ''c'' ''p'' None ?ro of Inl _ \<Rightarrow> False
      | Inr pj \<Rightarrow> \<not> pj_requiresVariantSelection pj \<and> pj_variantId pj = Some ''v'')" by code_simp
  then obtain pj where "service_resolveSellable demo_request demo_repriced ''c'' ''p'' None ?ro = Inr pj"
      "\<not> pj_requiresVariantSelection pj" "pj_variantId pj = Some ''v''" by (auto split: sum.splits)
  with f show ?thesis
    by (simp add: choose_line_def Let_def resolveCartVariantId_def resolveImplicitProductVariantId_def demo_buyer_def demo_wanted_def
        sellable_ports_def shouldEnforceStock_def resolveSaleUnit_def resolveModifiers_def truthy_def demo_priced_choice_def
        current_features_def can_buy_def)
qed

lemma demo_repriced_line:
  obtains product r pj where "ensureProductInCatalog demo_buyer ''p'' demo_repriced = Inr product"
    "p_catalogId (fst product) = ''c''" "pi_attributes (snd product) = []"
    "resolve_line demo_request (sellable_ports demo_request demo_repriced) demo_buyer product demo_wanted demo_repriced = Inr (r, Some pj)"
    "pj_usesPriceList pj" "pj_mode pj = SIMPLE" "rl_variantId r = Some ''v''" "rl_saleUnitId r = None" "resolveCommercialPrice pj = Finite 12"
proof -
  let ?ro = "\<lparr>ro_quantity = 2, ro_enforceStock = False, ro_buyerCatalogId = ''c''\<rparr>"
  have "(case ensureProductInCatalog demo_buyer ''p'' demo_repriced of Inl _ \<Rightarrow> False | Inr product \<Rightarrow>
        p_catalogId (fst product) = ''c'' \<and> pi_attributes (snd product) = [])" by code_simp
  then obtain product where p: "ensureProductInCatalog demo_buyer ''p'' demo_repriced = Inr product"
      "p_catalogId (fst product) = ''c''" "pi_attributes (snd product) = []" by (auto split: sum.splits)
  have "(case service_resolveSellable demo_request demo_repriced ''c'' ''p'' (Some ''v'') ?ro of Inl _ \<Rightarrow> False
      | Inr pj \<Rightarrow> pj_usesPriceList pj \<and> pj_mode pj = SIMPLE \<and> resolveCommercialPrice pj = Finite 12)" by code_simp
  then obtain pj where pj: "service_resolveSellable demo_request demo_repriced ''c'' ''p'' (Some ''v'') ?ro = Inr pj"
      "pj_usesPriceList pj" "pj_mode pj = SIMPLE" "resolveCommercialPrice pj = Finite 12" by (auto split: sum.splits)
  have l: "service_resolveLinePrice demo_request demo_repriced ''c'' ''c'' ''p'' (Some ''v'') None SIMPLE =
      \<lparr>ll_priceListId = Some ''l'', ll_priceListCode = Some ''VIP'', ll_priceListName = Some ''VIP'', ll_price = Finite 12,
       ll_target = Some TARGET_PRODUCT\<rparr>" by code_simp
  have q: "line_quantity demo_wanted demo_priced_choice = 2" "stock_mode demo_buyer = MODE_NONE" by code_simp+
  from pj l q p(2) have "\<exists>r. price_line_of demo_request (sellable_ports demo_request demo_repriced) demo_buyer product demo_wanted demo_priced_choice =
      Inr (r, Some pj) \<and> rl_variantId r = Some ''v'' \<and> rl_saleUnitId r = None"
    by (simp add: price_line_of_def line_commercialProjection_def sellable_ports_def shouldEnforceStock_def truthy_def Let_def
        line_priceListLine_def resolvePriceListLine_def demo_buyer_def demo_wanted_def demo_priced_choice_def resolveLineSnapshot_def)
  with demo_priced_choose p pj(2-) show thesis by (auto simp: resolve_line_def intro: that)
qed
theorem set_price_is_charged_witness:
  "\<exists>product r pj. ensureProductInCatalog demo_buyer ''p'' demo_repriced = Inr product \<and>
     resolve_line demo_request (sellable_ports demo_request demo_repriced) demo_buyer product demo_wanted demo_repriced = Inr (r, Some pj) \<and>
     ll_price (rl_priceList r) = Finite 12 \<and>
     rl_unitPriceSnapshot r = Finite (fromCents (applyProductDiscountCents (toCents (Finite 12)) [] False (rq_now demo_request)))"
proof -
  let ?p = "\<lparr>np_target = TARGET_PRODUCT, np_targetId = ''p'', np_productId = ''p'', np_variantId = None, np_saleUnitId = None, np_price = Some 12\<rparr>"
  obtain rows where b: "bulkUpsertPrices demo_request ''l'' [demo_entry] demo_priced = Inr (rows, demo_repriced)" by (rule demo_bulk)
  obtain product r pj where e: "ensureProductInCatalog demo_buyer ''p'' demo_repriced = Inr product"
      "p_catalogId (fst product) = ''c''" "pi_attributes (snd product) = []"
    and r: "resolve_line demo_request (sellable_ports demo_request demo_repriced) demo_buyer product demo_wanted demo_repriced = Inr (r, Some pj)"
      "pj_usesPriceList pj" "pj_mode pj = SIMPLE" "rl_variantId r = Some ''v''" "rl_saleUnitId r = None" "resolveCommercialPrice pj = Finite 12"
    by (rule demo_repriced_line)
  have "(case manager_scope demo_request demo_priced of Inl _ \<Rightarrow> False | Inr sc \<Rightarrow> cs_ownerCatalogId sc = ''c'')" by code_simp
  then obtain sc where sc: "manager_scope demo_request demo_priced = Inr sc" "cs_ownerCatalogId sc = ''c''" by (auto split: sum.splits)
  have n: "normalizePrices ''c'' [demo_entry] demo_priced = Inr [?p]" by code_simp
  have "(case resolveActivePriceList demo_request demo_priced ''c'' (Some ''c'') of None \<Rightarrow> False | Some l \<Rightarrow> pr_id l = ''l'')" by code_simp
  then obtain l where l: "resolveActivePriceList demo_request demo_priced ''c'' (Some ''c'') = Some l" "pr_id l = ''l''"
    by (auto split: option.splits)
  have l': "resolveActivePriceList demo_request demo_repriced ''c'' (Some ''c'') = Some l"
    by (rule bulk_Inr [OF b]) (simp add: active_list_cong l(1))
  have cx: "cx_catalogId demo_buyer = ''c''" "ni_productId demo_wanted = ''p''" by (simp_all add: demo_buyer_def demo_wanted_def)
  have p: "q = ?p" "\<not> displaces q ?p" if "q \<in> set [?p]" for q using that by (simp_all add: displaces_def truthy_def)
  have active: "resolveActivePriceList demo_request demo_repriced (cx_catalogId demo_buyer) (Some (p_catalogId (fst product))) = Some l"
    using l' cx e(2) by simp
  have target: "resolveLineTarget (ni_productId demo_wanted) (rl_variantId r) (rl_saleUnitId r) (pj_mode pj) = entry_key ?p"
    using cx r(3-5) by (simp add: resolveLineTarget_def truthy_def entry_key_def)
  have "ll_price (rl_priceList r) = Finite 12 \<and>
      rl_unitPriceSnapshot r = Finite (fromCents (applyProductDiscountCents (toCents (Finite 12)) [] False (rq_now demo_request)))"
    using set_price_is_charged [OF b sc(1) n [folded sc(2)] _ p r(1,2) active l(2) _ target] cx e(3) r(4-6)
    by (simp add: truthy_def)
  with e(1) r(1) show ?thesis by blast
qed

end
