(* ===== verification/Catalog_Checkout.thy ===== *)
theory Catalog_Checkout
  imports Cart_Snapshot
begin

text \<open>
  The checkout settings of a catalog and the checkout data of a cart (\<^verbatim>\<open>catalog-checkout.ts\<close>): which
  methods a catalog offers, and how the free-form data of a customer becomes the stored snapshot.

  The labels and input types of the fields are left out.  The members of an object have distinct names; \<open>None\<close> is \<^verbatim>\<open>undefined\<close>.  Letters change case in the
  ASCII range, and \<open>tz\<close> is the offset of the server's zone, taken as constant.  \<^verbatim>\<open>new Date(text)\<close> of a
  text that is not in the ISO shape depends on the engine: \<open>parse_date\<close> gives the local year, month, day,
  hour and minute it reads, if any.
\<close>


section \<open>Values of unknown type\<close>

type_synonym members = "(string \<times> json) list"

fun record_of :: "json option \<Rightarrow> members option" where
  "record_of (Some (J_obj m)) = Some m"
| "record_of _ = None"

definition spread :: "members \<Rightarrow> members \<Rightarrow> members" where
  "spread m n = foldl (\<lambda>acc (k, v). map_set k v acc) m n"

text \<open>The operator \<^verbatim>\<open>??\<close> over several members.\<close>

fun first_given :: "json option list \<Rightarrow> json option" where
  "first_given [] = None"
| "first_given (v # vs) = (if v = None \<or> v = Some J_null then first_given vs else v)"

fun normalizeString :: "json option \<Rightarrow> string" where
  "normalizeString (Some (J_str s)) = trim s"
| "normalizeString _ = []"

definition to_upper :: "char \<Rightarrow> char" where
  "to_upper c = (let n = of_char c :: nat in if 97 \<le> n \<and> n \<le> 122 then char_of (n - 32) else c)"

definition is_digit :: "char \<Rightarrow> bool" where
  "is_digit c = (let n = of_char c :: nat in 48 \<le> n \<and> n \<le> 57)"

definition digits_number :: "string \<Rightarrow> nat" where
  "digits_number ds = foldl (\<lambda>n c. 10 * n + (of_char c - 48)) 0 ds"

text \<open>
  \<^verbatim>\<open>Number(text)\<close> when it is finite: the decimal and the prefixed literals, and 0 for a blank text.
\<close>

definition radix_digit :: "nat \<Rightarrow> char \<Rightarrow> nat option" where
  "radix_digit radix c =
     (let n = of_char (to_upper c); d = (if is_digit c then n - 48 else if 65 \<le> n \<and> n \<le> 90 then n - 55 else 36)
      in if d < radix then Some d else None)"

definition radix_value :: "nat \<Rightarrow> string \<Rightarrow> rat option" where
  "radix_value radix ds =
     (if ds = [] then None
      else map_option of_nat (foldl (\<lambda>acc c. case (acc, radix_digit radix c) of
          (Some n, Some d) \<Rightarrow> Some (radix * n + d) | _ \<Rightarrow> None) (Some 0) ds))"

fun read_sign :: "string \<Rightarrow> bool \<times> string" where
  "read_sign (c # s) = (if c = CHR ''-'' then (True, s) else if c = CHR ''+'' then (False, s) else (False, c # s))"
| "read_sign [] = (False, [])"

definition read_exponent :: "string \<Rightarrow> int option" where
  "read_exponent s =
     (case s of
        [] \<Rightarrow> Some 0
      | c # r \<Rightarrow>
          let (negative, ds) = read_sign r in
          if c \<in> {CHR ''e'', CHR ''E''} \<and> ds \<noteq> [] \<and> list_all is_digit ds
          then Some (if negative then - int (digits_number ds) else int (digits_number ds)) else None)"

definition decimal_value :: "string \<Rightarrow> rat option" where
  "decimal_value s =
     (let (negative, t) = read_sign s; whole = takeWhile is_digit t; r = dropWhile is_digit t;
          point = (r \<noteq> [] \<and> hd r = CHR ''.'');
          part = (if point then takeWhile is_digit (tl r) else []);
          rest = (if point then dropWhile is_digit (tl r) else r)
      in if whole @ part = [] then None
         else map_option (\<lambda>e.
             let n = of_nat (digits_number (whole @ part)); k = e - int (length part);
                 x = (if 0 \<le> k then n * 10 ^ nat k else n / 10 ^ nat (- k))
             in fl (if negative then - x else x)) (read_exponent rest))"

abbreviation DOUBLE_MAX :: rat where "DOUBLE_MAX \<equiv> 2 ^ 1024 - 2 ^ 971"

definition js_number :: "string \<Rightarrow> rat option" where
  "js_number text =
     (let s = trim text;
          v = (case s of
                 [] \<Rightarrow> Some 0
               | c # x # ds \<Rightarrow>
                   if c = CHR ''0'' \<and> x \<in> {CHR ''x'', CHR ''X''} then map_option fl (radix_value 16 ds)
                   else if c = CHR ''0'' \<and> x \<in> {CHR ''o'', CHR ''O''} then map_option fl (radix_value 8 ds)
                   else if c = CHR ''0'' \<and> x \<in> {CHR ''b'', CHR ''B''} then map_option fl (radix_value 2 ds)
                   else decimal_value s
               | _ \<Rightarrow> decimal_value s)
      in case v of None \<Rightarrow> None | Some x \<Rightarrow> if \<bar>x\<bar> \<le> DOUBLE_MAX then Some x else None)"

fun numeric :: "json option \<Rightarrow> rat option" where
  "numeric (Some (J_num x)) = Some x"
| "numeric (Some (J_str s)) = js_number s"
| "numeric _ = None"

definition normalizeIntInRange :: "json option \<Rightarrow> int \<Rightarrow> int \<Rightarrow> int option" where
  "normalizeIntInRange v lo hi =
     (case numeric v of
        None \<Rightarrow> None
      | Some x \<Rightarrow> if of_int \<lfloor>x\<rfloor> = x \<and> lo \<le> \<lfloor>x\<rfloor> \<and> \<lfloor>x\<rfloor> \<le> hi then Some \<lfloor>x\<rfloor> else None)"

definition checkout_normalizePositiveInt :: "json option \<Rightarrow> int option" where
  "checkout_normalizePositiveInt v =
     (case numeric v of
        None \<Rightarrow> None
      | Some x \<Rightarrow> if of_int \<lfloor>x\<rfloor> = x \<and> 1 \<le> \<lfloor>x\<rfloor> then Some \<lfloor>x\<rfloor> else None)"

text \<open>The conditional members \<^verbatim>\<open>...(text ? { key: text } : {})\<close>.\<close>

definition text_member :: "string \<Rightarrow> string \<Rightarrow> members" where
  "text_member k s = (if s = [] then [] else [(k, J_str s)])"

definition pad2 :: "nat \<Rightarrow> string" where
  "pad2 n = (let s = show_nat n in replicate (2 - length s) CHR ''0'' @ s)"


section \<open>Settings of a catalog\<close>

datatype contact_type = CT_PHONE | CT_EMAIL | CT_WHATSAPP | CT_MAX | CT_BIP | CT_TELEGRAM | CT_SMS | CT_MAP

record checkout_field =
  ck_key :: string
  ck_required :: bool

record preorder_settings =
  ps_minLeadTimeMinutes :: int
  ps_maxAdvanceDays :: int

type_synonym contact_values = "(contact_type \<times> string) list"

record checkout_config =
  cf_availableMethods :: "checkout_method list"
  cf_enabledMethods :: "checkout_method list"
  cf_methodContacts :: "(checkout_method \<times> contact_values) list"
  cf_preorder :: preorder_settings

record checkout_settings =
  st_enabledMethods :: "checkout_method list option"
  st_methodContacts :: "(checkout_method \<times> contact_values) list option"
  st_preorder :: "preorder_settings option"

datatype settings_error = Checkout_not_an_object | No_available_method

definition CHECKOUT_CONTACT_TYPES :: "contact_type list" where
  "CHECKOUT_CONTACT_TYPES = [CT_PHONE, CT_WHATSAPP, CT_SMS, CT_TELEGRAM, CT_BIP, CT_MAX]"

fun METHOD_FIELDS :: "checkout_method \<Rightarrow> checkout_field list" where
  "METHOD_FIELDS DELIVERY = [\<lparr>ck_key = ''address'', ck_required = True\<rparr>]"
| "METHOD_FIELDS PICKUP = []"
| "METHOD_FIELDS PREORDER = [\<lparr>ck_key = ''personsCount'', ck_required = True\<rparr>,
     \<lparr>ck_key = ''visitDate'', ck_required = True\<rparr>, \<lparr>ck_key = ''visitTime'', ck_required = True\<rparr>]"

definition DEFAULT_PREORDER_SETTINGS :: preorder_settings where
  "DEFAULT_PREORDER_SETTINGS = \<lparr>ps_minLeadTimeMinutes = 30, ps_maxAdvanceDays = 14\<rparr>"

definition isRestaurantCheckoutType :: "string option \<Rightarrow> bool" where
  "isRestaurantCheckoutType typeCode =
     (case typeCode of None \<Rightarrow> False | Some t \<Rightarrow> map to_lower (trim t) \<in> {''restaurant'', ''cafe''})"

definition resolveCheckoutAvailableMethods :: "string option \<Rightarrow> checkout_method list" where
  "resolveCheckoutAvailableMethods typeCode =
     (if isRestaurantCheckoutType typeCode then [DELIVERY, PICKUP, PREORDER] else [DELIVERY, PICKUP])"

definition resolveCheckoutDefaultEnabledMethods :: "string option \<Rightarrow> checkout_method list \<Rightarrow> checkout_method list" where
  "resolveCheckoutDefaultEnabledMethods typeCode available =
     (if isRestaurantCheckoutType typeCode then filter (\<lambda>m. m \<in> set available) [DELIVERY, PICKUP] else [])"

fun method_name :: "checkout_method \<Rightarrow> string" where
  "method_name DELIVERY = ''DELIVERY''"
| "method_name PICKUP = ''PICKUP''"
| "method_name PREORDER = ''PREORDER''"

fun normalizeCheckoutMethod :: "json option \<Rightarrow> checkout_method option" where
  "normalizeCheckoutMethod (Some (J_str s)) =
     List.find (\<lambda>m. map to_upper (trim s) = method_name m) [DELIVERY, PICKUP, PREORDER]"
| "normalizeCheckoutMethod _ = None"

fun contact_type_name :: "contact_type \<Rightarrow> string" where
  "contact_type_name CT_PHONE = ''PHONE''"
| "contact_type_name CT_EMAIL = ''EMAIL''"
| "contact_type_name CT_WHATSAPP = ''WHATSAPP''"
| "contact_type_name CT_MAX = ''MAX''"
| "contact_type_name CT_BIP = ''BIP''"
| "contact_type_name CT_TELEGRAM = ''TELEGRAM''"
| "contact_type_name CT_SMS = ''SMS''"
| "contact_type_name CT_MAP = ''MAP''"

definition normalizeContactType :: "string \<Rightarrow> contact_type option" where
  "normalizeContactType s = List.find (\<lambda>t. contact_type_name t = map to_upper (trim s)) CHECKOUT_CONTACT_TYPES"

definition normalizeMethodArray ::
    "json option \<Rightarrow> checkout_method list \<Rightarrow> bool \<Rightarrow> settings_error + checkout_method list option" where
  "normalizeMethodArray v available strict =
     (case v of
        Some (J_arr xs) \<Rightarrow>
          let methods = foldl (\<lambda>acc m. set_add m acc) [] (List.map_filter (\<lambda>x. normalizeCheckoutMethod (Some x)) xs);
              filtered = filter (\<lambda>m. m \<in> set available) methods
          in if strict \<and> methods \<noteq> [] \<and> filtered = [] then Inl No_available_method else Inr (Some filtered)
      | _ \<Rightarrow> Inr None)"

definition hasCheckoutContacts :: "contact_values \<Rightarrow> bool" where
  "hasCheckoutContacts contacts = (\<exists>(_, v)\<in>set contacts. trim v \<noteq> [])"

definition normalize_contacts :: "members \<Rightarrow> contact_values" where
  "normalize_contacts entries =
     foldl (\<lambda>acc (k, v). case normalizeContactType k of
          Some t \<Rightarrow> if normalizeString (Some v) = [] then acc else map_set t (normalizeString (Some v)) acc
        | None \<Rightarrow> acc) [] entries"

definition normalizeMethodContacts :: "json option \<Rightarrow> (checkout_method \<times> contact_values) list option" where
  "normalizeMethodContacts v =
     (case record_of v of
        None \<Rightarrow> None
      | Some entries \<Rightarrow>
          let result = foldl (\<lambda>acc (k, cv). case (normalizeCheckoutMethod (Some (J_str k)), record_of (Some cv)) of
                (Some m, Some contacts) \<Rightarrow>
                  if hasCheckoutContacts (normalize_contacts contacts) then map_set m (normalize_contacts contacts) acc else acc
              | _ \<Rightarrow> acc) [] entries
          in if result = [] then None else Some result)"

definition normalizePreorderSettings :: "json option \<Rightarrow> preorder_settings option" where
  "normalizePreorderSettings v =
     map_option (\<lambda>m.
       \<lparr>ps_minLeadTimeMinutes = (case normalizeIntInRange (map_get m ''minLeadTimeMinutes'') 0 (24 * 60) of
            Some n \<Rightarrow> n | None \<Rightarrow> ps_minLeadTimeMinutes DEFAULT_PREORDER_SETTINGS),
        ps_maxAdvanceDays = (case normalizeIntInRange (map_get m ''maxAdvanceDays'') 1 365 of
            Some n \<Rightarrow> n | None \<Rightarrow> ps_maxAdvanceDays DEFAULT_PREORDER_SETTINGS)\<rparr>) (record_of v)"

text \<open>The outer option of the result is \<^verbatim>\<open>undefined\<close>, the inner one \<^verbatim>\<open>null\<close>.\<close>

definition normalizeCatalogCheckoutSettings ::
    "json option \<Rightarrow> string option \<Rightarrow> settings_error + checkout_settings option option" where
  "normalizeCatalogCheckoutSettings input typeCode =
     (case input of
        None \<Rightarrow> Inr None
      | Some J_null \<Rightarrow> Inr (Some None)
      | Some (J_obj m) \<Rightarrow>
          bindE (normalizeMethodArray (map_get m ''enabledMethods'') (resolveCheckoutAvailableMethods typeCode) True)
            (\<lambda>enabled. Inr (Some (Some \<lparr>st_enabledMethods = enabled,
               st_methodContacts = normalizeMethodContacts (map_get m ''methodContacts''),
               st_preorder = normalizePreorderSettings (map_get m ''preorder'')\<rparr>)))
      | Some _ \<Rightarrow> Inl Checkout_not_an_object)"

definition resolveCatalogCheckoutConfig :: "json option \<Rightarrow> string option \<Rightarrow> checkout_config" where
  "resolveCatalogCheckoutConfig checkout typeCode =
     (let available = resolveCheckoutAvailableMethods typeCode;
          raw = (case record_of checkout of None \<Rightarrow> [] | Some m \<Rightarrow> m)
      in \<lparr>cf_availableMethods = available,
          cf_enabledMethods = (case normalizeMethodArray (map_get raw ''enabledMethods'') available False of
              Inr (Some ms) \<Rightarrow> ms | _ \<Rightarrow> resolveCheckoutDefaultEnabledMethods typeCode available),
          cf_methodContacts = (case normalizeMethodContacts (map_get raw ''methodContacts'') of
              Some cs \<Rightarrow> cs | None \<Rightarrow> []),
          cf_preorder = (case normalizePreorderSettings (map_get raw ''preorder'') of
              Some p \<Rightarrow> p | None \<Rightarrow> DEFAULT_PREORDER_SETTINGS)\<rparr>)"


section \<open>Date and time of a visit\<close>

definition leap_year :: "nat \<Rightarrow> bool" where
  "leap_year y = (y mod 4 = 0 \<and> (y mod 100 \<noteq> 0 \<or> y mod 400 = 0))"

definition days_in_month :: "nat \<Rightarrow> nat \<Rightarrow> nat" where
  "days_in_month y m =
     (if m \<in> {1, 3, 5, 7, 8, 10, 12} then 31 else if m \<in> {4, 6, 9, 11} then 30
      else if m = 2 then (if leap_year y then 29 else 28) else 0)"

text \<open>Days since 1 January 1970, and the instant of a local time.\<close>

definition day_number :: "nat \<Rightarrow> nat \<Rightarrow> nat \<Rightarrow> int" where
  "day_number y m d =
     (let p = int y - 1 in
      365 * p + p div 4 - p div 100 + p div 400 + int (sum_list (map (days_in_month y) [1..<m])) + int d - 719163)"

definition local_instant :: "int \<Rightarrow> nat \<Rightarrow> nat \<Rightarrow> nat \<Rightarrow> nat \<Rightarrow> nat \<Rightarrow> time" where
  "local_instant tz y m d h mi = day_number y m d * MS_PER_DAY + int h * 3600000 + int mi * 60000 - tz"

text \<open>The shapes \<^verbatim>\<open>dddd-dd-dd\<close>, \<^verbatim>\<open>d{1,2}[./]d{1,2}[./]dddd\<close> and \<^verbatim>\<open>d{1,2}:dd(:dd)?\<close>.\<close>

fun iso_date :: "string \<Rightarrow> (nat \<times> nat \<times> nat) option" where
  "iso_date [a, b, c, d, e, f, g, h, i, j] =
     (if list_all is_digit [a, b, c, d, f, g, i, j] \<and> e = CHR ''-'' \<and> h = CHR ''-''
      then Some (digits_number [a, b, c, d], digits_number [f, g], digits_number [i, j]) else None)"
| "iso_date _ = None"

definition short_number :: "string \<Rightarrow> (nat \<times> string) option" where
  "short_number s =
     (let ds = takeWhile is_digit s in
      if length ds \<in> {1, 2} then Some (digits_number ds, dropWhile is_digit s) else None)"

definition ru_date :: "string \<Rightarrow> (nat \<times> nat \<times> nat) option" where
  "ru_date s =
     (case short_number s of
        Some (d, p # r) \<Rightarrow>
          if p \<notin> {CHR ''.'', CHR ''/''} then None
          else (case short_number r of
              Some (m, [q, a, b, c, e]) \<Rightarrow>
                if q \<in> {CHR ''.'', CHR ''/''} \<and> list_all is_digit [a, b, c, e]
                then Some (digits_number [a, b, c, e], m, d) else None
            | _ \<Rightarrow> None)
      | _ \<Rightarrow> None)"

fun time_tail :: "string \<Rightarrow> (nat \<times> nat) option" where
  "time_tail [p, a, b] =
     (if p = CHR '':'' \<and> list_all is_digit [a, b] then Some (digits_number [a, b], 0) else None)"
| "time_tail [p, a, b, q, c, d] =
     (if p = CHR '':'' \<and> q = CHR '':'' \<and> list_all is_digit [a, b, c, d]
      then Some (digits_number [a, b], digits_number [c, d]) else None)"
| "time_tail _ = None"

definition clock_time :: "string \<Rightarrow> (nat \<times> nat \<times> nat) option" where
  "clock_time s =
     (case short_number s of
        Some (h, r) \<Rightarrow> map_option (\<lambda>(mi, sec). (h, mi, sec)) (time_tail r)
      | None \<Rightarrow> None)"

definition valid_date :: "nat \<Rightarrow> nat \<Rightarrow> nat \<Rightarrow> bool" where
  "valid_date y m d = (2000 \<le> y \<and> y \<le> 2100 \<and> 1 \<le> m \<and> m \<le> 12 \<and> 1 \<le> d \<and> d \<le> days_in_month y m)"

definition date_text :: "nat \<Rightarrow> nat \<Rightarrow> nat \<Rightarrow> string" where
  "date_text y m d = show_nat y @ ''-'' @ pad2 m @ ''-'' @ pad2 d"

definition time_text :: "nat \<Rightarrow> nat \<Rightarrow> string" where
  "time_text h mi = pad2 h @ '':'' @ pad2 mi"

definition normalizeDateParts :: "nat \<Rightarrow> nat \<Rightarrow> nat \<Rightarrow> string option" where
  "normalizeDateParts y m d = (if valid_date y m d then Some (date_text y m d) else None)"

definition normalizeVisitDate :: "json option \<Rightarrow> string option" where
  "normalizeVisitDate v =
     (let raw = normalizeString v in
      case iso_date raw of
        Some (y, m, d) \<Rightarrow> normalizeDateParts y m d
      | None \<Rightarrow> (case ru_date raw of Some (y, m, d) \<Rightarrow> normalizeDateParts y m d | None \<Rightarrow> None))"

definition normalizeVisitTime :: "json option \<Rightarrow> string option" where
  "normalizeVisitTime v =
     (case clock_time (normalizeString v) of
        Some (h, mi, sec) \<Rightarrow> if h \<le> 23 \<and> mi \<le> 59 \<and> sec \<le> 59 then Some (time_text h mi) else None
      | None \<Rightarrow> None)"

record schedule =
  sd_date :: time
  sd_scheduledAt :: string
  sd_visitDate :: string
  sd_visitTime :: string

definition parseLocalDateTime :: "int \<Rightarrow> string \<Rightarrow> string \<Rightarrow> time option" where
  "parseLocalDateTime tz visitDate visitTime =
     (case (iso_date visitDate, clock_time visitTime) of
        (Some (y, m, d), Some (h, mi, _)) \<Rightarrow>
          if length visitTime = 5 then Some (local_instant tz y m d h mi) else None
      | _ \<Rightarrow> None)"

definition buildPreorderSchedule :: "int \<Rightarrow> string \<Rightarrow> string \<Rightarrow> schedule option" where
  "buildPreorderSchedule tz visitDate visitTime =
     map_option (\<lambda>date. \<lparr>sd_date = date, sd_scheduledAt = visitDate @ ''T'' @ visitTime @ '':00.000'',
        sd_visitDate = visitDate, sd_visitTime = visitTime\<rparr>) (parseLocalDateTime tz visitDate visitTime)"

text \<open>The ISO shape of a date with its time, split into the date, the hours, the minutes and the seconds.\<close>

fun fraction_shape :: "string \<Rightarrow> bool" where
  "fraction_shape [] = True"
| "fraction_shape (p # ds) = (p = CHR ''.'' \<and> list_all is_digit ds \<and> 1 \<le> length ds \<and> length ds \<le> 7)"

fun seconds_part :: "string \<Rightarrow> string option" where
  "seconds_part [] = Some ''00''"
| "seconds_part (p # a # b # r) =
     (if p = CHR '':'' \<and> list_all is_digit [a, b] \<and> fraction_shape r then Some [a, b] else None)"
| "seconds_part _ = None"

definition iso_date_time :: "string \<Rightarrow> (string \<times> string) option" where
  "iso_date_time s =
     (let date = take 10 s; hours = takeWhile is_digit (drop 11 s) in
      case dropWhile is_digit (drop 11 s) of
        p # a # b # r \<Rightarrow>
          if iso_date date \<noteq> None \<and> s ! 10 \<in> {CHR ''T'', CHR '' ''} \<and> length hours \<in> {1, 2} \<and>
             p = CHR '':'' \<and> list_all is_digit [a, b]
          then map_option (\<lambda>sec. (date, hours @ [CHR '':'', a, b, CHR '':''] @ sec)) (seconds_part r) else None
      | _ \<Rightarrow> None)"

type_synonym date_parser = "string \<Rightarrow> (int \<times> nat \<times> nat \<times> nat \<times> nat) option"

definition normalizePreorderDateTime :: "int \<Rightarrow> date_parser \<Rightarrow> string \<Rightarrow> schedule option" where
  "normalizePreorderDateTime tz parse_date value =
     (let normalized = trim value in
      case iso_date_time normalized of
        Some (date, clock) \<Rightarrow>
          (case (normalizeVisitDate (Some (J_str date)), normalizeVisitTime (Some (J_str clock))) of
             (Some visitDate, Some visitTime) \<Rightarrow> buildPreorderSchedule tz visitDate visitTime
           | _ \<Rightarrow> None)
      | None \<Rightarrow>
          (case parse_date normalized of
             None \<Rightarrow> None
           | Some (y, m, d, h, mi) \<Rightarrow>
               if y < 0 then None else buildPreorderSchedule tz (date_text (nat y) m d) (time_text h mi)))"

definition normalizePreorderSchedule :: "int \<Rightarrow> date_parser \<Rightarrow> members \<Rightarrow> schedule option" where
  "normalizePreorderSchedule tz parse_date raw =
     (let explicit = normalizeString (first_given (map (map_get raw)
            [''scheduledAt'', ''completeBefore'', ''preorderAt'', ''visitAt'', ''plannedAt''])) in
      if explicit \<noteq> [] then normalizePreorderDateTime tz parse_date explicit
      else case (normalizeVisitDate (first_given (map (map_get raw) [''visitDate'', ''date'', ''preorderDate''])),
                 normalizeVisitTime (first_given (map (map_get raw) [''visitTime'', ''time'', ''preorderTime'']))) of
        (Some visitDate, Some visitTime) \<Rightarrow> buildPreorderSchedule tz visitDate visitTime
      | _ \<Rightarrow> None)"


section \<open>Checkout data of a cart\<close>

definition normalizeCustomerCheckoutData :: "members \<Rightarrow> members" where
  "normalizeCustomerCheckoutData raw =
     (let name1 = normalizeString (map_get raw ''customerName''); name2 = normalizeString (map_get raw ''name'')
      in text_member ''customerName'' (if name1 = [] then name2 else name1) @
         text_member ''phone'' (normalizeString (map_get raw ''phone'')))"

definition isHallCheckoutData :: "members \<Rightarrow> bool" where
  "isHallCheckoutData raw =
     (map to_upper (normalizeString (map_get raw ''orderMode'')) = ''HALL'' \<or>
      normalizeString (first_given (map (map_get raw)
        [''iikoTableId'', ''hallTableId'', ''integrationExternalItemCode'', ''hallTableCode'', ''tableCode'', ''t''])) \<noteq> [])"

definition INTEGRATION_TEXT_FIELDS :: "string list" where
  "INTEGRATION_TEXT_FIELDS =
     [''hallSectionId'', ''hallSectionName'', ''hallTableCode'', ''hallTableId'', ''hallTableName'', ''hallTableNumber'',
      ''iikoRestaurantSectionId'', ''iikoRestaurantSectionName'', ''iikoTableId'', ''integrationExternalItemCode'',
      ''orderMode'', ''t'', ''table'', ''tableCode'', ''tableId'', ''tableName'', ''tableNumber'']"

definition guests_members :: "int option \<Rightarrow> members" where
  "guests_members guests =
     (case guests of None \<Rightarrow> [] | Some n \<Rightarrow> [(''guestsCount'', J_num (of_int n)), (''personsCount'', J_num (of_int n))])"

definition normalizeIntegrationCheckoutData :: "members \<Rightarrow> members" where
  "normalizeIntegrationCheckoutData raw =
     concat (map (\<lambda>k. text_member k (normalizeString (map_get raw k))) INTEGRATION_TEXT_FIELDS) @
     guests_members (checkout_normalizePositiveInt (first_given (map (map_get raw) [''guestsCount'', ''personsCount''])))"

definition address_members :: "string option \<Rightarrow> string option \<Rightarrow> members" where
  "address_members catalogAddress mapUrl =
     text_member ''address'' (normalizeString (map_option J_str catalogAddress)) @
     text_member ''mapUrl'' (normalizeString (map_option J_str mapUrl))"

definition customer_and_integration :: "members \<Rightarrow> members" where
  "customer_and_integration raw = spread (normalizeCustomerCheckoutData raw) (normalizeIntegrationCheckoutData raw)"

definition checkout_normalizeHallCheckoutData ::
    "string option \<Rightarrow> string option \<Rightarrow> members \<Rightarrow> checkout_error + members" where
  "checkout_normalizeHallCheckoutData catalogAddress mapUrl raw =
     (let integration = normalizeIntegrationCheckoutData raw in
      if first_given (map (map_get integration) [''iikoTableId'', ''hallTableId'', ''tableId'',
           ''integrationExternalItemCode'', ''hallTableCode'', ''tableCode'', ''t'']) = None
      then Inl Hall_table_id_required
      else Inr (spread (spread (customer_and_integration raw) [(''orderMode'', J_str ''HALL'')])
                  (address_members catalogAddress mapUrl)))"

definition resolveCartCheckoutMethod :: "json option \<Rightarrow> checkout_config \<Rightarrow> checkout_error + checkout_method" where
  "resolveCartCheckoutMethod v config =
     (case normalizeCheckoutMethod v of
        Some m \<Rightarrow> Inr m
      | None \<Rightarrow> (case cf_enabledMethods config of [m] \<Rightarrow> Inr m | _ \<Rightarrow> Inl Method_required))"

definition preorder_members :: "int \<Rightarrow> schedule \<Rightarrow> members" where
  "preorder_members persons s = [(''personsCount'', J_num (of_int persons)), (''scheduledAt'', J_str (sd_scheduledAt s)),
     (''visitDate'', J_str (sd_visitDate s)), (''visitTime'', J_str (sd_visitTime s))]"

definition preorder_data ::
    "time \<Rightarrow> int \<Rightarrow> date_parser \<Rightarrow> preorder_settings \<Rightarrow> members \<Rightarrow> checkout_error + members" where
  "preorder_data now tz parse_date settings raw =
     bindE (option_to_res Persons_count_required (checkout_normalizePositiveInt (map_get raw ''personsCount'')))
       (\<lambda>persons. bindE (option_to_res Visit_time_required (normalizePreorderSchedule tz parse_date raw))
       (\<lambda>s. if sd_date s < now + ps_minLeadTimeMinutes settings * 60 * 1000
             then Inl (Preorder_too_soon (ps_minLeadTimeMinutes settings))
             else if now + ps_maxAdvanceDays settings * 24 * 60 * 60 * 1000 < sd_date s
             then Inl (Preorder_too_far (ps_maxAdvanceDays settings))
             else Inr (spread (customer_and_integration raw) (preorder_members persons s))))"

definition normalizeCartCheckoutData ::
    "time \<Rightarrow> int \<Rightarrow> date_parser \<Rightarrow> string option \<Rightarrow> checkout_config \<Rightarrow> json option \<Rightarrow> string option \<Rightarrow> json option
     \<Rightarrow> checkout_error + (checkout_method option \<times> members)" where
  "normalizeCartCheckoutData now tz parse_date catalogAddress config data mapUrl method =
     (let explicit = normalizeCheckoutMethod method; raw = (case record_of data of None \<Rightarrow> [] | Some m \<Rightarrow> m) in
      if cf_enabledMethods config = [] \<and> explicit = None then Inr (None, [])
      else if explicit \<noteq> Some PREORDER \<and> isHallCheckoutData raw
      then map_sum id (\<lambda>d. (Some PICKUP, d)) (checkout_normalizeHallCheckoutData catalogAddress mapUrl raw)
      else bindE (resolveCartCheckoutMethod method config)
        (\<lambda>m. if m \<notin> set (if cf_enabledMethods config \<noteq> [] then cf_enabledMethods config else cf_availableMethods config)
              then Inl Method_not_enabled
              else map_sum id (\<lambda>d. (Some m, d))
                (case m of
                   DELIVERY \<Rightarrow>
                     (let address = normalizeString (map_get raw ''address'') in
                      if address = [] then Inl Address_required
                      else Inr (spread (customer_and_integration raw) [(''address'', J_str address)]))
                 | PICKUP \<Rightarrow> Inr (spread (customer_and_integration raw) (address_members catalogAddress mapUrl))
                 | PREORDER \<Rightarrow> preorder_data now tz parse_date (cf_preorder config) raw)))"

definition resolveCheckoutContactsSnapshot ::
    "(contact_type \<times> string) list \<Rightarrow> checkout_config \<Rightarrow> checkout_method option \<Rightarrow> contact_values" where
  "resolveCheckoutContactsSnapshot catalogContacts config method =
     (let custom = (case Option.bind method (map_get (cf_methodContacts config)) of None \<Rightarrow> [] | Some cs \<Rightarrow> cs) in
      if hasCheckoutContacts custom then custom
      else foldl (\<lambda>acc (t, v). if t \<in> set CHECKOUT_CONTACT_TYPES \<and> trim v \<noteq> [] then map_set t (trim v) acc else acc)
             [] catalogContacts)"


section \<open>The snapshot of a cart\<close>

text \<open>What \<^verbatim>\<open>resolveCheckoutSnapshot\<close> of \<^verbatim>\<open>cart-share.service.ts\<close> reads of an existing catalog: its live contacts in their order.\<close>

record checkout_catalog =
  kc_id :: ident
  kc_typeCode :: "string option"
  kc_address :: "string option"
  kc_checkout :: "json option"
  kc_contacts :: "(contact_type \<times> string) list"

definition resolveCatalogMapUrl :: "(contact_type \<times> string) list \<Rightarrow> string option" where
  "resolveCatalogMapUrl contacts =
     (case List.find (\<lambda>c. fst c = CT_MAP) contacts of
        None \<Rightarrow> None
      | Some (_, v) \<Rightarrow> if trim v = [] then None else Some (trim v))"

definition resolveCheckoutSnapshot ::
    "time \<Rightarrow> int \<Rightarrow> date_parser \<Rightarrow> checkout_catalog list \<Rightarrow> ident \<Rightarrow> json option \<Rightarrow> json option
     \<Rightarrow> cart_error + (checkout_method option \<times> json \<times> json)" where
  "resolveCheckoutSnapshot now tz parse_date catalogs catalogId data method =
     bindE (option_to_res Catalog_not_found (List.find (\<lambda>g. kc_id g = catalogId) catalogs))
       (\<lambda>g. let config = resolveCatalogCheckoutConfig (kc_checkout g) (kc_typeCode g) in
          bindE (map_sum Checkout_refused id (normalizeCartCheckoutData now tz parse_date (kc_address g) config data
                   (resolveCatalogMapUrl (kc_contacts g)) method))
       (\<lambda>(m, d). Inr (m, J_obj d,
            J_obj (map (\<lambda>(t, v). (contact_type_name t, J_str v)) (resolveCheckoutContactsSnapshot (kc_contacts g) config m)))))"

end
