(* ===== verification/Checkout_Properties.thy ===== *)
theory Checkout_Properties
  imports Catalog_Checkout
begin

text \<open>
  What the checkout data of a cart guarantees: an accepted snapshot has a method the catalog offers with the
  fields that method requires, and normalising a stored snapshot again gives the snapshot back.
\<close>


section \<open>Members of an object\<close>

lemma map_get_Nil [simp]: "map_get [] k = None"
  by (simp add: map_get_def)

lemma map_get_Cons [simp]: "map_get ((k', v) # m) k = (if k = k' then Some v else map_get m k)"
  by (simp add: map_get_def)

lemma map_get_append: "map_get (m @ n) k = (case map_get m k of Some v \<Rightarrow> Some v | None \<Rightarrow> map_get n k)"
  by (simp add: map_get_def map_add_def split: option.split)

lemma map_get_None: "k \<notin> fst ` set m \<Longrightarrow> map_get m k = None"
  by (simp add: map_get_def map_of_eq_None_iff)

lemma spread_Nil: "spread m [] = m"
  by (simp add: spread_def)

lemma spread_Cons: "spread m ((k, v) # n) = spread (map_set k v m) n"
  by (simp add: spread_def)

lemma map_get_spread:
  "distinct (map fst n) \<Longrightarrow> map_get (spread m n) k = (case map_get n k of Some v \<Rightarrow> Some v | None \<Rightarrow> map_get m k)"
proof (induction n arbitrary: m)
  case (Cons p n)
  obtain j v where p: "p = (j, v)" by (cases p)
  from Cons.prems p have "map_get n j = None" by (auto intro!: map_get_None)
  with Cons p show ?case by (simp add: spread_Cons map_get_set split: option.split)
qed (simp add: spread_Nil)

definition text_opt :: "string \<Rightarrow> json option" where
  "text_opt s = (if s = [] then None else Some (J_str s))"

lemma trim_trim [simp]: "trim (trim s) = trim s"
proof -
  have tl: "trim_left (trim_left t) = trim_left t" for t by (simp add: trim_left_def dropWhile_idem)
  have keep: "trim_left (rev (trim_left (rev (trim_left t)))) = rev (trim_left (rev (trim_left t)))" for t
  proof (cases "trim_left t")
    case (Cons c u)
    then have c: "\<not> is_blank c"
      by (metis hd_dropWhile list.distinct(1) list.sel(1) trim_left_def)
    then have "rev (trim_left (rev (c # u))) = c # rev (trim_left (rev u))"
      by (simp add: trim_left_def dropWhile_append)
    with c Cons show ?thesis by (simp add: trim_left_def)
  next
    case Nil
    then show ?thesis by (simp add: trim_left_def [of "[]"])
  qed
  show ?thesis by (simp add: trim_def keep tl)
qed

lemma normalizeString_trim [simp]: "trim (normalizeString v) = normalizeString v"
  by (cases v rule: normalizeString.cases) (simp_all add: trim_def [of "[]"] trim_left_def [of "[]"])

lemma normalizeString_text [simp]: "normalizeString (text_opt (normalizeString v)) = normalizeString v"
  by (simp add: text_opt_def)

lemma map_get_text: "map_get (text_member k s) j = (if j = k then text_opt s else None)"
  by (simp add: text_member_def text_opt_def)

lemma keys_text: "map fst (text_member k s) = (if s = [] then [] else [k])"
  by (simp add: text_member_def)

lemma map_get_texts:
  "distinct ks \<Longrightarrow> map_get (concat (map (\<lambda>k. text_member k (f k)) ks)) j = (if j \<in> set ks then text_opt (f j) else None)"
  by (induction ks) (auto simp: map_get_append map_get_text split: option.split)

lemma keys_texts:
  "distinct ks \<Longrightarrow> distinct (map fst (concat (map (\<lambda>k. text_member k (f k)) ks))) \<and>
    fst ` set (concat (map (\<lambda>k. text_member k (f k)) ks)) \<subseteq> set ks"
  by (induction ks) (auto simp: text_member_def)

definition guests_of :: "members \<Rightarrow> int option" where
  "guests_of raw = checkout_normalizePositiveInt (first_given (map (map_get raw) [''guestsCount'', ''personsCount'']))"

definition guests_opt :: "int option \<Rightarrow> json option" where
  "guests_opt g = map_option (\<lambda>n. J_num (of_int n)) g"

lemma integration_get:
  "map_get (normalizeIntegrationCheckoutData raw) k =
    (if k \<in> set INTEGRATION_TEXT_FIELDS then text_opt (normalizeString (map_get raw k))
     else if k \<in> {''guestsCount'', ''personsCount''} then guests_opt (guests_of raw) else None)"
proof -
  have "distinct INTEGRATION_TEXT_FIELDS" by code_simp
  then have texts: "map_get (concat (map (\<lambda>k. text_member k (normalizeString (map_get raw k))) INTEGRATION_TEXT_FIELDS)) k =
      (if k \<in> set INTEGRATION_TEXT_FIELDS then text_opt (normalizeString (map_get raw k)) else None)"
    by (rule map_get_texts)
  have guests: "map_get (guests_members g) k = (if k \<in> {''guestsCount'', ''personsCount''} then guests_opt g else None)" for g
    by (cases g) (simp_all add: guests_members_def guests_opt_def)
  have "''guestsCount'' \<notin> set INTEGRATION_TEXT_FIELDS" "''personsCount'' \<notin> set INTEGRATION_TEXT_FIELDS" by code_simp+
  then have out: "k \<notin> {''guestsCount'', ''personsCount''}" if "k \<in> set INTEGRATION_TEXT_FIELDS" using that by blast
  show ?thesis
    unfolding normalizeIntegrationCheckoutData_def map_get_append texts guests guests_of_def [symmetric]
    by (cases "k \<in> set INTEGRATION_TEXT_FIELDS") (simp_all only: out if_True if_False option.case, simp split: option.split)
qed

lemma integration_keys: "distinct (map fst (normalizeIntegrationCheckoutData raw))"
proof -
  have d: "distinct INTEGRATION_TEXT_FIELDS" by code_simp
  have guests: "distinct (map fst (guests_members g))" "fst ` set (guests_members g) \<subseteq> {''guestsCount'', ''personsCount''}" for g
    by (cases g; simp add: guests_members_def)+
  define T where "T = concat (map (\<lambda>k. text_member k (normalizeString (map_get raw k))) INTEGRATION_TEXT_FIELDS)"
  have T: "distinct (map fst T)" "fst ` set T \<subseteq> set INTEGRATION_TEXT_FIELDS"
    unfolding T_def by (rule keys_texts [OF d, THEN conjunct1], rule keys_texts [OF d, THEN conjunct2])
  have "set INTEGRATION_TEXT_FIELDS \<inter> {''guestsCount'', ''personsCount''} = {}"
    by code_simp
  with Int_mono [OF T(2) guests(2)] have "fst ` set T \<inter> fst ` set (guests_members g) = {}" for g
    by (metis subset_empty)
  then show ?thesis
    by (simp add: normalizeIntegrationCheckoutData_def T_def [symmetric] T(1) guests(1))
qed

definition customer_name :: "members \<Rightarrow> string" where
  "customer_name raw = (let n = normalizeString (map_get raw ''customerName'') in
     if n = [] then normalizeString (map_get raw ''name'') else n)"

lemma customer_get:
  "map_get (normalizeCustomerCheckoutData raw) k =
    (if k = ''customerName'' then text_opt (customer_name raw)
     else if k = ''phone'' then text_opt (normalizeString (map_get raw ''phone'')) else None)"
  by (auto simp: normalizeCustomerCheckoutData_def Let_def map_get_append map_get_text customer_name_def text_opt_def split: option.split)

lemma merged_get:
  "map_get (customer_and_integration raw) k =
    (if k = ''customerName'' then text_opt (customer_name raw)
     else if k = ''phone'' then text_opt (normalizeString (map_get raw ''phone''))
     else map_get (normalizeIntegrationCheckoutData raw) k)"
proof -
  have "''customerName'' \<notin> set INTEGRATION_TEXT_FIELDS" "''phone'' \<notin> set INTEGRATION_TEXT_FIELDS" by code_simp+
  then show ?thesis
    by (auto simp: customer_and_integration_def map_get_spread [OF integration_keys] customer_get integration_get split: option.split)
qed


lemma merged_keys_other:
  "k \<notin> {''customerName'', ''phone'', ''guestsCount'', ''personsCount''} \<Longrightarrow> k \<notin> set INTEGRATION_TEXT_FIELDS \<Longrightarrow>
    map_get (customer_and_integration raw) k = None"
  by (simp add: merged_get integration_get)

lemma merged_stable:
  assumes "k \<in> set INTEGRATION_TEXT_FIELDS \<Longrightarrow> normalizeString (map_get d k) = normalizeString (map_get raw k)"
    and "guests_of d = guests_of raw" "customer_name d = customer_name raw"
    and "normalizeString (map_get d ''phone'') = normalizeString (map_get raw ''phone'')"
  shows "map_get (customer_and_integration d) k = map_get (customer_and_integration raw) k"
  using assms by (simp add: merged_get integration_get)

lemma positive_int:
  "checkout_normalizePositiveInt v = Some n \<Longrightarrow> 1 \<le> n"
  "1 \<le> n \<Longrightarrow> checkout_normalizePositiveInt (Some (J_num (of_int n))) = Some n"
  by (auto simp: checkout_normalizePositiveInt_def split: option.splits if_splits)

lemma positive_int_None [simp]: "checkout_normalizePositiveInt None = None"
  by (simp add: checkout_normalizePositiveInt_def)

lemma guests_stable:
  assumes "map_get d ''guestsCount'' = guests_opt (guests_of raw)" "map_get d ''personsCount'' = guests_opt (guests_of raw)"
  shows "guests_of d = guests_of raw"
proof (cases "guests_of raw")
  case None
  with assms show ?thesis by (simp add: guests_of_def [of d] guests_opt_def)
next
  case (Some n)
  with positive_int(1) have "1 \<le> n" unfolding guests_of_def by blast
  with assms Some positive_int(2) show ?thesis by (simp add: guests_of_def [of d] guests_opt_def)
qed

lemma field_names:
  "''customerName'' \<notin> set INTEGRATION_TEXT_FIELDS" "''phone'' \<notin> set INTEGRATION_TEXT_FIELDS" "''name'' \<notin> set INTEGRATION_TEXT_FIELDS"
  "''guestsCount'' \<notin> set INTEGRATION_TEXT_FIELDS" "''personsCount'' \<notin> set INTEGRATION_TEXT_FIELDS"
  "''address'' \<notin> set INTEGRATION_TEXT_FIELDS" "''mapUrl'' \<notin> set INTEGRATION_TEXT_FIELDS" "''scheduledAt'' \<notin> set INTEGRATION_TEXT_FIELDS"
  "''visitDate'' \<notin> set INTEGRATION_TEXT_FIELDS" "''visitTime'' \<notin> set INTEGRATION_TEXT_FIELDS" "''orderMode'' \<in> set INTEGRATION_TEXT_FIELDS"
  by code_simp+

text \<open>
  The stored data is the customer's data overwritten by some \<open>extra\<close> members; \<open>d\<close> is read again.
\<close>

lemma stored_customer:
  assumes d: "\<And>k. map_get d k = (case map_get extra k of Some v \<Rightarrow> Some v | None \<Rightarrow> map_get (customer_and_integration raw) k)"
    and extra: "map_get extra ''customerName'' = None" "map_get extra ''phone'' = None" "map_get extra ''name'' = None"
  shows "customer_name d = customer_name raw" "normalizeString (map_get d ''phone'') = normalizeString (map_get raw ''phone'')"
proof -
  have n: "map_get d ''name'' = None" "map_get d ''customerName'' = text_opt (customer_name raw)"
    "map_get d ''phone'' = text_opt (normalizeString (map_get raw ''phone''))"
    unfolding d extra by (simp_all add: merged_get integration_get field_names)
  then show "normalizeString (map_get d ''phone'') = normalizeString (map_get raw ''phone'')" by simp
  have "normalizeString (text_opt (customer_name raw)) = customer_name raw"
    by (simp add: customer_name_def Let_def)
  with n show "customer_name d = customer_name raw" by (simp add: customer_name_def [of d] Let_def)
qed

lemma stored_text:
  assumes d: "\<And>k. map_get d k = (case map_get extra k of Some v \<Rightarrow> Some v | None \<Rightarrow> map_get (customer_and_integration raw) k)"
    and "map_get extra k = None" "k \<in> set INTEGRATION_TEXT_FIELDS"
  shows "map_get d k = text_opt (normalizeString (map_get raw k))"
proof -
  have "k \<noteq> ''customerName''" "k \<noteq> ''phone''" using assms(3) field_names by metis+
  with assms show ?thesis by (simp add: d merged_get integration_get)
qed

lemma stored_guests:
  assumes d: "\<And>k. map_get d k = (case map_get extra k of Some v \<Rightarrow> Some v | None \<Rightarrow> map_get (customer_and_integration raw) k)"
    and extra: "map_get extra ''guestsCount'' = None" "map_get extra ''personsCount'' = None"
  shows "guests_of d = guests_of raw"
  by (rule guests_stable) (simp_all add: d extra merged_get integration_get field_names)



section \<open>Dates and times\<close>

lemma digit_chars:
  assumes "is_digit c"
  obtains n :: nat where "n < 10" "c = char_of (48 + n)"
proof (rule that)
  from assms have n: "48 \<le> (of_char c :: nat)" "(of_char c :: nat) \<le> 57" by (simp_all add: is_digit_def Let_def)
  then show "c = char_of (48 + (of_char c - 48 :: nat))" "(of_char c - 48 :: nat) < 10" by simp_all
qed

lemma of_digit [simp]: "(n :: nat) < 10 \<Longrightarrow> (of_char (char_of (48 + n) :: char) :: nat) = 48 + n"
  by (simp add: of_char_of)

lemma digits_number2: "(a :: nat) < 10 \<Longrightarrow> (b :: nat) < 10 \<Longrightarrow> digits_number [char_of (48 + a), char_of (48 + b)] = 10 * a + b"
  by (simp add: digits_number_def)

lemma zero_char: "char_of (48 :: nat) = CHR ''0''"
  by code_simp

lemma pad2_digits:
  assumes "is_digit x" "is_digit y"
  shows "pad2 (digits_number [x, y]) = [x, y]"
proof -
  from assms(1) obtain a :: nat where a: "a < 10" "x = char_of (48 + a)" by (rule digit_chars)
  from assms(2) obtain b :: nat where "b < 10" "y = char_of (48 + b)" by (rule digit_chars)
  with a have v: "digits_number [x, y] = 10 * a + b" "[x, y] = [char_of (48 + a), char_of (48 + b)]" "a < 10" "b < 10"
    by (simp_all add: digits_number2)
  show ?thesis unfolding v(1) unfolding v(2) using v(3,4)
    by (cases "a = 0") (simp_all add: zero_char pad2_def Let_def show_nat.simps [of "10 * a + b"] show_nat.simps [of a] show_nat.simps [of b])
qed

lemma show_year:
  assumes "list_all is_digit [x, y, z, w]" "1000 \<le> digits_number [x, y, z, w]"
  shows "show_nat (digits_number [x, y, z, w]) = [x, y, z, w]"
proof -
  from assms(1) have dg: "is_digit x" "is_digit y" "is_digit z" "is_digit w" by simp_all
  from dg(1) obtain a :: nat where a: "a < 10" "x = char_of (48 + a)" by (rule digit_chars)
  from dg(2) obtain b :: nat where b: "b < 10" "y = char_of (48 + b)" by (rule digit_chars)
  from dg(3) obtain c :: nat where c: "c < 10" "z = char_of (48 + c)" by (rule digit_chars)
  from dg(4) obtain d :: nat where d: "d < 10" "w = char_of (48 + d)" by (rule digit_chars)
  note n = a(1) b(1) c(1) d(1) and ch = a(2) b(2) c(2) d(2)
  have v: "digits_number [x, y, z, w] = 10 * (10 * (10 * a + b) + c) + d" using n ch by (simp add: digits_number_def)
  with assms(2) n have pos: "0 < a" by simp
  have step: "show_nat (10 * m + k) = show_nat m @ [char_of (48 + k)]" if "0 < m" "k < 10" for m k :: nat
    using that by (subst show_nat.simps) simp
  show ?thesis unfolding v unfolding ch using n pos
    by (simp only: step show_nat.simps [of a] append.simps if_True add_pos_nonneg zero_le mult_pos_pos zero_less_numeral)
qed

lemma iso_date_cases:
  assumes "iso_date s = Some (y, m, d)"
  obtains a b c e f g i j where "s = [a, b, c, e, CHR ''-'', f, g, CHR ''-'', i, j]"
    "list_all is_digit [a, b, c, e, f, g, i, j]"
    "y = digits_number [a, b, c, e]" "m = digits_number [f, g]" "d = digits_number [i, j]"
  using assms by (cases s rule: iso_date.cases) (auto split: if_splits)

lemma iso_date_text:
  assumes "iso_date s = Some (y, m, d)" "1000 \<le> y"
  shows "date_text y m d = s"
  using assms(1)
  by (rule iso_date_cases) (use assms(2) in \<open>simp add: date_text_def show_year pad2_digits\<close>)

lemma digit_not_blank: "is_digit c \<Longrightarrow> \<not> is_blank c"
  unfolding is_digit_def is_blank_def Let_def by auto

lemma iso_date_trim: "iso_date s = Some x \<Longrightarrow> trim s = s"
proof (rule trim_id)
  fix c
  assume "iso_date s = Some x" "c \<in> set s"
  moreover obtain y m d where "x = (y, m, d)" by (cases x)
  ultimately have "is_digit c \<or> c = CHR ''-''" by (auto elim!: iso_date_cases)
  moreover have "\<not> is_blank CHR ''-''" by code_simp
  ultimately show "\<not> is_blank c" using digit_not_blank by blast
qed

lemma clock_cases:
  assumes "clock_time s = Some (h, mi, sec)" "length s = 5"
  obtains a b c d where "s = [a, b, CHR '':'', c, d]" "list_all is_digit [a, b, c, d]"
    "h = digits_number [a, b]" "mi = digits_number [c, d]" "sec = 0"
proof -
  have colon: "\<not> is_digit CHR '':''" by code_simp
  from assms obtain r where s: "length (takeWhile is_digit s) \<in> {1, 2}" "h = digits_number (takeWhile is_digit s)"
      "time_tail (dropWhile is_digit s) = Some (mi, sec)"
    by (auto simp: clock_time_def short_number_def Let_def split: option.splits if_splits)
  have len: "length (dropWhile is_digit s) = 5 - length (takeWhile is_digit s)"
    using assms(2) by (metis length_append takeWhile_dropWhile_id diff_add_inverse)
  from s(3) have t: "length (dropWhile is_digit s) \<in> {3, 6}"
    by (cases "dropWhile is_digit s" rule: time_tail.cases) auto
  with s(1) len have "length (takeWhile is_digit s) = 2" "length (dropWhile is_digit s) = 3" by auto
  then obtain a b p c d where w: "takeWhile is_digit s = [a, b]" "dropWhile is_digit s = [p, c, d]"
    by (auto simp: numeral_2_eq_2 numeral_3_eq_3 length_Suc_conv)
  then have "s = [a, b, p, c, d]" by (metis takeWhile_dropWhile_id append_Cons append_Nil)
  moreover have "is_digit a" "is_digit b" using w(1) by (metis list.set_intros set_takeWhileD)+
  ultimately show thesis using s(2,3) w by (intro that [of a b c d]) (auto split: if_splits)
qed


text \<open>A schedule within the years of the date fields reads back from its own text.\<close>

lemma clock_read:
  assumes "list_all is_digit [a, b, c, d]"
  shows "clock_time [a, b, CHR '':'', c, d] = Some (digits_number [a, b], digits_number [c, d], 0)"
    and "clock_time [a, b, CHR '':'', c, d, CHR '':'', CHR ''0'', CHR ''0''] = Some (digits_number [a, b], digits_number [c, d], 0)"
proof -
  have "\<not> is_digit CHR '':''" "is_digit CHR ''0''" "digits_number ''00'' = 0" by code_simp+
  with assms show "clock_time [a, b, CHR '':'', c, d] = Some (digits_number [a, b], digits_number [c, d], 0)"
    "clock_time [a, b, CHR '':'', c, d, CHR '':'', CHR ''0'', CHR ''0''] = Some (digits_number [a, b], digits_number [c, d], 0)"
    by (simp_all add: clock_time_def short_number_def Let_def)
qed

lemma clock_trim:
  assumes "list_all is_digit [a, b, c, d]"
  shows "trim [a, b, CHR '':'', c, d] = [a, b, CHR '':'', c, d]"
    and "trim [a, b, CHR '':'', c, d, CHR '':'', CHR ''0'', CHR ''0''] = [a, b, CHR '':'', c, d, CHR '':'', CHR ''0'', CHR ''0'']"
proof -
  have "\<not> is_blank CHR '':''" "\<not> is_blank CHR ''0''" by code_simp+
  with assms digit_not_blank show "trim [a, b, CHR '':'', c, d] = [a, b, CHR '':'', c, d]"
    "trim [a, b, CHR '':'', c, d, CHR '':'', CHR ''0'', CHR ''0''] = [a, b, CHR '':'', c, d, CHR '':'', CHR ''0'', CHR ''0'']"
    by (auto intro!: trim_id)
qed

lemma schedule_text:
  assumes "buildPreorderSchedule tz date clock = Some s"
    and date: "normalizeVisitDate (Some (J_str date)) \<noteq> None" and clock: "normalizeVisitTime (Some (J_str clock)) \<noteq> None"
  shows "normalizePreorderDateTime tz parse_date (sd_scheduledAt s) = Some s" "trim (sd_scheduledAt s) = sd_scheduledAt s"
    "sd_scheduledAt s \<noteq> []"
proof -
  from assms(1) obtain y m d h mi sec where iso: "iso_date date = Some (y, m, d)"
    and ck: "clock_time clock = Some (h, mi, sec)" "length clock = 5"
    and s: "s = \<lparr>sd_date = local_instant tz y m d h mi, sd_scheduledAt = date @ ''T'' @ clock @ '':00.000'',
        sd_visitDate = date, sd_visitTime = clock\<rparr>"
    by (auto simp: buildPreorderSchedule_def parseLocalDateTime_def split: option.splits prod.splits if_splits)
  have tr: "trim date = date" by (rule iso_date_trim [OF iso])
  from ck obtain a b c e where cl: "clock = [a, b, CHR '':'', c, e]" "list_all is_digit [a, b, c, e]"
      "h = digits_number [a, b]" "mi = digits_number [c, e]" by (rule clock_cases)
  from date iso tr have "valid_date y m d" by (auto simp: normalizeVisitDate_def normalizeDateParts_def split: if_splits)
  then have vd: "normalizeVisitDate (Some (J_str date)) = Some date"
    using iso iso_date_text [OF iso] tr by (simp add: normalizeVisitDate_def normalizeDateParts_def valid_date_def)
  have "h \<le> 23" "mi \<le> 59"
    using clock by (auto simp: normalizeVisitTime_def cl clock_trim(1) [OF cl(2)] clock_read(1) [OF cl(2)] split: if_splits)
  moreover have "time_text h mi = clock" using cl by (simp add: time_text_def pad2_digits)
  ultimately have vt: "normalizeVisitTime (Some (J_str (clock @ '':00''))) = Some clock"
    using cl by (simp add: normalizeVisitTime_def clock_trim(2) [OF cl(2)] clock_read(2) [OF cl(2)])
  from iso obtain d0 d1 d2 d3 d5 d6 d8 d9 where dt: "date = [d0, d1, d2, d3, CHR ''-'', d5, d6, CHR ''-'', d8, d9]"
      "list_all is_digit [d0, d1, d2, d3, d5, d6, d8, d9]" by (rule iso_date_cases)
  have ch: "\<not> is_digit CHR '':''" "is_digit CHR ''0''" by code_simp+
  have at_text: "sd_scheduledAt s = date @ ''T'' @ clock @ '':00.000''" by (simp add: s)
  have bl: "\<not> is_blank CHR '':''" "\<not> is_blank CHR ''0''" "\<not> is_blank CHR ''-''" "\<not> is_blank CHR ''T''" "\<not> is_blank CHR ''.''"
    by code_simp+
  show trimmed: "trim (sd_scheduledAt s) = sd_scheduledAt s"
    unfolding at_text by (rule trim_id) (use bl dt cl digit_not_blank in auto)
  have "iso_date_time (sd_scheduledAt s) = Some (date, clock @ '':00'')"
    using iso cl(2) ch unfolding at_text by (simp add: iso_date_time_def Let_def dt(1) cl(1))
  with vd vt trimmed assms(1) show "normalizePreorderDateTime tz parse_date (sd_scheduledAt s) = Some s"
    by (simp add: normalizePreorderDateTime_def)
  show "sd_scheduledAt s \<noteq> []" by (simp add: at_text)
qed

lemma build_again: "buildPreorderSchedule tz date clock = Some s \<Longrightarrow> buildPreorderSchedule tz (sd_visitDate s) (sd_visitTime s) = Some s"
  by (auto simp: buildPreorderSchedule_def)

lemma date_time_built:
  "normalizePreorderDateTime tz parse_date v = Some s \<Longrightarrow> \<exists>date clock. buildPreorderSchedule tz date clock = Some s"
  unfolding normalizePreorderDateTime_def Let_def by (auto split: if_splits option.splits prod.splits)

lemma schedule_choice:
  assumes "(if e \<noteq> [] then F else case (x, y) of (Some u, Some v) \<Rightarrow> G u v | _ \<Rightarrow> None) = Some s"
  shows "F = Some s \<or> (\<exists>u v. G u v = Some s)"
  using assms by (cases x; cases y) (auto split: if_splits)

lemma schedule_built:
  assumes "normalizePreorderSchedule tz parse_date raw = Some s"
  shows "buildPreorderSchedule tz (sd_visitDate s) (sd_visitTime s) = Some s"
proof -
  from schedule_choice [OF assms [unfolded normalizePreorderSchedule_def Let_def]]
  have "\<exists>date clock. buildPreorderSchedule tz date clock = Some s"
    by (elim disjE exE) (erule date_time_built, intro exI, assumption)
  then show ?thesis by (elim exE) (rule build_again)
qed



section \<open>Accepted data\<close>

definition data_members :: "json option \<Rightarrow> members" where
  "data_members data = (case record_of data of None \<Rightarrow> [] | Some m \<Rightarrow> m)"

definition allowed_methods :: "checkout_config \<Rightarrow> checkout_method list" where
  "allowed_methods config = (if cf_enabledMethods config \<noteq> [] then cf_enabledMethods config else cf_availableMethods config)"

text \<open>The members a method adds to those of the customer and of the integration.\<close>

definition hall_extra :: "string option \<Rightarrow> string option \<Rightarrow> members" where
  "hall_extra catalogAddress mapUrl = (''orderMode'', J_str ''HALL'') # address_members catalogAddress mapUrl"

definition table_named :: "members \<Rightarrow> bool" where
  "table_named raw = (first_given (map (map_get (normalizeIntegrationCheckoutData raw)) [''iikoTableId'', ''hallTableId'', ''tableId'',
     ''integrationExternalItemCode'', ''hallTableCode'', ''tableCode'', ''t'']) \<noteq> None)"

lemma map_sum_right: "map_sum f g x = Inr y \<longleftrightarrow> (\<exists>z. x = Inr z \<and> y = g z)"
  by (cases x) auto

lemma spread_append: "spread (spread m n) n' = spread m (n @ n')"
  by (simp add: spread_def)

lemma hall_checkout:
  "checkout_normalizeHallCheckoutData addr mapUrl raw =
    (if \<not> table_named raw then Inl Hall_table_id_required
     else Inr (spread (customer_and_integration raw) (hall_extra addr mapUrl)))"
  unfolding checkout_normalizeHallCheckoutData_def Let_def table_named_def hall_extra_def
  by (simp only: not_not spread_append append.simps)

lemma checkout_cases [consumes 1, case_names hall delivery pickup preorder]:
  assumes "normalizeCartCheckoutData now tz parse_date addr config data mapUrl method = Inr (Some m, d)"
  obtains "m = PICKUP" "normalizeCheckoutMethod method \<noteq> Some PREORDER" "isHallCheckoutData (data_members data)"
      "table_named (data_members data)"
      "d = spread (customer_and_integration (data_members data)) (hall_extra addr mapUrl)"
  | address where "m = DELIVERY" "\<not> isHallCheckoutData (data_members data)" "m \<in> set (allowed_methods config)"
      "address = normalizeString (map_get (data_members data) ''address'')" "address \<noteq> []"
      "d = spread (customer_and_integration (data_members data)) [(''address'', J_str address)]"
  | "m = PICKUP" "\<not> isHallCheckoutData (data_members data)" "m \<in> set (allowed_methods config)"
      "d = spread (customer_and_integration (data_members data)) (address_members addr mapUrl)"
  | persons s where "m = PREORDER" "m \<in> set (allowed_methods config)"
      "checkout_normalizePositiveInt (map_get (data_members data) ''personsCount'') = Some persons"
      "normalizePreorderSchedule tz parse_date (data_members data) = Some s"
      "now + ps_minLeadTimeMinutes (cf_preorder config) * 60 * 1000 \<le> sd_date s"
      "sd_date s \<le> now + ps_maxAdvanceDays (cf_preorder config) * 24 * 60 * 60 * 1000"
      "d = spread (customer_and_integration (data_members data)) (preorder_members persons s)"
proof -
  note eq = assms [unfolded normalizeCartCheckoutData_def Let_def data_members_def [symmetric] allowed_methods_def [symmetric]]
  show thesis
  proof (cases "normalizeCheckoutMethod method \<noteq> Some PREORDER \<and> isHallCheckoutData (data_members data)")
    case True
    with eq have "m = PICKUP" "checkout_normalizeHallCheckoutData addr mapUrl (data_members data) = Inr d"
      by (auto simp: map_sum_right split: if_splits)
    with True show thesis
      by (intro that(1)) (auto simp: hall_checkout split: if_splits)
  next
    case False
    with eq obtain k where k: "resolveCartCheckoutMethod method config = Inr k" "k \<in> set (allowed_methods config)" "k = m"
      by (auto simp: map_sum_right split: if_splits)
    have out: "\<not> isHallCheckoutData (data_members data)" if "m \<noteq> PREORDER"
      using that k False by (auto simp: resolveCartCheckoutMethod_def split: option.splits)
    show thesis
    proof (cases m)
      case DELIVERY
      with eq k False show thesis
        by (intro that(2) [OF DELIVERY out _ refl]) (auto simp: map_sum_right split: if_splits)
    next
      case PICKUP
      with eq k False show thesis by (intro that(3) [OF PICKUP out]) (auto simp: map_sum_right split: if_splits)
    next
      case PREORDER
      with eq k False have "preorder_data now tz parse_date (cf_preorder config) (data_members data) = Inr d"
        by (auto simp: map_sum_right split: if_splits)
      then obtain persons s where "checkout_normalizePositiveInt (map_get (data_members data) ''personsCount'') = Some persons"
        "normalizePreorderSchedule tz parse_date (data_members data) = Some s"
        "\<not> sd_date s < now + ps_minLeadTimeMinutes (cf_preorder config) * 60 * 1000"
        "\<not> now + ps_maxAdvanceDays (cf_preorder config) * 24 * 60 * 60 * 1000 < sd_date s"
        "d = spread (customer_and_integration (data_members data)) (preorder_members persons s)"
        by (auto simp: preorder_data_def split: if_splits)
      with k show thesis by (intro that(4) [OF PREORDER]) auto
    qed
  qed
qed

lemma extra_get:
  "map_get (spread m (hall_extra addr mapUrl)) k = (case map_get (hall_extra addr mapUrl) k of Some v \<Rightarrow> Some v | None \<Rightarrow> map_get m k)"
  "map_get (spread m (address_members addr mapUrl)) k = (case map_get (address_members addr mapUrl) k of Some v \<Rightarrow> Some v | None \<Rightarrow> map_get m k)"
  "map_get (spread m (preorder_members persons s)) k = (case map_get (preorder_members persons s) k of Some v \<Rightarrow> Some v | None \<Rightarrow> map_get m k)"
  "map_get (spread m [(j, v)]) k = (case map_get [(j, v)] k of Some v \<Rightarrow> Some v | None \<Rightarrow> map_get m k)"
  by (rule map_get_spread, simp add: hall_extra_def address_members_def text_member_def preorder_members_def)+


lemma address_get:
  "map_get (address_members addr mapUrl) k =
    (if k = ''address'' then text_opt (normalizeString (map_option J_str addr))
     else if k = ''mapUrl'' then text_opt (normalizeString (map_option J_str mapUrl)) else None)"
  by (simp add: address_members_def map_get_append map_get_text split: option.split)


definition HALL_KEYS :: "string list" where
  "HALL_KEYS = [''iikoTableId'', ''hallTableId'', ''integrationExternalItemCode'', ''hallTableCode'', ''tableCode'', ''t'']"

text \<open>
  Data whose blank or mistyped members hide nothing: a table key that is given is a text that is not
  blank, and a number of guests that is given is a positive integer.
\<close>

definition readable_data :: "members \<Rightarrow> bool" where
  "readable_data raw \<longleftrightarrow>
     list_all (\<lambda>k. map_get raw k \<in> {None, Some J_null} \<or> normalizeString (map_get raw k) \<noteq> []) HALL_KEYS \<and>
     (map_get raw ''guestsCount'' \<in> {None, Some J_null} \<or> checkout_normalizePositiveInt (map_get raw ''guestsCount'') \<noteq> None)"

lemma first_text:
  "list_all (\<lambda>k. f k \<in> {None, Some J_null} \<or> normalizeString (f k) \<noteq> []) ks \<Longrightarrow>
    normalizeString (first_given (map f ks)) \<noteq> [] \<longleftrightarrow> list_ex (\<lambda>k. normalizeString (f k) \<noteq> []) ks"
  by (induction ks) auto

lemma first_text_stored:
  assumes "\<And>k. k \<in> set ks \<Longrightarrow> f k = text_opt (normalizeString (g k))"
  shows "normalizeString (first_given (map f ks)) \<noteq> [] \<longleftrightarrow> list_ex (\<lambda>k. normalizeString (g k) \<noteq> []) ks"
  using assms by (induction ks) (auto simp: text_opt_def)

lemma hall_fields: "set HALL_KEYS \<subseteq> set INTEGRATION_TEXT_FIELDS" "''orderMode'' \<notin> set HALL_KEYS"
  by code_simp+

lemma hall_stored:
  assumes "\<And>k. k \<in> set INTEGRATION_TEXT_FIELDS \<Longrightarrow> map_get d k = text_opt (normalizeString (map_get raw k))" "readable_data raw"
  shows "isHallCheckoutData d = isHallCheckoutData raw"
proof -
  have "normalizeString (first_given (map (map_get d) HALL_KEYS)) \<noteq> [] \<longleftrightarrow>
      normalizeString (first_given (map (map_get raw) HALL_KEYS)) \<noteq> []"
    using first_text_stored [of HALL_KEYS "map_get d" "map_get raw"] first_text [of "map_get raw" HALL_KEYS] assms hall_fields(1)
    by (auto simp: readable_data_def)
  moreover have "normalizeString (map_get d ''orderMode'') = normalizeString (map_get raw ''orderMode'')"
    using assms(1) field_names by simp
  ultimately show ?thesis unfolding isHallCheckoutData_def HALL_KEYS_def by simp
qed

lemma method_read [simp]: "normalizeCheckoutMethod (Some (J_str (method_name m))) = Some m"
proof -
  have "normalizeCheckoutMethod (Some (J_str (method_name DELIVERY))) = Some DELIVERY"
    "normalizeCheckoutMethod (Some (J_str (method_name PICKUP))) = Some PICKUP"
    "normalizeCheckoutMethod (Some (J_str (method_name PREORDER))) = Some PREORDER" by code_simp+
  then show ?thesis by (cases m) (simp_all only:)
qed

lemma merged_again:
  assumes d: "\<And>k. map_get d k = (case map_get extra k of Some v \<Rightarrow> Some v | None \<Rightarrow> map_get (customer_and_integration raw) k)"
    and extra: "map_get extra ''customerName'' = None" "map_get extra ''phone'' = None" "map_get extra ''name'' = None"
      "guests_of d = guests_of raw"
    and k: "k \<in> set INTEGRATION_TEXT_FIELDS \<Longrightarrow> map_get extra k = None"
  shows "map_get (customer_and_integration d) k = map_get (customer_and_integration raw) k"
proof (rule merged_stable)
  show "customer_name d = customer_name raw" "normalizeString (map_get d ''phone'') = normalizeString (map_get raw ''phone'')"
    using stored_customer [OF d extra(1-3)] by blast+
  assume "k \<in> set INTEGRATION_TEXT_FIELDS"
  with stored_text [OF d k] show "normalizeString (map_get d k) = normalizeString (map_get raw k)" by simp
qed (rule extra(4))


lemma checkout_of_method:
  assumes "m \<in> set (allowed_methods config)" "m \<noteq> PREORDER \<Longrightarrow> \<not> isHallCheckoutData raw"
  shows "normalizeCartCheckoutData now tz parse_date addr config (Some (J_obj raw)) mapUrl (Some (J_str (method_name m))) =
     map_sum id (\<lambda>d. (Some m, d))
       (case m of
          DELIVERY \<Rightarrow>
            (let address = normalizeString (map_get raw ''address'') in
             if address = [] then Inl Address_required
             else Inr (spread (customer_and_integration raw) [(''address'', J_str address)]))
        | PICKUP \<Rightarrow> Inr (spread (customer_and_integration raw) (address_members addr mapUrl))
        | PREORDER \<Rightarrow> preorder_data now tz parse_date (cf_preorder config) raw)"
proof -
  have "\<not> (Some m \<noteq> Some PREORDER \<and> isHallCheckoutData raw)" using assms(2) by blast
  then show ?thesis
    unfolding normalizeCartCheckoutData_def Let_def resolveCartCheckoutMethod_def method_read record_of.simps option.case
      allowed_methods_def [symmetric]
    by (simp only: if_False assms(1) not_True_eq_False bindE.simps simp_thms option.distinct)
qed

lemma same_members:
  assumes "\<And>k. map_get d k = (case map_get extra k of Some v \<Rightarrow> Some v | None \<Rightarrow> map_get (customer_and_integration raw) k)"
    and "\<And>k. map_get d' k = (case map_get extra k of Some v \<Rightarrow> Some v | None \<Rightarrow> map_get (customer_and_integration d) k)"
    and "map_get extra ''customerName'' = None" "map_get extra ''phone'' = None" "map_get extra ''name'' = None"
    and "guests_of d = guests_of raw"
  shows "map_get d' = map_get d"
proof
  fix k
  show "map_get d' k = map_get d k"
  proof (cases "map_get extra k")
    case None
    with merged_again [OF assms(1,3-6)] show ?thesis by (simp add: assms(1,2))
  qed (simp add: assms(1,2))
qed

lemma preorder_guests:
  assumes "readable_data raw" "checkout_normalizePositiveInt (map_get raw ''personsCount'') = Some persons"
    and d: "\<And>k. map_get d k = (case map_get (preorder_members persons s) k of Some v \<Rightarrow> Some v
      | None \<Rightarrow> map_get (customer_and_integration raw) k)"
  shows "guests_of d = guests_of raw"
proof -
  obtain n where n: "guests_of raw = Some n" "1 \<le> n"
  proof (cases "map_get raw ''guestsCount'' \<in> {None, Some J_null}")
    case True
    moreover have "map_get raw ''personsCount'' \<noteq> None" using assms(2) by (cases "map_get raw ''personsCount''") auto
    ultimately have "guests_of raw = checkout_normalizePositiveInt (map_get raw ''personsCount'')"
      using assms(2) by (auto simp: guests_of_def checkout_normalizePositiveInt_def)
    with assms(2) positive_int(1) that show thesis by simp
  next
    case False
    then obtain v where "map_get raw ''guestsCount'' = Some v" "v \<noteq> J_null" by auto
    then have "guests_of raw = checkout_normalizePositiveInt (map_get raw ''guestsCount'')" by (simp add: guests_of_def)
    with False assms(1) that positive_int(1) show thesis by (auto simp: readable_data_def)
  qed
  have "map_get d ''guestsCount'' = guests_opt (guests_of raw)"
    by (simp add: d preorder_members_def merged_get integration_get field_names)
  with n positive_int(2) show ?thesis by (simp add: guests_of_def [of d] guests_opt_def)
qed

lemma preorder_again:
  assumes "normalizePreorderSchedule tz parse_date raw = Some s" "1 \<le> persons"
    and visit: "normalizeVisitDate (map_get d ''visitDate'') \<noteq> None" "normalizeVisitTime (map_get d ''visitTime'') \<noteq> None"
    and d: "\<And>k. map_get d k = (case map_get (preorder_members persons s) k of Some v \<Rightarrow> Some v
      | None \<Rightarrow> map_get (customer_and_integration raw) k)"
  shows "normalizePreorderSchedule tz parse_date d = Some s" "checkout_normalizePositiveInt (map_get d ''personsCount'') = Some persons"
proof -
  have get: "map_get d ''visitDate'' = Some (J_str (sd_visitDate s))" "map_get d ''visitTime'' = Some (J_str (sd_visitTime s))"
    "map_get d ''scheduledAt'' = Some (J_str (sd_scheduledAt s))" "map_get d ''personsCount'' = Some (J_num (of_int persons))"
    by (simp_all add: d preorder_members_def)
  note t = schedule_text [OF schedule_built [OF assms(1)]] and v = visit [unfolded get]
  have "first_given (map (map_get d) [''scheduledAt'', ''completeBefore'', ''preorderAt'', ''visitAt'', ''plannedAt'']) =
      Some (J_str (sd_scheduledAt s))"
    by (simp add: get)
  then show "normalizePreorderSchedule tz parse_date d = Some s"
    unfolding normalizePreorderSchedule_def Let_def using t [OF v] by simp
  show "checkout_normalizePositiveInt (map_get d ''personsCount'') = Some persons" using positive_int(2) [OF assms(2)] by (simp add: get)
qed



section \<open>Properties\<close>

lemma hall_get:
  "map_get (hall_extra addr mapUrl) k =
    (if k = ''orderMode'' then Some (J_str ''HALL'') else map_get (address_members addr mapUrl) k)"
  by (simp add: hall_extra_def)

definition TABLE_KEYS :: "string list" where
  "TABLE_KEYS = [''iikoTableId'', ''hallTableId'', ''tableId'', ''integrationExternalItemCode'', ''hallTableCode'', ''tableCode'', ''t'']"

lemma table_fields: "set TABLE_KEYS \<subseteq> set INTEGRATION_TEXT_FIELDS" "''orderMode'' \<notin> set TABLE_KEYS"
    "''address'' \<notin> set TABLE_KEYS" "''mapUrl'' \<notin> set TABLE_KEYS"
  by code_simp+

lemma first_given_texts: "first_given (map (\<lambda>k. text_opt (f k)) ks) \<noteq> None \<longleftrightarrow> list_ex (\<lambda>k. f k \<noteq> []) ks"
  by (induction ks) (auto simp: text_opt_def)

lemma table_named_iff: "table_named raw \<longleftrightarrow> list_ex (\<lambda>k. normalizeString (map_get raw k) \<noteq> []) TABLE_KEYS"
proof -
  have "map (map_get (normalizeIntegrationCheckoutData raw)) TABLE_KEYS = map (\<lambda>k. text_opt (normalizeString (map_get raw k))) TABLE_KEYS"
    by (rule map_cong [OF refl]) (use table_fields(1) in \<open>auto simp: integration_get\<close>)
  then show ?thesis
    unfolding table_named_def TABLE_KEYS_def [symmetric] by (simp only: first_given_texts)
qed

text \<open>A stored value that is not blank, or a count that is at least one.\<close>

definition filled :: "json option \<Rightarrow> bool" where
  "filled v = (case v of Some (J_str s) \<Rightarrow> trim s \<noteq> [] | Some (J_num x) \<Rightarrow> 1 \<le> x | _ \<Rightarrow> False)"

lemma filled_simps [simp]: "filled (Some (J_str s)) \<longleftrightarrow> trim s \<noteq> []" "filled (Some (J_num x)) \<longleftrightarrow> 1 \<le> x"
  by (simp_all add: filled_def)






definition demo_config :: checkout_config where
  "demo_config = resolveCatalogCheckoutConfig
     (Some (J_obj [(''enabledMethods'', J_arr [J_str ''pickup'', J_str ''PREORDER''])])) (Some ''Cafe'')"

definition demo_visit :: members where
  "demo_visit = [(''name'', J_str '' Ann ''), (''personsCount'', J_num 4), (''date'', J_str ''1.1.2001''), (''time'', J_str ''9:05'')]"

definition demo_visit_data :: members where
  "demo_visit_data = [(''customerName'', J_str ''Ann''), (''guestsCount'', J_num 4), (''personsCount'', J_num 4),
     (''scheduledAt'', J_str ''2001-01-01T09:05:00.000''), (''visitDate'', J_str ''2001-01-01''), (''visitTime'', J_str ''09:05'')]"

lemma demo_accepted:
  "normalizeCartCheckoutData 978300000000 0 (\<lambda>_. None) None demo_config (Some (J_obj demo_visit)) None (Some (J_str ''preorder'')) =
     Inr (Some PREORDER, demo_visit_data)"
  by code_simp


lemma hall_again:
  assumes named: "table_named raw" and eq: "d = spread (customer_and_integration raw) (hall_extra addr mapUrl)"
  shows "\<exists>d'. normalizeCartCheckoutData now tz parse_date addr config (Some (J_obj d)) mapUrl (Some (J_str (method_name PICKUP))) =
      Inr (Some PICKUP, d') \<and> map_get d' = map_get d"
proof -
  let ?E = "hall_extra addr mapUrl"
  let ?d = "spread (customer_and_integration d) ?E"
  have E: "map_get ?E ''customerName'' = None" "map_get ?E ''phone'' = None" "map_get ?E ''name'' = None"
    "map_get ?E ''guestsCount'' = None" "map_get ?E ''personsCount'' = None" by (simp_all add: hall_get address_get)
  note D = extra_get(1) [of "customer_and_integration raw" addr mapUrl, folded eq]
  have g: "guests_of d = guests_of raw" by (rule stored_guests [OF D E(4,5)])
  have mode: "map_get d ''orderMode'' = Some (J_str ''HALL'')" by (simp add: D hall_get)
  have keys: "normalizeString (map_get d k) = normalizeString (map_get raw k)" if "k \<in> set TABLE_KEYS" for k
  proof -
    have "map_get ?E k = None" using that table_fields by (auto simp: hall_get address_get)
    then have "map_get d k = text_opt (normalizeString (map_get raw k))" using that table_fields(1) by (intro stored_text [OF D]) auto
    then show ?thesis by simp
  qed
  have "table_named d" using named keys unfolding table_named_iff by (simp add: list_ex_iff)
  moreover have "isHallCheckoutData d"
  proof -
    have "map to_upper (normalizeString (map_get d ''orderMode'')) = ''HALL''" unfolding mode by code_simp
    then show ?thesis unfolding isHallCheckoutData_def by blast
  qed
  moreover have "normalizeCheckoutMethod (Some (J_str (method_name PICKUP))) = Some PICKUP" by (rule method_read)
  ultimately have "normalizeCartCheckoutData now tz parse_date addr config (Some (J_obj d)) mapUrl (Some (J_str (method_name PICKUP))) =
      Inr (Some PICKUP, ?d)"
    by (simp add: normalizeCartCheckoutData_def hall_checkout del: method_name.simps)
  moreover have "map_get ?d = map_get d" by (rule same_members [OF D extra_get(1) E(1-3) g])
  ultimately show ?thesis by blast
qed

lemma delivery_again:
  assumes nhall: "\<not> isHallCheckoutData raw" "readable_data raw" and allowed: "DELIVERY \<in> set (allowed_methods config)"
    and address: "address = normalizeString (map_get raw ''address'')" "address \<noteq> []"
    and eq: "d = spread (customer_and_integration raw) [(''address'', J_str address)]"
  shows "\<exists>d'. normalizeCartCheckoutData now tz parse_date addr config (Some (J_obj d)) mapUrl (Some (J_str (method_name DELIVERY))) =
      Inr (Some DELIVERY, d') \<and> map_get d' = map_get d"
proof -
  let ?E = "[(''address'', J_str address)]"
  let ?d = "spread (customer_and_integration d) ?E"
  have E: "map_get ?E ''customerName'' = None" "map_get ?E ''phone'' = None" "map_get ?E ''name'' = None"
    "map_get ?E ''guestsCount'' = None" "map_get ?E ''personsCount'' = None" by simp_all
  note D = extra_get(4) [of "customer_and_integration raw" "''address''" "J_str address", folded eq]
  have g: "guests_of d = guests_of raw" by (rule stored_guests [OF D E(4,5)])
  have "map_get d k = text_opt (normalizeString (map_get raw k))" if "k \<in> set INTEGRATION_TEXT_FIELDS" for k
    by (rule stored_text [OF D _ that]) (use that field_names in auto)
  with hall_stored nhall have nh: "\<not> isHallCheckoutData d" by blast
  have "normalizeString (map_get d ''address'') = address" by (simp add: D address(1))
  then have "normalizeCartCheckoutData now tz parse_date addr config (Some (J_obj d)) mapUrl (Some (J_str (method_name DELIVERY))) =
      Inr (Some DELIVERY, ?d)"
    using checkout_of_method [OF allowed nh] address(2) by (simp del: method_name.simps)
  moreover have "map_get ?d = map_get d" by (rule same_members [OF D extra_get(4) E(1-3) g])
  ultimately show ?thesis by blast
qed

lemma pickup_again:
  assumes nhall: "\<not> isHallCheckoutData raw" "readable_data raw" and allowed: "PICKUP \<in> set (allowed_methods config)"
    and eq: "d = spread (customer_and_integration raw) (address_members addr mapUrl)"
  shows "\<exists>d'. normalizeCartCheckoutData now tz parse_date addr config (Some (J_obj d)) mapUrl (Some (J_str (method_name PICKUP))) =
      Inr (Some PICKUP, d') \<and> map_get d' = map_get d"
proof -
  let ?E = "address_members addr mapUrl"
  let ?d = "spread (customer_and_integration d) ?E"
  have E: "map_get ?E ''customerName'' = None" "map_get ?E ''phone'' = None" "map_get ?E ''name'' = None"
    "map_get ?E ''guestsCount'' = None" "map_get ?E ''personsCount'' = None" by (simp_all add: address_get)
  note D = extra_get(2) [of "customer_and_integration raw" addr mapUrl, folded eq]
  have g: "guests_of d = guests_of raw" by (rule stored_guests [OF D E(4,5)])
  have "map_get d k = text_opt (normalizeString (map_get raw k))" if "k \<in> set INTEGRATION_TEXT_FIELDS" for k
    by (rule stored_text [OF D _ that]) (use that field_names in \<open>auto simp: address_get\<close>)
  with hall_stored nhall have nh: "\<not> isHallCheckoutData d" by blast
  have "normalizeCartCheckoutData now tz parse_date addr config (Some (J_obj d)) mapUrl (Some (J_str (method_name PICKUP))) =
      Inr (Some PICKUP, ?d)"
    using checkout_of_method [OF allowed nh] by (simp del: method_name.simps)
  moreover have "map_get ?d = map_get d" by (rule same_members [OF D extra_get(2) E(1-3) g])
  ultimately show ?thesis by blast
qed

lemma preorder_kept:
  assumes readable: "readable_data raw" and allowed: "PREORDER \<in> set (allowed_methods config)"
    and p: "checkout_normalizePositiveInt (map_get raw ''personsCount'') = Some persons"
    and sch: "normalizePreorderSchedule tz parse_date raw = Some s"
    and window: "now + ps_minLeadTimeMinutes (cf_preorder config) * 60 * 1000 \<le> sd_date s"
      "sd_date s \<le> now + ps_maxAdvanceDays (cf_preorder config) * 24 * 60 * 60 * 1000"
    and visit: "normalizeVisitDate (map_get d ''visitDate'') \<noteq> None \<and> normalizeVisitTime (map_get d ''visitTime'') \<noteq> None"
    and eq: "d = spread (customer_and_integration raw) (preorder_members persons s)"
  shows "\<exists>d'. normalizeCartCheckoutData now tz parse_date addr config (Some (J_obj d)) mapUrl (Some (J_str (method_name PREORDER))) =
      Inr (Some PREORDER, d') \<and> map_get d' = map_get d"
proof -
  let ?E = "preorder_members persons s"
  let ?d = "spread (customer_and_integration d) ?E"
  have E: "map_get ?E ''customerName'' = None" "map_get ?E ''phone'' = None" "map_get ?E ''name'' = None"
    by (simp_all add: preorder_members_def)
  note D = extra_get(3) [of "customer_and_integration raw" persons s, folded eq]
  have g: "guests_of d = guests_of raw" by (rule preorder_guests [OF readable p D])
  have "preorder_data now tz parse_date (cf_preorder config) d = Inr ?d"
    using preorder_again [OF sch positive_int(1) [OF p] _ _ D] visit window by (simp add: preorder_data_def)
  then have "normalizeCartCheckoutData now tz parse_date addr config (Some (J_obj d)) mapUrl (Some (J_str (method_name PREORDER))) =
      Inr (Some PREORDER, ?d)"
    using checkout_of_method [OF allowed] by (simp del: method_name.simps)
  moreover have "map_get ?d = map_get d" by (rule same_members [OF D extra_get(3) E g])
  ultimately show ?thesis by blast
qed

text \<open>
  C16. Reading a stored checkout again gives it back: the data that was accepted for a method is accepted
  for that method at the same time, with the same members.  The members given were readable, and the visit
  of a preorder lies in the years its fields accept.
\<close>

theorem checkout_reads_back:
  assumes acc: "normalizeCartCheckoutData now tz parse_date addr config (Some (J_obj raw)) mapUrl method = Inr (Some m, d)"
    and "readable_data raw"
    and visit: "m = PREORDER \<Longrightarrow> normalizeVisitDate (map_get d ''visitDate'') \<noteq> None \<and> normalizeVisitTime (map_get d ''visitTime'') \<noteq> None"
  shows "\<exists>d'. normalizeCartCheckoutData now tz parse_date addr config (Some (J_obj d)) mapUrl (Some (J_str (method_name m))) =
      Inr (Some m, d') \<and> map_get d' = map_get d"
proof -
  have raw: "data_members (Some (J_obj raw)) = raw" by (simp add: data_members_def)
  from acc show ?thesis
  proof (cases rule: checkout_cases)
    case hall
    note h = hall [unfolded raw]
    show ?thesis unfolding h(1) by (rule hall_again [OF h(4,5)])
  next
    case (delivery address)
    note h = delivery [unfolded raw]
    show ?thesis unfolding h(1) by (rule delivery_again [OF h(2) assms(2) h(3) [unfolded h(1)] h(4-6)])
  next
    case pickup
    note h = pickup [unfolded raw]
    show ?thesis unfolding h(1) by (rule pickup_again [OF h(2) assms(2) h(3) [unfolded h(1)] h(4)])
  next
    case (preorder persons s)
    note h = preorder [unfolded raw]
    show ?thesis unfolding h(1) by (rule preorder_kept [OF assms(2) h(2) [unfolded h(1)] h(3-6) visit [OF h(1)] h(7)])
  qed
qed

theorem checkout_reads_back_witness:
  "\<exists>d'. normalizeCartCheckoutData 978300000000 0 (\<lambda>_. None) None demo_config (Some (J_obj demo_visit_data)) None
      (Some (J_str (method_name PREORDER))) = Inr (Some PREORDER, d') \<and> map_get d' = map_get demo_visit_data"
proof (rule checkout_reads_back [OF demo_accepted])
  show "readable_data demo_visit" by code_simp
  show "normalizeVisitDate (map_get demo_visit_data ''visitDate'') \<noteq> None \<and> normalizeVisitTime (map_get demo_visit_data ''visitTime'') \<noteq> None"
    by code_simp
qed

text \<open>
  Without readable members the round trip fails: a blank table id hides the table code of a delivery from
  \<^verbatim>\<open>isHallCheckoutData\<close>, and is itself dropped from the stored data, which then reads as a hall order.
\<close>

lemma blank_table_id_hides_code:
  "\<exists>d d'. normalizeCartCheckoutData 0 0 (\<lambda>_. None) None (resolveCatalogCheckoutConfig None (Some ''cafe''))
       (Some (J_obj [(''iikoTableId'', J_str []), (''tableCode'', J_str ''x''), (''address'', J_str ''a'')])) None
       (Some (J_str ''DELIVERY'')) = Inr (Some DELIVERY, d) \<and>
     normalizeCartCheckoutData 0 0 (\<lambda>_. None) None (resolveCatalogCheckoutConfig None (Some ''cafe''))
       (Some (J_obj d)) None (Some (J_str ''DELIVERY'')) = Inr (Some PICKUP, d')"
proof (intro exI conjI)
  show "normalizeCartCheckoutData 0 0 (\<lambda>_. None) None (resolveCatalogCheckoutConfig None (Some ''cafe''))
       (Some (J_obj [(''iikoTableId'', J_str []), (''tableCode'', J_str ''x''), (''address'', J_str ''a'')])) None
       (Some (J_str ''DELIVERY'')) = Inr (Some DELIVERY, [(''tableCode'', J_str ''x''), (''address'', J_str ''a'')])"
    by code_simp
  show "normalizeCartCheckoutData 0 0 (\<lambda>_. None) None (resolveCatalogCheckoutConfig None (Some ''cafe''))
       (Some (J_obj [(''tableCode'', J_str ''x''), (''address'', J_str ''a'')])) None (Some (J_str ''DELIVERY'')) =
       Inr (Some PICKUP, [(''tableCode'', J_str ''x''), (''orderMode'', J_str ''HALL'')])"
    by code_simp
qed

end
