(* ===== verification/Hall_Tokens.thy ===== *)
theory Hall_Tokens
  imports Catalog_Checkout
begin

text \<open>
  The guest tokens of hall tables (\<^verbatim>\<open>cart.service.ts\<close>): a signed payload that names the table session and
  the guest, and its verification.  Strings are UTF-8 bytes, so \<^verbatim>\<open>Buffer.from(text, 'utf8')\<close> and
  \<^verbatim>\<open>toString('utf8')\<close> are the identity.  What the platform gives is an argument, \<open>guest_env\<close>: the JSON
  printer and parser, the keyed hash, the two variables of the environment that can hold the secret and
  the lifetime of a token.
\<close>


section \<open>Base64url\<close>

definition b64_char :: "nat \<Rightarrow> char" where
  "b64_char n =
     (if n < 26 then char_of (65 + n) else if n < 52 then char_of (71 + n) else if n < 62 then char_of (n - 4)
      else if n = 62 then CHR ''-'' else CHR ''_'')"

definition b64_val :: "char \<Rightarrow> nat option" where
  "b64_val c =
     (let n = of_char c :: nat in
      if 65 \<le> n \<and> n \<le> 90 then Some (n - 65) else if 97 \<le> n \<and> n \<le> 122 then Some (n - 71)
      else if 48 \<le> n \<and> n \<le> 57 then Some (n + 4)
      else if c = CHR ''-'' \<or> c = CHR ''+'' then Some 62
      else if c = CHR ''_'' \<or> c = CHR ''/'' then Some 63 else None)"

fun b64_digits :: "nat list \<Rightarrow> nat list" where
  "b64_digits (a # b # c # r) =
     a div 4 # (a mod 4 * 16 + b div 16) # (b mod 16 * 4 + c div 64) # c mod 64 # b64_digits r"
| "b64_digits [a, b] = [a div 4, a mod 4 * 16 + b div 16, b mod 16 * 4]"
| "b64_digits [a] = [a div 4, a mod 4 * 16]"
| "b64_digits [] = []"

fun b64_bytes :: "nat list \<Rightarrow> nat list" where
  "b64_bytes (p # q # r # s # t) =
     (p * 4 + q div 16) # (q mod 16 * 16 + r div 4) # (r mod 4 * 64 + s) # b64_bytes t"
| "b64_bytes [p, q, r] = [p * 4 + q div 16, q mod 16 * 16 + r div 4]"
| "b64_bytes [p, q] = [p * 4 + q div 16]"
| "b64_bytes _ = []"

definition base64url :: "string \<Rightarrow> string" where
  "base64url s = map b64_char (b64_digits (map of_char s))"

text \<open>\<^verbatim>\<open>Buffer.from(text, 'base64url')\<close> ends at an equals sign and skips what is not a digit.\<close>

definition from_base64url :: "string \<Rightarrow> string" where
  "from_base64url s = map char_of (b64_bytes (List.map_filter b64_val (takeWhile (\<lambda>c. c \<noteq> CHR ''='') s)))"


section \<open>Payload\<close>

record guest_env =
  ge_stringify :: "json \<Rightarrow> string"
  ge_parse :: "string \<Rightarrow> json option"
  ge_hmac :: "string \<Rightarrow> string \<Rightarrow> string"
  ge_guestSecret :: "string option"
  ge_integrationKey :: "string option"
  ge_ttlMs :: int

text \<open>The table session a token is issued for.\<close>

record guest_place =
  gl_catalogId :: ident
  gl_cartId :: ident
  gl_sessionId :: ident
  gl_tableExternalId :: ident
  gl_publicCode :: string

record guest_payload = guest_place +
  gp_guestSessionId :: string
  gp_iat :: rat
  gp_exp :: rat
  gp_nonce :: string

abbreviation CART_GUEST_TOKEN_VERSION :: rat where "CART_GUEST_TOKEN_VERSION \<equiv> 1"

definition payload_json :: "guest_payload \<Rightarrow> json" where
  "payload_json p =
     J_obj [(''v'', J_num CART_GUEST_TOKEN_VERSION), (''catalogId'', J_str (gl_catalogId p)), (''cartId'', J_str (gl_cartId p)),
       (''sessionId'', J_str (gl_sessionId p)), (''tableExternalId'', J_str (gl_tableExternalId p)),
       (''publicCode'', J_str (gl_publicCode p)), (''guestSessionId'', J_str (gp_guestSessionId p)),
       (''iat'', J_num (gp_iat p)), (''exp'', J_num (gp_exp p)), (''nonce'', J_str (gp_nonce p))]"

fun json_text :: "json option \<Rightarrow> string option" where
  "json_text (Some (J_str s)) = Some s"
| "json_text _ = None"

fun json_number :: "json option \<Rightarrow> rat option" where
  "json_number (Some (J_num x)) = Some x"
| "json_number _ = None"

definition isHallTableGuestTokenPayload :: "json \<Rightarrow> guest_payload option" where
  "isHallTableGuestTokenPayload v =
     (case record_of (Some v) of
        None \<Rightarrow> None
      | Some m \<Rightarrow>
          if map_get m ''v'' \<noteq> Some (J_num CART_GUEST_TOKEN_VERSION) then None
          else (case (json_text (map_get m ''catalogId''), json_text (map_get m ''cartId''), json_text (map_get m ''sessionId''),
                      json_text (map_get m ''tableExternalId''), json_text (map_get m ''publicCode''),
                      json_text (map_get m ''guestSessionId''), json_number (map_get m ''iat''),
                      json_number (map_get m ''exp''), json_text (map_get m ''nonce'')) of
              (Some c, Some k, Some s, Some t, Some pc, Some g, Some i, Some e, Some n) \<Rightarrow>
                Some \<lparr>gl_catalogId = c, gl_cartId = k, gl_sessionId = s, gl_tableExternalId = t, gl_publicCode = pc,
                      gp_guestSessionId = g, gp_iat = i, gp_exp = e, gp_nonce = n\<rparr>
            | _ \<Rightarrow> None))"

definition encodeBase64UrlJson :: "guest_env \<Rightarrow> json \<Rightarrow> string" where
  "encodeBase64UrlJson env v = base64url (ge_stringify env v)"

definition decodeBase64UrlJson :: "guest_env \<Rightarrow> string \<Rightarrow> json" where
  "decodeBase64UrlJson env s = (case ge_parse env (from_base64url s) of Some v \<Rightarrow> v | None \<Rightarrow> J_null)"

definition requireCartGuestTokenSecret :: "guest_env \<Rightarrow> cart_error + string" where
  "requireCartGuestTokenSecret env =
     (case trimToNull (ge_guestSecret env) of
        Some s \<Rightarrow> Inr s
      | None \<Rightarrow> option_to_res Guest_secret_required (trimToNull (ge_integrationKey env)))"

definition signCartGuestTokenPayload :: "guest_env \<Rightarrow> string \<Rightarrow> cart_error + string" where
  "signCartGuestTokenPayload env encoded =
     bindE (requireCartGuestTokenSecret env) (\<lambda>secret. Inr (base64url (ge_hmac env secret encoded)))"

text \<open>\<^verbatim>\<open>timingSafeEqual\<close> after the comparison of the lengths.\<close>

definition safeEqualText :: "string \<Rightarrow> string \<Rightarrow> bool" where
  "safeEqualText l r = (length l = length r \<and> list_all2 (=) l r)"


section \<open>Issue and verification\<close>

definition guest_payload_of :: "guest_env \<Rightarrow> time \<Rightarrow> string \<Rightarrow> guest_place \<Rightarrow> string \<Rightarrow> guest_payload" where
  "guest_payload_of env now nonce place guest =
     \<lparr>gl_catalogId = gl_catalogId place, gl_cartId = gl_cartId place, gl_sessionId = gl_sessionId place,
      gl_tableExternalId = gl_tableExternalId place, gl_publicCode = gl_publicCode place, gp_guestSessionId = guest,
      gp_iat = of_int now, gp_exp = of_int (now + ge_ttlMs env), gp_nonce = nonce\<rparr>"

definition issueHallTableGuestToken ::
    "guest_env \<Rightarrow> time \<Rightarrow> nat list \<Rightarrow> guest_place \<Rightarrow> string \<Rightarrow> cart_error + string" where
  "issueHallTableGuestToken env now nonce place guest =
     (let encoded = encodeBase64UrlJson env (payload_json (guest_payload_of env now (hex_string nonce) place guest)) in
      bindE (signCartGuestTokenPayload env encoded) (\<lambda>signature. Inr (encoded @ ''.'' @ signature)))"

definition verifyHallTableGuestTokenOrNull ::
    "guest_env \<Rightarrow> time \<Rightarrow> string option \<Rightarrow> guest_place \<Rightarrow> cart_error + guest_payload option" where
  "verifyHallTableGuestTokenOrNull env now guestToken expected =
     (case trimToNull guestToken of
        None \<Rightarrow> Inr None
      | Some normalized \<Rightarrow>
          (case split_on CHR ''.'' normalized of
             [encoded, signature] \<Rightarrow>
               if encoded = [] \<or> signature = [] then Inr None
               else bindE (signCartGuestTokenPayload env encoded)
                 (\<lambda>signed. Inr
                   (if \<not> safeEqualText signed signature then None
                    else case isHallTableGuestTokenPayload (decodeBase64UrlJson env encoded) of
                      None \<Rightarrow> None
                    | Some p \<Rightarrow>
                        if gp_exp p < of_int now \<or> guest_place.truncate p \<noteq> expected then None else Some p))
           | _ \<Rightarrow> Inr None))"

text \<open>\<^verbatim>\<open>guest-\<close> and sixteen hexadecimal digits.\<close>

definition generateGuestSessionId :: "nat list \<Rightarrow> string" where
  "generateGuestSessionId bytes = ''guest-'' @ hex_string bytes"


section \<open>Base64url reads back\<close>

lemma b64_char_code:
  assumes "n < 64"
  shows "(of_char (b64_char n) :: nat) =
    (if n < 26 then 65 + n else if n < 52 then 71 + n else if n < 62 then n - 4 else if n = 62 then 45 else 95)"
  using assms by (auto simp: b64_char_def of_char_of)

lemma b64_char_val: "n < 64 \<Longrightarrow> b64_val (b64_char n) = Some n"
proof -
  assume n: "n < 64"
  consider "n < 26" | "26 \<le> n" "n < 52" | "52 \<le> n" "n < 62" | "n = 62" | "n = 63" using n by linarith
  then show ?thesis
  proof cases
    case 3
    then have "48 \<le> n - 4" "n - 4 \<le> 57" by linarith+
    with 3 show ?thesis by (simp add: b64_val_def Let_def b64_char_code)
  next
    case 4
    show ?thesis unfolding 4 by code_simp
  next
    case 5
    show ?thesis unfolding 5 by code_simp
  qed (simp_all add: b64_val_def Let_def b64_char_code)
qed

lemma b64_char_plain: "n < 64 \<Longrightarrow> b64_char n \<noteq> CHR ''='' \<and> b64_char n \<noteq> CHR ''.'' \<and> \<not> is_blank (b64_char n)"
proof -
  assume n: "n < 64"
  have "(of_char (b64_char n) :: nat) \<notin> {61, 46, 9, 10, 11, 12, 13, 32}" unfolding b64_char_code [OF n] using n by auto
  moreover have "(of_char CHR ''='' :: nat) = 61" "(of_char CHR ''.'' :: nat) = 46" by simp_all
  ultimately show ?thesis unfolding is_blank_def by (metis insert_iff)
qed

lemma b64_digits_range: "list_all (\<lambda>b. b < 256) bs \<Longrightarrow> list_all (\<lambda>n. n < 64) (b64_digits bs)"
  by (induction bs rule: b64_digits.induct) auto

lemma b64_bytes_digits: "list_all (\<lambda>b. b < 256) bs \<Longrightarrow> b64_bytes (b64_digits bs) = bs"
  by (induction bs rule: b64_digits.induct) auto

lemma base64url_chars: "c \<in> set (base64url s) \<Longrightarrow> c \<noteq> CHR ''='' \<and> c \<noteq> CHR ''.'' \<and> \<not> is_blank c"
proof -
  assume "c \<in> set (base64url s)"
  then obtain n where "n \<in> set (b64_digits (map of_char s))" "c = b64_char n" by (auto simp: base64url_def)
  moreover have "list_all (\<lambda>n. n < 64) (b64_digits (map of_char s))"
    by (rule b64_digits_range) (auto simp: list_all_iff)
  ultimately show ?thesis using b64_char_plain by (auto simp: list_all_iff)
qed

lemma map_filter_b64: "list_all (\<lambda>n. n < 64) ns \<Longrightarrow> List.map_filter b64_val (map b64_char ns) = ns"
  by (induction ns) (auto simp: map_filter_simps b64_char_val)

lemma base64url_reads_back: "from_base64url (base64url s) = s"
proof -
  let ?ns = "b64_digits (map of_char s)"
  have bytes: "list_all (\<lambda>b. b < 256) (map of_char s :: nat list)" by (auto simp: list_all_iff)
  then have "list_all (\<lambda>n. n < 64) ?ns" by (rule b64_digits_range)
  then have "List.map_filter b64_val (map b64_char ?ns) = ?ns"
    by (rule map_filter_b64)
  then have "map char_of (b64_bytes (List.map_filter b64_val (base64url s))) = s"
    by (simp add: base64url_def b64_bytes_digits [OF bytes] comp_def)
  moreover have "takeWhile (\<lambda>c. c \<noteq> CHR ''='') (base64url s) = base64url s"
    using base64url_chars by (auto simp: takeWhile_eq_all_conv)
  ultimately show ?thesis by (simp only: from_base64url_def)
qed

lemma base64url_empty: "base64url s = [] \<longleftrightarrow> s = []"
  by (cases "map of_char s :: nat list" rule: b64_digits.cases) (auto simp: base64url_def)



section \<open>A token opens its own table\<close>

lemma split_on_dot: "CHR ''.'' \<notin> set a \<Longrightarrow> CHR ''.'' \<notin> set b \<Longrightarrow> split_on CHR ''.'' (a @ CHR ''.'' # b) = [a, b]"
  by (simp add: split_append split_no_sep)

lemma payload_read [simp]: "isHallTableGuestTokenPayload (payload_json p) = Some p"
  by (simp add: isHallTableGuestTokenPayload_def payload_json_def map_get_def)

lemma safeEqual_iff [simp]: "safeEqualText l r \<longleftrightarrow> l = r"
  by (auto simp: safeEqualText_def list_all2_eq [symmetric])

lemma token_parts:
  assumes "CHR ''.'' \<notin> set a" "CHR ''.'' \<notin> set b" "a \<noteq> []" "\<And>c. c \<in> set a \<union> set b \<Longrightarrow> \<not> is_blank c"
  shows "trimToNull (Some (a @ ''.'' @ b)) = Some (a @ CHR ''.'' # b)" "split_on CHR ''.'' (a @ CHR ''.'' # b) = [a, b]"
proof -
  have "\<not> is_blank CHR ''.''" by code_simp
  then have "trim (a @ CHR ''.'' # b) = a @ CHR ''.'' # b" using assms(4) by (intro trim_id) auto
  then show "trimToNull (Some (a @ ''.'' @ b)) = Some (a @ CHR ''.'' # b)" using assms(3) by (simp add: trimToNull_def)
qed (rule split_on_dot [OF assms(1,2)])

text \<open>
  C25. A guest token opens the table session it was issued for, as the guest it was issued to, until it
  expires, and no other table session: the verification at any place and time answers exactly that.  The
  JSON text of the payload parses to the payload, and neither this text nor a hash is empty.
\<close>

theorem guest_token_opens_its_table:
  fixes env now nonce place guest
  defines "p \<equiv> guest_payload_of env now (hex_string nonce) place guest"
  assumes json: "ge_parse env (ge_stringify env (payload_json p)) = Some (payload_json p)" "ge_stringify env (payload_json p) \<noteq> []"
    and hash: "\<And>key text. ge_hmac env key text \<noteq> []"
    and issued: "issueHallTableGuestToken env now nonce place guest = Inr token"
  shows "verifyHallTableGuestTokenOrNull env t (Some token) expected =
    Inr (if expected = place \<and> t \<le> now + ge_ttlMs env then Some p else None)"
proof -
  let ?e = "base64url (ge_stringify env (payload_json p))"
  from issued obtain secret where secret: "requireCartGuestTokenSecret env = Inr secret"
    and token: "token = ?e @ ''.'' @ base64url (ge_hmac env secret ?e)"
    by (auto simp: issueHallTableGuestToken_def Let_def p_def [symmetric] encodeBase64UrlJson_def signCartGuestTokenPayload_def)
  have parts: "trimToNull (Some token) = Some (?e @ CHR ''.'' # base64url (ge_hmac env secret ?e))"
    "split_on CHR ''.'' (?e @ CHR ''.'' # base64url (ge_hmac env secret ?e)) = [?e, base64url (ge_hmac env secret ?e)]"
    unfolding token by (rule token_parts; use base64url_chars json(2) in \<open>auto simp: base64url_empty\<close>)+
  have "decodeBase64UrlJson env ?e = payload_json p"
    by (simp add: decodeBase64UrlJson_def base64url_reads_back json(1))
  moreover have "guest_place.truncate p = place" "gp_exp p = of_int (now + ge_ttlMs env)"
    by (simp_all add: p_def guest_payload_of_def guest_place.truncate_def)
  ultimately show ?thesis
    using secret json(2) hash by (auto simp: verifyHallTableGuestTokenOrNull_def parts signCartGuestTokenPayload_def base64url_empty)
qed

definition demo_place :: guest_place where
  "demo_place = \<lparr>gl_catalogId = ''c'', gl_cartId = ''k'', gl_sessionId = ''s'', gl_tableExternalId = ''t'', gl_publicCode = ''q''\<rparr>"

definition demo_env :: guest_env where
  "demo_env = \<lparr>ge_stringify = \<lambda>v. ''{}'',
     ge_parse = \<lambda>s. Some (J_obj [(''v'', J_num 1), (''catalogId'', J_str ''c''), (''cartId'', J_str ''k''), (''sessionId'', J_str ''s''),
       (''tableExternalId'', J_str ''t''), (''publicCode'', J_str ''q''), (''guestSessionId'', J_str ''g''), (''iat'', J_num 5),
       (''exp'', J_num 105), (''nonce'', J_str ''00'')]),
     ge_hmac = \<lambda>key s. CHR ''h'' # key @ s, ge_guestSecret = None, ge_integrationKey = Some '' key '', ge_ttlMs = 100\<rparr>"

theorem guest_token_opens_its_table_witness:
  "\<exists>token p. verifyHallTableGuestTokenOrNull demo_env 105 (Some token) demo_place = Inr (Some p) \<and>
    verifyHallTableGuestTokenOrNull demo_env 106 (Some token) demo_place = Inr None \<and>
    verifyHallTableGuestTokenOrNull demo_env 50 (Some token) (demo_place\<lparr>gl_sessionId := ''s2''\<rparr>) = Inr None"
proof -
  let ?p = "guest_payload_of demo_env 5 (hex_string [0]) demo_place ''g''"
  have "requireCartGuestTokenSecret demo_env = Inr ''key''" by code_simp
  then obtain token where token: "issueHallTableGuestToken demo_env 5 [0] demo_place ''g'' = Inr token"
    by (auto simp: issueHallTableGuestToken_def Let_def signCartGuestTokenPayload_def)
  have json: "ge_parse demo_env (ge_stringify demo_env (payload_json ?p)) = Some (payload_json ?p)"
    "ge_stringify demo_env (payload_json ?p) \<noteq> []" by code_simp+
  have hash: "ge_hmac demo_env key s \<noteq> []" for key s by (simp add: demo_env_def)
  have env: "ge_ttlMs demo_env = 100" "demo_place\<lparr>gl_sessionId := ''s2''\<rparr> \<noteq> demo_place" by code_simp+
  note t = guest_token_opens_its_table [OF json hash token]
  have "verifyHallTableGuestTokenOrNull demo_env 105 (Some token) demo_place = Inr (Some ?p)"
    "verifyHallTableGuestTokenOrNull demo_env 106 (Some token) demo_place = Inr None"
    "verifyHallTableGuestTokenOrNull demo_env 50 (Some token) (demo_place\<lparr>gl_sessionId := ''s2''\<rparr>) = Inr None"
    by (simp_all add: t env)
  then show ?thesis by blast
qed

end
