(* ===== verification/Hall_Tables.thy ===== *)
theory Hall_Tables
  imports Hall_Tokens Cart_Lines
begin

text \<open>
  Hall tables and the composition of the cart services (\<^verbatim>\<open>cart.service.ts\<close>): joining a table, the lines of
  its guests, the order they submit and its confirmation.

  A method is a sequence of database calls.  Its definition passes the state from one to the next, an error
  keeps what was written before it.  The reads and the writes of a method are definitions of their own where
  a write depends on rows that were read before: the writes (\<open>join_table\<close>, \<open>submit_writes\<close>,
  \<open>hall_order_writes\<close>) take these rows as arguments, which may be stale by then, and the method itself is their
  composition with no other call in between.  \<^verbatim>\<open>Hall_Commits\<close> lets the single commits interleave.  The
  export of an order to the restaurant system runs elsewhere; what the polling of its record finds in the end
  is an argument.  The broadcasts to browsers, the log and the mapping of the response are left out.
\<close>


section \<open>Tables of the restaurant\<close>

datatype integration_provider = MOYSKLAD | IIKO | ONE_C

text \<open>\<open>xi_integrationActive\<close>: the integration of the item is active and not deleted.\<close>

record external_item =
  xi_id :: ident
  xi_catalogId :: ident
  xi_integrationId :: ident
  xi_provider :: integration_provider
  xi_type :: string
  xi_externalId :: ident
  xi_externalParentId :: "string option"
  xi_name :: "string option"
  xi_code :: "string option"
  xi_publicCode :: string
  xi_rawMeta :: "json option"
  xi_isActive :: bool
  xi_integrationActive :: bool

text \<open>
  What a call reads beside the tables of the carts.  \<open>he_numberText\<close> is \<^verbatim>\<open>String(number)\<close> of a number that
  is no integer.
\<close>

record hall_env =
  he_guest :: guest_env
  he_parseDate :: date_parser
  he_catalogs :: "checkout_catalog list"
  he_items :: "external_item list"
  he_numberText :: "rat \<Rightarrow> string"

definition normalizeText :: "json option \<Rightarrow> string option" where
  "normalizeText v = (let s = normalizeString v in if s = [] then None else Some s)"

definition show_number :: "hall_env \<Rightarrow> rat \<Rightarrow> string" where
  "show_number env x =
     (if of_int \<lfloor>x\<rfloor> = x \<and> \<bar>x\<bar> < 10 ^ 21
      then (if x < 0 then ''-'' else []) @ show_nat (nat \<bar>\<lfloor>x\<rfloor>\<bar>) else he_numberText env x)"

fun normalizeTextOrNumber :: "hall_env \<Rightarrow> json option \<Rightarrow> string option" where
  "normalizeTextOrNumber env (Some (J_num x)) = Some (show_number env x)"
| "normalizeTextOrNumber env v = normalizeText v"

definition hall_normalizePositiveInt :: "json option \<Rightarrow> int option" where
  "hall_normalizePositiveInt v = map_option (min 999) (checkout_normalizePositiveInt v)"

definition members_of :: "json option \<Rightarrow> members" where
  "members_of v = (case record_of v of None \<Rightarrow> [] | Some m \<Rightarrow> m)"

definition hall_text :: "string list \<Rightarrow> string option \<Rightarrow> members" where
  "hall_text keys v = (case v of None \<Rightarrow> [] | Some s \<Rightarrow> if s = [] then [] else map (\<lambda>k. (k, J_str s)) keys)"

definition hall_table_item :: "ident \<Rightarrow> external_item \<Rightarrow> bool" where
  "hall_table_item catalogId x =
     (xi_catalogId x = catalogId \<and> xi_provider x = IIKO \<and> xi_type x = ''TABLE'' \<and> xi_isActive x \<and> xi_integrationActive x)"

definition findHallIntegrationExternalItemByCode :: "hall_env \<Rightarrow> ident \<Rightarrow> string \<Rightarrow> external_item option" where
  "findHallIntegrationExternalItemByCode env catalogId code =
     List.find (\<lambda>x. hall_table_item catalogId x \<and> xi_publicCode x = code) (he_items env)"

fun or_else :: "'a option \<Rightarrow> 'a option \<Rightarrow> 'a option" where
  "or_else None y = y"
| "or_else x _ = x"

definition mapHallIntegrationExternalItem :: "hall_env \<Rightarrow> external_item \<Rightarrow> members" where
  "mapHallIntegrationExternalItem env x =
     (let meta = members_of (xi_rawMeta x); str = map_option J_str;
          tableNumber = or_else (normalizeTextOrNumber env (map_get meta ''iikoTableNumber''))
            (or_else (normalizeTextOrNumber env (map_get meta ''displayTableNumber''))
            (or_else (normalizeTextOrNumber env (map_get meta ''tableNumber'')) (normalizeText (str (xi_code x)))));
          tableName = or_else (normalizeText (map_get meta ''tableName'')) (normalizeText (str (xi_name x)));
          sectionId = or_else (normalizeText (map_get meta ''restaurantSectionId'')) (normalizeText (str (xi_externalParentId x)));
          sectionName = normalizeText (map_get meta ''restaurantSectionName'')
      in map (\<lambda>k. (k, J_str (xi_externalId x))) [''iikoTableId'', ''hallTableId'', ''tableId''] @
         map (\<lambda>k. (k, J_str (xi_publicCode x))) [''integrationExternalItemCode'', ''hallTableCode'', ''tableCode'', ''t''] @
         hall_text [''table'', ''tableNumber'', ''hallTableNumber''] tableNumber @
         hall_text [''tableName'', ''hallTableName''] tableName @
         hall_text [''iikoRestaurantSectionId'', ''hallSectionId''] sectionId @
         hall_text [''iikoRestaurantSectionName'', ''hallSectionName''] sectionName)"

record table_link =
  tl_code :: string
  tl_tableName :: "string option"
  tl_tableNumber :: "string option"
  tl_sectionId :: "string option"
  tl_sectionName :: "string option"

definition getHallTableLink :: "hall_env \<Rightarrow> ident \<Rightarrow> string \<Rightarrow> cart_error + table_link" where
  "getHallTableLink env catalogId code =
     bindE (option_to_res Table_code_required (normalizeText (Some (J_str code))))
       (\<lambda>c. bindE (option_to_res Table_link_invalid (findHallIntegrationExternalItemByCode env catalogId c))
       (\<lambda>x. let data = mapHallIntegrationExternalItem env x; read = (\<lambda>ks. normalizeText (first_given (map (map_get data) ks))) in
          Inr \<lparr>tl_code = xi_publicCode x, tl_tableName = read [''tableName'', ''hallTableName''],
               tl_tableNumber = read [''tableNumber'', ''hallTableNumber''],
               tl_sectionId = read [''iikoRestaurantSectionId'', ''hallSectionId''],
               tl_sectionName = read [''iikoRestaurantSectionName'', ''hallSectionName'']\<rparr>))"


section \<open>Checkout data of a hall order\<close>

definition mergeCheckoutData :: "json option \<Rightarrow> json option \<Rightarrow> json option" where
  "mergeCheckoutData existing incoming =
     (if incoming = None then existing
      else case record_of incoming of
        None \<Rightarrow> incoming
      | Some m \<Rightarrow> Some (J_obj (spread (members_of existing) m)))"

definition hall_normalizeHallCheckoutData :: "hall_env \<Rightarrow> ident \<Rightarrow> json option \<Rightarrow> cart_error + members" where
  "hall_normalizeHallCheckoutData env catalogId value =
     (let data = members_of value;
          itemCode = normalizeText (first_given (map (map_get data)
            [''integrationExternalItemCode'', ''hallTableCode'', ''tableCode'', ''t'']))
      in bindE (case itemCode of
                  None \<Rightarrow> Inr []
                | Some c \<Rightarrow> map_sum id (mapHallIntegrationExternalItem env)
                    (option_to_res Table_link_invalid (findHallIntegrationExternalItemByCode env catalogId c)))
           (\<lambda>itemData.
              let merged = spread (spread data itemData)
                    (hall_text [''integrationExternalItemCode'', ''hallTableCode'', ''tableCode'', ''t''] itemCode)
              in bindE (option_to_res Table_id_required
                          (normalizeText (first_given (map (map_get merged) [''iikoTableId'', ''hallTableId'', ''tableId'']))))
                   (\<lambda>tableId. Inr (spread merged
                      [(''orderMode'', J_str ''HALL''), (''iikoTableId'', J_str tableId),
                       (''hallTableId'', J_str (case normalizeText (map_get merged ''hallTableId'') of None \<Rightarrow> tableId | Some s \<Rightarrow> s))]))))"

definition hall_snapshot :: "request \<Rightarrow> hall_env \<Rightarrow> ident \<Rightarrow> json option \<Rightarrow> json option \<Rightarrow> cart_error + checkout_snapshot" where
  "hall_snapshot rq env catalogId data method =
     resolveCheckoutSnapshot (rq_now rq) (rq_tz rq) (he_parseDate env) (he_catalogs env) catalogId data method"

definition session_checkout_data :: "table_session \<Rightarrow> members" where
  "session_checkout_data t =
     [(''orderMode'', J_str ''HALL''), (''catalogMode'', J_str ''HALL'')] @
     map (\<lambda>k. (k, J_str (ts_tableExternalId t))) [''iikoTableId'', ''hallTableId'', ''tableId''] @
     map (\<lambda>k. (k, J_str (ts_publicCode t))) [''integrationExternalItemCode'', ''hallTableCode'', ''tableCode'', ''t''] @
     hall_text [''table'', ''tableNumber'', ''hallTableNumber''] (ts_tableNumber t) @
     hall_text [''tableName'', ''hallTableName''] (ts_tableName t) @
     hall_text [''iikoRestaurantSectionId'', ''hallSectionId''] (ts_sectionExternalId t) @
     hall_text [''iikoRestaurantSectionName'', ''hallSectionName''] (ts_sectionName t) @
     (case ts_guestsCount t of
        None \<Rightarrow> []
      | Some n \<Rightarrow> if n = 0 then [] else [(''guestsCount'', J_num (of_int n)), (''personsCount'', J_num (of_int n))])"

text \<open>The input of a submission: text, or fields of which each may be undefined; the comment may also be null.\<close>

record share_fields =
  sf_comment :: "string option option"
  sf_checkoutData :: "json option"
  sf_checkoutMethod :: "json option"

datatype hall_input = Hall_comment string | Hall_fields share_fields

fun hall_fields_of :: "hall_input option \<Rightarrow> share_fields" where
  "hall_fields_of None = \<lparr>sf_comment = None, sf_checkoutData = None, sf_checkoutMethod = None\<rparr>"
| "hall_fields_of (Some (Hall_comment c)) = \<lparr>sf_comment = Some (Some c), sf_checkoutData = None, sf_checkoutMethod = None\<rparr>"
| "hall_fields_of (Some (Hall_fields f)) = f"

definition checkout_columns :: "checkout_snapshot \<Rightarrow> cart_row \<Rightarrow> cart_row" where
  "checkout_columns checkout c =
     c\<lparr>ca_checkoutMethod := fst checkout, ca_checkoutData := Some (fst (snd checkout)),
       ca_checkoutContacts := Some (snd (snd checkout))\<rparr>"

definition applyHallTableCheckoutInput ::
    "request \<Rightarrow> hall_env \<Rightarrow> cart_row \<Rightarrow> table_session \<Rightarrow> share_fields \<Rightarrow> cart_world \<Rightarrow> cart_error + cart_world" where
  "applyHallTableCheckoutInput rq env cart session input w =
     bindE (hall_normalizeHallCheckoutData env (ca_catalogId cart)
              (mergeCheckoutData (mergeCheckoutData (ca_checkoutData cart) (Some (J_obj (session_checkout_data session))))
                 (sf_checkoutData input)))
       (\<lambda>data. bindE (hall_snapshot rq env (ca_catalogId cart) (Some (J_obj data)) (Some (J_str (method_name PICKUP))))
       (\<lambda>checkout. cart_update (rq_now rq) (ca_id cart)
          (\<lambda>c. (checkout_columns checkout c)\<lparr>ca_comment :=
             (case sf_comment input of None \<Rightarrow> ca_comment c | Some comment \<Rightarrow> trimToNull comment)\<rparr>) w))"

definition applyManagerCheckoutInput ::
    "request \<Rightarrow> hall_env \<Rightarrow> cart_row \<Rightarrow> share_fields \<Rightarrow> cart_world \<Rightarrow> cart_error + cart_world" where
  "applyManagerCheckoutInput rq env cart input w =
     (let hasCheckoutUpdate = (sf_checkoutData input \<noteq> None \<or> sf_checkoutMethod input \<noteq> None);
          hasComment = (case sf_comment input of None \<Rightarrow> False | Some comment \<Rightarrow> trimToNull comment \<noteq> ca_comment cart);
          data = mergeCheckoutData (ca_checkoutData cart) (sf_checkoutData input);
          method = (case first_given [sf_checkoutMethod input] of
              Some m \<Rightarrow> Some m | None \<Rightarrow> map_option (\<lambda>m. J_str (method_name m)) (ca_checkoutMethod cart))
      in bindE (if hasCheckoutUpdate then map_sum id checkout_columns (hall_snapshot rq env (ca_catalogId cart) data method) else Inr id)
           (\<lambda>columns. if \<not> hasCheckoutUpdate \<and> \<not> hasComment then Inr w
              else cart_update (rq_now rq) (ca_id cart)
                (\<lambda>c. (columns c)\<lparr>ca_comment := (if hasComment then Option.bind (sf_comment input) trimToNull else ca_comment c)\<rparr>) w))"



section \<open>Sessions of a table\<close>

text \<open>The result of a call and the state it leaves.\<close>

type_synonym 'a outcome = "(cart_error + 'a) \<times> cart_world"

definition andS :: "'a outcome \<Rightarrow> ('a \<Rightarrow> cart_world \<Rightarrow> 'b outcome) \<Rightarrow> 'b outcome" where
  "andS r f = (case r of (Inl e, w) \<Rightarrow> (Inl e, w) | (Inr a, w) \<Rightarrow> f a w)"

definition reading :: "cart_error + 'a \<Rightarrow> cart_world \<Rightarrow> 'a outcome" where
  "reading r w = (r, w)"

definition writing :: "(cart_world \<Rightarrow> cart_error + cart_world) \<Rightarrow> cart_world \<Rightarrow> unit outcome" where
  "writing f w = (case f w of Inl e \<Rightarrow> (Inl e, w) | Inr w' \<Rightarrow> (Inr (), w'))"

definition buildHallTableActiveKey :: "ident \<Rightarrow> ident \<Rightarrow> string" where
  "buildHallTableActiveKey catalogId tableExternalId = take 255 (catalogId @ '':IIKO:'' @ tableExternalId)"

definition session_update ::
    "ident \<Rightarrow> (table_session \<Rightarrow> table_session) \<Rightarrow> cart_world \<Rightarrow> cart_error + cart_world" where
  "session_update i f w =
     (if \<exists>t\<in>set (cw_sessions w). ts_id t = i
      then Inr (w\<lparr>cw_sessions := update_where (\<lambda>t. ts_id t = i) f (cw_sessions w)\<rparr>)
      else Inl (Cart_db RecordNotFound))"

definition findActiveHallTableSession :: "string \<Rightarrow> cart_world \<Rightarrow> table_session option" where
  "findActiveHallTableSession activeKey w =
     List.find (\<lambda>t. ts_activeKey t = Some activeKey \<and> ts_status t \<in> set ACTIVE_HALL_TABLE_SESSION_STATUSES \<and>
        ts_deleteAt t = None \<and> (\<exists>c\<in>set (cw_carts w). ca_id c = ts_cartId t \<and> ca_deleteAt c = None)) (cw_sessions w)"

definition new_hall_cart :: "ident \<Rightarrow> time \<Rightarrow> ident \<Rightarrow> string \<Rightarrow> checkout_snapshot \<Rightarrow> cart_row" where
  "new_hall_cart i now catalogId publicKey checkout =
     checkout_columns checkout
       \<lparr>ca_id = i, ca_catalogId = catalogId, ca_userId = None, ca_token = None, ca_status = C_SHARED,
        ca_statusChangedAt = now, ca_publicKey = Some publicKey, ca_checkoutKey = None, ca_comment = None,
        ca_checkoutMethod = None, ca_checkoutData = None, ca_checkoutContacts = None,
        ca_assignedManagerId = None, ca_managerSessionStartedAt = None, ca_managerLastSeenAt = None,
        ca_closedAt = None, ca_deleteAt = None, ca_updatedAt = now\<rparr>"

definition new_hall_session ::
    "hall_env \<Rightarrow> ident \<Rightarrow> ident \<Rightarrow> ident \<Rightarrow> external_item \<Rightarrow> members \<Rightarrow> string \<Rightarrow> int option \<Rightarrow> table_session" where
  "new_hall_session env i catalogId cartId item data activeKey guests =
     (let read = (\<lambda>ks. first_given (map (map_get data) ks)) in
      \<lparr>ts_id = i, ts_catalogId = catalogId, ts_integrationId = xi_integrationId item, ts_cartId = cartId,
       ts_externalTableItemId = Some (xi_id item), ts_submittedOrderId = None, ts_status = T_OPEN,
       ts_activeKey = Some activeKey, ts_publicCode = xi_publicCode item, ts_tableExternalId = xi_externalId item,
       ts_tableNumber = normalizeTextOrNumber env (read [''tableNumber'', ''hallTableNumber'']),
       ts_tableName = normalizeText (read [''tableName'', ''hallTableName'']),
       ts_sectionExternalId = normalizeText (read [''iikoRestaurantSectionId'', ''hallSectionId'']),
       ts_sectionName = normalizeText (read [''iikoRestaurantSectionName'', ''hallSectionName'']),
       ts_guestsCount = guests, ts_externalOrderId = None, ts_externalCorrelationId = None,
       ts_submittedAt = None, ts_closedAt = None, ts_deleteAt = None\<rparr>)"

definition fits :: "nat \<Rightarrow> string option \<Rightarrow> bool" where
  "fits n s = (case s of None \<Rightarrow> True | Some t \<Rightarrow> length t \<le> n)"

definition session_fits :: "table_session \<Rightarrow> bool" where
  "session_fits t =
     (fits 64 (ts_tableNumber t) \<and> fits 255 (ts_tableName t) \<and> fits 128 (ts_sectionExternalId t) \<and> fits 255 (ts_sectionName t))"

text \<open>The transaction that creates the cart and the session of a table, under the unique indexes of both tables.\<close>

definition create_hall_tx ::
    "request \<Rightarrow> hall_env \<Rightarrow> ident \<Rightarrow> external_item \<Rightarrow> members \<Rightarrow> string \<Rightarrow> int option \<Rightarrow> string \<Rightarrow> checkout_snapshot
     \<Rightarrow> cart_world \<Rightarrow> cart_error + (table_session \<times> cart_world)" where
  "create_hall_tx rq env catalogId item data activeKey guests publicKey checkout w =
     (let i = rq_gen rq (map ca_id (cw_carts w)); j = rq_gen rq (map ts_id (cw_sessions w));
          t = new_hall_session env j catalogId i item data activeKey guests
      in if i \<in> ca_id ` set (cw_carts w) \<or> Some publicKey \<in> ca_publicKey ` set (cw_carts w) then Inl (Cart_db UniqueViolation)
         else if \<not> session_fits t then Inl (Cart_db ValueTooLong)
         else if j \<in> ts_id ` set (cw_sessions w) \<or> i \<in> ts_cartId ` set (cw_sessions w) \<or>
                 Some activeKey \<in> ts_activeKey ` set (cw_sessions w) then Inl (Cart_db UniqueViolation)
         else Inr (t, w\<lparr>cw_carts := cw_carts w @ [new_hall_cart i (rq_now rq) catalogId publicKey checkout],
                        cw_sessions := cw_sessions w @ [t]\<rparr>))"

text \<open>\<open>None\<close> only when the search of an unused public key does not end.\<close>

definition createHallTableSession ::
    "request \<Rightarrow> hall_env \<Rightarrow> (nat \<Rightarrow> string) \<Rightarrow> ident \<Rightarrow> external_item \<Rightarrow> members \<Rightarrow> string \<Rightarrow> json option \<Rightarrow> cart_world
     \<Rightarrow> (cart_error + (table_session \<times> cart_world)) option" where
  "createHallTableSession rq env keys catalogId item data activeKey guestsCount w =
     map_option (\<lambda>publicKey.
        let guests = hall_normalizePositiveInt guestsCount;
            checkoutData = spread data (case guests of None \<Rightarrow> [] | Some n \<Rightarrow>
              [(''guestsCount'', J_num (of_int n)), (''personsCount'', J_num (of_int n))])
        in bindE (hall_snapshot rq env catalogId (Some (J_obj checkoutData)) (Some (J_str (method_name PICKUP))))
             (\<lambda>checkout. create_hall_tx rq env catalogId item data activeKey guests publicKey checkout w))
       (generateUniquePublicKey keys w)"

definition updateHallTableSessionGuests :: "ident \<Rightarrow> json option \<Rightarrow> cart_world \<Rightarrow> cart_error + cart_world" where
  "updateHallTableSessionGuests sessionId guestsCount w =
     (case hall_normalizePositiveInt guestsCount of
        None \<Rightarrow> Inr w
      | Some n \<Rightarrow> session_update sessionId (\<lambda>t. t\<lparr>ts_guestsCount := Some n\<rparr>) w)"

text \<open>\<open>seen\<close> is the active session that was found before.\<close>

definition getOrCreateHallTableSession ::
    "request \<Rightarrow> hall_env \<Rightarrow> (nat \<Rightarrow> string) \<Rightarrow> table_session option \<Rightarrow> ident \<Rightarrow> external_item \<Rightarrow> members \<Rightarrow> string
     \<Rightarrow> json option \<Rightarrow> cart_world \<Rightarrow> table_session outcome option" where
  "getOrCreateHallTableSession rq env keys seen catalogId item data activeKey guestsCount w =
     (case seen of
        Some t \<Rightarrow> Some (if ts_status t = T_OPEN
          then andS (writing (updateHallTableSessionGuests (ts_id t) guestsCount) w) (\<lambda>_. Pair (Inr t)) else (Inr t, w))
      | None \<Rightarrow>
          map_option (\<lambda>r. case r of
              Inr (t, w') \<Rightarrow> (Inr t, w')
            | Inl e \<Rightarrow>
                (case (if e = Cart_db UniqueViolation then findActiveHallTableSession activeKey w else None) of
                   Some t \<Rightarrow> (Inr t, w) | None \<Rightarrow> (Inl e, w)))
            (createHallTableSession rq env keys catalogId item data activeKey guestsCount w))"


section \<open>Guests\<close>

definition place_of :: "ident \<Rightarrow> ident \<Rightarrow> table_session \<Rightarrow> guest_place" where
  "place_of catalogId cartId t =
     \<lparr>gl_catalogId = catalogId, gl_cartId = cartId, gl_sessionId = ts_id t,
      gl_tableExternalId = ts_tableExternalId t, gl_publicCode = ts_publicCode t\<rparr>"

record join_input =
  ji_guestToken :: "string option"
  ji_guestsCount :: "json option"

record join_result =
  jr_session :: table_session
  jr_cart :: cart_row
  jr_publicKey :: string
  jr_guestSessionId :: string
  jr_guestToken :: string

text \<open>\<open>guestBytes\<close> and \<open>nonce\<close> are the random bytes drawn.\<close>

definition admit_guest ::
    "request \<Rightarrow> hall_env \<Rightarrow> nat list \<Rightarrow> nat list \<Rightarrow> ident \<Rightarrow> string option \<Rightarrow> table_session \<Rightarrow> cart_world \<Rightarrow> cart_error + join_result" where
  "admit_guest rq env guestBytes nonce catalogId guestToken session w =
     (let place = place_of catalogId (ts_cartId session) session in
      bindE (verifyHallTableGuestTokenOrNull (he_guest env) (rq_now rq) guestToken place)
        (\<lambda>verified. let guest = (case verified of Some p \<Rightarrow> gp_guestSessionId p | None \<Rightarrow> generateGuestSessionId guestBytes) in
         bindE (issueHallTableGuestToken (he_guest env) (rq_now rq) nonce place guest)
        (\<lambda>token. bindE (lookup_findByIdOrThrow (ts_cartId session) w)
        (\<lambda>cart. case (ca_publicKey cart, session_of (ca_id cart) w) of
             (Some key, Some t) \<Rightarrow>
               if key = [] then Inl Table_cart_expected
               else Inr \<lparr>jr_session = t, jr_cart = cart, jr_publicKey = key, jr_guestSessionId = guest, jr_guestToken = token\<rparr>
           | _ \<Rightarrow> Inl Table_cart_expected))))"

text \<open>The table a code names: the item, its data and the key of its active session.\<close>

definition table_by_code :: "hall_env \<Rightarrow> ident \<Rightarrow> string \<Rightarrow> cart_error + (external_item \<times> members \<times> string)" where
  "table_by_code env catalogId code =
     bindE (option_to_res Table_code_required (normalizeText (Some (J_str code))))
       (\<lambda>c. bindE (option_to_res Table_link_invalid (findHallIntegrationExternalItemByCode env catalogId c))
       (\<lambda>item. let data = mapHallIntegrationExternalItem env item in
          bindE (option_to_res Table_id_required (normalizeText (map_get data ''iikoTableId'')))
       (\<lambda>tableId. Inr (item, data, buildHallTableActiveKey catalogId tableId))))"

definition join_table ::
    "request \<Rightarrow> hall_env \<Rightarrow> (nat \<Rightarrow> string) \<Rightarrow> nat list \<Rightarrow> nat list \<Rightarrow> table_session option \<Rightarrow> ident \<Rightarrow> external_item \<Rightarrow> members
     \<Rightarrow> string \<Rightarrow> join_input \<Rightarrow> cart_world \<Rightarrow> join_result outcome option" where
  "join_table rq env keys guestBytes nonce seen catalogId item data activeKey input w =
     map_option (\<lambda>r. andS r (\<lambda>session w'. reading (admit_guest rq env guestBytes nonce catalogId (ji_guestToken input) session w') w'))
       (getOrCreateHallTableSession rq env keys seen catalogId item data activeKey (ji_guestsCount input) w)"

definition joinHallTableSession ::
    "request \<Rightarrow> hall_env \<Rightarrow> (nat \<Rightarrow> string) \<Rightarrow> nat list \<Rightarrow> nat list \<Rightarrow> ident \<Rightarrow> string \<Rightarrow> join_input \<Rightarrow> cart_world
     \<Rightarrow> join_result outcome option" where
  "joinHallTableSession rq env keys guestBytes nonce catalogId code input w =
     (case table_by_code env catalogId code of
        Inl e \<Rightarrow> Some (Inl e, w)
      | Inr (item, data, activeKey) \<Rightarrow>
          join_table rq env keys guestBytes nonce (findActiveHallTableSession activeKey w) catalogId item data activeKey input w)"

definition resolveHallTableGuestSessionId ::
    "request \<Rightarrow> hall_env \<Rightarrow> cart_row \<Rightarrow> table_session option \<Rightarrow> string option \<Rightarrow> cart_error + string" where
  "resolveHallTableGuestSessionId rq env cart session guestToken =
     bindE (option_to_res Session_not_found session)
       (\<lambda>t. bindE (verifyHallTableGuestTokenOrNull (he_guest env) (rq_now rq) guestToken
                      (place_of (ca_catalogId cart) (ca_id cart) t))
       (\<lambda>p. map_sum id gp_guestSessionId (option_to_res Guest_token_required p)))"

definition ensureHallTableSessionOpen :: "table_session option \<Rightarrow> cart_error + unit" where
  "ensureHallTableSessionOpen session =
     bindE (option_to_res Session_not_found session) (\<lambda>t. guardE (ts_status t = T_OPEN) Table_session_not_open)"

definition ensureHallTableSessionActive :: "table_session option \<Rightarrow> cart_error + unit" where
  "ensureHallTableSessionActive session =
     bindE (option_to_res Session_not_found session)
       (\<lambda>t. guardE (isActiveHallTableSessionStatus (ts_status t)) Session_not_active)"

definition ensurePublicCartAcceptsMutations :: "cart_row \<Rightarrow> table_session option \<Rightarrow> cart_error + unit" where
  "ensurePublicCartAcceptsMutations cart session =
     bindE (ensureCartIsOpen (ca_status cart))
       (\<lambda>_. if session = None then Inr () else ensureHallTableSessionOpen session)"

text \<open>The guest a public call acts for: none on a cart without a table session.\<close>

definition public_guest ::
    "request \<Rightarrow> hall_env \<Rightarrow> string \<Rightarrow> string option \<Rightarrow> cart_world \<Rightarrow> cart_error + (cart_row \<times> string option)" where
  "public_guest rq env publicKey guestToken w =
     bindE (lookup_findByPublicKeyOrThrow publicKey w)
       (\<lambda>cart. let session = session_of (ca_id cart) w in
          bindE (ensurePublicCartAcceptsMutations cart session)
       (\<lambda>_. if session = None then Inr (cart, None)
             else map_sum id (\<lambda>g. (cart, Some g)) (resolveHallTableGuestSessionId rq env cart session guestToken)))"


section \<open>Lines\<close>

text \<open>The result of a change of the lines: the cart as it is afterwards, and whether it changed.\<close>

definition upsertItem ::
    "request \<Rightarrow> (string \<Rightarrow> string \<Rightarrow> int) \<Rightarrow> ident \<Rightarrow> item_input \<Rightarrow> cart_world \<Rightarrow> (cart_row \<times> bool) outcome" where
  "upsertItem rq cmp cartId input w =
     andS (cart_upsertItem rq cmp cartId input w)
       (\<lambda>(i, changed) w'. reading (map_sum id (\<lambda>c. (c, changed)) (lookup_findByIdOrThrow i w')) w')"

definition removeItem ::
    "request \<Rightarrow> ident \<Rightarrow> string \<Rightarrow> string option option \<Rightarrow> cart_world \<Rightarrow> (cart_row \<times> bool) outcome" where
  "removeItem rq cartId itemId guest w =
     andS (line_removeItem rq cartId itemId guest w)
       (\<lambda>(i, changed) w'. reading (map_sum id (\<lambda>c. (c, changed)) (lookup_findByIdOrThrow i w')) w')"

definition upsertCurrentItem ::
    "request \<Rightarrow> (nat \<Rightarrow> nat list) \<Rightarrow> (string \<Rightarrow> string \<Rightarrow> int) \<Rightarrow> ident \<Rightarrow> string option \<Rightarrow> item_input \<Rightarrow> cart_world
     \<Rightarrow> ((cart_row \<times> bool) \<times> string) outcome option" where
  "upsertCurrentItem rq bytes cmp catalogId token input w =
     map_option (\<lambda>r. case r of
          Inl e \<Rightarrow> (Inl e, w)
        | Inr ((cart, _, t), w1) \<Rightarrow> andS (upsertItem rq cmp (ca_id cart) input w1) (\<lambda>u. Pair (Inr (u, t))))
       (getOrCreate rq bytes catalogId token w)"

definition removeCurrentItem ::
    "request \<Rightarrow> ident \<Rightarrow> string option \<Rightarrow> string \<Rightarrow> cart_world \<Rightarrow> ((cart_row \<times> bool) \<times> string) outcome" where
  "removeCurrentItem rq catalogId token itemId w =
     andS (reading (getOrThrow catalogId token w) w)
       (\<lambda>(cart, t) w1. andS (removeItem rq (ca_id cart) itemId None w1) (\<lambda>u. Pair (Inr (u, t))))"

definition upsertPublicItem ::
    "request \<Rightarrow> hall_env \<Rightarrow> (string \<Rightarrow> string \<Rightarrow> int) \<Rightarrow> string \<Rightarrow> item_input \<Rightarrow> string option \<Rightarrow> cart_world \<Rightarrow> (cart_row \<times> bool) outcome" where
  "upsertPublicItem rq env cmp publicKey input guestToken w =
     andS (reading (public_guest rq env publicKey guestToken w) w)
       (\<lambda>(cart, guest). upsertItem rq cmp (ca_id cart) (if truthy guest then input\<lparr>ii_guestSessionId := guest\<rparr> else input))"

definition removePublicItem ::
    "request \<Rightarrow> hall_env \<Rightarrow> string \<Rightarrow> string \<Rightarrow> string option \<Rightarrow> cart_world \<Rightarrow> (cart_row \<times> bool) outcome" where
  "removePublicItem rq env publicKey itemId guestToken w =
     andS (reading (public_guest rq env publicKey guestToken w) w)
       (\<lambda>(cart, guest). removeItem rq (ca_id cart) itemId (if truthy guest then Some guest else None))"


section \<open>Orders of a table\<close>

text \<open>What the polling of the export record of an order finds in the end.\<close>

record export_outcome =
  eo_ok :: bool
  eo_externalId :: "string option"
  eo_response :: "json option"

definition resolveIikoCorrelationId :: "json option \<Rightarrow> string option" where
  "resolveIikoCorrelationId response =
     (case record_of response of None \<Rightarrow> None | Some m \<Rightarrow> normalizeText (map_get m ''correlationId''))"

text \<open>
  What the call reads first, all from the rows of the cart at this moment: the session to submit, or none when
  it waits for its confirmation already.
\<close>

definition submit_reads ::
    "request \<Rightarrow> hall_env \<Rightarrow> string \<Rightarrow> string option \<Rightarrow> cart_world \<Rightarrow> cart_error + (cart_row \<times> table_session option)" where
  "submit_reads rq env publicKey guestToken w =
     bindE (lookup_findByPublicKeyOrThrow publicKey w)
       (\<lambda>cart. bindE (option_to_res Session_not_found (session_of (ca_id cart) w))
       (\<lambda>t. if ts_status t = T_PENDING_CONFIRMATION then Inr (cart, None)
             else bindE (guardE (ts_status t = T_OPEN) Table_session_not_open)
       (\<lambda>_. bindE (ensureCartIsOpen (ca_status cart))
       (\<lambda>_. bindE (resolveHallTableGuestSessionId rq env cart (Some t) guestToken)
       (\<lambda>_. bindE (guardE (live_items (ca_id cart) w \<noteq> []) Cart_empty) (\<lambda>_. Inr (cart, Some t)))))))"

text \<open>The update of a submission: by the identifier of the session alone, whatever its status is by then.\<close>

definition session_pending :: "ident \<Rightarrow> cart_world \<Rightarrow> cart_error + cart_world" where
  "session_pending i = session_update i (\<lambda>t. t\<lparr>ts_status := T_PENDING_CONFIRMATION\<rparr>)"

text \<open>What it does then, for the rows it has read: two commits, each on the state it finds.\<close>

definition submit_writes ::
    "request \<Rightarrow> hall_env \<Rightarrow> cart_row \<Rightarrow> table_session \<Rightarrow> share_fields \<Rightarrow> cart_world \<Rightarrow> cart_row outcome" where
  "submit_writes rq env cart t input w =
     andS (writing (applyHallTableCheckoutInput rq env cart t input) w)
       (\<lambda>_ w1. andS (writing (session_pending (ts_id t)) w1)
       (\<lambda>_ w2. reading (lookup_findByIdOrThrow (ca_id cart) w2) w2))"

definition submitPublicHallOrder ::
    "request \<Rightarrow> hall_env \<Rightarrow> string \<Rightarrow> hall_input option \<Rightarrow> string option \<Rightarrow> cart_world \<Rightarrow> cart_row outcome" where
  "submitPublicHallOrder rq env publicKey input guestToken w =
     andS (reading (submit_reads rq env publicKey guestToken w) w)
       (\<lambda>(cart, session) w0. case session of
          None \<Rightarrow> (Inr cart, w0)
        | Some t \<Rightarrow> submit_writes rq env cart t (hall_fields_of input) w0)"

definition submitted_data ::
    "session_status \<Rightarrow> ident \<Rightarrow> time \<Rightarrow> export_outcome option \<Rightarrow> table_session \<Rightarrow> table_session" where
  "submitted_data status orderId now record t =
     (let t' = t\<lparr>ts_status := status, ts_submittedOrderId := Some orderId, ts_submittedAt := Some now, ts_activeKey := None\<rparr> in
      case record of
        None \<Rightarrow> t'
      | Some r \<Rightarrow> t'\<lparr>ts_externalOrderId := eo_externalId r, ts_externalCorrelationId := resolveIikoCorrelationId (eo_response r)\<rparr>)"

definition session_submitted ::
    "ident \<Rightarrow> session_status \<Rightarrow> ident \<Rightarrow> time \<Rightarrow> export_outcome option \<Rightarrow> cart_world \<Rightarrow> cart_error + cart_world" where
  "session_submitted i status orderId now record = session_update i (submitted_data status orderId now record)"

text \<open>The part of \<^verbatim>\<open>completeHallTableCart\<close> after the checkout: two updates of the session by its identifier.\<close>

definition finish_hall_order ::
    "request \<Rightarrow> (ident \<Rightarrow> export_outcome) \<Rightarrow> ident \<Rightarrow> ident \<Rightarrow> order_row \<Rightarrow> cart_world \<Rightarrow> order_row outcome" where
  "finish_hall_order rq export cartId sessionId order w =
     andS (writing (session_submitted sessionId T_SUBMITTED (od_id order) (rq_now rq) None) w)
       (\<lambda>_ w1. andS (reading (lookup_findByIdOrThrow cartId w1) w1)
       (\<lambda>_ w2. let r = export (od_id order) in
          if \<not> eo_ok r
          then andS (writing (session_submitted sessionId T_EXPORT_ERROR (od_id order) (rq_now rq) (Some r)) w2)
            (\<lambda>_ w3. andS (reading (lookup_findByIdOrThrow cartId w3) w3) (\<lambda>_. Pair (Inl Waiters_not_reached)))
          else andS (writing (session_submitted sessionId T_SUBMITTED (od_id order) (rq_now rq) (Some r)) w2)
            (\<lambda>_ w3. andS (reading (lookup_findByIdOrThrow cartId w3) w3) (\<lambda>_. Pair (Inr order)))))"

text \<open>The checks on the rows that were read with the cart, and the commits that follow them.\<close>

definition hall_order_checks ::
    "cart_row \<Rightarrow> table_session option \<Rightarrow> cart_item list \<Rightarrow> cart_error + table_session" where
  "hall_order_checks cart session items =
     bindE (ensureHallTableSessionActive session)
       (\<lambda>_. bindE (ensureCartIsOpen (ca_status cart))
       (\<lambda>_. bindE (guardE (items \<noteq> []) Cart_empty) (\<lambda>_. option_to_res Session_not_found session)))"

definition hall_order_writes ::
    "request \<Rightarrow> hall_env \<Rightarrow> snapshot_ports \<Rightarrow> (ident \<Rightarrow> export_outcome) \<Rightarrow> cart_row \<Rightarrow> table_session \<Rightarrow> session_user \<Rightarrow> share_fields
     \<Rightarrow> cart_world \<Rightarrow> order_row outcome" where
  "hall_order_writes rq env ports export cart t user input w =
     andS (writing (applyHallTableCheckoutInput rq env cart t input) w)
       (\<lambda>_ w1. andS (checkout_complete rq ports (ca_id cart) (Some (su_id user)) w1)
       (\<lambda>order. finish_hall_order rq export (ca_id cart) (ts_id t) order))"

definition completeHallTableCart ::
    "request \<Rightarrow> hall_env \<Rightarrow> snapshot_ports \<Rightarrow> (ident \<Rightarrow> export_outcome) \<Rightarrow> cart_row \<Rightarrow> table_session option \<Rightarrow> cart_item list
     \<Rightarrow> session_user \<Rightarrow> share_fields \<Rightarrow> cart_world \<Rightarrow> order_row outcome" where
  "completeHallTableCart rq env ports export cart session items user input w =
     andS (reading (hall_order_checks cart session items) w)
       (\<lambda>t. hall_order_writes rq env ports export cart t user input)"

definition confirmHallTableOrder ::
    "request \<Rightarrow> hall_env \<Rightarrow> snapshot_ports \<Rightarrow> (ident \<Rightarrow> export_outcome) \<Rightarrow> string \<Rightarrow> session_user \<Rightarrow> hall_input option
     \<Rightarrow> cart_world \<Rightarrow> order_row outcome" where
  "confirmHallTableOrder rq env ports export publicKey user input w =
     andS (reading (findManageableCartByPublicKeyOrThrow publicKey user w) w)
       (\<lambda>cart w0. completeHallTableCart rq env ports export cart (session_of (ca_id cart) w0) (live_items (ca_id cart) w0)
          user (hall_fields_of input) w0)"

definition completeManagerOrder ::
    "request \<Rightarrow> hall_env \<Rightarrow> snapshot_ports \<Rightarrow> (ident \<Rightarrow> export_outcome) \<Rightarrow> string \<Rightarrow> session_user \<Rightarrow> hall_input option
     \<Rightarrow> cart_world \<Rightarrow> order_row outcome" where
  "completeManagerOrder rq env ports export publicKey user input w =
     andS (reading (findManageableCartByPublicKeyOrThrow publicKey user w) w)
       (\<lambda>cart w0.
          if session_of (ca_id cart) w0 \<noteq> None
          then completeHallTableCart rq env ports export cart (session_of (ca_id cart) w0) (live_items (ca_id cart) w0)
            user (hall_fields_of input) w0
          else andS (reading (bindE (ensureCartIsOpen (ca_status cart))
                  (\<lambda>_. guardE (live_items (ca_id cart) w0 \<noteq> []) Cart_empty)) w0)
            (\<lambda>_ w1. andS (writing (applyManagerCheckoutInput rq env cart (hall_fields_of input)) w1)
            (\<lambda>_ w2. andS (checkout_complete rq ports (ca_id cart) (Some (su_id user)) w2)
            (\<lambda>order w3. andS (reading (lookup_findByIdOrThrow (ca_id cart) w3) w3) (\<lambda>_. Pair (Inr order))))))"

definition submitCurrentHallOrder ::
    "request \<Rightarrow> hall_env \<Rightarrow> snapshot_ports \<Rightarrow> (ident \<Rightarrow> export_outcome) \<Rightarrow> (nat \<Rightarrow> nat list) \<Rightarrow> (nat \<Rightarrow> string) \<Rightarrow> ident
     \<Rightarrow> string option \<Rightarrow> hall_input option \<Rightarrow> cart_world \<Rightarrow> (order_row \<times> string) outcome option" where
  "submitCurrentHallOrder rq env ports export bytes keys catalogId token input w =
     (let f = hall_fields_of input in
      case hall_normalizeHallCheckoutData env catalogId (sf_checkoutData f) of
        Inl e \<Rightarrow> Some (Inl e, w)
      | Inr data \<Rightarrow>
          map_option (\<lambda>r. andS r
              (\<lambda>(cart, t) w1. andS (reading (bindE (ensureCartIsOpen (ca_status cart))
                  (\<lambda>_. guardE (live_items (ca_id cart) w1 \<noteq> []) Cart_empty)) w1)
              (\<lambda>_ w2. andS (checkout_complete rq ports (ca_id cart) None w2)
              (\<lambda>order w3. if \<not> eo_ok (export (od_id order)) then (Inl Waiters_not_reached, w3)
                 else andS (reading (lookup_findByIdOrThrow (ca_id cart) w3) w3) (\<lambda>_. Pair (Inr (order, t)))))))
            (shareCurrentCart rq bytes keys catalogId token (Some (Share_fields (Option.bind (sf_comment f) id)))
               (hall_snapshot rq env catalogId (Some (J_obj data)) (Some (J_str (method_name PICKUP)))) w))"

definition finishOpenHallTableSession ::
    "request \<Rightarrow> string \<Rightarrow> session_user \<Rightarrow> session_status \<Rightarrow> cart_world \<Rightarrow> cart_row outcome" where
  "finishOpenHallTableSession rq publicKey user status w =
     (case bindE (findManageableCartByPublicKeyOrThrow publicKey user w)
             (\<lambda>cart. bindE (ensureHallTableSessionActive (session_of (ca_id cart) w))
             (\<lambda>_. bindE (ensureCartIsOpen (ca_status cart)) (\<lambda>_. Inr cart))) of
        Inl e \<Rightarrow> (Inl e, w)
      | Inr cart \<Rightarrow> closeHallTableSession rq cart (session_of (ca_id cart) w) status (Some (su_id user)) w)"

definition closeHallSession :: "request \<Rightarrow> string \<Rightarrow> session_user \<Rightarrow> cart_world \<Rightarrow> cart_row outcome" where
  "closeHallSession rq publicKey user w = finishOpenHallTableSession rq publicKey user T_CLOSED w"

definition resetHallTableSession :: "request \<Rightarrow> string \<Rightarrow> session_user \<Rightarrow> cart_world \<Rightarrow> cart_row outcome" where
  "resetHallTableSession rq publicKey user w = finishOpenHallTableSession rq publicKey user T_CANCELLED w"

end
