(* ===== verification/Hall_Invariant.thy ===== *)
theory Hall_Invariant
  imports Hall_Tables Cart_Limits
begin

text \<open>
  The calls on hall tables beside the other calls on carts, as one state machine, and its invariant: while no
  call runs in between the commits of another, a table has at most one active session, which is the one its
  key names.  The locale \<open>call_steps\<close> derives what a call respects from what its commits respect.
\<close>


section \<open>Sessions\<close>

definition active_session :: "table_session \<Rightarrow> bool" where
  "active_session t = (ts_status t \<in> set ACTIVE_HALL_TABLE_SESSION_STATUSES)"

definition session_key :: "table_session \<Rightarrow> string" where
  "session_key t = buildHallTableActiveKey (ts_catalogId t) (trim (ts_tableExternalId t))"

definition hall_ok :: "cart_world \<Rightarrow> bool" where
  "hall_ok w \<longleftrightarrow>
     distinct (map ts_id (cw_sessions w)) \<and> distinct (map ts_cartId (cw_sessions w)) \<and>
     distinct (List.map_filter ts_activeKey (cw_sessions w)) \<and>
     list_all (\<lambda>t. active_session t \<longrightarrow> ts_activeKey t = Some (session_key t)) (cw_sessions w)"

text \<open>What a call may do to a session: its identity stays, and it keeps its key or is closed without one.\<close>

definition session_step :: "table_session \<Rightarrow> table_session \<Rightarrow> bool" where
  "session_step t t' \<longleftrightarrow>
     ts_id t' = ts_id t \<and> ts_cartId t' = ts_cartId t \<and> ts_catalogId t' = ts_catalogId t \<and>
     ts_tableExternalId t' = ts_tableExternalId t \<and>
     (ts_activeKey t' = ts_activeKey t \<and> (active_session t' \<longrightarrow> active_session t) \<or>
      ts_activeKey t' = None \<and> \<not> active_session t')"

abbreviation sessions_step :: "table_session list \<Rightarrow> table_session list \<Rightarrow> bool" where
  "sessions_step \<equiv> list_all2 session_step"

lemma session_step_refl [simp]: "session_step t t"
  by (simp add: session_step_def)

lemma sessions_step_refl [simp]: "sessions_step ts ts"
  by (simp add: list_all2_refl)

lemma sessions_step_trans: "sessions_step a b \<Longrightarrow> sessions_step b c \<Longrightarrow> sessions_step a c"
  by (rule list_all2_trans [of session_step session_step session_step]) (auto simp: session_step_def)

lemma sessions_step_update:
  assumes "\<And>t. t \<in> set ts \<Longrightarrow> P t \<Longrightarrow> session_step t (f t)"
  shows "sessions_step ts (update_where P f ts)"
  using assms by (induction ts) (auto simp: table_simps)

text \<open>Any such step keeps the identity of the rows and makes no key.\<close>

definition key_step :: "table_session \<Rightarrow> table_session \<Rightarrow> bool" where
  "key_step t t' \<longleftrightarrow>
     ts_id t' = ts_id t \<and> ts_cartId t' = ts_cartId t \<and> session_key t' = session_key t \<and>
     (ts_activeKey t' = ts_activeKey t \<or> ts_activeKey t' = None)"

lemma session_key_step: "session_step t t' \<Longrightarrow> key_step t t'"
  by (auto simp: session_step_def key_step_def session_key_def)

lemma key_steps:
  assumes "list_all2 key_step ts us"
  shows "map ts_id us = map ts_id ts" "map ts_cartId us = map ts_cartId ts"
    "distinct (List.map_filter ts_activeKey ts) \<Longrightarrow> distinct (List.map_filter ts_activeKey us)"
proof -
  show "map ts_id us = map ts_id ts" "map ts_cartId us = map ts_cartId ts"
    using assms by (induction rule: list_all2_induct) (auto simp: key_step_def)
  have "set (List.map_filter ts_activeKey us) \<subseteq> set (List.map_filter ts_activeKey ts) \<and>
      (distinct (List.map_filter ts_activeKey ts) \<longrightarrow> distinct (List.map_filter ts_activeKey us))"
    using assms
  proof (induction rule: list_all2_induct)
    case (Cons t ts u us)
    then have "ts_activeKey u = ts_activeKey t \<or> ts_activeKey u = None" by (auto simp: key_step_def)
    with Cons.IH show ?case by (cases "ts_activeKey t") (auto simp: map_filter_simps)
  qed simp
  then show "distinct (List.map_filter ts_activeKey ts) \<Longrightarrow> distinct (List.map_filter ts_activeKey us)" by blast
qed

lemma step_keys:
  assumes "sessions_step ts us"
  shows "map ts_id us = map ts_id ts" "map ts_cartId us = map ts_cartId ts"
    "distinct (List.map_filter ts_activeKey ts) \<Longrightarrow> distinct (List.map_filter ts_activeKey us)"
proof -
  have "list_all2 key_step ts us" using assms by (rule list_all2_mono) (rule session_key_step)
  then show "map ts_id us = map ts_id ts" "map ts_cartId us = map ts_cartId ts"
    "distinct (List.map_filter ts_activeKey ts) \<Longrightarrow> distinct (List.map_filter ts_activeKey us)" by (rule key_steps)+
qed

lemma step_active:
  assumes "sessions_step ts us" "list_all (\<lambda>t. active_session t \<longrightarrow> ts_activeKey t = Some (session_key t)) ts"
  shows "list_all (\<lambda>t. active_session t \<longrightarrow> ts_activeKey t = Some (session_key t)) us"
  using assms by (induction rule: list_all2_induct) (auto simp: session_step_def session_key_def)

lemma hall_ok_step: "hall_ok w \<Longrightarrow> sessions_step (cw_sessions w) (cw_sessions w') \<Longrightarrow> hall_ok w'"
  using step_keys [of "cw_sessions w" "cw_sessions w'"] step_active [of "cw_sessions w" "cw_sessions w'"] by (auto simp: hall_ok_def)

lemma same_sessions: "same_tables_but_stock w w' \<Longrightarrow> cw_sessions w' = cw_sessions w"
  by (simp add: same_tables_but_stock_def)

lemma commit_sessions:
  assumes "\<And>r fx w'. tx = Inr ((r, fx), w') \<Longrightarrow> sessions_step ts (cw_sessions w')" "sessions_step ts (cw_sessions w)"
  shows "sessions_step ts (cw_sessions (snd (commit_tx rq tx w)))"
proof (cases tx)
  case (Inr p)
  obtain r fx w' where p: "p = ((r, fx), w')" by (cases p) auto
  have "cw_sessions (snd (cart_invalidateCaches rq fx r w')) = cw_sessions w'"
    using invalidate_caches_tables [of w' rq fx r] by (rule same_sessions)
  with Inr p assms(1) show ?thesis by (simp add: commit_tx_def)
qed (use assms(2) in \<open>simp add: commit_tx_def\<close>)

lemma updateMany_sessions [simp]: "cw_sessions (cart_updateMany now P f w) = cw_sessions w"
  by (simp add: cart_updateMany_def)

lemma update_sessions: "cart_update now i f w = Inr w' \<Longrightarrow> cw_sessions w' = cw_sessions w"
  by (auto simp: cart_update_def split: if_splits)

lemmas sessions_frame = update_sessions reserve_tables cart_release_ok(2) release_loop_tables consume_if_ok(2)

lemma tx_sessions:
  "session_tx rq user cart w = Inr (r, w') \<Longrightarrow> cw_sessions w' = cw_sessions w"
  "share_tx rq cart key comment snap w = Inr (r, w') \<Longrightarrow> cw_sessions w' = cw_sessions w"
  "expire_drafts_tx rq stale w = Inr (n, w') \<Longrightarrow> cw_sessions w' = cw_sessions w"
  "delete_tx rq cat cart tok w = Inr (d, w') \<Longrightarrow> cw_sessions w' = cw_sessions w"
  by (auto simp: session_tx_def share_tx_def expire_drafts_tx_def delete_tx_def Let_def
      same_tables_but_stock_def split: if_splits dest!: sessions_frame)

lemma complete_sessions: "complete_tx rq ports i actor w = Inr ((order, fx), w') \<Longrightarrow> cw_sessions w' = cw_sessions w"
  by (erule complete_tx_Inr) (auto simp: create_order_def Let_def same_tables_but_stock_def split: if_splits dest!: sessions_frame)

lemma close_sessions:
  assumes "st \<notin> set ACTIVE_HALL_TABLE_SESSION_STATUSES"
  shows "sessions_step (cw_sessions w) (cw_sessions (session_updateMany P st now w))"
  unfolding session_updateMany_def
  by (simp, rule sessions_step_update) (use assms in \<open>simp add: session_step_def active_session_def\<close>)

text \<open>The transactions that close sessions write the rows by one update.\<close>

lemma table_tx_rows:
  "close_table_tx rq cart t st actor w = Inr (r, w') \<Longrightarrow> \<exists>P. cw_sessions w' = cw_sessions (session_updateMany P st (rq_now rq) w)"
  "expire_tables_tx rq tables w = Inr (n, w') \<Longrightarrow> \<exists>P. cw_sessions w' = cw_sessions (session_updateMany P T_EXPIRED (rq_now rq) w)"
  by (auto simp: close_table_tx_def expire_tables_tx_def Let_def same_tables_but_stock_def split: if_splits dest!: sessions_frame)

lemma table_tx_sessions:
  "st \<notin> set ACTIVE_HALL_TABLE_SESSION_STATUSES \<Longrightarrow> close_table_tx rq cart t st actor w = Inr (r, w') \<Longrightarrow>
    sessions_step (cw_sessions w) (cw_sessions w')"
  "expire_tables_tx rq tables w = Inr (n, w') \<Longrightarrow> sessions_step (cw_sessions w) (cw_sessions w')"
proof -
  show "sessions_step (cw_sessions w) (cw_sessions w')"
    if "st \<notin> set ACTIVE_HALL_TABLE_SESSION_STATUSES" "close_table_tx rq cart t st actor w = Inr (r, w')"
    using table_tx_rows(1) [OF that(2)] close_sessions [OF that(1)] by metis
  have "T_EXPIRED \<notin> set ACTIVE_HALL_TABLE_SESSION_STATUSES" by (simp add: ACTIVE_HALL_TABLE_SESSION_STATUSES_def)
  then show "sessions_step (cw_sessions w) (cw_sessions w')" if "expire_tables_tx rq tables w = Inr (n, w')"
    using table_tx_rows(2) [OF that] close_sessions by metis
qed


section \<open>Calls on carts\<close>

lemma commit_same_sessions:
  fixes tx :: "cart_error + (('a \<times> stock_effects) \<times> cart_world)"
  assumes "\<And>r fx w'. tx = Inr ((r, fx), w') \<Longrightarrow> cw_sessions w' = cw_sessions w"
  shows "cw_sessions (snd (commit_tx rq tx w)) = cw_sessions w"
proof (cases tx)
  case (Inr p)
  obtain r fx w' where p: "p = ((r, fx), w')" by (cases p) auto
  have "cw_sessions (snd (cart_invalidateCaches rq fx r w')) = cw_sessions w'"
    using invalidate_caches_tables [of w' rq fx r] by (rule same_sessions)
  with Inr p assms show ?thesis by (simp add: commit_tx_def)
qed (simp add: commit_tx_def)

lemma session_calls:
  "cw_sessions (snd (session_begin rq key user w)) = cw_sessions w"
  "cw_sessions (snd (session_heartbeat rq key user w)) = cw_sessions w"
  "cw_sessions (snd (session_release rq key user w)) = cw_sessions w"
  "cw_sessions (snd (deleteCurrentCart rq cat token w)) = cw_sessions w"
  "cw_sessions (snd (expireInactiveManagerSessions rq ms w)) = cw_sessions w"
  "cw_sessions (snd (expireAbandonedDraftCarts rq ms w)) = cw_sessions w"
  "cw_sessions (snd (checkout_complete rq ports i actor w)) = cw_sessions w"
  "cw_sessions (product_change pt ps vs w) = cw_sessions w"
proof -
  have tx: "cw_sessions (snd (commit_tx rq (session_tx rq user c w) w)) = cw_sessions w" for c
    by (rule commit_same_sessions) (rule tx_sessions(1))
  show "cw_sessions (snd (session_begin rq key user w)) = cw_sessions w"
    "cw_sessions (snd (session_heartbeat rq key user w)) = cw_sessions w"
    using tx by (auto simp: session_begin_def session_heartbeat_def split: sum.split)
  show "cw_sessions (snd (session_release rq key user w)) = cw_sessions w"
    by (auto simp: session_release_def update_sessions split: sum.split)
  have "cw_sessions (snd (commit_tx rq (delete_tx rq cat c t w) w)) = cw_sessions w" for c t
    by (rule commit_same_sessions) (rule tx_sessions(4))
  then show "cw_sessions (snd (deleteCurrentCart rq cat token w)) = cw_sessions w"
    by (auto simp: deleteCurrentCart_def update_sessions split: sum.split)
  show "cw_sessions (snd (expireInactiveManagerSessions rq ms w)) = cw_sessions w"
    by (simp add: expireInactiveManagerSessions_def Let_def)
  have "cw_sessions (snd (commit_tx rq (expire_drafts_tx rq stale w) w)) = cw_sessions w" for stale
    by (rule commit_same_sessions) (rule tx_sessions(3))
  then show "cw_sessions (snd (expireAbandonedDraftCarts rq ms w)) = cw_sessions w"
    by (simp add: expireAbandonedDraftCarts_def Let_def)
  show "cw_sessions (snd (checkout_complete rq ports i actor w)) = cw_sessions w"
    unfolding checkout_complete_def by (rule commit_same_sessions) (rule complete_sessions)
  show "cw_sessions (product_change pt ps vs w) = cw_sessions w"
    by (simp add: product_change_def rejoin_def)
qed

lemma getOrCreate_sessions: "getOrCreate rq bytes cat token w = Some (Inr ((c, new, t), w')) \<Longrightarrow> cw_sessions w' = cw_sessions w"
  by (erule getOrCreate_cases) (auto simp: create_cart_def Let_def split: if_splits)

lemma share_sessions: "shareCurrentCart rq bytes keys cat token input checkout w = Some (r, w') \<Longrightarrow> cw_sessions w' = cw_sessions w"
proof -
  assume "shareCurrentCart rq bytes keys cat token input checkout w = Some (r, w')"
  then show ?thesis
  proof (cases rule: share_cases)
    case (shared c new t w1 key comment snap)
    have "cw_sessions (snd (commit_tx rq (share_tx rq c key comment snap w1) w1)) = cw_sessions w1"
      by (rule commit_same_sessions) (rule tx_sessions(2))
    with shared show ?thesis by (simp add: getOrCreate_sessions)
  qed (simp_all add: getOrCreate_sessions)
qed

lemma line_sessions:
  "cw_sessions (snd (line_upsertItem rq ports cmp i input w)) = cw_sessions w"
  "cw_sessions (snd (line_removeItem rq i itemId guest w)) = cw_sessions w"
proof -
  have "cw_sessions w' = cw_sessions w" if "upsertItemInTransaction rq ports i n w = Inr (res, w')" for n res w'
    using that
  proof (cases rule: upsert_cases)
    case (removed cx)
    then show ?thesis by (simp add: finalize_tables(2) [OF removed(4)] archive_tables)
  next
    case (written cx product b w1 r pj mutated w2)
    have "cw_sessions w1 = cw_sessions w" using repair_write(1) [OF written(5)] by (simp add: product_write_def)
    then show ?thesis
      by (simp add: finalize_tables(2) [OF written(9)] apply_change_tables(2) [OF written(8)])
  qed
  then have "cw_sessions (snd (commit_tx rq (upsertItemInTransaction rq ports i n w) w)) = cw_sessions w" for n
    by (intro commit_same_sessions) auto
  then show "cw_sessions (snd (line_upsertItem rq ports cmp i input w)) = cw_sessions w"
    by (simp add: line_upsertItem_def split: sum.split)
  have "cw_sessions w' = cw_sessions w" if "removeItem_tx rq i j guest w = Inr (res, w')" for j res w'
    using that by (rule remove_tx_Inr) (drule finalize_tables(2), simp)
  then have "cw_sessions (snd (commit_tx rq (removeItem_tx rq i j guest w) w)) = cw_sessions w" for j
    by (intro commit_same_sessions) auto
  then show "cw_sessions (snd (line_removeItem rq i itemId guest w)) = cw_sessions w"
    by (simp add: line_removeItem_def)
qed

lemma closing_calls:
  "st \<notin> set ACTIVE_HALL_TABLE_SESSION_STATUSES \<Longrightarrow>
    sessions_step (cw_sessions w) (cw_sessions (snd (closeHallTableSession rq cart session st actor w)))"
  "sessions_step (cw_sessions w) (cw_sessions (snd (expireStaleHallTableSessions rq ms w)))"
proof -
  assume "st \<notin> set ACTIVE_HALL_TABLE_SESSION_STATUSES"
  then have "sessions_step (cw_sessions w) (cw_sessions (snd (commit_tx rq (close_table_tx rq cart t st actor w) w)))" for t
    by (intro commit_sessions) (auto intro: table_tx_sessions)
  then show "sessions_step (cw_sessions w) (cw_sessions (snd (closeHallTableSession rq cart session st actor w)))"
    by (auto simp: closeHallTableSession_def split: option.split)
next
  have "sessions_step (cw_sessions w) (cw_sessions (snd (commit_tx rq (expire_tables_tx rq stale w) w)))" for stale
    by (intro commit_sessions) (auto intro: table_tx_sessions)
  then have "sessions_step (cw_sessions w) (cw_sessions w')" if "commit_tx rq (expire_tables_tx rq stale w) w = (r, w')" for stale r w'
    using that by (metis snd_conv)
  then show "sessions_step (cw_sessions w) (cw_sessions (snd (expireStaleHallTableSessions rq ms w)))"
    by (auto simp: expireStaleHallTableSessions_def Let_def split: prod.split sum.split)
qed

text \<open>A session is closed to one of the two statuses of \<^verbatim>\<open>ClosableHallTableSessionStatus\<close>.\<close>

fun closing_op :: "cart_op \<Rightarrow> bool" where
  "closing_op (O_close cart session st actor) = (st \<in> {T_CLOSED, T_CANCELLED})"
| "closing_op _ = True"

fun writes_sessions :: "cart_op \<Rightarrow> bool" where
  "writes_sessions (O_close cart session st actor) = True"
| "writes_sessions (O_expire_tables ms) = True"
| "writes_sessions _ = False"

lemma cart_state_same:
  assumes "\<not> writes_sessions op"
  shows "cw_sessions (cart_state slug rq op w) = cw_sessions w"
proof (cases op)
  case (O_current bytes cat token)
  have "cw_sessions w' = cw_sessions w" if "getOrCreate rq bytes cat token w = Some (Inr (p, w'))" for p w'
    using that getOrCreate_sessions by (cases p) fastforce
  with O_current show ?thesis by (auto split: option.split sum.split)
next
  case (O_share bytes keys cat token input checkout)
  then show ?thesis using share_sessions by (auto split: option.split)
next
  case (O_stock q)
  then show ?thesis by (simp split: sum.split)
qed (use assms in \<open>simp_all add: session_calls line_sessions\<close>)

lemma cart_state_sessions:
  assumes "closing_op op"
  shows "sessions_step (cw_sessions w) (cw_sessions (cart_state slug rq op w))"
proof (cases "writes_sessions op")
  case True
  then show ?thesis
  proof (cases op)
    case (O_close cart session st actor)
    then have "st \<notin> set ACTIVE_HALL_TABLE_SESSION_STATUSES" using assms by (auto simp: ACTIVE_HALL_TABLE_SESSION_STATUSES_def)
    with O_close closing_calls show ?thesis by simp
  qed (use closing_calls in simp_all)
qed (simp add: cart_state_same)


section \<open>Calls on hall tables\<close>

text \<open>What a call does to the rest of the carts is what the calls of the cart services do.\<close>

definition carts_good :: "ident list \<Rightarrow> cart_world \<Rightarrow> bool" where
  "carts_good old w \<longleftrightarrow> cart_ok old w \<and> lines_bounded w"

definition world_step :: "ident list \<Rightarrow> cart_world \<Rightarrow> cart_world \<Rightarrow> bool" where
  "world_step old w w' \<longleftrightarrow> sessions_step (cw_sessions w) (cw_sessions w') \<and> (carts_good old w \<longrightarrow> carts_good old w')"

lemma world_step_refl [simp]: "world_step old w w"
  by (simp add: world_step_def)

lemma world_step_trans: "world_step old w w' \<Longrightarrow> world_step old w' w'' \<Longrightarrow> world_step old w w''"
  unfolding world_step_def using sessions_step_trans by blast

lemma cart_call_step:
  assumes "cart_call_ok (rq, op)" "closing_op op"
  shows "world_step old w (cart_state slug rq op w)"
proof -
  have "run_cart slug (rq, op) w = Inr (cart_state slug rq op w)" by (simp only: run_cart_def fst_conv snd_conv)
  note ok = run_cart_bounded [OF _ assms(1) this]
  have "carts_good old w \<Longrightarrow> carts_good old (cart_state slug rq op w)"
    unfolding carts_good_def by (rule ok)
  with cart_state_sessions [OF assms(2)] show ?thesis unfolding world_step_def by blast
qed

lemma columns_step:
  assumes "cart_update now i f w = Inr w'" "\<And>c. ca_id (f c) = ca_id c" "\<And>c. cart_dead (f c) = cart_dead c"
  shows "world_step old w w'"
proof -
  have "cw_items w' = cw_items w" using assms(1) by (auto simp: cart_update_def cart_updateMany_def split: if_splits)
  moreover have "cart_ok old w \<Longrightarrow> cart_ok old w'"
    using update_ok [OF assms(1) _ assms(2), of old "{}" "{}"] assms(3) by simp
  ultimately show ?thesis
    by (simp add: world_step_def carts_good_def update_sessions [OF assms(1)] lines_bounded_def)
qed

lemma session_rows_step: "sessions_step (cw_sessions w) ts \<Longrightarrow> world_step old w (w\<lparr>cw_sessions := ts\<rparr>)"
  by (simp add: world_step_def carts_good_def cart_ok_but_def holders_ok_def lines_bounded_def)


text \<open>
  The calls are composed of the same commits; a relation that these commits respect is respected by every call
  but the two that need more, joining and submitting.
\<close>

definition keeps :: "(cart_world \<Rightarrow> cart_world \<Rightarrow> bool) \<Rightarrow> cart_world \<Rightarrow> 'a outcome \<Rightarrow> bool" where
  "keeps step w r = step w (snd r)"

lemma outcome_Inr:
  "reading r w = (Inr a, w') \<longleftrightarrow> r = Inr a \<and> w' = w"
  "writing f w = (Inr u, w') \<longleftrightarrow> f w = Inr w'"
  by (auto simp: reading_def writing_def split: sum.split)

lemma hall_input_sessions: "applyHallTableCheckoutInput rq env cart t input w = Inr w' \<Longrightarrow> cw_sessions w' = cw_sessions w"
  by (auto simp: applyHallTableCheckoutInput_def dest!: update_sessions)

locale call_steps =
  fixes step :: "cart_world \<Rightarrow> cart_world \<Rightarrow> bool"
  assumes step_refl: "step w w"
    and step_trans: "step w w' \<Longrightarrow> step w' w'' \<Longrightarrow> step w w''"
    and cart_call: "cart_call_ok (rq, op) \<Longrightarrow> closing_op op \<Longrightarrow> step w (cart_state slug rq op w)"
    and columns: "\<lbrakk>cart_update now i f w = Inr w'; \<And>c. ca_id (f c) = ca_id c; \<And>c. cart_dead (f c) = cart_dead c\<rbrakk> \<Longrightarrow> step w w'"
    and guests: "updateHallTableSessionGuests i n w = Inr w' \<Longrightarrow> step w w'"
    and submitted: "st \<in> {T_SUBMITTED, T_EXPORT_ERROR} \<Longrightarrow> session_submitted i st order now record w = Inr w' \<Longrightarrow> step w w'"
begin

lemma keeps_done [simp, intro]: "keeps step w (x, w)"
  by (simp add: keeps_def step_refl)

lemma keeps_reading [simp, intro]: "keeps step w (reading r w)"
  by (simp add: keeps_def reading_def step_refl)

lemma keeps_andS:
  assumes "keeps step w r" "\<And>a w'. r = (Inr a, w') \<Longrightarrow> keeps step w' (f a w')"
  shows "keeps step w (andS r f)"
  using assms by (cases r; cases "fst r") (auto simp: andS_def keeps_def dest: step_trans)

lemma keeps_writing: "(\<And>w'. f w = Inr w' \<Longrightarrow> step w w') \<Longrightarrow> keeps step w (writing f w)"
  by (auto simp: writing_def keeps_def step_refl split: sum.split)

lemma input_keeps:
  "keeps step w (writing (applyHallTableCheckoutInput rq env cart t input) w)"
  "keeps step w (writing (applyManagerCheckoutInput rq env cart input) w)"
proof -
  show "keeps step w (writing (applyHallTableCheckoutInput rq env cart t input) w)"
    by (rule keeps_writing)
      (auto simp: applyHallTableCheckoutInput_def checkout_columns_def cart_dead_def elim!: columns)
  have update: "step w w'"
    if "(if u then map_sum id checkout_columns s else Inr id) = Inr columns"
      and "(if q then Inr w else cart_update now i (\<lambda>c. (columns c)\<lparr>ca_comment := g c\<rparr>) w) = Inr w'" for u q s columns now i g w'
  proof (cases q)
    case False
    with that(2) have "cart_update now i (\<lambda>c. (columns c)\<lparr>ca_comment := g c\<rparr>) w = Inr w'" by simp
    then show ?thesis
    proof (rule columns)
      have "columns = id \<or> (\<exists>v. columns = checkout_columns v)" using that(1) by (cases s) (auto split: if_splits)
      then show "ca_id ((columns c)\<lparr>ca_comment := g c\<rparr>) = ca_id c"
        "cart_dead ((columns c)\<lparr>ca_comment := g c\<rparr>) = cart_dead c" for c
        by (auto simp: checkout_columns_def cart_dead_def)
    qed
  qed (use that(2) in \<open>simp add: step_refl\<close>)
  show "keeps step w (writing (applyManagerCheckoutInput rq env cart input) w)"
  proof (rule keeps_writing)
    fix w'
    assume "applyManagerCheckoutInput rq env cart input w = Inr w'"
    then show "step w w'"
      unfolding applyManagerCheckoutInput_def Let_def bindE_Inr_iff
      by (elim exE conjE) (rule update)
  qed
qed

lemma complete_keeps: "keeps step w (checkout_complete rq ports i actor w)"
  using cart_call [of rq "O_complete ports i actor"] by (simp add: keeps_def)

lemma submitted_keeps: "st \<in> {T_SUBMITTED, T_EXPORT_ERROR} \<Longrightarrow> keeps step w (writing (session_submitted i st order now record) w)"
  by (rule keeps_writing) (rule submitted)

lemmas rules = keeps_andS submitted_keeps input_keeps complete_keeps

lemma finish_keeps: "keeps step w (finish_hall_order rq export cartId i order w)"
  by (auto simp: finish_hall_order_def Let_def intro!: rules)

lemma complete_cart_keeps: "keeps step w (completeHallTableCart rq env ports export cart session items user input w)"
  by (auto simp: completeHallTableCart_def hall_order_writes_def intro!: rules finish_keeps)

lemma confirm_keeps: "keeps step w (confirmHallTableOrder rq env ports export publicKey user input w)"
  by (auto simp: confirmHallTableOrder_def intro!: keeps_andS complete_cart_keeps)

lemma manager_order_keeps: "keeps step w (completeManagerOrder rq env ports export publicKey user input w)"
  by (auto simp: completeManagerOrder_def intro!: rules complete_cart_keeps)

lemma current_order_keeps:
  assumes "submitCurrentHallOrder rq env ports export bytes keys cat token input w = Some r"
  shows "keeps step w r"
proof (cases "hall_normalizeHallCheckoutData env cat (sf_checkoutData (hall_fields_of input))")
  case (Inr data)
  with assms obtain s where "shareCurrentCart rq bytes keys cat token (Some (Share_fields (Option.bind (sf_comment (hall_fields_of input)) id)))
      (hall_snapshot rq env cat (Some (J_obj data)) (Some (J_str (method_name PICKUP)))) w = Some s"
    and r: "r = andS s (\<lambda>(cart, t) w1. andS (reading (bindE (ensureCartIsOpen (ca_status cart))
                  (\<lambda>_. guardE (live_items (ca_id cart) w1 \<noteq> []) Cart_empty)) w1)
              (\<lambda>_ w2. andS (checkout_complete rq ports (ca_id cart) None w2)
              (\<lambda>order w3. if \<not> eo_ok (export (od_id order)) then (Inl Waiters_not_reached, w3)
                 else andS (reading (lookup_findByIdOrThrow (ca_id cart) w3) w3) (\<lambda>_. Pair (Inr (order, t))))))"
    by (auto simp: submitCurrentHallOrder_def Let_def)
  then have "keeps step w s"
    using cart_call [of rq "O_share bytes keys cat token (Some (Share_fields (Option.bind (sf_comment (hall_fields_of input)) id)))
        (hall_snapshot rq env cat (Some (J_obj data)) (Some (J_str (method_name PICKUP))))" w]
    by (cases s) (simp add: keeps_def)
  then show ?thesis unfolding r by (rule keeps_andS) (auto split: prod.split intro!: keeps_andS complete_keeps)
qed (use assms in \<open>auto simp: submitCurrentHallOrder_def Let_def\<close>)

lemma finish_open_keeps:
  assumes "st \<in> {T_CLOSED, T_CANCELLED}"
  shows "keeps step w (finishOpenHallTableSession rq publicKey user st w)"
proof -
  have "step w (snd (closeHallTableSession rq cart session st actor w))" for cart session actor
    using cart_call [of rq "O_close cart session st actor"] assms by simp
  then show ?thesis by (auto simp: finishOpenHallTableSession_def keeps_def step_refl split: sum.split)
qed

lemma public_item_keeps:
  "colon_free rq \<Longrightarrow> keeps step w (upsertPublicItem rq env cmp publicKey input guestToken w)"
  "keeps step w (removePublicItem rq env publicKey itemId guestToken w)"
proof -
  have u: "keeps step w (upsertItem rq cmp i n w)" if "colon_free rq" for i n w
    unfolding upsertItem_def cart_upsertItem_def
    using cart_call [of rq "O_upsert (sellable_ports rq w) cmp i n" w] that
    by (intro keeps_andS) (auto simp: keeps_def reading_def step_refl split: prod.split)
  have r: "keeps step w (removeItem rq i j g w)" for i j g w
    unfolding removeItem_def using cart_call [of rq "O_remove i j g" w]
    by (intro keeps_andS) (auto simp: keeps_def reading_def step_refl split: prod.split)
  show "keeps step w (removePublicItem rq env publicKey itemId guestToken w)"
    unfolding removePublicItem_def by (rule keeps_andS) (auto split: prod.split intro: r)
  show "keeps step w (upsertPublicItem rq env cmp publicKey input guestToken w)" if "colon_free rq"
    unfolding upsertPublicItem_def by (rule keeps_andS) (auto split: prod.split intro: u that)
qed

end

lemma session_update_step:
  assumes "session_update i f w = Inr w'" "\<And>t. t \<in> set (cw_sessions w) \<Longrightarrow> ts_id t = i \<Longrightarrow> session_step t (f t)"
  shows "world_step old w w'"
  using assms by (auto simp: session_update_def intro!: session_rows_step sessions_step_update split: if_splits)

lemma submitted_step:
  "st \<in> {T_SUBMITTED, T_EXPORT_ERROR} \<Longrightarrow> session_step t (submitted_data st i now r t)"
  by (auto simp: session_step_def submitted_data_def active_session_def ACTIVE_HALL_TABLE_SESSION_STATUSES_def Let_def split: option.split)

interpretation whole: call_steps "world_step old" for old
proof
  show "world_step old w w'" if "updateHallTableSessionGuests i n w = Inr w'" for old i n w w'
    using that by (auto simp: updateHallTableSessionGuests_def session_step_def active_session_def split: option.splits elim!: session_update_step)
  show "world_step old w w'"
    if "st \<in> {T_SUBMITTED, T_EXPORT_ERROR}" "session_submitted i st order now r w = Inr w'" for old st i order now r w w'
    using that(2) unfolding session_submitted_def by (rule session_update_step) (rule submitted_step [OF that(1)])
qed (auto intro: world_step_trans cart_call_step columns_step)


section \<open>Joining and submitting\<close>

definition hall_good :: "ident list \<Rightarrow> cart_world \<Rightarrow> bool" where
  "hall_good old w \<longleftrightarrow> carts_good old w \<and> hall_ok w"

lemma hall_good_step: "hall_good old w \<Longrightarrow> world_step old w w' \<Longrightarrow> hall_good old w'"
  unfolding hall_good_def world_step_def using hall_ok_step by blast

lemma hall_good_keeps: "hall_good old w \<Longrightarrow> keeps (world_step old) w r \<Longrightarrow> hall_good old (snd r)"
  unfolding keeps_def by (rule hall_good_step)

lemma table_key:
  assumes "table_by_code env catalogId code = Inr (item, data, key)"
  shows "key = buildHallTableActiveKey catalogId (trim (xi_externalId item))"
proof -
  from assms have "data = mapHallIntegrationExternalItem env item"
    and key: "\<exists>i. normalizeText (map_get data ''iikoTableId'') = Some i \<and> key = buildHallTableActiveKey catalogId i"
    by (auto simp: table_by_code_def Let_def elim!: option_to_res.elims)
  then have "map_get data ''iikoTableId'' = Some (J_str (xi_externalId item))"
    by (simp add: mapHallIntegrationExternalItem_def Let_def map_get_def)
  with key show ?thesis by (auto simp: normalizeText_def Let_def split: if_splits)
qed

lemma hall_ok_append:
  assumes "hall_ok w" "ts_id t \<notin> ts_id ` set (cw_sessions w)" "ts_cartId t \<notin> ts_cartId ` set (cw_sessions w)"
    "ts_activeKey t = Some (session_key t)" "Some (session_key t) \<notin> ts_activeKey ` set (cw_sessions w)"
    "cw_sessions w' = cw_sessions w @ [t]"
  shows "hall_ok w'"
proof -
  have "session_key t \<notin> set (List.map_filter ts_activeKey (cw_sessions w))"
    using assms(5) by (force simp: List.map_filter_def)
  then have "distinct (List.map_filter ts_activeKey (cw_sessions w @ [t]))"
    using assms(1,4) by (simp add: hall_ok_def List.map_filter_def)
  with assms show ?thesis by (auto simp: hall_ok_def)
qed

lemma new_session_columns:
  "ts_id (new_hall_session env i c k item data key g) = i"
  "ts_cartId (new_hall_session env i c k item data key g) = k"
  "ts_activeKey (new_hall_session env i c k item data key g) = Some key"
  "ts_catalogId (new_hall_session env i c k item data key g) = c"
  "ts_tableExternalId (new_hall_session env i c k item data key g) = xi_externalId item"
  unfolding new_hall_session_def Let_def table_session.select_convs by (rule refl)+

lemma create_hall_ok:
  assumes "create_hall_tx rq env catalogId item data key guests publicKey checkout w = Inr (t, w')" "hall_good old w"
    "key = buildHallTableActiveKey catalogId (trim (xi_externalId item))"
  shows "hall_good old w'"
proof -
  let ?i = "rq_gen rq (map ca_id (cw_carts w))" and ?j = "rq_gen rq (map ts_id (cw_sessions w))"
  let ?t = "new_hall_session env ?j catalogId ?i item data key guests"
  from assms(1) have new: "?j \<notin> ts_id ` set (cw_sessions w)" "?i \<notin> ts_cartId ` set (cw_sessions w)"
    "Some key \<notin> ts_activeKey ` set (cw_sessions w)" "cw_sessions w' = cw_sessions w @ [?t]"
    and rest: "?i \<notin> ca_id ` set (cw_carts w)" "cw_svc w' = cw_svc w" "cw_products w' = cw_products w"
      "cw_items w' = cw_items w" "cw_carts w' = cw_carts w @ [new_hall_cart ?i (rq_now rq) catalogId publicKey checkout]"
    unfolding create_hall_tx_def Let_def by (auto split: if_split_asm)
  have t: "ts_id ?t = ?j" "ts_cartId ?t = ?i" "ts_activeKey ?t = Some key" "session_key ?t = key"
    using assms(3) by (simp_all add: new_session_columns session_key_def)
  have ok: "hall_ok w" "carts_good old w" using assms(2) by (simp_all add: hall_good_def)
  have "hall_ok w'" by (rule hall_ok_append [OF ok(1), of ?t w', unfolded t]) (rule new refl)+
  moreover have "ca_id (new_hall_cart i now c k checkout) = i" "\<not> cart_dead (new_hall_cart i now c k checkout)" for i now c k
    by (simp_all add: new_hall_cart_def checkout_columns_def cart_dead_def)
  then have "carts_good old w'"
    using ok(2) rest by (auto simp: carts_good_def cart_ok_but_def holders_ok_def lines_bounded_def)
  ultimately show ?thesis by (simp add: hall_good_def)
qed

lemma getOrCreate_hall_ok:
  assumes "getOrCreateHallTableSession rq env keys seen catalogId item data key guests w = Some r" "hall_good old w"
    "key = buildHallTableActiveKey catalogId (trim (xi_externalId item))"
  shows "hall_good old (snd r)"
proof (cases seen)
  case (Some t)
  have "keeps (world_step old) w (writing (updateHallTableSessionGuests i guests) w)" for i
    by (rule whole.keeps_writing) (rule whole.guests)
  then have "keeps (world_step old) w r" using assms(1) Some
    by (auto simp: getOrCreateHallTableSession_def intro!: whole.keeps_andS split: if_splits)
  with assms(2) show ?thesis by (rule hall_good_keeps)
next
  case None
  with assms(1) obtain c where "createHallTableSession rq env keys catalogId item data key guests w = Some c"
    and r: "r = (case c of Inr (t, w') \<Rightarrow> (Inr t, w') | Inl e \<Rightarrow>
        (case (if e = Cart_db UniqueViolation then findActiveHallTableSession key w else None) of
           Some t \<Rightarrow> (Inr t, w) | None \<Rightarrow> (Inl e, w)))"
    by (auto simp: getOrCreateHallTableSession_def)
  then have "hall_good old w'" if "c = Inr (t, w')" for t w'
    using that create_hall_ok [OF _ assms(2,3)] by (auto simp: createHallTableSession_def Let_def)
  with r assms(2) show ?thesis by (auto split: sum.split option.split)
qed

lemma join_hall_ok:
  assumes "join_table rq env keys guestBytes nonce seen catalogId item data key input w = Some r" "hall_good old w"
    "table_by_code env catalogId code = Inr (item, data, key)"
  shows "hall_good old (snd r)"
proof -
  from assms(1) obtain s where s: "getOrCreateHallTableSession rq env keys seen catalogId item data key (ji_guestsCount input) w = Some s"
    and r: "r = andS s (\<lambda>session w'. reading (admit_guest rq env guestBytes nonce catalogId (ji_guestToken input) session w') w')"
    by (auto simp: join_table_def)
  have "snd r = snd s" unfolding r by (cases s; cases "fst s") (auto simp: andS_def reading_def)
  with getOrCreate_hall_ok [OF s assms(2) table_key [OF assms(3)]] show ?thesis by simp
qed

text \<open>The session that is submitted at once is open, so it has its key.\<close>

lemma submit_reads_Inr:
  assumes "submit_reads rq env publicKey guestToken w = Inr (cart, session)"
  shows "session = None \<or> (\<exists>t. session = Some t \<and> session_of (ca_id cart) w = Some t \<and> ts_status t = T_OPEN)"
  using assms unfolding submit_reads_def bindE_Inr_iff
  by (auto simp: guardE_def split: if_splits elim!: option_to_res.elims)

lemma submit_hall_ok:
  assumes "hall_good old w"
  shows "hall_good old (snd (submitPublicHallOrder rq env publicKey input guestToken w))"
proof -
  have own: "u = t" if "session_of i w = Some t" "u \<in> set (cw_sessions w)" "ts_id u = ts_id t" for i t u
  proof -
    have "t \<in> set (cw_sessions w)" using that(1) by (auto simp: session_of_def find_Some_iff)
    moreover have "inj_on ts_id (set (cw_sessions w))" using assms by (simp add: hall_good_def hall_ok_def distinct_map)
    ultimately show ?thesis using that(2,3) by (auto dest: inj_onD)
  qed
  have keep: "keeps (world_step old) w1 (writing (session_pending (ts_id t)) w1)"
    if t: "session_of i w = Some t" "ts_status t = T_OPEN" and w1: "cw_sessions w1 = cw_sessions w" for i t and w1 :: cart_world
  proof (rule whole.keeps_writing)
    fix w2
    assume "session_pending (ts_id t) w1 = Inr w2"
    then show "world_step old w1 w2" unfolding session_pending_def
    proof (rule session_update_step)
      fix u
      assume "u \<in> set (cw_sessions w1)" "ts_id u = ts_id t"
      with own [OF t(1)] w1 t(2) show "session_step u (u\<lparr>ts_status := T_PENDING_CONFIRMATION\<rparr>)"
        by (auto simp: session_step_def active_session_def ACTIVE_HALL_TABLE_SESSION_STATUSES_def)
    qed
  qed
  have "keeps (world_step old) w (submitPublicHallOrder rq env publicKey input guestToken w)"
    unfolding submitPublicHallOrder_def
  proof (rule whole.keeps_andS, rule whole.keeps_reading)
    fix p w0
    assume r: "reading (submit_reads rq env publicKey guestToken w) w = (Inr p, w0)"
    obtain cart session where p: "p = (cart, session)" by (cases p)
    from r p have reads: "submit_reads rq env publicKey guestToken w = Inr (cart, session)" and w0: "w0 = w" by (simp_all add: outcome_Inr)
    show "keeps (world_step old) w0 ((\<lambda>(cart, session) w0. case session of None \<Rightarrow> (Inr cart, w0)
        | Some t \<Rightarrow> submit_writes rq env cart t (hall_fields_of input) w0) p w0)"
    proof (cases session)
      case (Some t)
      with submit_reads_Inr [OF reads] have "session_of (ca_id cart) w = Some t" "ts_status t = T_OPEN" by auto
      from keep [OF this] show ?thesis
        by (auto simp: p Some w0 submit_writes_def outcome_Inr dest!: hall_input_sessions intro!: whole.keeps_andS whole.input_keeps(1))
    qed (simp add: p)
  qed
  with assms show ?thesis by (rule hall_good_keeps)
qed


section \<open>The machine\<close>

text \<open>
  A call is one step, except that a guest who joins may have looked for the active session of the table at any
  time before: \<open>seen\<close> is any session or none.  \<open>H_cart\<close> is a call of the cart services or of the other
  components.
\<close>

datatype hall_op =
    H_cart cart_op
  | H_join hall_env "nat \<Rightarrow> string" "nat list" "nat list" "table_session option" ident string join_input
  | H_item hall_env "string \<Rightarrow> string \<Rightarrow> int" string item_input "string option"
  | H_remove hall_env string string "string option"
  | H_submit hall_env string "hall_input option" "string option"
  | H_confirm hall_env snapshot_ports "ident \<Rightarrow> export_outcome" string session_user "hall_input option"
  | H_complete hall_env snapshot_ports "ident \<Rightarrow> export_outcome" string session_user "hall_input option"
  | H_order hall_env snapshot_ports "ident \<Rightarrow> export_outcome" "nat \<Rightarrow> nat list" "nat \<Rightarrow> string" ident "string option" "hall_input option"
  | H_close string session_user
  | H_reset string session_user

definition state_after :: "cart_world \<Rightarrow> 'a outcome option \<Rightarrow> cart_world" where
  "state_after w r = (case r of None \<Rightarrow> w | Some x \<Rightarrow> snd x)"

definition stale_join ::
    "request \<Rightarrow> hall_env \<Rightarrow> (nat \<Rightarrow> string) \<Rightarrow> nat list \<Rightarrow> nat list \<Rightarrow> table_session option \<Rightarrow> ident \<Rightarrow> string \<Rightarrow> join_input
     \<Rightarrow> cart_world \<Rightarrow> join_result outcome option" where
  "stale_join rq env keys guestBytes nonce seen catalogId code input w =
     (case table_by_code env catalogId code of
        Inl e \<Rightarrow> Some (Inl e, w)
      | Inr (item, data, activeKey) \<Rightarrow> join_table rq env keys guestBytes nonce seen catalogId item data activeKey input w)"

fun hall_state :: "(string \<Rightarrow> string) \<Rightarrow> request \<Rightarrow> hall_op \<Rightarrow> cart_world \<Rightarrow> cart_world" where
  "hall_state slug rq (H_cart op) w = cart_state slug rq op w"
| "hall_state slug rq (H_join env keys guestBytes nonce seen cat code input) w =
     state_after w (stale_join rq env keys guestBytes nonce seen cat code input w)"
| "hall_state slug rq (H_item env cmp key input guest) w = snd (upsertPublicItem rq env cmp key input guest w)"
| "hall_state slug rq (H_remove env key itemId guest) w = snd (removePublicItem rq env key itemId guest w)"
| "hall_state slug rq (H_submit env key input guest) w = snd (submitPublicHallOrder rq env key input guest w)"
| "hall_state slug rq (H_confirm env ports export key user input) w = snd (confirmHallTableOrder rq env ports export key user input w)"
| "hall_state slug rq (H_complete env ports export key user input) w = snd (completeManagerOrder rq env ports export key user input w)"
| "hall_state slug rq (H_order env ports export bytes keys cat token input) w =
     state_after w (submitCurrentHallOrder rq env ports export bytes keys cat token input w)"
| "hall_state slug rq (H_close key user) w = snd (closeHallSession rq key user w)"
| "hall_state slug rq (H_reset key user) w = snd (resetHallTableSession rq key user w)"

definition run_hall :: "(string \<Rightarrow> string) \<Rightarrow> request \<times> hall_op \<Rightarrow> cart_world \<Rightarrow> unit + cart_world" where
  "run_hall slug p w = Inr (hall_state slug (fst p) (snd p) w)"

fun hall_call_ok :: "request \<times> hall_op \<Rightarrow> bool" where
  "hall_call_ok (rq, H_cart op) = (cart_call_ok (rq, op) \<and> closing_op op)"
| "hall_call_ok (rq, H_item _ _ _ _ _) = colon_free rq"
| "hall_call_ok _ = True"

lemma run_hall_good:
  assumes "hall_good old w" "hall_call_ok p" "run_hall slug p w = Inr w'"
  shows "hall_good old w'"
proof -
  obtain rq op where p: "p = (rq, op)" by (cases p)
  have w': "w' = hall_state slug rq op w" using assms(3) p by (simp add: run_hall_def)
  show ?thesis
  proof (cases op)
    case (H_cart q)
    with p assms(2) have "world_step old w (cart_state slug rq q w)" by (auto intro: cart_call_step)
    with H_cart w' assms(1) show ?thesis by (auto intro: hall_good_step)
  next
    case (H_join env keys guestBytes nonce seen cat code input)
    show ?thesis unfolding w' H_join
      using join_hall_ok [OF _ assms(1)] assms(1)
      by (auto simp: state_after_def stale_join_def split: option.split sum.split prod.split)
  next
    case (H_submit env key input guest)
    with w' submit_hall_ok [OF assms(1)] show ?thesis by simp
  next
    case (H_order env ports export bytes keys cat token input)
    show ?thesis unfolding w' H_order
      using hall_good_keeps [OF assms(1) whole.current_order_keeps] assms(1) by (simp add: state_after_def split: option.split)
  qed (use p assms(2) in \<open>auto simp: w' closeHallSession_def resetHallTableSession_def
        intro!: hall_good_keeps [OF assms(1)] whole.public_item_keeps whole.confirm_keeps whole.manager_order_keeps whole.finish_open_keeps\<close>)
qed

interpretation halls: transactional "hall_good old" "run_hall slug" hall_call_ok for old slug
  by unfold_locales (rule run_hall_good)

text \<open>A join that looks for the session at once is one of these steps.\<close>

lemma join_is_step:
  "joinHallTableSession rq env keys guestBytes nonce cat code input w =
    stale_join rq env keys guestBytes nonce
      (case table_by_code env cat code of Inl _ \<Rightarrow> None | Inr (_, _, key) \<Rightarrow> findActiveHallTableSession key w) cat code input w"
  by (auto simp: joinHallTableSession_def stale_join_def split: sum.split prod.split)

end
