(* ===== verification/Hall_Commits.thy ===== *)
theory Hall_Commits
  imports Hall_Invariant
begin

text \<open>
  Hall tables commit by commit.  Every write of the rows of \<^verbatim>\<open>cart_table_sessions\<close> is a step of its own with
  arguments of any age: the rows that a call has read before may have changed, and the commits of other calls
  run in between.  The invariant of this machine is what interleaved calls keep of a table; each call of
  \<open>run_hall\<close>, run alone, is one of its runs.
\<close>


section \<open>Commits\<close>

text \<open>
  \<open>M_rest\<close> is any commit that leaves the table sessions alone: only the rows of the given world that are not
  sessions are used.  The others are the writes of sessions in the order of \<^verbatim>\<open>cart-lifecycle.service.ts\<close>
  and \<^verbatim>\<open>cart.service.ts\<close>: closing, expiring, creating, counting guests, submitting, completing.
\<close>

datatype hall_commit =
    M_rest cart_world
  | M_close cart_row table_session session_status "ident option"
  | M_expire "table_session list"
  | M_create hall_env ident string "int option" string checkout_snapshot
  | M_guests ident "json option"
  | M_pending ident
  | M_submitted ident session_status ident time "export_outcome option"

definition create_by_code ::
    "request \<Rightarrow> hall_env \<Rightarrow> ident \<Rightarrow> string \<Rightarrow> int option \<Rightarrow> string \<Rightarrow> checkout_snapshot \<Rightarrow> cart_world
     \<Rightarrow> cart_error + (table_session \<times> cart_world)" where
  "create_by_code rq env catalogId code n publicKey checkout w =
     bindE (table_by_code env catalogId code)
       (\<lambda>(item, data, activeKey). create_hall_tx rq env catalogId item data activeKey n publicKey checkout w)"

fun commit_state :: "request \<Rightarrow> hall_commit \<Rightarrow> cart_world \<Rightarrow> cart_world" where
  "commit_state rq (M_rest w0) w = w0\<lparr>cw_sessions := cw_sessions w\<rparr>"
| "commit_state rq (M_close cart t st actor) w = snd (commit_tx rq (close_table_tx rq cart t st actor w) w)"
| "commit_state rq (M_expire ts) w = snd (commit_tx rq (expire_tables_tx rq ts w) w)"
| "commit_state rq (M_create env cat code n key checkout) w =
     (case create_by_code rq env cat code n key checkout w of Inl _ \<Rightarrow> w | Inr (_, w') \<Rightarrow> w')"
| "commit_state rq (M_guests i n) w = snd (writing (updateHallTableSessionGuests i n) w)"
| "commit_state rq (M_pending i) w = snd (writing (session_pending i) w)"
| "commit_state rq (M_submitted i st order now r) w = snd (writing (session_submitted i st order now r) w)"

definition run_commit :: "request \<times> hall_commit \<Rightarrow> cart_world \<Rightarrow> unit + cart_world" where
  "run_commit p w = Inr (commit_state (fst p) (snd p) w)"

fun commit_ok :: "request \<times> hall_commit \<Rightarrow> bool" where
  "commit_ok (_, M_close _ _ st _) = (st \<in> {T_CLOSED, T_CANCELLED})"
| "commit_ok (_, M_submitted _ st _ _ _) = (st \<in> {T_SUBMITTED, T_EXPORT_ERROR})"
| "commit_ok _ = True"


section \<open>The invariant\<close>

text \<open>
  A key is held by one row and is that of its table; an open session has its key; a session without a key has
  been closed or submitted.
\<close>

definition row_ok :: "table_session \<Rightarrow> bool" where
  "row_ok t \<longleftrightarrow>
     (case ts_activeKey t of
        None \<Rightarrow> ts_status t \<noteq> T_OPEN \<and> (ts_closedAt t \<noteq> None \<or> ts_submittedAt t \<noteq> None)
      | Some k \<Rightarrow> k = session_key t)"

definition rows_ok :: "table_session list \<Rightarrow> bool" where
  "rows_ok ts \<longleftrightarrow>
     distinct (map ts_id ts) \<and> distinct (map ts_cartId ts) \<and> distinct (List.map_filter ts_activeKey ts) \<and> list_all row_ok ts"

text \<open>What a commit does to a row: the key stays and the row is not opened, or the key goes and the closing is recorded.\<close>

definition row_kept :: "table_session \<Rightarrow> table_session \<Rightarrow> bool" where
  "row_kept t t' \<longleftrightarrow> key_step t t' \<and> (row_ok t \<longrightarrow> row_ok t')"

lemma row_kept_refl [simp]: "row_kept t t"
  by (simp add: row_kept_def key_step_def)

lemma rows_ok_step: "rows_ok ts \<Longrightarrow> list_all2 row_kept ts us \<Longrightarrow> rows_ok us"
proof -
  assume ok: "rows_ok ts" and s: "list_all2 row_kept ts us"
  have k: "list_all2 key_step ts us" using s by (rule list_all2_mono) (simp add: row_kept_def)
  have "list_all row_ok ts \<Longrightarrow> list_all row_ok us"
    using s by (induction rule: list_all2_induct) (auto simp: row_kept_def)
  with ok key_steps [OF k] show "rows_ok us" by (simp add: rows_ok_def)
qed

lemma row_kept_update:
  assumes "\<And>t. P t \<Longrightarrow> row_kept t (f t)"
  shows "list_all2 row_kept ts (update_where P f ts)"
  using assms by (induction ts) (auto simp: table_simps)

lemma rows_ok_update: "rows_ok ts \<Longrightarrow> (\<And>t. row_kept t (f t)) \<Longrightarrow> rows_ok (update_where P f ts)"
  by (erule rows_ok_step) (rule row_kept_update)

lemma session_update_ok:
  "rows_ok (cw_sessions w) \<Longrightarrow> (\<And>t. row_kept t (f t)) \<Longrightarrow> rows_ok (cw_sessions (snd (writing (session_update i f) w)))"
  by (simp add: writing_def session_update_def rows_ok_update)

lemma rows_kept:
  "row_kept t (t\<lparr>ts_guestsCount := g\<rparr>)"
  "row_kept t (t\<lparr>ts_status := T_PENDING_CONFIRMATION\<rparr>)"
  "st \<noteq> T_OPEN \<Longrightarrow> row_kept t (t\<lparr>ts_status := st, ts_activeKey := None, ts_closedAt := Some now\<rparr>)"
  "st \<noteq> T_OPEN \<Longrightarrow> row_kept t (submitted_data st order now r t)"
  by (auto simp: row_kept_def key_step_def row_ok_def session_key_def submitted_data_def Let_def split: option.splits)

lemma rows_ok_updateMany: "rows_ok (cw_sessions w) \<Longrightarrow> st \<noteq> T_OPEN \<Longrightarrow> rows_ok (cw_sessions (session_updateMany P st now w))"
  by (simp add: session_updateMany_def) (erule rows_ok_update, erule rows_kept(3))

lemma commit_tx_ok:
  assumes "\<And>r fx w'. tx = Inr ((r, fx), w') \<Longrightarrow> rows_ok (cw_sessions w')" "rows_ok (cw_sessions w)"
  shows "rows_ok (cw_sessions (snd (commit_tx rq tx w)))"
proof (cases tx)
  case (Inr p)
  obtain r fx w' where p: "p = ((r, fx), w')" by (cases p) auto
  have "cw_sessions (snd (cart_invalidateCaches rq fx r w')) = cw_sessions w'"
    using invalidate_caches_tables [of w' rq fx r] by (rule same_sessions)
  with Inr p assms(1) show ?thesis by (simp add: commit_tx_def)
qed (use assms(2) in \<open>simp add: commit_tx_def\<close>)

lemma create_rows:
  assumes "create_by_code rq env cat code n key checkout w = Inr (t, w')" "rows_ok (cw_sessions w)"
  shows "rows_ok (cw_sessions w')"
proof -
  from assms(1) obtain item data activeKey where tbl: "table_by_code env cat code = Inr (item, data, activeKey)"
    and tx: "create_hall_tx rq env cat item data activeKey n key checkout w = Inr (t, w')"
    by (auto simp: create_by_code_def)
  let ?i = "rq_gen rq (map ca_id (cw_carts w))" and ?j = "rq_gen rq (map ts_id (cw_sessions w))"
  let ?t = "new_hall_session env ?j cat ?i item data activeKey n"
  from tx have new: "?j \<notin> ts_id ` set (cw_sessions w)" "?i \<notin> ts_cartId ` set (cw_sessions w)"
    "Some activeKey \<notin> ts_activeKey ` set (cw_sessions w)" "cw_sessions w' = cw_sessions w @ [?t]"
    unfolding create_hall_tx_def Let_def by (auto split: if_split_asm)
  note c = new_session_columns [of env ?j cat ?i item data activeKey n]
  have "session_key ?t = activeKey" using table_key [OF tbl] c by (simp add: session_key_def)
  then have "row_ok ?t" using c by (simp add: row_ok_def)
  moreover have "activeKey \<notin> set (List.map_filter ts_activeKey (cw_sessions w))"
    using new(3) by (force simp: List.map_filter_def)
  then have "distinct (List.map_filter ts_activeKey (cw_sessions w @ [?t]))"
    using assms(2) c(3) by (simp add: rows_ok_def List.map_filter_def)
  ultimately show ?thesis using assms(2) new c(1,2) by (auto simp: rows_ok_def)
qed

lemma commit_rows_ok:
  assumes "rows_ok (cw_sessions w)" "commit_ok (rq, m)"
  shows "rows_ok (cw_sessions (commit_state rq m w))"
proof (cases m)
  case (M_close cart t st actor)
  with assms(2) have "st \<noteq> T_OPEN" by auto
  with table_tx_rows(1) rows_ok_updateMany [OF assms(1)] show ?thesis
    unfolding M_close commit_state.simps by (intro commit_tx_ok assms(1)) metis
next
  case (M_expire ts)
  with table_tx_rows(2) rows_ok_updateMany [OF assms(1)] show ?thesis
    unfolding M_expire commit_state.simps by (intro commit_tx_ok assms(1)) (metis session_status.distinct)
next
  case (M_create env cat code n key checkout)
  with create_rows assms(1) show ?thesis by (auto split: sum.split prod.split)
next
  case (M_guests i n)
  have "rows_ok (cw_sessions (snd (writing (session_update i (\<lambda>t. t\<lparr>ts_guestsCount := g\<rparr>)) w)))" for g
    by (rule session_update_ok [OF assms(1)]) (rule rows_kept)
  with M_guests assms(1) show ?thesis
    by (auto simp: updateHallTableSessionGuests_def writing_def split: option.splits sum.splits)
next
  case (M_pending i)
  with session_update_ok [OF assms(1)] rows_kept(2) show ?thesis by (simp add: session_pending_def)
next
  case (M_submitted i st order now r)
  with assms(2) have "st \<noteq> T_OPEN" by auto
  with M_submitted session_update_ok [OF assms(1)] rows_kept(4) show ?thesis by (simp add: session_submitted_def)
qed (use assms in simp)

interpretation commits: transactional "\<lambda>w. rows_ok (cw_sessions w)" run_commit commit_ok
proof
  show "rows_ok (cw_sessions w')" if "rows_ok (cw_sessions w)" "commit_ok p" "run_commit p w = Inr w'" for w p w'
    using that commit_rows_ok [of w "fst p" "snd p"] by (simp add: run_commit_def)
qed


section \<open>Every call is a run of commits\<close>

definition commits_to :: "cart_world \<Rightarrow> cart_world \<Rightarrow> bool" where
  "commits_to = history run_commit commit_ok"

lemma commits_to_refl [simp]: "commits_to w w"
  by (simp add: commits_to_def history.start)

lemma commits_to_trans:
  assumes "commits_to w w'" "commits_to w' w''"
  shows "commits_to w w''"
  using assms(2,1) unfolding commits_to_def by (induction rule: history.induct) (auto intro: history.step)

lemma commits_to_step: "commit_ok (rq, m) \<Longrightarrow> commits_to w (commit_state rq m w)"
  using history.step [OF history.start, of commit_ok "(rq, m)" run_commit w] by (simp add: commits_to_def committed_def run_commit_def)

lemma commits_to_rest: "cw_sessions w' = cw_sessions w \<Longrightarrow> commits_to w w'"
  using commits_to_step [of _ "M_rest w'" w] by (metis cart_world.surjective cart_world.update_convs(3) commit_ok.simps(3) commit_state.simps(1))

lemma session_commits:
  "updateHallTableSessionGuests i n w = Inr w' \<Longrightarrow> commits_to w w'"
  "session_pending i w = Inr w' \<Longrightarrow> commits_to w w'"
  "st \<in> {T_SUBMITTED, T_EXPORT_ERROR} \<Longrightarrow> session_submitted i st order now r w = Inr w' \<Longrightarrow> commits_to w w'"
  using commits_to_step [of _ "M_guests i n" w] commits_to_step [of _ "M_pending i" w]
    commits_to_step [of _ "M_submitted i st order now r" w] by (simp_all add: writing_def)

lemma cart_call_commits:
  assumes "closing_op op"
  shows "commits_to w (cart_state slug rq op w)"
proof (cases "writes_sessions op")
  case True
  then show ?thesis
  proof (cases op)
    case (O_close cart session st actor)
    with assms have "commits_to w (snd (commit_tx rq (close_table_tx rq cart t st actor w) w))" for t
      using commits_to_step [of rq "M_close cart t st actor" w] by simp
    with O_close show ?thesis by (auto simp: closeHallTableSession_def split: option.split)
  next
    case (O_expire_tables ms)
    have "commits_to w (snd (commit_tx rq (expire_tables_tx rq ts w) w))" for ts
      using commits_to_step [of rq "M_expire ts" w] by simp
    then have "commits_to w w'" if "commit_tx rq (expire_tables_tx rq ts w) w = (r, w')" for ts r w'
      using that by (metis snd_conv)
    with O_expire_tables show ?thesis by (auto simp: expireStaleHallTableSessions_def Let_def split: prod.split sum.split)
  qed simp_all
qed (simp add: commits_to_rest cart_state_same)

interpretation single: call_steps commits_to
  by unfold_locales
    (auto intro: commits_to_trans cart_call_commits commits_to_rest update_sessions session_commits)

lemma join_commits:
  assumes "stale_join rq env keys guestBytes nonce seen cat code input w = Some r"
  shows "keeps commits_to w r"
proof (cases "table_by_code env cat code")
  case (Inr p)
  obtain item data key where p: "p = (item, data, key)" by (cases p) auto
  have create: "commits_to w w'" if "createHallTableSession rq env keys cat item data key n w = Some (Inr (t, w'))" for n t w'
  proof -
    from that obtain g k checkout where "create_hall_tx rq env cat item data key g k checkout w = Inr (t, w')"
      by (auto simp: createHallTableSession_def Let_def)
    with Inr p have "commit_state rq (M_create env cat code g k checkout) w = w'" by (simp add: create_by_code_def)
    with commits_to_step [of rq "M_create env cat code g k checkout" w] show ?thesis by simp
  qed
  have guests: "keeps commits_to w (writing (updateHallTableSessionGuests i n) w)" for i n
    by (rule single.keeps_writing) (rule single.guests)
  have "keeps commits_to w s" if s: "getOrCreateHallTableSession rq env keys seen cat item data key n w = Some s" for n s
  proof (cases seen)
    case (Some t)
    with s guests show ?thesis by (auto simp: getOrCreateHallTableSession_def intro!: single.keeps_andS split: if_splits)
  next
    case None
    with s obtain c where c: "createHallTableSession rq env keys cat item data key n w = Some c"
      and "s = (case c of Inr (t, w') \<Rightarrow> (Inr t, w') | Inl e \<Rightarrow>
        (case (if e = Cart_db UniqueViolation then findActiveHallTableSession key w else None) of
           Some t \<Rightarrow> (Inr t, w) | None \<Rightarrow> (Inl e, w)))"
      by (auto simp: getOrCreateHallTableSession_def)
    with create show ?thesis by (auto simp: keeps_def split: sum.split option.split)
  qed
  with assms Inr p show ?thesis by (auto simp: stale_join_def join_table_def intro!: single.keeps_andS split: prod.splits)
qed (use assms in \<open>auto simp: stale_join_def\<close>)

lemma submit_commits: "keeps commits_to w (submitPublicHallOrder rq env publicKey input guestToken w)"
proof -
  have "keeps commits_to w (writing (session_pending i) w)" for i w
    by (rule single.keeps_writing) (rule session_commits)
  then show ?thesis
    by (auto simp: submitPublicHallOrder_def submit_writes_def intro!: single.keeps_andS single.input_keeps(1) split: option.split)
qed

lemma call_commits:
  assumes "hall_call_ok (rq, op)"
  shows "commits_to w (hall_state slug rq op w)"
proof (cases op)
  case (H_cart q)
  with assms show ?thesis by (auto intro: cart_call_commits)
next
  case (H_join env keys guestBytes nonce seen cat code input)
  then show ?thesis using join_commits by (auto simp: state_after_def keeps_def split: option.split)
next
  case (H_submit env key input guest)
  then show ?thesis using submit_commits by (simp add: keeps_def)
next
  case (H_order env ports export bytes keys cat token input)
  then show ?thesis using single.current_order_keeps by (auto simp: state_after_def keeps_def split: option.split)
qed (use assms in \<open>auto simp: closeHallSession_def resetHallTableSession_def
      intro!: single.public_item_keeps [unfolded keeps_def] single.confirm_keeps [unfolded keeps_def]
        single.manager_order_keeps [unfolded keeps_def] single.finish_open_keeps [unfolded keeps_def]\<close>)

text \<open>So a run of whole calls is a run of commits.\<close>

lemma calls_commit:
  assumes "history (run_hall slug) hall_call_ok w t"
  shows "history run_commit commit_ok w t"
  using assms unfolding commits_to_def [symmetric]
proof (induction rule: history.induct)
  case (step t p)
  obtain rq op where p: "p = (rq, op)" by (cases p)
  with step call_commits [of rq op t slug] have "commits_to t (committed (run_hall slug) t p)"
    by (simp add: committed_def run_hall_def)
  with step.IH show ?case by (rule commits_to_trans)
qed simp

end
