(* ===== verification/Hall_Properties.thy ===== *)
theory Hall_Properties
  imports Hall_Commits Cart_Demo
begin

text \<open>
  The properties of hall tables: a table has one active session but for a submission that comes too late
  (C12, over the machine of commits), and the guests of a table share its cart (C34, over the machine of
  calls).
\<close>


section \<open>Keys\<close>

lemma keys_distinct:
  "distinct (List.map_filter ts_activeKey ts) \<Longrightarrow> a \<in> set ts \<Longrightarrow> b \<in> set ts \<Longrightarrow> ts_activeKey a = Some k \<Longrightarrow>
    ts_activeKey b = Some k \<Longrightarrow> a = b"
proof (induction ts)
  case (Cons t ts)
  have "k \<in> set (List.map_filter ts_activeKey ts)" if "u \<in> set ts" "ts_activeKey u = Some k" for u
    using that by (force simp: List.map_filter_def)
  with Cons show ?case by (auto simp: map_filter_simps split: option.splits)
qed simp

lemma key_unique:
  "hall_ok w \<Longrightarrow> a \<in> set (cw_sessions w) \<Longrightarrow> b \<in> set (cw_sessions w) \<Longrightarrow> ts_activeKey a = Some k \<Longrightarrow> ts_activeKey b = Some k \<Longrightarrow>
    a = b"
  unfolding hall_ok_def by (rule keys_distinct) simp_all

lemma active_key: "hall_ok w \<Longrightarrow> a \<in> set (cw_sessions w) \<Longrightarrow> active_session a \<Longrightarrow> ts_activeKey a = Some (session_key a)"
  by (simp add: hall_ok_def list_all_iff)

text \<open>The active session of a table that is not deleted is the one a guest finds.\<close>

lemma active_found:
  assumes "hall_ok w" "a \<in> set (cw_sessions w)" "active_session a" "ts_deleteAt a = None"
    and "c \<in> set (cw_carts w)" "ca_id c = ts_cartId a" "ca_deleteAt c = None"
  shows "findActiveHallTableSession (session_key a) w = Some a"
proof -
  let ?P = "\<lambda>t. ts_activeKey t = Some (session_key a) \<and> ts_status t \<in> set ACTIVE_HALL_TABLE_SESSION_STATUSES \<and>
        ts_deleteAt t = None \<and> (\<exists>c\<in>set (cw_carts w). ca_id c = ts_cartId t \<and> ca_deleteAt c = None)"
  note key = active_key [OF assms(1-3)]
  have "?P a" using key assms by (auto simp: active_session_def)
  then have "List.find ?P (cw_sessions w) \<noteq> None" unfolding find_None_iff using assms(2) by blast
  then obtain b where b: "List.find ?P (cw_sessions w) = Some b" by blast
  then have "b \<in> set (cw_sessions w)" "ts_activeKey b = Some (session_key a)" by (auto simp: find_Some_iff)
  with key_unique [OF assms(1,2)] key have "b = a" by blast
  with b show ?thesis by (simp add: findActiveHallTableSession_def)
qed

lemma guests_step:
  assumes "updateHallTableSessionGuests i guests w = Inr w'"
  shows "cw_carts w' = cw_carts w" "map ts_id (cw_sessions w') = map ts_id (cw_sessions w)"
    "map ts_cartId (cw_sessions w') = map ts_cartId (cw_sessions w)"
  using assms by (auto simp: updateHallTableSessionGuests_def session_update_def map_update_where split: option.splits if_splits)

lemma admit_guest_Inr:
  assumes "admit_guest rq env guestBytes nonce catalogId guestToken session w = Inr r"
  shows "lookup_findByIdOrThrow (ts_cartId session) w = Inr (jr_cart r)" "session_of (ca_id (jr_cart r)) w = Some (jr_session r)"
proof -
  from assms obtain cart guest token where cart: "lookup_findByIdOrThrow (ts_cartId session) w = Inr cart"
    and r: "(case (ca_publicKey cart, session_of (ca_id cart) w) of
             (Some key, Some t) \<Rightarrow>
               if key = [] then Inl Table_cart_expected
               else Inr \<lparr>jr_session = t, jr_cart = cart, jr_publicKey = key, jr_guestSessionId = guest, jr_guestToken = token\<rparr>
           | _ \<Rightarrow> Inl Table_cart_expected) = Inr r"
    unfolding admit_guest_def Let_def bindE_Inr_iff by blast
  from r have "jr_cart r = cart \<and> session_of (ca_id cart) w = Some (jr_session r)"
    by (cases "ca_publicKey cart"; cases "session_of (ca_id cart) w") (auto split: if_splits)
  with cart show "lookup_findByIdOrThrow (ts_cartId session) w = Inr (jr_cart r)"
    "session_of (ca_id (jr_cart r)) w = Some (jr_session r)" by simp_all
qed


section \<open>An example\<close>

text \<open>Two guests join a table at the same time: both have found no session.  A third guest comes later.\<close>

definition demo_hall :: hall_env where
  "demo_hall = \<lparr>he_guest = demo_env, he_parseDate = (\<lambda>_. None),
     he_catalogs = [\<lparr>kc_id = ''c'', kc_typeCode = None, kc_address = None, kc_checkout = None, kc_contacts = []\<rparr>],
     he_items = [\<lparr>xi_id = ''x'', xi_catalogId = ''c'', xi_integrationId = ''n'', xi_provider = IIKO, xi_type = ''TABLE'',
       xi_externalId = ''t'', xi_externalParentId = None, xi_name = None, xi_code = None, xi_publicCode = ''q'', xi_rawMeta = None,
       xi_isActive = True, xi_integrationActive = True\<rparr>],
     he_numberText = (\<lambda>_. [])\<rparr>"

definition demo_join :: "time \<Rightarrow> request \<times> hall_op" where
  "demo_join now = (demo_at now, H_join demo_hall (\<lambda>k. replicate (Suc k) CHR ''h'') [0] [0] None ''c'' ''q''
     \<lparr>ji_guestToken = None, ji_guestsCount = None\<rparr>)"

definition demo_halls :: "(request \<times> hall_op) list \<Rightarrow> cart_world" where
  "demo_halls ops = foldl (committed (run_hall id)) demo_world ops"

lemma demo_hall_good: "hall_good [] demo_world"
proof -
  have "lines_bounded demo_world" by code_simp
  moreover have "cw_sessions demo_world = []" by (simp add: demo_world_def)
  ultimately show ?thesis using demo_world_ok by (simp add: hall_good_def carts_good_def hall_ok_def map_filter_simps)
qed

definition demo_two_joined :: cart_world where
  "demo_two_joined = demo_halls [demo_join 50, demo_join 51]"

definition demo_third :: "cart_world \<Rightarrow> join_result outcome option" where
  "demo_third w = joinHallTableSession (demo_at 52) demo_hall (\<lambda>k. []) [7] [8] ''c'' ''q''
     \<lparr>ji_guestToken = None, ji_guestsCount = Some (J_num 3)\<rparr> w"

definition demo_view ::
    "cart_world \<Rightarrow> (ident \<times> ident \<times> session_status \<times> time option) list \<times> (ident \<times> time option) list \<times> bool" where
  "demo_view w = (map (\<lambda>t. (ts_cartId t, ts_tableExternalId t, ts_status t, ts_deleteAt t)) (cw_sessions w),
     map (\<lambda>c. (ca_id c, ca_deleteAt c)) (cw_carts w),
     list_all (\<lambda>t. ts_catalogId t = ''c'') (cw_sessions w) \<and> (case demo_third w of Some (Inr _, _) \<Rightarrow> True | _ \<Rightarrow> False))"

lemma demo_joined:
  "demo_view demo_two_joined = ([(''xx'', ''t'', T_OPEN, None)], [(''k'', None), (''xx'', None)], True)"
  unfolding demo_two_joined_def by code_simp

lemma demo_history: "history (run_hall id) hall_call_ok demo_world demo_two_joined"
  unfolding demo_two_joined_def demo_halls_def by (rule history_sequence) (simp add: demo_join_def)

lemma demo_sessions:
  obtains a c where "cw_sessions demo_two_joined = [a]" "active_session a" "ts_catalogId a = ''c''" "ts_tableExternalId a = ''t''"
    "ts_deleteAt a = None" "ts_cartId a = ''xx''" "c \<in> set (cw_carts demo_two_joined)" "ca_id c = ''xx''" "ca_deleteAt c = None"
proof -
  obtain a where "cw_sessions demo_two_joined = [a]" "(ts_cartId a, ts_tableExternalId a, ts_status a, ts_deleteAt a) = (''xx'', ''t'', T_OPEN, None)"
      "ts_catalogId a = ''c''"
    using demo_joined by (auto simp: demo_view_def map_eq_Cons_conv)
  moreover have "(''xx'', None) \<in> set (map (\<lambda>c. (ca_id c, ca_deleteAt c)) (cw_carts demo_two_joined))"
    using demo_joined by (simp add: demo_view_def)
  then obtain c where "c \<in> set (cw_carts demo_two_joined)" "ca_id c = ''xx''" "ca_deleteAt c = None" by auto
  ultimately show thesis
    by (intro that) (auto simp: active_session_def ACTIVE_HALL_TABLE_SESSION_STATUSES_def)
qed

lemma demo_table:
  obtains item data key where "table_by_code demo_hall ''c'' ''q'' = Inr (item, data, key)" "xi_externalId item = ''t''"
proof -
  have "map_sum id (\<lambda>(x, _, key). xi_externalId x) (table_by_code demo_hall ''c'' ''q'') = Inr ''t''" by code_simp
  then show thesis using that by (cases "table_by_code demo_hall ''c'' ''q''") auto
qed


section \<open>Properties\<close>

text \<open>As long as calls do not interleave, the active sessions of a table are one row, which has the key of the table.\<close>

lemma one_active_session_of_calls:
  assumes "history (run_hall slug) hall_call_ok w t" "hall_good old w"
    and "a \<in> set (cw_sessions t)" "b \<in> set (cw_sessions t)" "active_session a" "active_session b"
    and "ts_catalogId a = ts_catalogId b" "trim (ts_tableExternalId a) = trim (ts_tableExternalId b)"
  shows "a = b \<and> ts_activeKey a = Some (buildHallTableActiveKey (ts_catalogId a) (trim (ts_tableExternalId a)))"
proof -
  have ok: "hall_ok t" using halls.history_invar [OF assms(1,2)] by (simp add: hall_good_def)
  have "session_key b = session_key a" using assms(7,8) by (simp add: session_key_def)
  with active_key [OF ok assms(3,5)] active_key [OF ok assms(4,6)] key_unique [OF ok assms(3,4)]
  show ?thesis by (simp add: session_key_def)
qed






text \<open>
  C34. Guests of a table share its cart: while the table has an active session, whoever joins by the
  code of the table gets this session and its cart, and no cart or session is created.
\<close>

theorem guests_share_the_cart:
  assumes "history (run_hall slug) hall_call_ok w t" "hall_good old w"
    and "a \<in> set (cw_sessions t)" "active_session a" "ts_deleteAt a = None"
    and "c \<in> set (cw_carts t)" "ca_id c = ts_cartId a" "ca_deleteAt c = None"
    and "table_by_code env (ts_catalogId a) code = Inr (item, data, key)"
    and "trim (xi_externalId item) = trim (ts_tableExternalId a)"
    and "joinHallTableSession rq env keys guestBytes nonce (ts_catalogId a) code input t = Some (Inr r, t')"
  shows "ts_id (jr_session r) = ts_id a \<and> ca_id (jr_cart r) = ts_cartId a \<and> cw_carts t' = cw_carts t \<and>
     map ts_id (cw_sessions t') = map ts_id (cw_sessions t)"
proof -
  have ok: "hall_ok t" using halls.history_invar [OF assms(1,2)] by (simp add: hall_good_def)
  have "key = session_key a" using table_key [OF assms(9)] assms(10) by (simp add: session_key_def)
  then have "findActiveHallTableSession key t = Some a" using active_found [OF ok assms(3-8)] by simp
  with assms(9,11) have "join_table rq env keys guestBytes nonce (Some a) (ts_catalogId a) item data key input t = Some (Inr r, t')"
    by (simp add: joinHallTableSession_def)
  then have admit: "admit_guest rq env guestBytes nonce (ts_catalogId a) (ji_guestToken input) a t' = Inr r"
    and t': "t' = t \<or> updateHallTableSessionGuests (ts_id a) (ji_guestsCount input) t = Inr t'"
    by (auto simp: join_table_def getOrCreateHallTableSession_def andS_def reading_def writing_def split: if_splits sum.splits)
  have same: "cw_carts t' = cw_carts t" "map ts_id (cw_sessions t') = map ts_id (cw_sessions t)"
    "map ts_cartId (cw_sessions t') = map ts_cartId (cw_sessions t)"
    using t' guests_step by blast+
  note session = admit_guest_Inr(2) [OF admit]
  have id: "ca_id (jr_cart r) = ts_cartId a"
    using admit_guest_Inr(1) [OF admit] by (auto simp: lookup_findByIdOrThrow_def find_Some_iff)
  have "map (\<lambda>t. (ts_cartId t, ts_id t)) (cw_sessions t') = map (\<lambda>t. (ts_cartId t, ts_id t)) (cw_sessions t)"
    using same(2,3) by (simp add: list_eq_iff_nth_eq)
  then have pairs: "(\<lambda>t. (ts_cartId t, ts_id t)) ` set (cw_sessions t') = (\<lambda>t. (ts_cartId t, ts_id t)) ` set (cw_sessions t)"
    by (metis list.set_map)
  from session id have "jr_session r \<in> set (cw_sessions t')" "ts_cartId (jr_session r) = ts_cartId a"
    by (auto simp: session_of_def find_Some_iff)
  then have "(ts_cartId a, ts_id (jr_session r)) \<in> (\<lambda>t. (ts_cartId t, ts_id t)) ` set (cw_sessions t')"
    by (intro image_eqI [of _ _ "jr_session r"]) simp_all
  then obtain u where "u \<in> set (cw_sessions t)" "ts_cartId u = ts_cartId a" "ts_id u = ts_id (jr_session r)"
    unfolding pairs by auto
  moreover have "inj_on ts_cartId (set (cw_sessions t))" using ok by (simp add: hall_ok_def distinct_map)
  ultimately have "ts_id (jr_session r) = ts_id a" using assms(3) by (metis inj_onD)
  with id same show ?thesis by blast
qed

theorem guests_share_the_cart_witness:
  "\<exists>r t'. demo_third demo_two_joined = Some (Inr r, t') \<and> ca_id (jr_cart r) = ''xx'' \<and>
     map ca_id (cw_carts t') = map ca_id (cw_carts demo_two_joined)"
proof -
  obtain a c where a: "cw_sessions demo_two_joined = [a]" "active_session a" "ts_catalogId a = ''c''" "ts_tableExternalId a = ''t''"
      "ts_deleteAt a = None" "ts_cartId a = ''xx''"
    and c: "c \<in> set (cw_carts demo_two_joined)" "ca_id c = ''xx''" "ca_deleteAt c = None"
    by (rule demo_sessions)
  obtain item data key where item: "table_by_code demo_hall ''c'' ''q'' = Inr (item, data, key)" "xi_externalId item = ''t''"
    by (rule demo_table)
  have "case demo_third demo_two_joined of Some (Inr _, _) \<Rightarrow> True | _ \<Rightarrow> False"
    using demo_joined by (simp only: demo_view_def prod.inject simp_thms)
  then obtain r t' where third: "demo_third demo_two_joined = Some (Inr r, t')" by (auto split: option.splits sum.splits)
  from a have "a \<in> set (cw_sessions demo_two_joined)" by simp
  note share = guests_share_the_cart [OF demo_history demo_hall_good this a(2,5) c(1) _ c(3), unfolded a(3,4,6), OF c(2) item(1)]
  have "ca_id (jr_cart r) = ''xx'' \<and> cw_carts t' = cw_carts demo_two_joined"
    using share [OF _ third [unfolded demo_third_def]] item(2) by simp
  with third show ?thesis by simp
qed

end
