(* ===== verification/Spec2Isabelle.thy ===== *)
theory Spec2Isabelle
  imports Inventory_Properties Warehouse_Codes Cart_Input Cart_Properties Price_List_Properties
    Checkout_Properties Hall_Properties
begin

text \<open>
  A verification library for the core of the commerce backend under \<^verbatim>\<open>src/src\<close>: stock, domain
  events, capabilities, prices, carts and checkout.

  \<^bold>\<open>The program.\<close>  A catalog sells product variants.  The internal inventory keeps balances per
  warehouse and variant, reserves stock for carts, releases it and consumes it when an order is
  completed.  Every change of the shown stock is written as a domain event to an outbox in the same
  transaction; a dispatcher delivers outbox rows to an in-process bus, whose handler raises cache
  versions.  Capabilities (paid features with an expiry day and dependencies) guard the inventory.  A
  customer's cart is found by a token in a cookie, shared with a manager by a public key, worked on by
  one manager at a time, and ends converted to an order, cancelled, expired or deleted.  A line is added by
  resolving the request to a variant, a sale unit and modifiers that the product offers, at the price of
  the buyer's price list where there is one; lines are merged and priced when the cart is shown, and priced
  again when the order is made.  The guests of a restaurant table share one cart: a table session opened by
  the code on the table, with a signed token for each guest, until the table's order is confirmed or closed.

  \<^bold>\<open>Theories and sources.\<close>
  \<^item> Prelude: tables as lists, JavaScript maps and sets, computations that throw, the loop rules,
    and the locale \<open>transactional\<close> of components whose operations commit or roll back.
  \<^item> Inventory_Schema (\<^verbatim>\<open>prisma/schema/inventory.prisma\<close>, \<^verbatim>\<open>inventory.constants.ts\<close>),
    Inventory_Repository and Inventory_Consume (\<^verbatim>\<open>inventory.repository.ts\<close>: adjustment, reservation,
    release, expiry, consumption, read model), Inventory_Warehouses (warehouse operations).
    Inventory_Invariant, Inventory_Stock, Inventory_Reserve, Inventory_Sale and Inventory_Safety hold the
    accounting proofs, Inventory_Read_Model, Stock_Tracking and Stock_Reporting the relation between
    balances, shown stock and reported changes.  Properties: Inventory_Properties (C1 to C8),
    Warehouse_Properties (C19, C22).
  \<^item> Domain_Events (\<^verbatim>\<open>shared/domain-events\<close>: event union, keys, bus), Outbox (table and dispatcher),
    Cache_Invalidation (\<^verbatim>\<open>cache.service.ts\<close> versions and the handler), Outbox_Delivery and
    Outbox_Properties (proofs), Event_Properties (C9 to C11, C13, C15).
  \<^item> Capability (\<^verbatim>\<open>modules/capability\<close>, \<^verbatim>\<open>inclusive-expiry.ts\<close>).
  \<^item> Inventory_Service (\<^verbatim>\<open>inventory.service.ts\<close> over the components above), Service_Properties
    (C23, C24), Warehouse_Codes (C26).
  \<^item> Js_Double (IEEE doubles as rounded rationals), Price_Resolver
    (\<^verbatim>\<open>shared/order/price-resolver.utils.ts\<close>), Cart_Utils (\<^verbatim>\<open>cart.utils.ts\<close>), Cart_Cookie
    (the token cookie; C29), Cart_Pricing (C30, C32), Cart_Input.
  \<^item> Cart_Schema (\<^verbatim>\<open>cart.prisma\<close>, \<^verbatim>\<open>cart-lookup.service.ts\<close>, \<^verbatim>\<open>cart-current.service.ts\<close>),
    Product_Schema (products, variants, sale units, modifiers, price lists), Cart_Snapshot
    (\<^verbatim>\<open>cart-order-snapshot.service.ts\<close>), Cart_Lifecycle (\<^verbatim>\<open>cart-share\<close>,
    \<^verbatim>\<open>cart-manager-session\<close>, \<^verbatim>\<open>cart-lifecycle\<close>, \<^verbatim>\<open>cart-inventory-reservation\<close> and
    \<^verbatim>\<open>order-checkout.service.ts\<close>).  Cart_Stock (which carts hold stock), Cart_Invariant and
    Cart_Machine (the calls as one state machine), Cart_Life (the abstract life cycle and the simulation),
    Cart_Demo (an example), Cart_Properties (C35 to C40).
  \<^item> Product_Sellable (\<^verbatim>\<open>product-sellable.service.ts\<close>, \<^verbatim>\<open>catalog-price-list-resolver.service.ts\<close>: what a
    buyer sees of a product, and the readers the cart calls), Product_Repair
    (\<^verbatim>\<open>repairMissingDefaultVariantForProduct\<close> and what it calls in \<^verbatim>\<open>product-variant.service.ts\<close> and
    \<^verbatim>\<open>product.repository.ts\<close>), Cart_Lines (\<^verbatim>\<open>cart-line.service.ts\<close> with its variant, modifier and
    pricing services).  Cart_Line_Invariant (a line change keeps the invariant), Cart_Limits (the number of
    lines), Cart_Line_Facts (the effect on one line), Cart_Line_Properties (C31, C33), Product_Contract (what
    the readers promise; C28), Cart_Line_Stock (what a committed line rests on; C14, C18, C21).
  \<^item> Price_Lists (\<^verbatim>\<open>catalog-price-list.service.ts\<close> and its repository), Price_List_Properties (the price
    desk as a state machine and its effect on the cart; C17, C20).
  \<^item> Catalog_Checkout (\<^verbatim>\<open>catalog-checkout.ts\<close> and \<^verbatim>\<open>resolveCheckoutSnapshot\<close>), Checkout_Properties (C16, C27),
    Hall_Tokens (the guest tokens of \<^verbatim>\<open>cart.service.ts\<close>; C25), Hall_Tables (the rest of \<^verbatim>\<open>cart.service.ts\<close>:
    joining a table, lines of customers and guests, hall orders), Hall_Invariant (these calls and the calls of
    the cart services as one state machine), Hall_Commits (their single commits as a state machine, of which each
    call is a run), Hall_Properties (C12, C34).

  \<^bold>\<open>State and effects.\<close>  A table is a list of records with the columns the code reads or writes.  A
  transaction returns the new tables or an error; on an error the caller keeps the old tables.  A
  method that commits more than once returns its outcome beside the state it leaves.  What a method
  reads before its commits is an argument of the definitions of these commits where the code writes
  by identifier only, so that interleavings can be stated: of a manager's call and a checkout (C38), and of all
  commits that write the session of a table (C12, over the machine of Hall_Commits).  The machines of
  whole calls (Cart_Machine, Hall_Invariant) run the commits of a call with no other call in between, except
  that a guest who joins may have looked for the table's session at any time before.  The clock, identifiers and
  random bytes are arguments.

  \<^bold>\<open>What the lemmas show.\<close>  Stock: on hand, reserved and available always agree with the ledger and
  with the active reservations, stock is never oversold, each operation changes exactly what it says,
  a second completion of an order changes nothing.  Events: none is lost or handled twice by the bus,
  due rows are handed to the bus and settled by the results of its handlers, a drain empties the backlog when the handlers are reliable.  Guards: a
  capability is usable exactly when it and its dependencies are entitled; without it the stock does not
  change.  Prices: never negative, never above the base price, frozen by a snapshot; merging keeps
  quantities.  Lines: a committed upsert leaves exactly the requested line, well typed and in stock, a cart
  never has more lines than the limit, a price shown under a price list is the one charged, a price set at the
  price desk, of a product, a variant or a sale unit, is the list price of the lines with this target and, less
  the discount of the product, their unit price, the price tables stay well formed, and a product
  without variants cannot be added while its repair is invisible to the reader.  Checkout: accepted data is
  complete for its method and reads back as itself.  Tables: a guest token opens its own table session only, a
  table has at most one open session however the commits of its calls interleave, and the guests share its cart.  Carts: a dead cart holds no stock, the calls refine the life cycle, a cart is sold once
  and exactly as the order says, a manager's cart is locked for others.

  \<^bold>\<open>Interfaces.\<close>  \<open>transactional\<close> is interpreted for the repository, the outbox, the inventory service,
  the cart services, the hall tables and the price desk; \<open>stock_reporting\<close> (a stock operation whose reported changes are the changes
  of the shown stock) for reservation, release and consumption; \<open>stock_reader\<close> (an available variant is in
  stock) for the readers of the product side; \<open>call_steps\<close> (a relation that the commits of the cart service
  respect) for the invariant of whole calls and for the runs of single commits.

  \<^bold>\<open>Bounds and fuel.\<close>  \<open>fl\<close> searches the binade of a number with 2100 steps, more than the 2098
  exponents of a double.  The generated warehouse code is searched among the fifty candidates of the
  source; C26 shows that they are enough for fewer than fifty warehouses.  The loops that draw a
  token, a public key or an unused SKU have no bound in the source and are partial functions into
  \<open>option\<close>; the search for a SKU is shown to end.

  \<^bold>\<open>Not modelled.\<close>  HTTP controllers, guards and DTO validation by decorators; paginated listings,
  statistics and metrics, which only read; JSON cache entries; media, object storage and image
  processing; the integrations with external systems (MoySklad, iiko, 1C) and the order export queue
  (what it answers is an argument); the broadcasts, timers and the table listing of the cart service;
  administration, seed and legacy migration scripts; of the product module everything but the readers and
  the repair that the cart calls, of the catalog module everything but the checkout; the category module.
\<close>

end
